(* ===== verification/Prelude.thy ===== *)
theory Prelude
  imports Main "HOL-Library.Word" "HOL-Library.AList" "HOL-Library.Multiset"
begin

unbundle bit_operations_syntax

text \<open>
  Shared vocabulary of the development.

  \<^item> the byte and word types, and the big-endian renderings the client writes into associated
    data, skipped-key names and persisted blobs;
  \<^item> the locale \<open>byte_codec\<close>: a writer together with a reader that consumes exactly what was
    written and hands the rest back, closed under pairs and under counted sequences, with its
    interpretations for \<open>quint32\<close>, \<open>qint64\<close>, raw blocks and length-prefixed byte arrays of the
    client's data streams;
  \<^item> the locale \<open>kv_store\<close>: what the client relies on from its hash tables and ordered maps, with
    the interpretations for the two association-list representations used by the models.
\<close>

named_theorems box_simps
  "unfolding rules for the state-passing operations of the models"
named_theorems size_simps
  "lengths of rendered or derived byte strings"

type_synonym byte = "8 word"
type_synonym bytes = "byte list"
type_synonym u32 = "32 word"
type_synonym qstring = string

text \<open>ASCII and Latin-1 text as bytes, one byte per character.\<close>

definition latin1 :: "string \<Rightarrow> bytes" where
  "latin1 s = map (\<lambda>c. of_nat (of_char c)) s"

definition of_latin1 :: "bytes \<Rightarrow> string" where
  "of_latin1 b = map (\<lambda>w. char_of (unat w)) b"

lemma of_latin1_latin1 [simp]: "of_latin1 (latin1 s) = s"
proof -
  have "char_of (unat (of_nat (of_char c) :: byte)) = c" for c :: char
  proof -
    have "unat (of_nat (of_char c) :: byte) = (of_char c :: nat)"
      using of_char_mod_256 [of c, where ?'a = nat] by (simp add: unat_of_nat)
    then show ?thesis by simp
  qed
  then show ?thesis by (simp add: latin1_def of_latin1_def comp_def)
qed

lemma latin1_length [simp, size_simps]: "length (latin1 s) = length s"
  by (simp add: latin1_def)

section \<open>Big-endian words\<close>

definition be32 :: "u32 \<Rightarrow> bytes" where
  "be32 w = [ucast (drop_bit 24 w), ucast (drop_bit 16 w), ucast (drop_bit 8 w), ucast w]"

fun rd32 :: "bytes \<Rightarrow> (u32 \<times> bytes) option" where
  "rd32 (a # b # c # d # rest) =
     Some (push_bit 24 (ucast a) OR push_bit 16 (ucast b) OR push_bit 8 (ucast c) OR ucast d, rest)"
| "rd32 _ = None"

definition be64 :: "int \<Rightarrow> bytes" where
  "be64 t = (let w = (word_of_int t :: 64 word)
             in be32 (ucast (drop_bit 32 w)) @ be32 (ucast w))"

definition rd64 :: "bytes \<Rightarrow> (int \<times> bytes) option" where
  "rd64 bs = (case rd32 bs of None \<Rightarrow> None
     | Some (hi, r) \<Rightarrow> (case rd32 r of None \<Rightarrow> None
         | Some (lo, r') \<Rightarrow>
             Some (sint (push_bit 32 (ucast hi) OR ucast lo :: 64 word), r')))"

definition i64_range :: "int \<Rightarrow> bool" where
  "i64_range t \<longleftrightarrow> - (2 ^ 63) \<le> t \<and> t < 2 ^ 63"

definition rd_raw :: "nat \<Rightarrow> bytes \<Rightarrow> (bytes \<times> bytes) option" where
  "rd_raw n bs = (if length bs < n then None else Some (take n bs, drop n bs))"

text \<open>A byte array on a data stream: a null array is the marker word, any other array is its
  length followed by its bytes.\<close>

definition wr_qba :: "bytes \<Rightarrow> bytes" where
  "wr_qba b = (if b = [] then be32 0xFFFFFFFF else be32 (of_nat (length b)) @ b)"

definition rd_qba :: "bytes \<Rightarrow> (bytes \<times> bytes) option" where
  "rd_qba bs = (case rd32 bs of None \<Rightarrow> None
     | Some (n, r) \<Rightarrow> if n = 0xFFFFFFFF then Some ([], r) else rd_raw (unat n) r)"

definition qba_ok :: "bytes \<Rightarrow> bool" where
  "qba_ok b \<longleftrightarrow> length b < 2 ^ 32 - 1"

definition rd8 :: "bytes \<Rightarrow> (byte \<times> bytes) option" where
  "rd8 bs = (case bs of [] \<Rightarrow> None | b # r \<Rightarrow> Some (b, r))"

definition wr_bool :: "bool \<Rightarrow> bytes" where
  "wr_bool b = [if b then 1 else 0]"

definition rd_bool :: "bytes \<Rightarrow> (bool \<times> bytes) option" where
  "rd_bool bs = map_option (\<lambda>(b, r). (b \<noteq> 0, r)) (rd8 bs)"

fun read_many :: "(bytes \<Rightarrow> ('a \<times> bytes) option) \<Rightarrow> nat \<Rightarrow> bytes \<Rightarrow> ('a list \<times> bytes) option" where
  "read_many rd 0 bs = Some ([], bs)"
| "read_many rd (Suc n) bs =
     (case rd bs of None \<Rightarrow> None
      | Some (x, r) \<Rightarrow> map_option (\<lambda>(xs, r'). (x # xs, r')) (read_many rd n r))"

definition wr_pair :: "('a \<Rightarrow> bytes) \<Rightarrow> ('b \<Rightarrow> bytes) \<Rightarrow> 'a \<times> 'b \<Rightarrow> bytes" where
  "wr_pair f g p = f (fst p) @ g (snd p)"

definition rd_pair ::
  "(bytes \<Rightarrow> ('a \<times> bytes) option) \<Rightarrow> (bytes \<Rightarrow> ('b \<times> bytes) option) \<Rightarrow>
   bytes \<Rightarrow> (('a \<times> 'b) \<times> bytes) option" where
  "rd_pair f g bs = (case f bs of None \<Rightarrow> None
     | Some (x, r) \<Rightarrow> map_option (\<lambda>(y, r'). ((x, y), r')) (g r))"

lemma unat_suc_below:
  fixes x y :: "'a::len word"
  assumes "x < y"
  shows "unat (x + 1) = unat x + 1"
proof -
  have "unat x + unat (1 :: 'a word) < 2 ^ LENGTH('a)"
    using assms unsigned_less [of y, where ?'a = nat]
    by (simp add: word_less_nat_alt less_le_trans Suc_le_eq [symmetric] del: unsigned_less)
  then show ?thesis by (simp add: unat_add_lem [THEN iffD1])
qed

section \<open>Codecs\<close>

locale byte_codec =
  fixes enc :: "'a \<Rightarrow> bytes"
    and dec :: "bytes \<Rightarrow> ('a \<times> bytes) option"
    and valid :: "'a \<Rightarrow> bool"
  assumes dec_enc: "valid x \<Longrightarrow> dec (enc x @ rest) = Some (x, rest)"
begin

lemma enc_prefix_inj:
  assumes "valid x" "valid y" "enc x @ r = enc y @ s"
  shows "x = y \<and> r = s"
proof -
  have "Some (x, r) = dec (enc x @ r)" by (rule dec_enc [OF assms(1), symmetric])
  also have "\<dots> = dec (enc y @ s)" by (rule arg_cong [OF assms(3)])
  also have "\<dots> = Some (y, s)" by (rule dec_enc [OF assms(2)])
  finally show ?thesis by blast
qed

lemma enc_inj: "valid x \<Longrightarrow> valid y \<Longrightarrow> enc x = enc y \<Longrightarrow> x = y"
  using enc_prefix_inj [of x y "[]" "[]"] by simp

lemma dec_enc_end: "valid x \<Longrightarrow> dec (enc x) = Some (x, [])"
  using dec_enc [of x "[]"] by simp

lemma read_many_enc:
  "\<forall>x \<in> set xs. valid x \<Longrightarrow>
   read_many dec (length xs) (concat (map enc xs) @ rest) = Some (xs, rest)"
  by (induction xs) (auto simp: dec_enc)

end

locale codec_pair = l: byte_codec enca deca valida + r: byte_codec encb decb validb
  for enca :: "'a \<Rightarrow> bytes" and deca valida
    and encb :: "'b \<Rightarrow> bytes" and decb validb
begin

sublocale both: byte_codec "wr_pair enca encb" "rd_pair deca decb"
  "\<lambda>p. valida (fst p) \<and> validb (snd p)"
  by unfold_locales (auto simp: wr_pair_def rd_pair_def l.dec_enc r.dec_enc)

end

lemma be32_length [simp, size_simps]: "length (be32 w) = 4"
  by (simp add: be32_def)

lemma be64_length [simp, size_simps]: "length (be64 t) = 8"
  by (simp add: be64_def Let_def)

lemma join_bytes32:
  "push_bit 24 (ucast (ucast (drop_bit 24 w) :: byte)) OR
   push_bit 16 (ucast (ucast (drop_bit 16 w) :: byte)) OR
   push_bit 8 (ucast (ucast (drop_bit 8 w) :: byte)) OR ucast (ucast w :: byte) = (w :: u32)"
proof (rule bit_word_eqI)
  fix n assume "n < LENGTH(32)"
  then consider "n < 8" | "8 \<le> n" "n < 16" | "16 \<le> n" "n < 24" | "24 \<le> n" "n < 32"
    by force
  then show "bit (push_bit 24 (ucast (ucast (drop_bit 24 w) :: byte)) OR
     push_bit 16 (ucast (ucast (drop_bit 16 w) :: byte)) OR
     push_bit 8 (ucast (ucast (drop_bit 8 w) :: byte)) OR ucast (ucast w :: byte) :: u32) n = bit w n"
    by cases (auto simp: bit_simps)
qed

lemma join_words64:
  "push_bit 32 (ucast (ucast (drop_bit 32 w) :: u32)) OR ucast (ucast w :: u32) = (w :: 64 word)"
  by (rule bit_word_eqI) (auto simp: bit_simps not_le)

lemma rd32_be32 [simp]: "rd32 (be32 w @ rest) = Some (w, rest)"
  by (simp add: be32_def join_bytes32)

lemma rd32_be32_end [simp]: "rd32 (be32 w) = Some (w, [])"
  using rd32_be32 [of w "[]"] by simp

lemma sint_i64: "i64_range t \<Longrightarrow> sint (word_of_int t :: 64 word) = t"
proof -
  assume "i64_range t"
  then have "signed_take_bit 63 t = t"
    by (intro signed_take_bit_int_eq_self) (simp_all add: i64_range_def)
  then show ?thesis by (simp add: signed_of_int)
qed

lemma rd64_be64 [simp]: "i64_range t \<Longrightarrow> rd64 (be64 t @ rest) = Some (t, rest)"
  by (simp add: be64_def rd64_def Let_def join_words64 sint_i64)

lemma wr_bool_length [simp, size_simps]: "length (wr_bool b) = 1"
  by (simp add: wr_bool_def)

interpretation c32: byte_codec be32 rd32 "\<lambda>_. True"
  by unfold_locales simp

interpretation c64: byte_codec be64 rd64 i64_range
  by unfold_locales simp

interpretation craw: byte_codec "\<lambda>b. b" "rd_raw n" "\<lambda>b. length b = n" for n
  by unfold_locales (simp add: rd_raw_def)

interpretation cbool: byte_codec wr_bool rd_bool "\<lambda>_. True"
  by unfold_locales (simp add: wr_bool_def rd_bool_def rd8_def)

interpretation cqba: byte_codec wr_qba rd_qba qba_ok
proof
  fix b rest assume b: "qba_ok b"
  show "rd_qba (wr_qba b @ rest) = Some (b, rest)"
  proof (cases "b = []")
    case True
    then show ?thesis by (simp add: wr_qba_def rd_qba_def)
  next
    case False
    from b have len: "unat (of_nat (length b) :: u32) = length b"
      by (simp add: qba_ok_def unat_of_nat)
    moreover have "(of_nat (length b) :: u32) \<noteq> 0xFFFFFFFF"
    proof
      assume "(of_nat (length b) :: u32) = 0xFFFFFFFF"
      then have "unat (of_nat (length b) :: u32) = unat (0xFFFFFFFF :: u32)" by simp
      with len b show False by (simp add: qba_ok_def)
    qed
    ultimately show ?thesis using False
      by (simp add: wr_qba_def rd_qba_def craw.dec_enc)
  qed
qed

interpretation cq2: codec_pair wr_qba rd_qba qba_ok wr_qba rd_qba qba_ok ..

interpretation copk: codec_pair be32 rd32 "\<lambda>_. True" "\<lambda>b. b" "rd_raw 32" "\<lambda>b. length b = 32" ..

section \<open>Hash tables and ordered maps\<close>

text \<open>
  A hash table is an association list with distinct keys. The order in which a table is iterated
  is not part of this representation: the operations that iterate one receive the order as a
  parameter. An ordered map is an association list sorted by key, and is iterated in that order.
\<close>

fun qmap_insert :: "('k::linorder) \<Rightarrow> 'v \<Rightarrow> ('k \<times> 'v) list \<Rightarrow> ('k \<times> 'v) list" where
  "qmap_insert k v [] = [(k, v)]"
| "qmap_insert k v (p # ps) =
     (if fst p < k then p # qmap_insert k v ps
      else if fst p = k then (k, v) # ps
      else (k, v) # p # ps)"

definition qmap_ok :: "(('k::linorder) \<times> 'v) list \<Rightarrow> bool" where
  "qmap_ok ps \<longleftrightarrow> sorted_wrt (<) (map fst ps)"

definition hash_ok :: "('k \<times> 'v) list \<Rightarrow> bool" where
  "hash_ok ps \<longleftrightarrow> distinct (map fst ps)"

locale kv_store =
  fixes empty :: 's
    and find :: "'s \<Rightarrow> 'k \<Rightarrow> 'v option"
    and insert :: "'k \<Rightarrow> 'v \<Rightarrow> 's \<Rightarrow> 's"
    and erase :: "'k \<Rightarrow> 's \<Rightarrow> 's"
    and ok :: "'s \<Rightarrow> bool"
  assumes find_empty: "find empty k = None"
    and find_insert: "ok s \<Longrightarrow> find (insert k v s) j = (if j = k then Some v else find s j)"
    and find_erase: "ok s \<Longrightarrow> find (erase k s) j = (if j = k then None else find s j)"
    and ok_empty: "ok empty"
    and ok_insert: "ok s \<Longrightarrow> ok (insert k v s)"
    and ok_erase: "ok s \<Longrightarrow> ok (erase k s)"
begin

lemma ok_fold_insert: "ok s \<Longrightarrow> ok (fold (\<lambda>(k, v). insert k v) kvs s)"
  by (induction kvs arbitrary: s) (auto simp: ok_insert)

lemma find_fold_insert:
  "ok s \<Longrightarrow> find (fold (\<lambda>(k, v). insert k v) kvs s) j =
     (case map_of (rev kvs) j of None \<Rightarrow> find s j | Some v \<Rightarrow> Some v)"
  by (induction kvs arbitrary: s)
    (auto simp: ok_insert find_insert map_add_def split: option.splits)

text \<open>A key taken out once is gone: taking it again finds nothing, every other key is as before.\<close>

lemma erase_once: "ok s \<Longrightarrow> find (erase k s) k = None"
  by (simp add: find_erase)

lemma erase_insert_restores:
  "ok s \<Longrightarrow> find s k = Some v \<Longrightarrow> find (insert k v (erase k s)) j = find s j"
  by (simp add: ok_erase find_insert find_erase)

end

lemma qmap_ok_Cons: "qmap_ok (p # ps) \<longleftrightarrow> (\<forall>q \<in> set ps. fst p < fst q) \<and> qmap_ok ps"
  by (auto simp: qmap_ok_def)

lemma qmap_insert_keys: "fst ` set (qmap_insert k v ps) = Set.insert k (fst ` set ps)"
  by (induction ps) auto

lemma qmap_ok_insert: "qmap_ok ps \<Longrightarrow> qmap_ok (qmap_insert k v ps)"
proof (induction ps)
  case (Cons p ps)
  have "\<forall>q \<in> set (qmap_insert k v ps). fst q = k \<or> fst q \<in> fst ` set ps"
    using qmap_insert_keys [of k v ps] by blast
  with Cons show ?case by (fastforce simp: qmap_ok_Cons)
qed (simp add: qmap_ok_def)

lemma qmap_find_insert:
  "qmap_ok ps \<Longrightarrow> map_of (qmap_insert k v ps) j = (if j = k then Some v else map_of ps j)"
  by (induction ps) (auto simp: qmap_ok_Cons)

lemma qmap_ok_delete: "qmap_ok ps \<Longrightarrow> qmap_ok (AList.delete k ps)"
  by (induction ps) (auto simp: qmap_ok_Cons AList.delete_eq)

interpretation qmap: kv_store "[]" map_of qmap_insert AList.delete qmap_ok
  by unfold_locales
    (auto simp: qmap_find_insert qmap_ok_insert qmap_ok_delete AList.delete_conv',
      simp add: qmap_ok_def)

interpretation qhash: kv_store "[]" map_of AList.update AList.delete hash_ok
  by unfold_locales
    (auto simp: AList.update_conv' AList.delete_conv' hash_ok_def AList.distinct_update
      AList.distinct_delete)

lemma hash_update_length: "length (AList.update k v ps) \<le> Suc (length ps)"
  by (induction ps) auto

lemma hash_fold_update_distinct:
  "distinct (map fst (xs @ ys)) \<Longrightarrow> fold (\<lambda>(k, v). AList.update k v) ys xs = xs @ ys"
proof (induction ys arbitrary: xs)
  case (Cons y ys)
  obtain k v where y: "y = (k, v)" by (cases y)
  have "AList.update k v xs = xs @ [(k, v)]"
    using Cons.prems unfolding y by (induction xs) auto
  with Cons y show ?case by simp
qed simp

lemma mset_distinct_map_of:
  assumes "mset xs = mset ys" "distinct (map fst xs)"
  shows "map_of xs = map_of ys"
proof (rule map_of_eqI)
  show "set (map fst xs) = set (map fst ys)"
    using mset_eq_setD [OF assms(1)] by simp
next
  have d: "distinct (map fst ys)"
    using assms by (metis mset_eq_imp_distinct_iff mset_map)
  show "\<forall>k \<in> set (map fst xs). map_of xs k = map_of ys k"
    using assms(2) d mset_eq_setD [OF assms(1)]
    by (metis map_of_eq_Some_iff option.exhaust)
qed

end
