(* ===== verification/Hex.thy ===== *)
theory Hex
  imports Prelude
begin

text \<open>
  The hexadecimal helpers of \<^verbatim>\<open>client/src/x3dh.cpp\<close>: \<open>fromHex\<close> refuses an odd length or a character
  that is no digit by returning no bytes at all, \<open>toHex\<close> writes two lower-case digits per byte.
  \<open>toHex\<close> is also the rendering the Qt side uses for every key, nonce and ciphertext on the wire.
\<close>

definition nib :: "char \<Rightarrow> int" where
  "nib c = (let v = of_char c :: int in
     if 48 \<le> v \<and> v \<le> 57 then v - 48
     else if 97 \<le> v \<and> v \<le> 102 then v - 97 + 10
     else if 65 \<le> v \<and> v \<le> 70 then v - 65 + 10
     else - 1)"

fun fromHexLoop :: "string \<Rightarrow> bytes \<Rightarrow> bytes" where
  "fromHexLoop (h # l # rest) out =
     (if nib h < 0 \<or> nib l < 0 then []
      else fromHexLoop rest (out @ [word_of_int (push_bit 4 (nib h) OR nib l)]))"
| "fromHexLoop _ out = out"

definition fromHex :: "string \<Rightarrow> bytes" where
  "fromHex hex = (if length hex mod 2 \<noteq> 0 then [] else fromHexLoop hex [])"

definition hexDigits :: string where
  "hexDigits = ''0123456789abcdef''"

definition toHex :: "bytes \<Rightarrow> string" where
  "toHex b = concat (map (\<lambda>c. [hexDigits ! unat (drop_bit 4 c), hexDigits ! unat (c AND 15)]) b)"

lemma nib_hexDigits_all: "\<forall>n \<in> set [0..<16]. nib (hexDigits ! n) = int n"
  by code_simp

lemma nib_hexDigits: "n < 16 \<Longrightarrow> nib (hexDigits ! n) = int n"
  using nib_hexDigits_all by simp

lemma high_nibble_small: "unat (drop_bit 4 (c :: byte)) < 16"
proof -
  have "unat c < 256" using unsigned_less [of c, where ?'a = nat] by simp
  then show ?thesis by (simp add: drop_bit_eq_div unat_div_distrib)
qed

lemma and_15_take_bit: "(c :: byte) AND 15 = take_bit 4 c"
  by (simp add: take_bit_eq_mask mask_numeral)

lemma low_nibble_small: "unat ((c :: byte) AND 15) < 16"
  using take_bit_nat_less_exp [of 4 "unat c"]
  by (simp add: and_15_take_bit unsigned_take_bit_eq)

lemma join_nibbles:
  "push_bit 4 (uint (drop_bit 4 (c :: byte))) OR uint (c AND 15) = uint c"
proof -
  have "push_bit 4 (uint (drop_bit 4 c)) OR uint (take_bit 4 c) = uint c"
  proof (rule bit_eqI)
    fix n
    show "bit (push_bit 4 (uint (drop_bit 4 c)) OR uint (take_bit 4 c)) n = bit (uint c) n"
      by (cases "n < 4") (auto simp: bit_simps dest: bit_imp_le_length)
  qed
  then show ?thesis by (simp add: and_15_take_bit)
qed

lemma fromHexLoop_toHex: "fromHexLoop (toHex b) out = out @ b"
  by (induction b arbitrary: out)
    (simp_all add: toHex_def nib_hexDigits high_nibble_small low_nibble_small join_nibbles)

lemma toHex_length [simp, size_simps]: "length (toHex b) = 2 * length b"
  by (induction b) (auto simp: toHex_def)

lemma fromHex_toHex [simp]: "fromHex (toHex b) = b"
  by (simp add: fromHex_def fromHexLoop_toHex)

lemma toHex_inj: "toHex a = toHex b \<longleftrightarrow> a = b"
  by (metis fromHex_toHex)

lemma toHex_Nil [simp]: "toHex [] = []"
  by (simp add: toHex_def)

end
