(* ===== verification/External.thy ===== *)
theory External
  imports Hex
begin

text \<open>
  What the client calls but does not implement: libsodium, SHA-256 from \<^verbatim>\<open>QCryptographicHash\<close>,
  the text codecs of Qt and the iteration order of a hash table. They are the fields of one record,
  which every model that needs them takes as its first argument. Random bytes are never a field:
  each operation receives the bytes it would draw as arguments.

  The facts about these functions that some theorems rely on are the predicates below, each a
  documented behaviour of the library. They are satisfied together by the small instance
  \<open>demo\<close> at the end of the theory, which the witnesses use.
\<close>

record external =
  hmacsha256 :: "bytes \<Rightarrow> bytes \<Rightarrow> bytes" \<comment> \<open>key, message\<close>
  scalarmult :: "bytes \<Rightarrow> bytes \<Rightarrow> bytes option" \<comment> \<open>scalar, point; None for a nonzero return\<close>
  scalarmult_base :: "bytes \<Rightarrow> bytes"
  aes256gcm_encrypt :: "bytes \<Rightarrow> bytes \<Rightarrow> bytes \<Rightarrow> bytes \<Rightarrow> bytes" \<comment> \<open>key, nonce, ad, plaintext\<close>
  aes256gcm_decrypt :: "bytes \<Rightarrow> bytes \<Rightarrow> bytes \<Rightarrow> bytes \<Rightarrow> bytes option"
  xchacha_encrypt :: "bytes \<Rightarrow> bytes \<Rightarrow> bytes \<Rightarrow> bytes \<Rightarrow> bytes"
  xchacha_decrypt :: "bytes \<Rightarrow> bytes \<Rightarrow> bytes \<Rightarrow> bytes \<Rightarrow> bytes option"
  sign_seed_keypair :: "bytes \<Rightarrow> (bytes \<times> bytes) option" \<comment> \<open>seed; (public, secret)\<close>
  sign_sk_to_curve25519 :: "bytes \<Rightarrow> bytes option"
  sign_pk_to_curve25519 :: "bytes \<Rightarrow> bytes option"
  sign_detached :: "bytes \<Rightarrow> bytes \<Rightarrow> bytes option" \<comment> \<open>message, secret key\<close>
  sign_verify_detached :: "bytes \<Rightarrow> bytes \<Rightarrow> bytes \<Rightarrow> bool" \<comment> \<open>signature, message, public key\<close>
  sha256 :: "bytes \<Rightarrow> bytes"
  pwhash :: "bytes \<Rightarrow> bytes \<Rightarrow> bytes option" \<comment> \<open>input, salt\<close>
  secretbox_easy :: "bytes \<Rightarrow> bytes \<Rightarrow> bytes \<Rightarrow> bytes" \<comment> \<open>key, nonce, message\<close>
  secretbox_open_easy :: "bytes \<Rightarrow> bytes \<Rightarrow> bytes \<Rightarrow> bytes option"
  stream_init_push :: "bytes \<Rightarrow> bytes \<Rightarrow> (bytes \<times> bytes) option" \<comment> \<open>random, key; (state, header)\<close>
  stream_push :: "bytes \<Rightarrow> bytes \<Rightarrow> byte \<Rightarrow> (bytes \<times> bytes) option" \<comment> \<open>(state, ciphertext)\<close>
  stream_init_pull :: "bytes \<Rightarrow> bytes \<Rightarrow> bytes option" \<comment> \<open>key, header; state\<close>
  stream_pull :: "bytes \<Rightarrow> bytes \<Rightarrow> (bytes \<times> bytes \<times> byte) option" \<comment> \<open>(state, plaintext, tag)\<close>
  qFromHex :: "string \<Rightarrow> bytes" \<comment> \<open>QByteArray::fromHex of the Latin-1 bytes\<close>
  toUtf8 :: "qstring \<Rightarrow> bytes"
  fromUtf8 :: "bytes \<Rightarrow> qstring"
  hash_order :: "(bytes \<times> bytes) list \<Rightarrow> (bytes \<times> bytes) list" \<comment> \<open>iteration order of a QHash\<close>

section \<open>Documented behaviour\<close>

definition hmac_law :: "external \<Rightarrow> bool" where
  "hmac_law E \<longleftrightarrow> (\<forall>k m. length (hmacsha256 E k m) = 32)"

definition dh_law :: "external \<Rightarrow> bool" where
  "dh_law E \<longleftrightarrow>
     (\<forall>a. length (scalarmult_base E a) = 32) \<and>
     (\<forall>a p s. scalarmult E a p = Some s \<longrightarrow> length s = 32) \<and>
     (\<forall>a b. length a = 32 \<longrightarrow> length b = 32 \<longrightarrow>
        scalarmult E a (scalarmult_base E b) = scalarmult E b (scalarmult_base E a))"

definition aead_law :: "external \<Rightarrow> bool" where
  "aead_law E \<longleftrightarrow>
     (\<forall>k n ad p. aes256gcm_decrypt E k n ad (aes256gcm_encrypt E k n ad p) = Some p) \<and>
     (\<forall>k n ad p. xchacha_decrypt E k n ad (xchacha_encrypt E k n ad p) = Some p)"

definition identity_law :: "external \<Rightarrow> bool" where
  "identity_law E \<longleftrightarrow> (\<forall>seed. length seed = 32 \<longrightarrow>
     (\<exists>pk sk x. sign_seed_keypair E seed = Some (pk, sk) \<and> length pk = 32 \<and> length sk = 64 \<and>
        sign_sk_to_curve25519 E sk = Some x \<and> length x = 32 \<and>
        sign_pk_to_curve25519 E pk = Some (scalarmult_base E x)))"

definition sign_law :: "external \<Rightarrow> bool" where
  "sign_law E \<longleftrightarrow> (\<forall>seed pk sk m. sign_seed_keypair E seed = Some (pk, sk) \<longrightarrow>
     (\<exists>sig. sign_detached E m sk = Some sig \<and> length sig = 64 \<and>
        sign_verify_detached E sig m pk))"

definition secretbox_law :: "external \<Rightarrow> bool" where
  "secretbox_law E \<longleftrightarrow>
     (\<forall>k n m. secretbox_open_easy E k n (secretbox_easy E k n m) = Some m) \<and>
     (\<forall>k n m. length (secretbox_easy E k n m) = length m + 16)"

definition pwhash_law :: "external \<Rightarrow> bool" where
  "pwhash_law E \<longleftrightarrow> (\<forall>i s. length s = 16 \<longrightarrow> (\<exists>h. pwhash E i s = Some h \<and> length h = 32))"

definition text_law :: "external \<Rightarrow> bool" where
  "text_law E \<longleftrightarrow> (\<forall>t. fromUtf8 E (toUtf8 E t) = t)"

definition hex_law :: "external \<Rightarrow> bool" where
  "hex_law E \<longleftrightarrow> (\<forall>b. qFromHex E (toHex b) = b)"

definition hash_order_law :: "external \<Rightarrow> bool" where
  "hash_order_law E \<longleftrightarrow> (\<forall>ps. mset (hash_order E ps) = mset ps)"

definition sha256_law :: "external \<Rightarrow> bool" where
  "sha256_law E \<longleftrightarrow> (\<forall>m. length (sha256 E m) = 32)"

text \<open>A secret stream: a chunk pushed in one state is pulled, with its tag, in the state the
  reader has after the same number of chunks.\<close>

definition stream_law :: "external \<Rightarrow> (bytes \<Rightarrow> bytes \<Rightarrow> bool) \<Rightarrow> bool" where
  "stream_law E sync \<longleftrightarrow>
     (\<forall>rnd k. length k = 32 \<longrightarrow> length rnd = 24 \<longrightarrow>
        (\<exists>st h st'. stream_init_push E rnd k = Some (st, h) \<and> length h = 24 \<and>
           stream_init_pull E k h = Some st' \<and> sync st st')) \<and>
     (\<forall>st st' p tag. sync st st' \<longrightarrow>
        (\<exists>st2 ct st2'. stream_push E st p tag = Some (st2, ct) \<and> length ct = length p + 17 \<and>
           stream_pull E st' ct = Some (st2', p, tag) \<and> sync st2 st2'))"

lemma hash_order_length [size_simps]:
  "hash_order_law E \<Longrightarrow> length (hash_order E ps) = length ps"
  by (metis hash_order_law_def size_mset)

lemma hash_order_filter_length:
  assumes "hash_order_law E"
  shows "length (filter P (hash_order E ps)) = length (filter P ps)"
proof -
  have "mset (filter P (hash_order E ps)) = mset (filter P ps)"
    using assms by (simp add: hash_order_law_def)
  then show ?thesis by (rule mset_eq_length)
qed

lemma hash_order_set: "hash_order_law E \<Longrightarrow> set (hash_order E ps) = set ps"
  by (metis hash_order_law_def set_mset_mset)

lemma hash_order_ok: "hash_order_law E \<Longrightarrow> hash_ok (hash_order E ps) = hash_ok ps"
proof -
  assume "hash_order_law E"
  then have "mset (map fst (hash_order E ps)) = mset (map fst ps)"
    by (simp add: hash_order_law_def)
  then show ?thesis unfolding hash_ok_def by (rule mset_eq_imp_distinct_iff)
qed

lemma hash_order_map_of:
  "hash_order_law E \<Longrightarrow> hash_ok ps \<Longrightarrow> map_of (hash_order E ps) = map_of ps"
  by (rule mset_distinct_map_of)
    (auto simp: hash_order_law_def hash_order_ok simp flip: hash_ok_def)

section \<open>A small instance\<close>

definition demo_scalar :: "bytes \<Rightarrow> byte" where
  "demo_scalar a = (case a of [] \<Rightarrow> 0 | x # _ \<Rightarrow> x)"

definition demo_seal :: "nat \<Rightarrow> bytes \<Rightarrow> bytes \<Rightarrow> bytes" where
  "demo_seal n k p = p @ replicate n (sum_list k)"

definition demo_open :: "nat \<Rightarrow> bytes \<Rightarrow> bytes \<Rightarrow> bytes option" where
  "demo_open n k c =
     (if length c < n \<or> drop (length c - n) c \<noteq> replicate n (sum_list k) then None
      else Some (take (length c - n) c))"

definition demo :: external where
  "demo = \<lparr>
     hmacsha256 = (\<lambda>k m. replicate 32 (demo_scalar k + demo_scalar m + 1)),
     scalarmult = (\<lambda>a p. Some (replicate 32 (demo_scalar a * demo_scalar p))),
     scalarmult_base = (\<lambda>a. replicate 32 (9 * demo_scalar a)),
     aes256gcm_encrypt = (\<lambda>k n ad p. demo_seal 16 (k @ n @ ad) p),
     aes256gcm_decrypt = (\<lambda>k n ad c. demo_open 16 (k @ n @ ad) c),
     xchacha_encrypt = (\<lambda>k n ad p. demo_seal 16 (k @ n @ ad) p),
     xchacha_decrypt = (\<lambda>k n ad c. demo_open 16 (k @ n @ ad) c),
     sign_seed_keypair = (\<lambda>s. Some (replicate 32 (9 * demo_scalar s), s @ replicate 32 0)),
     sign_sk_to_curve25519 = (\<lambda>s. Some (replicate 32 (demo_scalar s))),
     sign_pk_to_curve25519 = (\<lambda>p. Some (replicate 32 (demo_scalar p))),
     sign_detached = (\<lambda>m s. Some (replicate 64 (demo_scalar m))),
     sign_verify_detached = (\<lambda>g m p. g = replicate 64 (demo_scalar m)),
     sha256 = (\<lambda>m. replicate 32 (sum_list m)),
     pwhash = (\<lambda>i s. Some (replicate 32 (sum_list i + sum_list s))),
     secretbox_easy = (\<lambda>k n m. demo_seal 16 (k @ n) m),
     secretbox_open_easy = (\<lambda>k n c. demo_open 16 (k @ n) c),
     stream_init_push = (\<lambda>r k. Some (k @ r, r)),
     stream_push = (\<lambda>st p tag. Some (st, demo_seal 16 st (tag # p))),
     stream_init_pull = (\<lambda>k h. Some (k @ h)),
     stream_pull = (\<lambda>st c. case demo_open 16 st c of None \<Rightarrow> None | Some [] \<Rightarrow> None
                       | Some (tag # p) \<Rightarrow> Some (st, p, tag)),
     qFromHex = fromHex,
     toUtf8 = latin1,
     fromUtf8 = of_latin1,
     hash_order = (\<lambda>ps. ps)\<rparr>"

lemma demo_open_seal [simp]: "demo_open n k (demo_seal n k p) = Some p"
  by (simp add: demo_open_def demo_seal_def)

lemma demo_seal_length [simp, size_simps]: "length (demo_seal n k p) = length p + n"
  by (simp add: demo_seal_def)

lemma demo_scalar_replicate [simp]: "n > 0 \<Longrightarrow> demo_scalar (replicate n x) = x"
  by (cases n) (simp_all add: demo_scalar_def)

lemma demo_scalar_append [simp]: "a \<noteq> [] \<Longrightarrow> demo_scalar (a @ b) = demo_scalar a"
  by (cases a) (simp_all add: demo_scalar_def)

lemma length_32_nonempty: "length a = 32 \<Longrightarrow> a \<noteq> []"
  by auto

lemma demo_identity_law: "identity_law demo"
  by (auto simp: identity_law_def demo_def dest: length_32_nonempty)

lemma demo_laws:
  "hmac_law demo" "dh_law demo" "aead_law demo" "sign_law demo"
  "secretbox_law demo" "pwhash_law demo" "hex_law demo" "hash_order_law demo" "sha256_law demo"
  by (simp_all add: demo_def hmac_law_def dh_law_def aead_law_def sign_law_def
      secretbox_law_def pwhash_law_def hex_law_def hash_order_law_def sha256_law_def
      mult.left_commute)

lemma demo_text_law: "text_law demo"
  by (simp add: text_law_def demo_def)

lemma demo_stream_law: "stream_law demo (=)"
  by (simp add: stream_law_def demo_def)

end
