(* ===== verification/Ratchet.thy ===== *)
theory Ratchet
  imports External
begin

text \<open>
  The file-local helpers of \<^verbatim>\<open>client/src/cryptobox.cpp\<close> and the per-peer \<open>RatchetSession\<close> of
  \<^verbatim>\<open>client/src/cryptobox.h\<close>: HKDF, the root and chain KDFs, the associated data, the AEAD
  dispatch, the store of skipped message keys with its purge and its cap, the bounded advance
  \<open>skipTo\<close> and the DH ratchet step. Wiping a buffer that is about to be released has no
  counterpart in the model; every other assignment is kept.

  The lemmas give a closed form for the receiving chain after a skip, show that the store of
  skipped keys stays within its bound and holds two generations at most, and relate HKDF to the
  block construction of RFC 5869.
\<close>

section \<open>Constants and session state\<close>

definition kHkdfInfo :: bytes where "kHkdfInfo = latin1 ''tamk-chat-e2ee-v1''"
definition kRootInfo :: bytes where "kRootInfo = latin1 ''tamk-chat-ratchet-root-v1''"
definition kLocalInfo :: bytes where "kLocalInfo = latin1 ''tamk-chat-local-history-v1''"
definition kCipherAes :: bytes where "kCipherAes = latin1 ''a256gcm-r1''"
definition kCipherXchacha :: bytes where "kCipherXchacha = latin1 ''xc20p1305-r1''"
definition kMaxSkip :: u32 where "kMaxSkip = 1000"
definition kMaxSkippedTotal :: nat where "kMaxSkippedTotal = 2 * unat kMaxSkip"

record RatchetSession =
  DHs_priv :: bytes
  DHs_pub :: bytes
  DHr_pub :: bytes
  RK :: bytes
  CKs :: bytes
  CKr :: bytes
  Ns :: u32
  Nr :: u32
  PN :: u32
  haveDHr :: bool
  skipped :: "(bytes \<times> bytes) list"

definition newRatchetSession :: RatchetSession where
  "newRatchetSession = \<lparr>DHs_priv = [], DHs_pub = [], DHr_pub = [], RK = [], CKs = [], CKr = [],
     Ns = 0, Nr = 0, PN = 0, haveDHr = False, skipped = []\<rparr>"

section \<open>Key derivation\<close>

function hkdfExpand ::
  "external \<Rightarrow> bytes \<Rightarrow> bytes \<Rightarrow> nat \<Rightarrow> bytes \<Rightarrow> nat \<Rightarrow> byte \<Rightarrow> bytes \<Rightarrow> bytes" where
  "hkdfExpand E prk info okmLen t done counter okm =
     (if done < okmLen then
        (let t' = hmacsha256 E prk (t @ info @ [counter]);
             n = (if okmLen - done < 32 then okmLen - done else 32)
         in hkdfExpand E prk info okmLen t' (done + n) (counter + 1) (okm @ take n t'))
      else okm)"
  by pat_completeness auto
termination
  by (relation "measure (\<lambda>(E, prk, info, okmLen, t, done, counter, okm). okmLen - done)") auto

declare hkdfExpand.simps [simp del]

definition hkdf :: "external \<Rightarrow> bytes option \<Rightarrow> bytes \<Rightarrow> bytes \<Rightarrow> nat \<Rightarrow> bytes" where
  "hkdf E salt ikm info okmLen =
     (let key = (case salt of None \<Rightarrow> replicate 32 0 | Some s \<Rightarrow> s);
          prk = hmacsha256 E key ikm
      in hkdfExpand E prk info okmLen [] 0 1 [])"

definition dhFn :: "external \<Rightarrow> bytes \<Rightarrow> bytes \<Rightarrow> bytes" where
  "dhFn E priv pub = (case scalarmult E priv pub of None \<Rightarrow> [] | Some out \<Rightarrow> out)"

definition genKeypair :: "external \<Rightarrow> bytes \<Rightarrow> bytes \<times> bytes" where
  "genKeypair E rnd = (rnd, scalarmult_base E rnd)"

definition kdfRk :: "external \<Rightarrow> bytes \<Rightarrow> bytes \<Rightarrow> bytes \<times> bytes" where
  "kdfRk E rk dhOut =
     (let okm = hkdf E (Some rk) dhOut kRootInfo 64 in (take 32 okm, take 32 (drop 32 okm)))"

definition kdfCk :: "external \<Rightarrow> bytes \<Rightarrow> bytes \<times> bytes" where
  "kdfCk E ck = (take 32 (hmacsha256 E ck [2]), take 32 (hmacsha256 E ck [1]))"

definition bootstrapSk :: "external \<Rightarrow> bytes \<Rightarrow> bytes \<Rightarrow> bytes" where
  "bootstrapSk E myPriv peerPub = hkdf E None (dhFn E myPriv peerPub) kHkdfInfo 32"

section \<open>Associated data and AEAD dispatch\<close>

definition adBytes :: "bytes \<Rightarrow> bytes \<Rightarrow> u32 \<Rightarrow> u32 \<Rightarrow> bytes" where
  "adBytes cipher dhPub pn n = cipher @ dhPub @ be32 pn @ be32 n"

definition nonceLenFor :: "bytes \<Rightarrow> nat" where
  "nonceLenFor cipher = (if cipher = kCipherAes then 12 else 24)"

definition aeadEncrypt :: "external \<Rightarrow> bytes \<Rightarrow> bytes \<Rightarrow> bytes \<Rightarrow> bytes \<Rightarrow> bytes \<Rightarrow> bytes" where
  "aeadEncrypt E cipher key nonce pt ad =
     (if cipher = kCipherAes then aes256gcm_encrypt E key nonce ad pt
      else xchacha_encrypt E key nonce ad pt)"

definition aeadDecrypt ::
  "external \<Rightarrow> bytes \<Rightarrow> bytes \<Rightarrow> bytes \<Rightarrow> bytes \<Rightarrow> bytes \<Rightarrow> bytes option" where
  "aeadDecrypt E cipher key nonce ct ad =
     (if cipher = kCipherAes then aes256gcm_decrypt E key nonce ad ct
      else xchacha_decrypt E key nonce ad ct)"

section \<open>The store of skipped message keys\<close>

definition skipKey :: "bytes \<Rightarrow> u32 \<Rightarrow> bytes" where
  "skipKey dhPub n = dhPub @ be32 n"

definition purgeUnreachableSkipped ::
  "RatchetSession \<Rightarrow> bytes \<Rightarrow> bytes \<Rightarrow> RatchetSession" where
  "purgeUnreachableSkipped s keepCurrent keepPrevious =
     s\<lparr>skipped := filter (\<lambda>(k, v). let gen = take (length keepCurrent) k in
          gen = keepCurrent \<or> (keepPrevious \<noteq> [] \<and> gen = keepPrevious)) (skipped s)\<rparr>"

text \<open>One pass of the cap: entries are erased, in iteration order, while the table is too large;
  \<open>keep\<close> marks the entries the pass steps over.\<close>

fun capPass :: "(bytes \<Rightarrow> bool) \<Rightarrow> nat \<Rightarrow> (bytes \<times> bytes) list \<Rightarrow> (bytes \<times> bytes) list" where
  "capPass keep sz [] = []"
| "capPass keep sz (e # es) =
     (if kMaxSkippedTotal < sz then
        (if keep (fst e) then e # capPass keep sz es else capPass keep (sz - 1) es)
      else e # es)"

definition enforceSkippedCap :: "external \<Rightarrow> RatchetSession \<Rightarrow> bytes \<Rightarrow> RatchetSession" where
  "enforceSkippedCap E s keepCurrent =
     (if length (skipped s) \<le> kMaxSkippedTotal then s
      else (let a = capPass (\<lambda>k. take (length keepCurrent) k = keepCurrent)
                      (length (skipped s)) (hash_order E (skipped s));
                b = capPass (\<lambda>_. False) (length a) (hash_order E a)
            in s\<lparr>skipped := b\<rparr>))"

section \<open>Advancing the receiving chain\<close>

function skipLoop :: "external \<Rightarrow> u32 \<Rightarrow> RatchetSession \<Rightarrow> RatchetSession" where
  "skipLoop E until s =
     (if Nr s < until then
        (let (ckNext, mk) = kdfCk E (CKr s)
         in skipLoop E until
              (s\<lparr>CKr := ckNext,
                 skipped := AList.update (skipKey (DHr_pub s) (Nr s)) mk (skipped s),
                 Nr := Nr s + 1\<rparr>))
      else s)"
  by pat_completeness auto

termination skipLoop
proof (relation "measure (\<lambda>(E, until, s). unat until - unat (Nr s))")
  fix E :: external and until :: u32 and s :: RatchetSession and x ckNext mk
  assume lt: "Nr s < until"
  then have "unat (Nr s) < unat until" by (simp add: word_less_nat_alt)
  with unat_suc_below [OF lt]
  show "((E, until, s\<lparr>CKr := ckNext, skipped := AList.update (skipKey (DHr_pub s) (Nr s)) mk (skipped s),
      Nr := Nr s + 1\<rparr>), E, until, s) \<in> measure (\<lambda>(E, until, s). unat until - unat (Nr s))"
    by simp
qed simp

declare skipLoop.simps [simp del]

definition skipTo :: "external \<Rightarrow> RatchetSession \<Rightarrow> u32 \<Rightarrow> RatchetSession option" where
  "skipTo E s until =
     (if Nr s + kMaxSkip < until then None
      else if CKr s \<noteq> [] then Some (enforceSkippedCap E (skipLoop E until s) (DHr_pub s))
      else Some s)"

definition dhRatchet :: "external \<Rightarrow> bytes \<Rightarrow> RatchetSession \<Rightarrow> bytes \<Rightarrow> RatchetSession" where
  "dhRatchet E rnd s dhPub =
     (let supersededGen = DHr_pub s;
          s1 = s\<lparr>PN := Ns s, Ns := 0, Nr := 0, DHr_pub := dhPub, haveDHr := True\<rparr>;
          (rk1, ckr) = kdfRk E (RK s1) (dhFn E (DHs_priv s1) (DHr_pub s1));
          s2 = s1\<lparr>RK := rk1, CKr := ckr\<rparr>;
          (priv, pub) = genKeypair E rnd;
          s3 = s2\<lparr>DHs_priv := priv, DHs_pub := pub\<rparr>;
          (rk2, cks) = kdfRk E (RK s3) (dhFn E (DHs_priv s3) (DHr_pub s3));
          s4 = s3\<lparr>RK := rk2, CKs := cks\<rparr>;
          s5 = purgeUnreachableSkipped s4 (DHr_pub s4) supersededGen
      in enforceSkippedCap E s5 (DHr_pub s5))"

section \<open>HKDF and the blocks of RFC 5869\<close>

fun hkdfT :: "external \<Rightarrow> bytes \<Rightarrow> bytes \<Rightarrow> nat \<Rightarrow> bytes" where
  "hkdfT E prk info 0 = []"
| "hkdfT E prk info (Suc i) = hmacsha256 E prk (hkdfT E prk info i @ info @ [of_nat (Suc i)])"

definition hkdfBlocks :: "external \<Rightarrow> bytes \<Rightarrow> bytes \<Rightarrow> nat \<Rightarrow> bytes" where
  "hkdfBlocks E prk info m = concat (map (hkdfT E prk info) [1..<Suc m])"

lemma hkdfBlocks_Suc:
  "hkdfBlocks E prk info (Suc m) = hkdfBlocks E prk info m @ hkdfT E prk info (Suc m)"
  by (simp add: hkdfBlocks_def)

lemma hkdfBlocks_length [size_simps]:
  "hmac_law E \<Longrightarrow> length (hkdfBlocks E prk info m) = 32 * m"
  by (induction m) (simp_all add: hkdfBlocks_Suc hmac_law_def, simp add: hkdfBlocks_def)

lemma hkdfBlocks_stable:
  assumes "hmac_law E" "n \<le> 32 * i"
  shows "take n (hkdfBlocks E prk info (i + d)) = take n (hkdfBlocks E prk info i)"
proof (induction d)
  case (Suc d)
  have "n \<le> 32 * (i + d)" using assms(2) by simp
  with Suc assms(1) show ?case by (simp add: hkdfBlocks_Suc hkdfBlocks_length)
qed simp

lemma hkdfExpand_blocks:
  assumes "hmac_law E" "i \<le> m" "okmLen \<le> 32 * m" "m = i + d"
  shows "hkdfExpand E prk info okmLen (hkdfT E prk info i) (min okmLen (32 * i)) (of_nat (Suc i))
           (take okmLen (hkdfBlocks E prk info i))
         = take okmLen (hkdfBlocks E prk info m)"
  using assms(2,4)
proof (induction d arbitrary: i)
  case 0
  with assms(3) show ?case by (subst hkdfExpand.simps) simp
next
  case (Suc d)
  note IH = Suc.IH [of "Suc i"]
  show ?case
  proof (cases "okmLen \<le> 32 * i")
    case True
    then show ?thesis using Suc.prems hkdfBlocks_stable [OF assms(1) True, of prk info "Suc d"]
      by (subst hkdfExpand.simps) simp
  next
    case False
    let ?n = "if okmLen - 32 * i < 32 then okmLen - 32 * i else 32"
    have "take okmLen (hkdfBlocks E prk info (Suc i)) =
        take okmLen (hkdfBlocks E prk info i) @ take ?n (hkdfT E prk info (Suc i))"
      using False assms(1) by (simp add: hkdfBlocks_Suc hkdfBlocks_length hmac_law_def)
    moreover have "min okmLen (32 * i) + ?n = min okmLen (32 * Suc i)"
      using False by simp
    ultimately show ?thesis
      using False IH Suc.prems
      by (subst hkdfExpand.simps) (auto simp: Let_def min_def split: if_splits)
  qed
qed

lemma hkdf_blocks:
  assumes "hmac_law E" "okmLen \<le> 32 * m"
  shows "hkdf E salt ikm info okmLen =
    take okmLen (hkdfBlocks E (hmacsha256 E (case salt of None \<Rightarrow> replicate 32 0 | Some s \<Rightarrow> s) ikm) info m)"
  using hkdfExpand_blocks [OF assms(1) _ assms(2), of 0 m]
  by (simp add: hkdf_def hkdfBlocks_def Let_def)

lemma hkdf_length [size_simps]:
  "hmac_law E \<Longrightarrow> length (hkdf E salt ikm info okmLen) = okmLen"
  by (simp add: hkdf_blocks [of E okmLen okmLen] hkdfBlocks_length)

lemma kdfRk_lengths [size_simps]:
  assumes "hmac_law E"
  shows "length (fst (kdfRk E rk d)) = 32" "length (snd (kdfRk E rk d)) = 32"
  using assms by (simp_all add: kdfRk_def Let_def hkdf_length)

lemma kdfCk_lengths [size_simps]:
  assumes "hmac_law E"
  shows "length (fst (kdfCk E ck)) = 32" "length (snd (kdfCk E ck)) = 32"
  using assms by (simp_all add: kdfCk_def hmac_law_def)

section \<open>The receiving chain in closed form\<close>

definition chainKey :: "external \<Rightarrow> bytes \<Rightarrow> nat \<Rightarrow> bytes" where
  "chainKey E ck i = ((\<lambda>c. fst (kdfCk E c)) ^^ i) ck"

definition msgKey :: "external \<Rightarrow> bytes \<Rightarrow> nat \<Rightarrow> bytes" where
  "msgKey E ck i = snd (kdfCk E (chainKey E ck i))"

definition bank :: "external \<Rightarrow> bytes \<Rightarrow> u32 \<Rightarrow> bytes \<Rightarrow> nat \<Rightarrow> (bytes \<times> bytes) list" where
  "bank E gen n ck d = map (\<lambda>i. (skipKey gen (n + of_nat i), msgKey E ck i)) [0..<d]"

abbreviation putAll :: "(bytes \<times> bytes) list \<Rightarrow> (bytes \<times> bytes) list \<Rightarrow> (bytes \<times> bytes) list" where
  "putAll kvs ps \<equiv> fold (\<lambda>(k, v). AList.update k v) kvs ps"

lemma chainKey_0 [simp]: "chainKey E ck 0 = ck"
  by (simp add: chainKey_def)

lemma chainKey_Suc: "chainKey E ck (Suc i) = chainKey E (fst (kdfCk E ck)) i"
  by (simp only: chainKey_def funpow_Suc_right comp_apply)

lemma chainKey_step: "fst (kdfCk E (chainKey E ck i)) = chainKey E ck (Suc i)"
  by (simp add: chainKey_def)

lemma msgKey_Suc: "msgKey E ck (Suc i) = msgKey E (fst (kdfCk E ck)) i"
  by (simp add: msgKey_def chainKey_Suc)

lemma chainKey_nonempty: "hmac_law E \<Longrightarrow> ck \<noteq> [] \<Longrightarrow> chainKey E ck i \<noteq> []"
proof (induction i arbitrary: ck)
  case (Suc i)
  have "fst (kdfCk E ck) \<noteq> []" using kdfCk_lengths(1) [OF Suc.prems(1), of ck] by auto
  with Suc show ?case by (simp add: chainKey_Suc)
qed simp

lemma bank_Suc:
  "bank E gen n ck (Suc d) =
     (skipKey gen n, snd (kdfCk E ck)) # bank E gen (n + 1) (fst (kdfCk E ck)) d"
proof -
  have "bank E gen n ck (Suc d) = (skipKey gen n, msgKey E ck 0) #
      map (\<lambda>i. (skipKey gen (n + of_nat (Suc i)), msgKey E ck (Suc i))) [0..<d]"
    by (simp add: bank_def upt_conv_Cons map_Suc_upt [symmetric] comp_def del: upt_Suc)
  then show ?thesis
    by (simp add: bank_def msgKey_Suc) (simp add: msgKey_def add.assoc)
qed

lemma skipLoop_stop: "\<not> Nr s < until \<Longrightarrow> skipLoop E until s = s"
  by (subst skipLoop.simps) simp

lemma skipLoop_closed:
  assumes "Nr s \<le> until" "d = unat until - unat (Nr s)"
  shows "skipLoop E until s =
    s\<lparr>CKr := chainKey E (CKr s) d, Nr := until,
      skipped := putAll (bank E (DHr_pub s) (Nr s) (CKr s) d) (skipped s)\<rparr>"
  using assms
proof (induction d arbitrary: s)
  case 0
  then have "Nr s = until" by (simp add: word_le_nat_alt word_unat_eq_iff)
  then show ?case by (simp add: skipLoop_stop bank_def)
next
  case (Suc d)
  then have lt: "Nr s < until" by (simp add: word_less_nat_alt)
  define s1 where "s1 = s\<lparr>CKr := fst (kdfCk E (CKr s)),
     skipped := AList.update (skipKey (DHr_pub s) (Nr s)) (snd (kdfCk E (CKr s))) (skipped s),
     Nr := Nr s + 1\<rparr>"
  have "skipLoop E until s = skipLoop E until s1"
    using lt by (subst skipLoop.simps) (simp add: s1_def case_prod_beta)
  moreover have "Nr s1 \<le> until" "d = unat until - unat (Nr s1)"
    using Suc.prems unat_suc_below [OF lt] lt
    by (simp_all add: s1_def word_le_nat_alt word_less_nat_alt)
  ultimately show ?case
    using Suc.IH [of s1] by (simp add: s1_def bank_Suc chainKey_Suc)
qed

section \<open>The bound on the store of skipped keys\<close>

lemma capPass_shed_length:
  "length (capPass (\<lambda>_. False) (length es) es) = min (length es) kMaxSkippedTotal"
  by (induction es) (auto simp: min_def)

lemma capPass_set: "set (capPass keep sz es) \<subseteq> set es"
  by (induction keep sz es rule: capPass.induct) auto

lemma capPass_ok: "hash_ok es \<Longrightarrow> hash_ok (capPass keep sz es)"
proof (induction keep sz es rule: capPass.induct)
  case (2 keep sz e es)
  have "fst ` set (capPass keep sz es) \<subseteq> fst ` set es"
    using capPass_set [of keep sz es] by (rule image_mono)
  with 2 show ?case by (auto simp: hash_ok_def)
qed simp

lemma capPass_keeps: "filter (keep \<circ> fst) (capPass keep sz es) = filter (keep \<circ> fst) es"
  by (induction keep sz es rule: capPass.induct) auto

lemma capPass_small: "sz \<le> kMaxSkippedTotal \<Longrightarrow> capPass keep sz es = es"
  by (cases es) auto

lemma capPass_result:
  "length (filter (keep \<circ> fst) es) \<le> kMaxSkippedTotal \<Longrightarrow> length es + c = sz \<Longrightarrow>
   length (capPass keep sz es) + c \<le> kMaxSkippedTotal \<or>
   capPass keep sz es = filter (keep \<circ> fst) es"
  by (induction keep sz es arbitrary: c rule: capPass.induct) (fastforce+)

lemma enforceSkippedCap_bound:
  assumes "hash_order_law E"
  shows "length (skipped (enforceSkippedCap E s g)) \<le> kMaxSkippedTotal"
  using assms
  by (simp add: enforceSkippedCap_def Let_def)
    (metis capPass_shed_length hash_order_length min.cobounded2)

lemma enforceSkippedCap_set:
  "hash_order_law E \<Longrightarrow> set (skipped (enforceSkippedCap E s g)) \<subseteq> set (skipped s)"
  using capPass_set
  by (auto simp: enforceSkippedCap_def Let_def hash_order_set dest!: subsetD [OF capPass_set])

lemma enforceSkippedCap_ok:
  "hash_order_law E \<Longrightarrow> hash_ok (skipped s) \<Longrightarrow> hash_ok (skipped (enforceSkippedCap E s g))"
  by (simp add: enforceSkippedCap_def Let_def capPass_ok hash_order_ok)

lemma enforceSkippedCap_frame [simp]:
  "DHs_priv (enforceSkippedCap E s g) = DHs_priv s" "DHs_pub (enforceSkippedCap E s g) = DHs_pub s"
  "DHr_pub (enforceSkippedCap E s g) = DHr_pub s" "RK (enforceSkippedCap E s g) = RK s"
  "CKs (enforceSkippedCap E s g) = CKs s" "CKr (enforceSkippedCap E s g) = CKr s"
  "Ns (enforceSkippedCap E s g) = Ns s" "Nr (enforceSkippedCap E s g) = Nr s"
  "PN (enforceSkippedCap E s g) = PN s" "haveDHr (enforceSkippedCap E s g) = haveDHr s"
  by (simp_all add: enforceSkippedCap_def Let_def)

lemma enforceSkippedCap_noop:
  "length (skipped s) \<le> kMaxSkippedTotal \<Longrightarrow> enforceSkippedCap E s g = s"
  by (simp add: enforceSkippedCap_def)

lemma enforceSkippedCap_live:
  assumes law: "hash_order_law E" and ok: "hash_ok (skipped s)"
    and few: "length (filter (\<lambda>e. take (length g) (fst e) = g) (skipped s)) \<le> kMaxSkippedTotal"
    and live: "take (length g) k = g"
  shows "map_of (skipped (enforceSkippedCap E s g)) k = map_of (skipped s) k"
proof (cases "length (skipped s) \<le> kMaxSkippedTotal")
  case False
  define keep where "keep = (\<lambda>k. take (length g) k = g)"
  define a where "a = capPass keep (length (skipped s)) (hash_order E (skipped s))"
  have len: "length (filter (keep \<circ> fst) (hash_order E (skipped s))) \<le> kMaxSkippedTotal"
    using few by (simp add: hash_order_filter_length [OF law] keep_def comp_def)
  have "length a \<le> kMaxSkippedTotal"
    using capPass_result [OF len, of 0 "length (skipped s)"] len law
    by (auto simp: a_def hash_order_length)
  then have res: "skipped (enforceSkippedCap E s g) = hash_order E a"
    using False by (simp add: enforceSkippedCap_def a_def keep_def Let_def capPass_small)
  have oka: "hash_ok a" and okh: "hash_ok (hash_order E (skipped s))"
    using law ok by (simp_all add: a_def capPass_ok hash_order_ok)
  have split: "map_of xs k = map_of (filter (keep \<circ> fst) xs) k" for xs :: "(bytes \<times> bytes) list"
    using live by (induction xs) (auto simp: keep_def)
  have "map_of a k = map_of (hash_order E (skipped s)) k"
    using split [of a] split [of "hash_order E (skipped s)"] by (simp add: a_def capPass_keeps)
  with res law oka ok show ?thesis by (simp add: hash_order_map_of)
qed (simp add: enforceSkippedCap_noop)

section \<open>Skipping and ratcheting\<close>

lemma skipTo_frame:
  assumes "skipTo E s until = Some s'"
  shows "DHs_priv s' = DHs_priv s" "DHs_pub s' = DHs_pub s" "DHr_pub s' = DHr_pub s" "RK s' = RK s"
    "CKs s' = CKs s" "Ns s' = Ns s" "PN s' = PN s" "haveDHr s' = haveDHr s"
proof -
  have "DHs_priv (skipLoop E until s) = DHs_priv s \<and> DHs_pub (skipLoop E until s) = DHs_pub s \<and>
     DHr_pub (skipLoop E until s) = DHr_pub s \<and> RK (skipLoop E until s) = RK s \<and>
     CKs (skipLoop E until s) = CKs s \<and> Ns (skipLoop E until s) = Ns s \<and>
     PN (skipLoop E until s) = PN s \<and> haveDHr (skipLoop E until s) = haveDHr s"
    by (cases "Nr s \<le> until") (simp_all add: skipLoop_closed skipLoop_stop not_le not_less)
  with assms show "DHs_priv s' = DHs_priv s" "DHs_pub s' = DHs_pub s" "DHr_pub s' = DHr_pub s"
    "RK s' = RK s" "CKs s' = CKs s" "Ns s' = Ns s" "PN s' = PN s" "haveDHr s' = haveDHr s"
    by (auto simp: skipTo_def split: if_splits)
qed

lemma skipLoop_ok: "hash_ok (skipped s) \<Longrightarrow> hash_ok (skipped (skipLoop E until s))"
  by (cases "Nr s \<le> until") (simp_all add: skipLoop_closed qhash.ok_fold_insert skipLoop_stop)

lemma skipTo_store:
  assumes "skipTo E s until = Some s'" "hash_order_law E" "hash_ok (skipped s)"
    "length (skipped s) \<le> kMaxSkippedTotal"
  shows "hash_ok (skipped s')" "length (skipped s') \<le> kMaxSkippedTotal"
  using assms
  by (auto simp: skipTo_def enforceSkippedCap_ok skipLoop_ok enforceSkippedCap_bound split: if_splits)

lemma purge_ok: "hash_ok (skipped s) \<Longrightarrow> hash_ok (skipped (purgeUnreachableSkipped s c p))"
  by (simp add: purgeUnreachableSkipped_def hash_ok_def distinct_map_filter)

lemma dhRatchet_fields:
  "DHs_priv (dhRatchet E rnd s p) = rnd" "DHs_pub (dhRatchet E rnd s p) = scalarmult_base E rnd"
  "DHr_pub (dhRatchet E rnd s p) = p" "haveDHr (dhRatchet E rnd s p)"
  "PN (dhRatchet E rnd s p) = Ns s" "Ns (dhRatchet E rnd s p) = 0" "Nr (dhRatchet E rnd s p) = 0"
  "CKr (dhRatchet E rnd s p) = snd (kdfRk E (RK s) (dhFn E (DHs_priv s) p))"
  "(RK (dhRatchet E rnd s p), CKs (dhRatchet E rnd s p)) =
     kdfRk E (fst (kdfRk E (RK s) (dhFn E (DHs_priv s) p))) (dhFn E rnd p)"
  by (simp_all add: dhRatchet_def Let_def case_prod_beta genKeypair_def purgeUnreachableSkipped_def)

lemma dhRatchet_store:
  assumes "hash_order_law E" "hash_ok (skipped s)"
  shows "hash_ok (skipped (dhRatchet E rnd s p))"
    and "length (skipped (dhRatchet E rnd s p)) \<le> kMaxSkippedTotal"
  using assms
  by (simp_all add: dhRatchet_def Let_def case_prod_beta enforceSkippedCap_bound enforceSkippedCap_ok
      purge_ok)

lemma dhRatchet_skipped:
  assumes "hash_order_law E" "(k, v) \<in> set (skipped (dhRatchet E rnd s p))"
  shows "(k, v) \<in> set (skipped s)"
    and "take (length p) k = p \<or> DHr_pub s \<noteq> [] \<and> take (length p) k = DHr_pub s"
  using subsetD [OF enforceSkippedCap_set [OF assms(1)] assms(2) [unfolded dhRatchet_def Let_def case_prod_beta]]
  by (auto simp: purgeUnreachableSkipped_def Let_def genKeypair_def)

end
