(* ===== verification/X3DH.thy ===== *)
theory X3DH
  imports Ratchet
begin

text \<open>
  The stateless key agreement of \<^verbatim>\<open>client/src/x3dh.cpp\<close>: Ed25519 identities and their X25519
  counterparts, detached signatures, prekeys, and the two sides of X3DH. A Boolean result with
  output parameters is an option here; a function that returns an empty buffer on failure keeps
  returning one.

  The lemmas show that both sides derive the same secret from a bundle, whatever the outcome, and
  that nothing is derived from a bundle whose signed prekey does not verify.
\<close>

definition kX3dhInfo :: bytes where "kX3dhInfo = latin1 ''tamk-chat-x3dh-v1''"
definition kF :: bytes where "kF = replicate 32 0xff"

record Bundle =
  ik :: bytes
  spk :: bytes
  spkSig :: bytes
  opk :: bytes
  opkId :: int

record InitiatorResult =
  r_sk :: bytes
  r_ik :: bytes
  r_ek :: bytes
  r_ad :: bytes
  r_opkId :: int

text \<open>The anonymous-namespace \<open>hkdf\<close> of this file is the same text as the one of cryptobox.cpp.\<close>

definition X3DH_hkdf :: "external \<Rightarrow> bytes option \<Rightarrow> bytes \<Rightarrow> bytes \<Rightarrow> nat \<Rightarrow> bytes" where
  "X3DH_hkdf E salt ikm info okmLen =
     hkdfExpand E (hmacsha256 E (case salt of None \<Rightarrow> replicate 32 0 | Some s \<Rightarrow> s) ikm)
       info okmLen [] 0 1 []"

definition dh :: "external \<Rightarrow> bytes \<Rightarrow> bytes \<Rightarrow> bytes" where
  "dh E priv pub =
     (if length priv \<noteq> 32 \<or> length pub \<noteq> 32 then []
      else case scalarmult E priv pub of None \<Rightarrow> [] | Some out \<Rightarrow> out)"

definition secretKeyFromSeed :: "external \<Rightarrow> bytes \<Rightarrow> (bytes \<times> bytes) option" where
  "secretKeyFromSeed E seed =
     (if length seed \<noteq> 32 then None
      else map_option (\<lambda>(pk32, sk64). (sk64, pk32)) (sign_seed_keypair E seed))"

definition X3DH_kdf :: "external \<Rightarrow> bytes \<Rightarrow> bytes" where
  "X3DH_kdf E dhConcat = X3DH_hkdf E None (kF @ dhConcat) kX3dhInfo 32"

definition X3DH_generateIdentity :: "external \<Rightarrow> bytes \<Rightarrow> (bytes \<times> bytes) option" where
  "X3DH_generateIdentity E rnd =
     (case secretKeyFromSeed E rnd of None \<Rightarrow> None | Some (sk64, edPub) \<Rightarrow> Some (rnd, edPub))"

definition identityPublic :: "external \<Rightarrow> bytes \<Rightarrow> bytes" where
  "identityPublic E seed = (case secretKeyFromSeed E seed of None \<Rightarrow> [] | Some (sk64, pk32) \<Rightarrow> pk32)"

definition identityToX25519Private :: "external \<Rightarrow> bytes \<Rightarrow> bytes" where
  "identityToX25519Private E seed =
     (case secretKeyFromSeed E seed of None \<Rightarrow> []
      | Some (sk64, pk32) \<Rightarrow> (case sign_sk_to_curve25519 E sk64 of None \<Rightarrow> [] | Some out \<Rightarrow> out))"

definition identityToX25519Public :: "external \<Rightarrow> bytes \<Rightarrow> bytes option" where
  "identityToX25519Public E edPub =
     (if length edPub \<noteq> 32 then None else sign_pk_to_curve25519 E edPub)"

definition sign :: "external \<Rightarrow> bytes \<Rightarrow> bytes \<Rightarrow> bytes" where
  "sign E seed message =
     (case secretKeyFromSeed E seed of None \<Rightarrow> []
      | Some (sk64, pk32) \<Rightarrow>
          (case sign_detached E message sk64 of None \<Rightarrow> []
           | Some sig \<Rightarrow> if length sig \<noteq> 64 then [] else sig))"

definition verify :: "external \<Rightarrow> bytes \<Rightarrow> bytes \<Rightarrow> bytes \<Rightarrow> bool" where
  "verify E edPub message sig =
     (if length edPub \<noteq> 32 \<or> length sig \<noteq> 64 then False
      else sign_verify_detached E sig message edPub)"

definition newSignedPrekey :: "external \<Rightarrow> bytes \<Rightarrow> bytes \<Rightarrow> (bytes \<times> bytes \<times> bytes) option" where
  "newSignedPrekey E ikSeed rnd =
     (let spkPub = scalarmult_base E rnd; sig = sign E ikSeed spkPub
      in if sig = [] then None else Some (rnd, spkPub, sig))"

definition newOneTimePrekey :: "external \<Rightarrow> bytes \<Rightarrow> (bytes \<times> bytes) option" where
  "newOneTimePrekey E rnd = Some (rnd, scalarmult_base E rnd)"

definition initiatorWithEphemeral ::
  "external \<Rightarrow> bytes \<Rightarrow> Bundle \<Rightarrow> bytes \<Rightarrow> InitiatorResult option" where
  "initiatorWithEphemeral E aIkSeed bundle ekPriv =
     (if \<not> verify E (ik bundle) (spk bundle) (spkSig bundle) then None else
      let aIkPub = identityPublic E aIkSeed; aIkX = identityToX25519Private E aIkSeed in
      case identityToX25519Public E (ik bundle) of None \<Rightarrow> None
      | Some bIkX \<Rightarrow>
        if aIkPub = [] \<or> aIkX = [] then None
        else if length ekPriv \<noteq> 32 then None
        else
          (let ekPub = scalarmult_base E ekPriv;
               dh1 = dh E aIkX (spk bundle);
               dh2 = dh E ekPriv bIkX;
               dh3 = dh E ekPriv (spk bundle)
           in if dh1 = [] \<or> dh2 = [] \<or> dh3 = [] then None
              else
                (let dh4 = dh E ekPriv (opk bundle);
                     cat = dh1 @ dh2 @ dh3 @ (if opk bundle \<noteq> [] then dh4 else []);
                     out = \<lparr>r_sk = X3DH_kdf E cat, r_ik = aIkPub, r_ek = ekPub,
                            r_ad = aIkPub @ ik bundle,
                            r_opkId = (if opk bundle = [] then - 1 else opkId bundle)\<rparr>
                 in if opk bundle \<noteq> [] \<and> dh4 = [] then None
                    else if r_sk out = [] then None else Some out)))"

definition initiator :: "external \<Rightarrow> bytes \<Rightarrow> Bundle \<Rightarrow> bytes \<Rightarrow> InitiatorResult option" where
  "initiator E aIkSeed bundle rnd = initiatorWithEphemeral E aIkSeed bundle rnd"

definition responder ::
  "external \<Rightarrow> bytes \<Rightarrow> bytes \<Rightarrow> bytes \<Rightarrow> bytes \<Rightarrow> bytes \<Rightarrow> bytes option" where
  "responder E bIkSeed spkPriv opkPriv ikA ekA =
     (case identityToX25519Public E ikA of None \<Rightarrow> None
      | Some aIkX \<Rightarrow>
        (let bIkX = identityToX25519Private E bIkSeed
         in if bIkX = [] then None
            else
              (let dh1 = dh E spkPriv aIkX; dh2 = dh E bIkX ekA; dh3 = dh E spkPriv ekA
               in if dh1 = [] \<or> dh2 = [] \<or> dh3 = [] then None
                  else
                    (let dh4 = dh E opkPriv ekA;
                         cat = dh1 @ dh2 @ dh3 @ (if opkPriv \<noteq> [] then dh4 else []);
                         sk = X3DH_kdf E cat
                     in if opkPriv \<noteq> [] \<and> dh4 = [] then None
                        else if sk = [] then None else Some sk))))"

section \<open>Agreement\<close>

lemma X3DH_hkdf_eq: "X3DH_hkdf E salt ikm info n = hkdf E salt ikm info n"
  by (simp add: X3DH_hkdf_def hkdf_def Let_def)

lemma dh_commutes:
  "dh_law E \<Longrightarrow> length a = 32 \<Longrightarrow> length b = 32 \<Longrightarrow>
   dh E a (scalarmult_base E b) = dh E b (scalarmult_base E a)"
  by (simp add: dh_def dh_law_def)

lemma identity_facts:
  assumes "identity_law E" "dh_law E" "length seed = 32"
  obtains x where "length x = 32" "identityToX25519Private E seed = x"
    "length (identityPublic E seed) = 32"
    "identityToX25519Public E (identityPublic E seed) = Some (scalarmult_base E x)"
proof -
  from assms obtain pk sk x where "sign_seed_keypair E seed = Some (pk, sk)" "length pk = 32"
      "sign_sk_to_curve25519 E sk = Some x" "length x = 32"
      "sign_pk_to_curve25519 E pk = Some (scalarmult_base E x)"
    unfolding identity_law_def by blast
  with assms(3) have "identityToX25519Private E seed = x" "identityPublic E seed = pk"
    "identityToX25519Public E (identityPublic E seed) = Some (scalarmult_base E x)"
    by (simp_all add: identityToX25519Private_def identityPublic_def identityToX25519Public_def
        secretKeyFromSeed_def)
  with that \<open>length pk = 32\<close> \<open>length x = 32\<close> show ?thesis by simp
qed

lemma sign_verifies:
  assumes "identity_law E" "sign_law E" "length seed = 32"
  shows "verify E (identityPublic E seed) m (sign E seed m)" "length (sign E seed m) = 64"
proof -
  from assms(1,3) obtain pk sk where kp: "sign_seed_keypair E seed = Some (pk, sk)" "length pk = 32"
    unfolding identity_law_def by blast
  with assms(2) obtain g where "sign_detached E m sk = Some g" "length g = 64"
      "sign_verify_detached E g m pk"
    unfolding sign_law_def by blast
  with kp assms(3) show "verify E (identityPublic E seed) m (sign E seed m)" "length (sign E seed m) = 64"
    by (simp_all add: verify_def identityPublic_def sign_def secretKeyFromSeed_def)
qed

lemma X3DH_kdf_nonempty: "hmac_law E \<Longrightarrow> X3DH_kdf E c \<noteq> []"
  using hkdf_length [of E None "kF @ c" kX3dhInfo 32]
  by (auto simp: X3DH_kdf_def X3DH_hkdf_eq)

lemma x3dh_agrees:
  assumes laws: "hmac_law E" "dh_law E" "identity_law E"
    and lens: "length aSeed = 32" "length bSeed = 32" "length spkPriv = 32" "length ekPriv = 32"
    and opk: "opkPriv = [] \<or> length opkPriv = 32"
    and bdl: "ik b = identityPublic E bSeed" "spk b = scalarmult_base E spkPriv"
      "opk b = (if opkPriv = [] then [] else scalarmult_base E opkPriv)"
    and signed: "verify E (ik b) (spk b) (spkSig b)"
  shows "map_option r_sk (initiatorWithEphemeral E aSeed b ekPriv) =
         responder E bSeed spkPriv opkPriv (identityPublic E aSeed) (scalarmult_base E ekPriv)"
proof -
  obtain x where x: "length x = 32" "identityToX25519Private E aSeed = x"
      "length (identityPublic E aSeed) = 32"
      "identityToX25519Public E (identityPublic E aSeed) = Some (scalarmult_base E x)"
    using identity_facts [OF laws(3,2) lens(1)] by metis
  obtain y where y: "length y = 32" "identityToX25519Private E bSeed = y"
      "identityToX25519Public E (identityPublic E bSeed) = Some (scalarmult_base E y)"
    using identity_facts [OF laws(3,2) lens(2)] by metis
  have ne: "x \<noteq> []" "y \<noteq> []" "identityPublic E aSeed \<noteq> []" using x(1,3) y(1) by auto
  have base: "scalarmult_base E a \<noteq> []" for a
    using laws(2) by (metis dh_law_def list.size(3) zero_neq_numeral)
  note comm = dh_commutes [OF laws(2)]
  show ?thesis
    using signed x y ne lens opk base bdl X3DH_kdf_nonempty [OF laws(1)]
      comm [of x spkPriv] comm [of ekPriv y] comm [of ekPriv spkPriv] comm [of ekPriv opkPriv]
    by (auto simp: initiatorWithEphemeral_def responder_def Let_def)
qed

text \<open>C18 (equivalence). For a bundle built from the responder's identity seed, its signed prekey and
  (if any) a one-time prekey, and carrying a signature that verifies, the initiator and the
  responder reach the same verdict and, when they agree at all, the same 32-byte secret.\<close>

theorem x3dh_agreement:
  assumes laws: "hmac_law E" "dh_law E" "identity_law E"
    and lens: "length aSeed = 32" "length bSeed = 32" "length spkPriv = 32" "length ekPriv = 32"
    and opk: "opkPriv = [] \<or> length opkPriv = 32"
    and bdl: "ik b = identityPublic E bSeed" "spk b = scalarmult_base E spkPriv"
      "opk b = (if opkPriv = [] then [] else scalarmult_base E opkPriv)"
    and signed: "verify E (ik b) (spk b) (spkSig b)"
  shows "map_option r_sk (initiatorWithEphemeral E aSeed b ekPriv) =
         responder E bSeed spkPriv opkPriv (identityPublic E aSeed) (scalarmult_base E ekPriv)"
  by (rule x3dh_agrees [OF assms])

definition demoBundle :: Bundle where
  "demoBundle = \<lparr>ik = identityPublic demo (replicate 32 3),
     spk = scalarmult_base demo (replicate 32 5),
     spkSig = sign demo (replicate 32 3) (scalarmult_base demo (replicate 32 5)),
     opk = scalarmult_base demo (replicate 32 7), opkId = 4\<rparr>"

lemma demoBundle_signed: "verify demo (ik demoBundle) (spk demoBundle) (spkSig demoBundle)"
  unfolding demoBundle_def Bundle.simps
  by (rule sign_verifies) (simp_all add: demo_identity_law demo_laws)

theorem x3dh_agreement_witness:
  "map_option r_sk (initiatorWithEphemeral demo (replicate 32 2) demoBundle (replicate 32 11)) =
   responder demo (replicate 32 3) (replicate 32 5) (replicate 32 7)
     (identityPublic demo (replicate 32 2)) (scalarmult_base demo (replicate 32 11))"
  by (rule x3dh_agreement [OF demo_laws(1,2) demo_identity_law _ _ _ _ _ _ _ _ demoBundle_signed])
    (simp_all add: demoBundle_def)

lemma initiator_sends:
  assumes "initiator E aSeed b rnd = Some r"
  shows "verify E (ik b) (spk b) (spkSig b)" "length rnd = 32" "r_ik r = identityPublic E aSeed"
    "r_ek r = scalarmult_base E rnd"
  using assms unfolding initiator_def initiatorWithEphemeral_def Let_def
  by (simp_all split: if_splits option.splits) auto

text \<open>The initiator computes nothing from a bundle whose signed prekey does not
  verify under the bundle's own identity key; on success the secret has 32 bytes and the values to
  transmit are the initiator's identity, its ephemeral public key and the consumed prekey id.\<close>

theorem initiator_success:
  assumes "hmac_law E" "initiator E aSeed b rnd = Some r"
  shows "verify E (ik b) (spk b) (spkSig b) \<and> length rnd = 32 \<and> length (r_sk r) = 32 \<and>
    r_ik r = identityPublic E aSeed \<and> r_ek r = scalarmult_base E rnd \<and>
    r_ad r = identityPublic E aSeed @ ik b \<and>
    r_opkId r = (if opk b = [] then - 1 else opkId b)"
proof -
  have len: "length (X3DH_kdf E c) = 32" for c
    using assms(1) by (simp add: X3DH_kdf_def X3DH_hkdf_eq hkdf_length)
  show ?thesis using assms(2) unfolding initiator_def initiatorWithEphemeral_def Let_def
    by (simp split: if_splits option.splits) (auto simp: len)
qed

theorem initiator_success_witness:
  "\<exists>r. initiator demo (replicate 32 2) demoBundle (replicate 32 11) = Some r \<and>
     length (r_sk r) = 32 \<and> r_opkId r = 4"
proof -
  have "initiator demo (replicate 32 2) demoBundle (replicate 32 11) \<noteq> None"
    using demoBundle_signed X3DH_kdf_nonempty [OF demo_laws(1)]
    by (simp add: initiator_def initiatorWithEphemeral_def demoBundle_def Let_def identityPublic_def
        secretKeyFromSeed_def identityToX25519Private_def identityToX25519Public_def demo_def)
      (simp add: dh_def demo_def)
  then obtain r where r: "initiator demo (replicate 32 2) demoBundle (replicate 32 11) = Some r"
    by blast
  with initiator_success [OF demo_laws(1) r] show ?thesis
    by (simp add: demoBundle_def demo_def)
qed

end
