(* ===== verification/Session.thy ===== *)
theory Session
  imports X3DH
begin

text \<open>
  One message through one session: the bodies of \<open>CryptoBox::encryptFor\<close> and
  \<open>CryptoBox::decryptFrom\<close> once the session has been looked up (\<^verbatim>\<open>client/src/cryptobox.cpp\<close>), on
  byte strings; the hexadecimal wire form and the session table are added in the theory of the
  box. A frame carries what the wire header carries.

  The lemmas follow a conversation: a chain of messages decrypts in whatever order its frames
  arrive, the first frame of a new generation ratchets the receiver into step with the sender and
  leaves it ready to answer, and the store of skipped keys keeps its bound throughout.
\<close>

record frame =
  f_cipher :: bytes
  f_dh :: bytes
  f_pn :: u32
  f_n :: u32
  f_nonce :: bytes
  f_ct :: bytes

definition encryptStep ::
  "external \<Rightarrow> RatchetSession \<Rightarrow> bytes \<Rightarrow> bytes \<Rightarrow> (RatchetSession \<times> frame) option" where
  "encryptStep E s nonce plaintext =
     (if CKs s = [] then None
      else
        (let cipher = kCipherXchacha;
             (ckNext, mk) = kdfCk E (CKs s);
             s1 = s\<lparr>CKs := ckNext\<rparr>;
             pn = PN s1; n = Ns s1;
             ad = adBytes cipher (DHs_pub s1) pn n;
             ct = aeadEncrypt E cipher mk nonce plaintext ad
         in Some (s1\<lparr>Ns := Ns s1 + 1\<rparr>,
                  \<lparr>f_cipher = cipher, f_dh = DHs_pub s1, f_pn = pn, f_n = n, f_nonce = nonce,
                   f_ct = ct\<rparr>)))"

text \<open>Steps 2 and 3 of the decryption, on the working copy: ratchet on a new peer key after
  skipping the tail of the old chain, then skip to the index of this message.\<close>

definition advanceTo :: "external \<Rightarrow> bytes \<Rightarrow> RatchetSession \<Rightarrow> frame \<Rightarrow> RatchetSession option" where
  "advanceTo E rnd s f =
     (case (if \<not> haveDHr s \<or> f_dh f \<noteq> DHr_pub s then
              (case skipTo E s (f_pn f) of None \<Rightarrow> None | Some w \<Rightarrow> Some (dhRatchet E rnd w (f_dh f)))
            else Some s) of
        None \<Rightarrow> None
      | Some work \<Rightarrow> skipTo E work (f_n f))"

definition decryptStep ::
  "external \<Rightarrow> bytes \<Rightarrow> RatchetSession \<Rightarrow> frame \<Rightarrow> (RatchetSession \<times> bytes) option" where
  "decryptStep E rnd s f =
     (let ad = adBytes (f_cipher f) (f_dh f) (f_pn f) (f_n f);
          sk = skipKey (f_dh f) (f_n f)
      in case map_of (skipped s) sk of
           Some mk \<Rightarrow>
             (case aeadDecrypt E (f_cipher f) mk (f_nonce f) (f_ct f) ad of
                None \<Rightarrow> None
              | Some pt \<Rightarrow> Some (s\<lparr>skipped := AList.delete sk (skipped s)\<rparr>, pt))
         | None \<Rightarrow>
             (case advanceTo E rnd s f of
                None \<Rightarrow> None
              | Some work \<Rightarrow>
                  (let (ckNext, mk) = kdfCk E (CKr work);
                       work' = work\<lparr>CKr := ckNext, Nr := Nr work + 1\<rparr>
                   in case aeadDecrypt E (f_cipher f) mk (f_nonce f) (f_ct f) ad of
                        None \<Rightarrow> None
                      | Some pt \<Rightarrow> Some (work', pt))))"

section \<open>The store of skipped keys across a decryption\<close>

definition store_ok :: "RatchetSession \<Rightarrow> bool" where
  "store_ok s \<longleftrightarrow> hash_ok (skipped s) \<and> length (skipped s) \<le> kMaxSkippedTotal"

definition fresh_generation :: "RatchetSession \<Rightarrow> frame \<Rightarrow> bool" where
  "fresh_generation s f \<longleftrightarrow> \<not> haveDHr s \<or> f_dh f \<noteq> DHr_pub s"

lemma advanceTo_cases:
  assumes "advanceTo E rnd s f = Some w"
  obtains (same) "\<not> fresh_generation s f" "skipTo E s (f_n f) = Some w"
  | (ratchet) v where "fresh_generation s f" "skipTo E s (f_pn f) = Some v"
      "skipTo E (dhRatchet E rnd v (f_dh f)) (f_n f) = Some w"
  using assms
  by (auto simp: advanceTo_def fresh_generation_def split: if_splits option.splits)

lemma advanceTo_store:
  assumes "hash_order_law E" "store_ok s" "advanceTo E rnd s f = Some w"
  shows "store_ok w"
  using assms(3)
proof (cases rule: advanceTo_cases)
  case same
  then show ?thesis using skipTo_store [of E s "f_n f" w] assms(1,2) by (simp add: store_ok_def)
next
  case (ratchet v)
  have "hash_ok (skipped v)"
    using skipTo_store(1) [OF ratchet(2) assms(1)] assms(2) by (simp add: store_ok_def)
  then show ?thesis
    using skipTo_store [OF ratchet(3) assms(1)] dhRatchet_store [OF assms(1), of v rnd "f_dh f"]
    by (simp add: store_ok_def)
qed

lemma decryptStep_store:
  assumes "hash_order_law E" "store_ok s" "decryptStep E rnd s f = Some (s', pt)"
  shows "store_ok s'"
proof (cases "map_of (skipped s) (skipKey (f_dh f) (f_n f))")
  case None
  with assms(3) obtain w where "advanceTo E rnd s f = Some w" "skipped s' = skipped w"
    by (auto simp: decryptStep_def Let_def case_prod_beta split: option.splits)
  with advanceTo_store [OF assms(1,2)] show ?thesis by (simp add: store_ok_def)
next
  case (Some mk)
  with assms show ?thesis
    by (auto simp: decryptStep_def store_ok_def hash_ok_def AList.distinct_delete
        intro: le_trans [OF AList.length_delete_le] split: option.splits)
qed

section \<open>A chain of messages, delivered in any order\<close>

lemma skipKey_eq_iff [simp]: "skipKey g a = skipKey g b \<longleftrightarrow> a = b"
  using c32.enc_inj [of a b] by (auto simp: skipKey_def)

lemma bank_snoc: "bank E g n ck (Suc d) = bank E g n ck d @ [(skipKey g (n + of_nat d), msgKey E ck d)]"
  by (simp add: bank_def)

lemma putAll_bank_out:
  "(\<And>i. i < d \<Longrightarrow> k \<noteq> skipKey g (n + of_nat i)) \<Longrightarrow>
   map_of (putAll (bank E g n ck d) ps) k = map_of ps k"
  by (induction d) (simp_all add: bank_snoc AList.update_conv', simp add: bank_def)

lemma putAll_bank_length: "length (putAll (bank E g n ck d) ps) \<le> length ps + d"
proof (induction d)
  case (Suc d)
  show ?case
    using Suc hash_update_length [of "skipKey g (n + of_nat d)" "msgKey E ck d"
        "putAll (bank E g n ck d) ps"]
    by (simp add: bank_snoc)
qed (simp add: bank_def)

lemma of_nat_window:
  assumes "i < 2 ^ 32" "j < 2 ^ 32"
  shows "(of_nat i :: u32) = of_nat j \<longleftrightarrow> i = j"
proof -
  have "unat (of_nat i :: u32) = i" "unat (of_nat j :: u32) = j"
    using assms by (simp_all add: unat_of_nat)
  then show ?thesis by metis
qed

lemma window_eq_iff:
  assumes "unat (n0 :: u32) + K < 2 ^ 32" "i < K" "j < K"
  shows "n0 + of_nat i = n0 + of_nat j \<longleftrightarrow> i = j"
  using assms of_nat_window [of i j] by simp

lemma window_unat:
  assumes "unat (n0 :: u32) + i < 2 ^ 32"
  shows "unat (n0 + of_nat i) = unat n0 + i"
  using assms by (simp add: unat_word_ariths unat_of_nat)

lemma putAll_bank_in:
  assumes "i < d" "unat n + d < 2 ^ 32"
  shows "map_of (putAll (bank E g n ck d) ps) (skipKey g (n + of_nat i)) = Some (msgKey E ck i)"
  using assms
proof (induction d)
  case (Suc d)
  show ?case
  proof (cases "i = d")
    case False
    with Suc.prems have "n + of_nat i \<noteq> n + (of_nat d :: u32)"
      using window_eq_iff [of n "Suc d" i d] by simp
    with Suc False show ?thesis by (simp add: bank_snoc AList.update_conv')
  qed (simp add: bank_snoc AList.update_conv')
qed simp

text \<open>The receiver's view of one sending chain that starts at chain key \<open>ck\<close> and index \<open>n0\<close>, of
  which \<open>K\<close> messages may be outstanding: the receiving chain stands at message \<open>m\<close>, the messages
  in \<open>D\<close> have been delivered, the keys of the others below \<open>m\<close> are banked, and the store never
  exceeds \<open>B\<close> entries on the way.\<close>

definition rx_inv ::
  "nat \<Rightarrow> external \<Rightarrow> bytes \<Rightarrow> bytes \<Rightarrow> u32 \<Rightarrow> nat \<Rightarrow> nat set \<Rightarrow> nat \<Rightarrow> RatchetSession \<Rightarrow> bool" where
  "rx_inv B E g ck n0 K D m r \<longleftrightarrow>
     haveDHr r \<and> DHr_pub r = g \<and> CKr r = chainKey E ck m \<and> Nr r = n0 + of_nat m \<and>
     m \<le> K \<and> D \<subseteq> {..<m} \<and> hash_ok (skipped r) \<and>
     length (skipped r) + (K - m) \<le> B \<and> B \<le> kMaxSkippedTotal \<and>
     (\<forall>j<K. j \<notin> D \<longrightarrow> map_of (skipped r) (skipKey g (n0 + of_nat j)) =
        (if j < m then Some (msgKey E ck j) else None))"

lemma rx_invD:
  assumes "rx_inv B E g ck n0 K D m r"
  shows "length (skipped r) + (K - m) \<le> B \<and> B \<le> kMaxSkippedTotal" "hash_ok (skipped r)" "D \<subseteq> {..<m}" "m \<le> K"
    "\<And>j. j < K \<Longrightarrow> j \<notin> D \<Longrightarrow> map_of (skipped r) (skipKey g (n0 + of_nat j)) =
       (if j < m then Some (msgKey E ck j) else None)"
  using assms unfolding rx_inv_def by blast+

definition chain_frame :: "external \<Rightarrow> bytes \<Rightarrow> bytes \<Rightarrow> u32 \<Rightarrow> nat \<Rightarrow> bytes \<Rightarrow> frame \<Rightarrow> bool" where
  "chain_frame E g ck n0 j pt f \<longleftrightarrow>
     f_dh f = g \<and> f_n f = n0 + of_nat j \<and>
     f_ct f = aeadEncrypt E (f_cipher f) (msgKey E ck j) (f_nonce f) pt
                (adBytes (f_cipher f) (f_dh f) (f_pn f) (f_n f))"

definition window_ok :: "u32 \<Rightarrow> nat \<Rightarrow> bool" where
  "window_ok n0 K \<longleftrightarrow> K \<le> 1001 \<and> unat n0 + K + 1000 < 2 ^ 32"

lemma aead_roundtrip:
  "aead_law E \<Longrightarrow> aeadDecrypt E c k n (aeadEncrypt E c k n pt ad) ad = Some pt"
  by (simp add: aead_law_def aeadDecrypt_def aeadEncrypt_def)

lemma chainKey_add: "chainKey E (chainKey E ck a) b = chainKey E ck (a + b)"
  by (simp add: chainKey_def funpow_add add.commute [of a b])

lemma msgKey_add: "msgKey E (chainKey E ck a) b = msgKey E ck (a + b)"
  by (simp add: msgKey_def chainKey_add)

lemma rx_banked:
  assumes inv: "rx_inv B E g ck n0 K D m r" and j: "j < m" "j \<notin> D"
    and win: "window_ok n0 K" and f: "chain_frame E g ck n0 j pt f" and law: "aead_law E"
  shows "\<exists>r'. decryptStep E rnd r f = Some (r', pt) \<and> rx_inv B E g ck n0 K (insert j D) m r' \<and>
     CKs r' = CKs r \<and> RK r' = RK r \<and> DHs_priv r' = DHs_priv r \<and> DHs_pub r' = DHs_pub r \<and>
     Ns r' = Ns r \<and> PN r' = PN r"
proof -
  let ?k = "skipKey g (n0 + of_nat j)"
  have K: "j < K" "unat n0 + K < 2 ^ 32" using inv j win by (auto simp: rx_inv_def window_ok_def)
  have "map_of (skipped r) ?k = Some (msgKey E ck j)" using inv j K by (simp add: rx_inv_def)
  then have "decryptStep E rnd r f = Some (r\<lparr>skipped := AList.delete ?k (skipped r)\<rparr>, pt)"
    using f law by (simp add: decryptStep_def chain_frame_def Let_def aead_roundtrip)
  moreover have "rx_inv B E g ck n0 K (insert j D) m (r\<lparr>skipped := AList.delete ?k (skipped r)\<rparr>)"
    using inv j K AList.length_delete_le [of ?k "skipped r"]
    by (auto simp: rx_inv_def hash_ok_def AList.distinct_delete AList.delete_conv' of_nat_window)
  ultimately show ?thesis by simp
qed

lemma skipTo_chain:
  assumes inv: "rx_inv B E g ck n0 K D m r" and j: "m \<le> j" "j < K" and win: "window_ok n0 K"
    and ne: "ck \<noteq> []" and laws: "hmac_law E"
  shows "skipTo E r (n0 + of_nat j) = Some (r\<lparr>CKr := chainKey E ck j, Nr := n0 + of_nat j,
     skipped := putAll (bank E g (n0 + of_nat m) (chainKey E ck m) (j - m)) (skipped r)\<rparr>)"
proof -
  have w: "unat n0 + K + 1000 < 2 ^ 32" "K \<le> 1001" using win by (simp_all add: window_ok_def)
  have un: "unat (n0 + of_nat m :: u32) = unat n0 + m" "unat (n0 + of_nat j :: u32) = unat n0 + j"
    using w j by (simp_all add: window_unat)
  have "unat (n0 + of_nat m + kMaxSkip) = unat n0 + m + 1000"
    using w j un by (simp add: unat_word_ariths kMaxSkip_def)
  then have nodos: "\<not> n0 + of_nat m + kMaxSkip < n0 + of_nat j"
    using w j un by (simp add: word_less_nat_alt)
  have "skipLoop E (n0 + of_nat j) r = r\<lparr>CKr := chainKey E ck j, Nr := n0 + of_nat j,
     skipped := putAll (bank E g (n0 + of_nat m) (chainKey E ck m) (j - m)) (skipped r)\<rparr>"
    using inv j un
    by (subst skipLoop_closed [where d = "j - m"])
      (auto simp: rx_inv_def word_le_nat_alt chainKey_add)
  moreover have "length (putAll (bank E g (n0 + of_nat m) (chainKey E ck m) (j - m)) (skipped r))
      \<le> kMaxSkippedTotal"
    using putAll_bank_length [of E g "n0 + of_nat m" "chainKey E ck m" "j - m" "skipped r"]
      rx_invD(1) [OF inv] j by linarith
  ultimately show ?thesis
    using inv nodos chainKey_nonempty [OF laws ne, of m]
    by (simp add: skipTo_def rx_inv_def enforceSkippedCap_noop)
qed

lemma rx_inv_skip:
  assumes inv: "rx_inv B E g ck n0 K D m r" and j: "m \<le> j" "j < K" and win: "window_ok n0 K"
  shows "rx_inv B E g ck n0 K (insert j D) (Suc j) (r\<lparr>CKr := chainKey E ck (Suc j),
     Nr := n0 + of_nat j + 1,
     skipped := putAll (bank E g (n0 + of_nat m) (chainKey E ck m) (j - m)) (skipped r)\<rparr>)"
proof -
  let ?ps = "putAll (bank E g (n0 + of_nat m) (chainKey E ck m) (j - m)) (skipped r)"
  have w: "unat n0 + K < 2 ^ 32" using win by (simp add: window_ok_def)
  have um: "unat (n0 + of_nat m :: u32) = unat n0 + m" using w j by (simp add: window_unat)
  have idx: "map_of ?ps (skipKey g (n0 + of_nat i)) = (if i < Suc j then Some (msgKey E ck i) else None)"
    if i: "i < K" "i \<notin> insert j D" for i
  proof (cases "m \<le> i \<and> i < j")
    case True
    then have "map_of ?ps (skipKey g (n0 + of_nat m + of_nat (i - m))) =
        Some (msgKey E (chainKey E ck m) (i - m))"
      using w um j by (intro putAll_bank_in) auto
    with True show ?thesis by (simp add: msgKey_add of_nat_diff)
  next
    case False
    have "map_of ?ps (skipKey g (n0 + of_nat i)) = map_of (skipped r) (skipKey g (n0 + of_nat i))"
    proof (rule putAll_bank_out)
      fix l assume l: "l < j - m"
      then have "n0 + of_nat i \<noteq> (n0 + of_nat (m + l) :: u32)"
        using False i j by (subst window_eq_iff [OF w]) auto
      then show "skipKey g (n0 + of_nat i) \<noteq> skipKey g (n0 + of_nat m + of_nat l)"
        by (simp add: add.assoc)
    qed
    with False inv i j show ?thesis by (auto simp: rx_inv_def)
  qed
  have "hash_ok ?ps" using inv by (simp add: rx_inv_def qhash.ok_fold_insert)
  moreover have "length ?ps + (K - Suc j) \<le> B \<and> B \<le> kMaxSkippedTotal"
    using putAll_bank_length [of E g "n0 + of_nat m" "chainKey E ck m" "j - m" "skipped r"]
      rx_invD(1) [OF inv] j by linarith
  ultimately show ?thesis
    using inv j idx by (auto simp: rx_inv_def add.assoc)
qed

lemma rx_ahead:
  assumes inv: "rx_inv B E g ck n0 K D m r" and j: "m \<le> j" "j < K"
    and win: "window_ok n0 K" and f: "chain_frame E g ck n0 j pt f"
    and laws: "aead_law E" "hmac_law E" and ne: "ck \<noteq> []"
  shows "\<exists>r'. decryptStep E rnd r f = Some (r', pt) \<and> rx_inv B E g ck n0 K (insert j D) (Suc j) r' \<and>
     CKs r' = CKs r \<and> RK r' = RK r \<and> DHs_priv r' = DHs_priv r \<and> DHs_pub r' = DHs_pub r \<and>
     Ns r' = Ns r \<and> PN r' = PN r"
proof -
  have "j \<notin> D" using rx_invD(3) [OF inv] j by auto
  then have nb: "map_of (skipped r) (skipKey g (n0 + of_nat j)) = None"
    using rx_invD(5) [OF inv j(2)] j by simp
  have g: "haveDHr r" "DHr_pub r = g" using inv by (simp_all add: rx_inv_def)
  have adv: "advanceTo E rnd r f = Some (r\<lparr>CKr := chainKey E ck j, Nr := n0 + of_nat j,
     skipped := putAll (bank E g (n0 + of_nat m) (chainKey E ck m) (j - m)) (skipped r)\<rparr>)"
    using f g skipTo_chain [OF inv j win ne laws(2)] by (simp add: advanceTo_def chain_frame_def)
  have "decryptStep E rnd r f = Some (r\<lparr>CKr := chainKey E ck (Suc j), Nr := n0 + of_nat j + 1,
     skipped := putAll (bank E g (n0 + of_nat m) (chainKey E ck m) (j - m)) (skipped r)\<rparr>, pt)"
    using nb f adv laws(1)
    by (simp add: decryptStep_def Let_def chain_frame_def case_prod_beta chainKey_step aead_roundtrip
        flip: msgKey_def)
  with rx_inv_skip [OF inv j win] show ?thesis by simp
qed

fun sendAll ::
  "external \<Rightarrow> RatchetSession \<Rightarrow> (bytes \<times> bytes) list \<Rightarrow> (RatchetSession \<times> frame list) option" where
  "sendAll E s [] = Some (s, [])"
| "sendAll E s (m # ms) =
     (case encryptStep E s (fst m) (snd m) of None \<Rightarrow> None
      | Some (s', f) \<Rightarrow> map_option (\<lambda>(s'', fs). (s'', f # fs)) (sendAll E s' ms))"

fun recvAll ::
  "external \<Rightarrow> RatchetSession \<Rightarrow> (bytes \<times> frame) list \<Rightarrow> (RatchetSession \<times> bytes list) option" where
  "recvAll E r [] = Some (r, [])"
| "recvAll E r (x # xs) =
     (case decryptStep E (fst x) r (snd x) of None \<Rightarrow> None
      | Some (r', pt) \<Rightarrow> map_option (\<lambda>(r'', pts). (r'', pt # pts)) (recvAll E r' xs))"

definition same_send :: "RatchetSession \<Rightarrow> RatchetSession \<Rightarrow> bool" where
  "same_send r r' \<longleftrightarrow> CKs r' = CKs r \<and> RK r' = RK r \<and> DHs_priv r' = DHs_priv r \<and>
     DHs_pub r' = DHs_pub r \<and> Ns r' = Ns r \<and> PN r' = PN r"

lemma rx_step:
  assumes "rx_inv B E g ck n0 K D m r" "j < K" "j \<notin> D" "window_ok n0 K"
    "chain_frame E g ck n0 j pt f" "aead_law E" "hmac_law E" "ck \<noteq> []"
  shows "\<exists>r' m'. decryptStep E rnd r f = Some (r', pt) \<and> rx_inv B E g ck n0 K (insert j D) m' r' \<and>
     same_send r r'"
  using rx_banked [OF assms(1) _ assms(3-6), of rnd] rx_ahead [OF assms(1) _ assms(2,4-8), of rnd]
  unfolding same_send_def by (meson not_le)

lemma recvAll_any_order:
  assumes "window_ok n0 K" "aead_law E" "hmac_law E" "ck \<noteq> []"
  shows "rx_inv B E g ck n0 K D m r \<Longrightarrow> distinct js \<Longrightarrow> set js \<subseteq> {..<K} - D \<Longrightarrow>
    (\<And>j. j \<in> set js \<Longrightarrow> chain_frame E g ck n0 j (pts j) (fr j)) \<Longrightarrow>
    \<exists>r' m'. recvAll E r (map (\<lambda>j. (rnd j, fr j)) js) = Some (r', map pts js) \<and>
      rx_inv B E g ck n0 K (D \<union> set js) m' r' \<and> same_send r r'"
proof (induction js arbitrary: D m r)
  case Nil
  then show ?case by (auto simp: same_send_def)
next
  case (Cons j js)
  obtain r1 m1 where 1: "decryptStep E (rnd j) r (fr j) = Some (r1, pts j)"
      "rx_inv B E g ck n0 K (insert j D) m1 r1" "same_send r r1"
    using rx_step [OF Cons.prems(1) _ _ assms(1) _ assms(2-4), of j "pts j" "fr j" "rnd j"] Cons.prems
    by auto
  obtain r2 m2 where "recvAll E r1 (map (\<lambda>j. (rnd j, fr j)) js) = Some (r2, map pts js)"
      "rx_inv B E g ck n0 K (insert j D \<union> set js) m2 r2" "same_send r1 r2"
    using Cons.IH [OF 1(2)] Cons.prems by fastforce
  with 1 show ?case by (auto simp: same_send_def)
qed

lemma encryptStep_Some:
  assumes "CKs s \<noteq> []"
  shows "\<exists>f. encryptStep E s nonce pt = Some (s\<lparr>CKs := chainKey E (CKs s) 1, Ns := Ns s + 1\<rparr>, f) \<and>
     chain_frame E (DHs_pub s) (CKs s) (Ns s) 0 pt f \<and> f_pn f = PN s"
  using assms
  by (simp add: encryptStep_def Let_def case_prod_beta chain_frame_def msgKey_def chainKey_Suc)

lemma chain_frame_Suc:
  "chain_frame E g (chainKey E ck (Suc 0)) (n + 1) j pt f \<longleftrightarrow> chain_frame E g ck n (Suc j) pt f"
  by (simp add: chain_frame_def msgKey_add add.assoc)

lemma sendAll_frames:
  assumes "hmac_law E" "CKs s \<noteq> []"
  shows "\<exists>s' fs. sendAll E s ms = Some (s', fs) \<and> length fs = length ms \<and>
    s' = s\<lparr>CKs := chainKey E (CKs s) (length ms), Ns := Ns s + of_nat (length ms)\<rparr> \<and>
    (\<forall>j<length ms. chain_frame E (DHs_pub s) (CKs s) (Ns s) j (snd (ms ! j)) (fs ! j) \<and>
       f_pn (fs ! j) = PN s)"
  using assms(2)
proof (induction ms arbitrary: s)
  case (Cons m ms)
  let ?s1 = "s\<lparr>CKs := chainKey E (CKs s) 1, Ns := Ns s + 1\<rparr>"
  obtain f where f: "encryptStep E s (fst m) (snd m) = Some (?s1, f)"
      "chain_frame E (DHs_pub s) (CKs s) (Ns s) 0 (snd m) f" "f_pn f = PN s"
    using encryptStep_Some [OF Cons.prems] by blast
  have ne: "CKs ?s1 \<noteq> []" using chainKey_nonempty [OF assms(1) Cons.prems] by simp
  obtain fs where fs: "sendAll E ?s1 ms = Some (?s1\<lparr>CKs := chainKey E (CKs ?s1) (length ms),
        Ns := Ns ?s1 + of_nat (length ms)\<rparr>, fs)" "length fs = length ms"
      "\<forall>j<length ms. chain_frame E (DHs_pub s) (chainKey E (CKs s) 1) (Ns s + 1) j (snd (ms ! j)) (fs ! j)
         \<and> f_pn (fs ! j) = PN s"
    using Cons.IH [OF ne] by auto
  have "\<forall>j<length (m # ms). chain_frame E (DHs_pub s) (CKs s) (Ns s) j (snd ((m # ms) ! j)) ((f # fs) ! j)
         \<and> f_pn ((f # fs) ! j) = PN s"
    using fs(3) f(2,3) by (auto simp: less_Suc_eq_0_disj chain_frame_Suc)
  with f(1) fs(1,2) show ?case by (simp add: chainKey_add add.assoc)
qed simp

text \<open>A receiver whose chain stands where the sender's does decrypts every message
  of a run of up to 1001, in whatever order the frames arrive and even if some never do; when all
  have arrived the two chains stand together again.\<close>

theorem any_order_delivery:
  assumes laws: "hmac_law E" "aead_law E"
    and sync: "haveDHr r" "DHr_pub r = DHs_pub s" "CKr r = CKs s" "CKs s \<noteq> []" "Nr r = Ns s"
    and store: "hash_ok (skipped r)" "length (skipped r) + length ms \<le> kMaxSkippedTotal"
      "\<forall>j<length ms. map_of (skipped r) (skipKey (DHs_pub s) (Ns s + of_nat j)) = None"
    and win: "window_ok (Ns s) (length ms)"
    and js: "distinct js" "set js \<subseteq> {..<length ms}"
  shows "\<exists>s' fs r'. sendAll E s ms = Some (s', fs) \<and>
     recvAll E r (map (\<lambda>j. (rnd j, fs ! j)) js) = Some (r', map (\<lambda>j. snd (ms ! j)) js) \<and>
     (set js = {..<length ms} \<longrightarrow> CKr r' = CKs s' \<and> Nr r' = Ns s' \<and> DHr_pub r' = DHs_pub s')"
proof -
  obtain s' fs where fs: "sendAll E s ms = Some (s', fs)"
      "s' = s\<lparr>CKs := chainKey E (CKs s) (length ms), Ns := Ns s + of_nat (length ms)\<rparr>"
      "\<forall>j<length ms. chain_frame E (DHs_pub s) (CKs s) (Ns s) j (snd (ms ! j)) (fs ! j)"
    using sendAll_frames [OF laws(1) sync(4), of ms] by blast
  have "rx_inv kMaxSkippedTotal E (DHs_pub s) (CKs s) (Ns s) (length ms) {} 0 r"
    using sync store by (simp add: rx_inv_def)
  then obtain r' m' where r': "recvAll E r (map (\<lambda>j. (rnd j, fs ! j)) js) = Some (r', map (\<lambda>j. snd (ms ! j)) js)"
      "rx_inv kMaxSkippedTotal E (DHs_pub s) (CKs s) (Ns s) (length ms) (set js) m' r'"
    using recvAll_any_order [OF win laws(2,1) sync(4) _ js(1), of kMaxSkippedTotal "DHs_pub s" "{}" 0 r
        "\<lambda>j. snd (ms ! j)" "(!) fs" rnd] js(2) fs(3) by auto
  moreover have "m' = length ms" if "set js = {..<length ms}"
    using rx_invD(3,4) [OF r'(2)] that by auto
  ultimately show ?thesis using fs(1,2) by (auto simp: rx_inv_def)
qed

definition demoSender :: RatchetSession where
  "demoSender = newRatchetSession\<lparr>DHs_pub := replicate 32 1, CKs := replicate 32 5\<rparr>"

definition demoReceiver :: RatchetSession where
  "demoReceiver = newRatchetSession\<lparr>haveDHr := True, DHr_pub := replicate 32 1, CKr := replicate 32 5\<rparr>"

theorem any_order_delivery_witness:
  "\<exists>s' fs r'. sendAll demo demoSender [([], [10]), ([], [20]), ([], [30])] = Some (s', fs) \<and>
     recvAll demo demoReceiver (map (\<lambda>j. ([], fs ! j)) [2, 0, 1]) = Some (r', [[30], [10], [20]])"
proof -
  let ?ms = "[([], [10]), ([], [20]), ([], [30])] :: (bytes \<times> bytes) list"
  have "\<exists>s' fs r'. sendAll demo demoSender ?ms = Some (s', fs) \<and>
     recvAll demo demoReceiver (map (\<lambda>j. ([], fs ! j)) [2, 0, 1]) =
       Some (r', map (\<lambda>j. snd (?ms ! j)) [2, 0, 1]) \<and>
     (set [2, 0, 1] = {..<length ?ms} \<longrightarrow> CKr r' = CKs s' \<and> Nr r' = Ns s' \<and> DHr_pub r' = DHs_pub s')"
    by (rule any_order_delivery [OF demo_laws(1,3), where rnd = "\<lambda>_. []"])
      (auto simp: demoSender_def demoReceiver_def newRatchetSession_def hash_ok_def
        kMaxSkippedTotal_def kMaxSkip_def window_ok_def)
  then show ?thesis by auto
qed

section \<open>A new generation\<close>

text \<open>\<open>offers E s r\<close>: the sending chain of \<open>s\<close> was derived from the root key and the ratchet key
  of \<open>r\<close>, and \<open>r\<close> has not yet seen the ratchet key of \<open>s\<close>. It is the state of the two sides when
  \<open>s\<close> holds the turn.\<close>

definition offers :: "external \<Rightarrow> RatchetSession \<Rightarrow> RatchetSession \<Rightarrow> bool" where
  "offers E s r \<longleftrightarrow>
     length (DHs_priv s) = 32 \<and> DHs_pub s = scalarmult_base E (DHs_priv s) \<and>
     length (DHs_priv r) = 32 \<and> DHs_pub r = scalarmult_base E (DHs_priv r) \<and>
     (RK s, CKs s) = kdfRk E (RK r) (dhFn E (DHs_priv s) (DHs_pub r)) \<and> Ns s = 0 \<and>
     (\<not> haveDHr r \<or> DHs_pub s \<noteq> DHr_pub r) \<and>
     (CKr r = [] \<or> length (DHr_pub r) = 32 \<and> DHs_pub s \<noteq> DHr_pub r)"

lemma offersD:
  assumes "offers E s r"
  shows "DHs_pub s = scalarmult_base E (DHs_priv s)" "\<not> haveDHr r \<or> DHs_pub s \<noteq> DHr_pub r"
    "CKr r = [] \<or> length (DHr_pub r) = 32 \<and> DHs_pub s \<noteq> DHr_pub r" "Ns s = 0"
    "(RK s, CKs s) = kdfRk E (RK r) (dhFn E (DHs_priv s) (DHs_pub r))"
  using assms unfolding offers_def by blast+

definition unseen_generation :: "bytes \<Rightarrow> RatchetSession \<Rightarrow> bool" where
  "unseen_generation g r \<longleftrightarrow> (\<forall>e \<in> set (skipped r). take (length g) (fst e) \<noteq> g)"

lemma dhFn_commutes:
  "dh_law E \<Longrightarrow> length a = 32 \<Longrightarrow> length b = 32 \<Longrightarrow>
   dhFn E a (scalarmult_base E b) = dhFn E b (scalarmult_base E a)"
  by (simp add: dhFn_def dh_law_def)

lemma offers_ratchet:
  assumes "dh_law E" "offers E s r" "RK w = RK r" "DHs_priv w = DHs_priv r"
  shows "CKr (dhRatchet E rnd w (DHs_pub s)) = CKs s"
    and "(RK (dhRatchet E rnd w (DHs_pub s)), CKs (dhRatchet E rnd w (DHs_pub s))) =
           kdfRk E (RK s) (dhFn E rnd (DHs_pub s))"
proof -
  have "dhFn E (DHs_priv r) (DHs_pub s) = dhFn E (DHs_priv s) (DHs_pub r)"
    using assms(1,2) dhFn_commutes [of E "DHs_priv r" "DHs_priv s"] by (simp add: offers_def)
  with assms(2-4) have "kdfRk E (RK w) (dhFn E (DHs_priv w) (DHs_pub s)) = (RK s, CKs s)"
    by (simp add: offers_def)
  then show "CKr (dhRatchet E rnd w (DHs_pub s)) = CKs s"
    "(RK (dhRatchet E rnd w (DHs_pub s)), CKs (dhRatchet E rnd w (DHs_pub s))) =
       kdfRk E (RK s) (dhFn E rnd (DHs_pub s))"
    using dhRatchet_fields [of E rnd w "DHs_pub s"] by simp_all
qed

lemma putAll_set: "set (putAll kvs ps) \<subseteq> set kvs \<union> set ps"
proof (induction kvs arbitrary: ps)
  case (Cons kv kvs)
  have "set (AList.update (fst kv) (snd kv) ps) \<subseteq> insert kv (set ps)"
    by (induction ps) auto
  with Cons [of "AList.update (fst kv) (snd kv) ps"] show ?case by (auto simp: case_prod_beta)
qed simp

lemma skipTo_entries:
  assumes "hash_order_law E" "skipTo E r n = Some w"
  shows "set (skipped w) \<subseteq>
    set (bank E (DHr_pub r) (Nr r) (CKr r) (unat n - unat (Nr r))) \<union> set (skipped r)"
proof -
  have "set (skipped (skipLoop E n r)) \<subseteq>
      set (bank E (DHr_pub r) (Nr r) (CKr r) (unat n - unat (Nr r))) \<union> set (skipped r)"
    using putAll_set
    by (cases "Nr r \<le> n") (simp_all add: skipLoop_closed skipLoop_stop not_le not_less)
  with assms enforceSkippedCap_set [OF assms(1), of "skipLoop E n r" "DHr_pub r"] show ?thesis
    by (auto simp: skipTo_def split: if_splits)
qed

lemma skipTo_unseen:
  assumes "hash_order_law E" "skipTo E r n = Some w" "unseen_generation g r" "length g = 32"
    "CKr r = [] \<or> length (DHr_pub r) = 32 \<and> g \<noteq> DHr_pub r"
  shows "unseen_generation g w"
proof (cases "CKr r = []")
  case True
  with assms(2,3) show ?thesis by (auto simp: skipTo_def split: if_splits)
next
  case False
  with skipTo_entries [OF assms(1,2)] assms(3-5) show ?thesis
    by (fastforce simp: unseen_generation_def bank_def skipKey_def)
qed

lemma unseen_lookup:
  "unseen_generation g r \<Longrightarrow> map_of (skipped r) (skipKey g n) = None"
  by (fastforce simp: unseen_generation_def map_of_eq_None_iff skipKey_def)

lemma dhRatchet_unseen:
  "hash_order_law E \<Longrightarrow> unseen_generation g w \<Longrightarrow> unseen_generation g (dhRatchet E rnd w p)"
  by (fastforce simp: unseen_generation_def dest: dhRatchet_skipped(1))

lemma purge_length: "length (skipped (purgeUnreachableSkipped s c p)) \<le> length (skipped s)"
  by (simp add: purgeUnreachableSkipped_def)

lemma dhRatchet_length:
  assumes "length (skipped w) \<le> kMaxSkippedTotal"
  shows "length (skipped (dhRatchet E rnd w p)) \<le> length (skipped w)"
proof -
  obtain u where u: "dhRatchet E rnd w p =
      enforceSkippedCap E (purgeUnreachableSkipped u p (DHr_pub w)) p" "skipped u = skipped w"
    by (simp add: dhRatchet_def Let_def case_prod_beta purgeUnreachableSkipped_def genKeypair_def)
  with purge_length [of u p "DHr_pub w"] assms show ?thesis by (simp add: enforceSkippedCap_noop)
qed

lemma turn_start:
  assumes laws: "hmac_law E" "dh_law E" "hash_order_law E"
    and off: "offers E s r" and w: "skipTo E r (PN s) = Some w"
    and unseen: "unseen_generation (DHs_pub s) r" and ok: "hash_ok (skipped r)"
      "length (skipped r) \<le> kMaxSkippedTotal"
    and room: "length (skipped w) + K \<le> B" "B \<le> kMaxSkippedTotal"
  shows "rx_inv B E (DHs_pub s) (CKs s) 0 K {} 0 (dhRatchet E rnd w (DHs_pub s))"
proof -
  have "length (DHs_pub s) = 32" using offersD(1) [OF off] laws(2) by (simp add: dh_law_def)
  then have "unseen_generation (DHs_pub s) w"
    using skipTo_unseen [OF laws(3) w unseen _ offersD(3) [OF off]] by blast
  then have "unseen_generation (DHs_pub s) (dhRatchet E rnd w (DHs_pub s))"
    by (rule dhRatchet_unseen [OF laws(3)])
  moreover have "hash_ok (skipped w)" using skipTo_store(1) [OF w laws(3) ok] .
  moreover have "length (skipped (dhRatchet E rnd w (DHs_pub s))) + K \<le> B"
    using dhRatchet_length [of w E rnd "DHs_pub s"] room by linarith
  ultimately show ?thesis
    using offers_ratchet(1) [OF laws(2) off skipTo_frame(4) [OF w] skipTo_frame(1) [OF w], of rnd]
      dhRatchet_store(1) [OF laws(3)] room(2)
    by (simp add: rx_inv_def dhRatchet_fields unseen_lookup)
qed

lemma decryptStep_new_generation:
  assumes "fresh_generation r f" "skipTo E r (f_pn f) = Some w"
    "map_of (skipped r) (skipKey (f_dh f) (f_n f)) = None"
    "map_of (skipped (dhRatchet E rnd w (f_dh f))) (skipKey (f_dh f) (f_n f)) = None"
  shows "decryptStep E rnd r f = decryptStep E rnd' (dhRatchet E rnd w (f_dh f)) f"
  using assms by (simp add: decryptStep_def advanceTo_def fresh_generation_def dhRatchet_fields)

text \<open>One turn: the receiver decrypts any of the messages the sender produced, in any order; the
  first to arrive ratchets it, and afterwards the receiver is the one that offers.\<close>

lemma turn_delivers:
  assumes laws: "hmac_law E" "aead_law E" "dh_law E" "hash_order_law E"
    and off: "offers E s r" and w: "skipTo E r (PN s) = Some w"
    and unseen: "unseen_generation (DHs_pub s) r" and ok: "hash_ok (skipped r)"
      "length (skipped r) \<le> kMaxSkippedTotal"
    and room: "length (skipped w) + length ms \<le> kMaxSkippedTotal" "length ms \<le> 1001"
    and js: "distinct (j # js)" "set (j # js) \<subseteq> {..<length ms}"
    and rnd: "length (rnd j) = 32" "scalarmult_base E (rnd j) \<noteq> DHr_pub s" "length (DHr_pub s) = 32"
  obtains s' fs r' where "sendAll E s ms = Some (s', fs)"
    "recvAll E r (map (\<lambda>j. (rnd j, fs ! j)) (j # js)) = Some (r', map (\<lambda>j. snd (ms ! j)) (j # js))"
    "offers E r' s'" "length fs = length ms" "\<forall>f \<in> set fs. f_dh f = DHs_pub s"
    "s' = s\<lparr>CKs := chainKey E (CKs s) (length ms), Ns := of_nat (length ms)\<rparr>"
    "length (skipped r') \<le> length (skipped w) + length ms" "hash_ok (skipped r')"
    "unat (Nr r') \<le> length ms" "DHr_pub r' = DHs_pub s" "PN r' = Ns r"
    "DHs_pub r' = scalarmult_base E (rnd j)"
proof -
  let ?r2 = "dhRatchet E (rnd j) w (DHs_pub s)"
  let ?B = "length (skipped w) + length ms"
  have ne: "CKs s \<noteq> []"
    using off kdfRk_lengths(2) [OF laws(1), of "RK r" "dhFn E (DHs_priv s) (DHs_pub r)"]
    by (cases "kdfRk E (RK r) (dhFn E (DHs_priv s) (DHs_pub r))") (auto simp: offers_def)
  obtain s' fs where fs: "sendAll E s ms = Some (s', fs)" "length fs = length ms"
      "s' = s\<lparr>CKs := chainKey E (CKs s) (length ms), Ns := of_nat (length ms)\<rparr>"
      "\<forall>j<length ms. chain_frame E (DHs_pub s) (CKs s) 0 j (snd (ms ! j)) (fs ! j) \<and> f_pn (fs ! j) = PN s"
    using sendAll_frames [OF laws(1) ne, of ms] offersD(4) [OF off] by auto
  have inv: "rx_inv ?B E (DHs_pub s) (CKs s) 0 (length ms) {} 0 ?r2"
    by (rule turn_start [OF laws(1,3,4) off w unseen ok order.refl room(1)])
  have win: "window_ok 0 (length ms)" using room(2) by (simp add: window_ok_def)
  have step: "decryptStep E (rnd j) r (fs ! j) = decryptStep E (rnd j) ?r2 (fs ! j)"
  proof -
    have f: "f_dh (fs ! j) = DHs_pub s" "f_pn (fs ! j) = PN s" "f_n (fs ! j) = of_nat j"
      using fs(4) js(2) by (auto simp: chain_frame_def)
    have "map_of (skipped ?r2) (skipKey (DHs_pub s) (of_nat j)) = None"
      using rx_invD(5) [OF inv, of j] js(2) by simp
    then show ?thesis
      using decryptStep_new_generation [of r "fs ! j" E w "rnd j" "rnd j"] f w offersD(2) [OF off]
        unseen_lookup [OF unseen]
      by (simp add: fresh_generation_def)
  qed
  obtain r' m' where r': "recvAll E ?r2 (map (\<lambda>j. (rnd j, fs ! j)) (j # js)) =
        Some (r', map (\<lambda>j. snd (ms ! j)) (j # js))"
      "rx_inv ?B E (DHs_pub s) (CKs s) 0 (length ms) (set (j # js)) m' r'" "same_send ?r2 r'"
    using recvAll_any_order [OF win laws(2,1) ne inv js(1), of "\<lambda>j. snd (ms ! j)" "(!) fs" rnd] js(2) fs(4)
    by (auto simp del: recvAll.simps)
  have off': "offers E r' s'"
    using r'(3) off rnd fs(3) dhRatchet_fields [of E "rnd j" w "DHs_pub s"]
      offers_ratchet(2) [OF laws(3) off skipTo_frame(4) [OF w] skipTo_frame(1) [OF w], of "rnd j"]
    by (auto simp: offers_def same_send_def)
  have "unat (Nr r') \<le> length ms" "length (skipped r') \<le> ?B" "hash_ok (skipped r')"
    using r'(2) room(2) by (auto simp: rx_inv_def unat_of_nat)
  moreover have "recvAll E r (map (\<lambda>j. (rnd j, fs ! j)) (j # js)) = Some (r', map (\<lambda>j. snd (ms ! j)) (j # js))"
    using r'(1) step by simp
  moreover have "\<forall>f \<in> set fs. f_dh f = DHs_pub s"
    using fs(2,4) by (auto simp: in_set_conv_nth chain_frame_def)
  moreover have "DHr_pub r' = DHs_pub s" using r'(2) by (simp add: rx_inv_def)
  moreover have "PN r' = Ns r" "DHs_pub r' = scalarmult_base E (rnd j)"
    using r'(3) skipTo_frame(6) [OF w] by (simp_all add: same_send_def dhRatchet_fields)
  ultimately show ?thesis using that fs(1-3) off' by blast
qed

end
