(* ===== verification/Conversation.thy ===== *)
theory Conversation
  imports Session
begin

text \<open>
  A whole conversation through two ratchet sessions: the sides take turns, each turn is a run of
  messages of which at least one arrives, in any order. The turns compose the operations of the
  theory of sessions; every message that arrives decrypts to what was sent.
\<close>

section \<open>Generations a receiver has not seen\<close>

lemma unseen_delete:
  "unseen_generation g r \<Longrightarrow> unseen_generation g (r\<lparr>skipped := AList.delete k (skipped r)\<rparr>)"
  using AList.delete_notin_dom by (fastforce simp: unseen_generation_def AList.delete_eq)

definition blind_to :: "bytes \<Rightarrow> RatchetSession \<Rightarrow> bool" where
  "blind_to g r \<longleftrightarrow> unseen_generation g r \<and> (CKr r = [] \<or> length (DHr_pub r) = 32 \<and> g \<noteq> DHr_pub r)"

lemma skipTo_blind:
  "hash_order_law E \<Longrightarrow> length g = 32 \<Longrightarrow> blind_to g r \<Longrightarrow> skipTo E r n = Some w \<Longrightarrow>
   unseen_generation g w"
  using skipTo_unseen [of E r n w g] by (auto simp: blind_to_def)

lemma advanceTo_blind:
  assumes law: "hash_order_law E" and g: "length g = 32" "blind_to g r" "length (f_dh f) = 32" "g \<noteq> f_dh f"
    and adv: "advanceTo E rnd r f = Some w"
  shows "unseen_generation g w" "DHr_pub w = f_dh f"
proof -
  have "unseen_generation g w \<and> DHr_pub w = f_dh f" using adv
  proof (cases rule: advanceTo_cases)
    case same
    then show ?thesis
      using skipTo_blind [OF law g(1,2) same(2)] skipTo_frame(3) [OF same(2)]
      by (simp add: fresh_generation_def)
  next
    case (ratchet v)
    have "blind_to g (dhRatchet E rnd v (f_dh f))"
      using dhRatchet_unseen [OF law skipTo_blind [OF law g(1,2) ratchet(2)], of rnd "f_dh f"] g(3,4)
      by (simp add: blind_to_def dhRatchet_fields)
    then show ?thesis
      using skipTo_blind [OF law g(1) _ ratchet(3)] skipTo_frame(3) [OF ratchet(3)]
      by (simp add: dhRatchet_fields)
  qed
  then show "unseen_generation g w" "DHr_pub w = f_dh f" by simp_all
qed

lemma decryptStep_blind:
  assumes "hash_order_law E" "length g = 32" "blind_to g r" "length (f_dh f) = 32" "g \<noteq> f_dh f"
    and "decryptStep E rnd r f = Some (r', pt)"
  shows "blind_to g r'"
proof (cases "map_of (skipped r) (skipKey (f_dh f) (f_n f))")
  case None
  with assms(6) obtain w where w: "advanceTo E rnd r f = Some w" "skipped r' = skipped w"
      "DHr_pub r' = DHr_pub w"
    by (auto simp: decryptStep_def Let_def case_prod_beta split: option.splits)
  with advanceTo_blind [OF assms(1-5) w(1)] assms(4,5) show ?thesis
    by (simp add: blind_to_def unseen_generation_def)
next
  case (Some mk)
  with assms(3,6) unseen_delete [of g r] show ?thesis
    by (auto simp: decryptStep_def blind_to_def split: option.splits)
qed

lemma recvAll_blind:
  assumes "hash_order_law E" "length g = 32" "length d = 32" "g \<noteq> d"
  shows "blind_to g r \<Longrightarrow> \<forall>x \<in> set xs. f_dh (snd x) = d \<Longrightarrow> recvAll E r xs = Some (r', pts) \<Longrightarrow>
    blind_to g r'"
proof (induction xs arbitrary: r pts)
  case (Cons x xs)
  from Cons.prems(3) obtain r1 pt pts' where 1: "decryptStep E (fst x) r (snd x) = Some (r1, pt)"
      "recvAll E r1 xs = Some (r', pts')"
    by (auto split: option.splits)
  have "blind_to g r1"
    using decryptStep_blind [OF assms(1,2) Cons.prems(1) _ _ 1(1)] Cons.prems(2) assms(3,4) by simp
  from Cons.IH [OF this _ 1(2)] Cons.prems(2) show ?case by simp
qed simp

section \<open>Turns\<close>

record turn =
  t_msgs :: "(bytes \<times> bytes) list" \<comment> \<open>nonce and plaintext\<close>
  t_order :: "nat list" \<comment> \<open>the messages that arrive, in the order they arrive\<close>
  t_rnd :: "nat \<Rightarrow> bytes" \<comment> \<open>what the receiver draws when a message makes it ratchet\<close>

fun converse ::
  "external \<Rightarrow> RatchetSession \<Rightarrow> RatchetSession \<Rightarrow> turn list \<Rightarrow> bytes list list option" where
  "converse E s r [] = Some []"
| "converse E s r (t # ts) =
     (case sendAll E s (t_msgs t) of None \<Rightarrow> None
      | Some (s', fs) \<Rightarrow>
          (case recvAll E r (map (\<lambda>j. (t_rnd t j, fs ! j)) (t_order t)) of None \<Rightarrow> None
           | Some (r', pts) \<Rightarrow> map_option (Cons pts) (converse E r' s' ts)))"

definition heard :: "turn \<Rightarrow> bytes list" where
  "heard t = map (\<lambda>j. snd (t_msgs t ! j)) (t_order t)"

definition turn_ok :: "turn \<Rightarrow> bool" where
  "turn_ok t \<longleftrightarrow> t_order t \<noteq> [] \<and> distinct (t_order t) \<and> set (t_order t) \<subseteq> {..<length (t_msgs t)} \<and>
     length (t_rnd t (hd (t_order t))) = 32"

definition turnKey :: "external \<Rightarrow> turn \<Rightarrow> bytes" where
  "turnKey E t = scalarmult_base E (t_rnd t (hd (t_order t)))"

definition msgCount :: "turn list \<Rightarrow> nat" where
  "msgCount ts = sum_list (map (\<lambda>t. length (t_msgs t)) ts)"

text \<open>The state between turns, with \<open>s\<close> to speak: \<open>N\<close> bounds what the stores can come to hold, and
  the generations \<open>G\<close> that are still to come are new to both sides.\<close>

definition talk_inv ::
  "external \<Rightarrow> nat \<Rightarrow> bytes set \<Rightarrow> RatchetSession \<Rightarrow> RatchetSession \<Rightarrow> bool" where
  "talk_inv E N G s r \<longleftrightarrow>
     offers E s r \<and> hash_ok (skipped s) \<and> hash_ok (skipped r) \<and>
     length (skipped r) + unat (PN s) \<le> N \<and> length (skipped s) + unat (Ns r) \<le> N \<and>
     unat (Nr r) \<le> 1000 \<and> unat (Nr s) \<le> 1000 \<and> unat (PN s) \<le> 1000 \<and> unat (Ns r) \<le> 1000 \<and>
     blind_to (DHs_pub s) r \<and> length (DHr_pub s) = 32 \<and>
     (\<forall>g \<in> G. blind_to g r \<and> unseen_generation g s \<and> g \<noteq> DHr_pub s \<and> g \<noteq> DHs_pub s)"

lemma talk_invD:
  assumes "talk_inv E N G s r"
  shows "offers E s r" "hash_ok (skipped s)" "hash_ok (skipped r)"
    "length (skipped r) + unat (PN s) \<le> N" "length (skipped s) + unat (Ns r) \<le> N"
    "unat (Nr r) \<le> 1000" "unat (Nr s) \<le> 1000" "unat (PN s) \<le> 1000" "unat (Ns r) \<le> 1000"
    "blind_to (DHs_pub s) r" "length (DHr_pub s) = 32"
    "\<And>g. g \<in> G \<Longrightarrow> blind_to g r \<and> unseen_generation g s \<and> g \<noteq> DHr_pub s \<and> g \<noteq> DHs_pub s"
  using assms unfolding talk_inv_def by blast+

lemma kMaxSkippedTotal_val: "kMaxSkippedTotal = 2000"
  by (simp add: kMaxSkippedTotal_def kMaxSkip_def)

lemma skipTo_tail:
  assumes "unat n \<le> 1000" "unat (Nr r) \<le> 1000" "length (skipped r) + unat n \<le> kMaxSkippedTotal"
  obtains w where "skipTo E r n = Some w" "length (skipped w) \<le> length (skipped r) + unat n"
proof -
  have "unat (Nr r + kMaxSkip) = unat (Nr r) + 1000"
    using assms(2) by (simp add: unat_word_ariths kMaxSkip_def)
  then have "\<not> Nr r + kMaxSkip < n" using assms(1) by (simp add: word_less_nat_alt)
  moreover have "length (skipped (skipLoop E n r)) \<le> length (skipped r) + unat n"
  proof (cases "Nr r \<le> n")
    case True
    with putAll_bank_length [of E "DHr_pub r" "Nr r" "CKr r" "unat n - unat (Nr r)" "skipped r"]
    show ?thesis by (simp add: skipLoop_closed)
  qed (simp add: skipLoop_stop)
  ultimately have "\<exists>w. skipTo E r n = Some w \<and> length (skipped w) \<le> length (skipped r) + unat n"
    using assms(3) by (simp add: skipTo_def enforceSkippedCap_noop)
  with that show ?thesis by blast
qed

lemma talk_turn:
  assumes laws: "hmac_law E" "aead_law E" "dh_law E" "hash_order_law E"
    and inv: "talk_inv E N (insert (turnKey E t) G) s r" and t: "turn_ok t" and new: "turnKey E t \<notin> G"
    and sizes: "\<forall>g \<in> G. length g = 32"
    and room: "N + 2 * length (t_msgs t) \<le> 2000" "length (t_msgs t) \<le> 1000"
  shows "\<exists>s' fs r'. sendAll E s (t_msgs t) = Some (s', fs) \<and>
     recvAll E r (map (\<lambda>j. (t_rnd t j, fs ! j)) (t_order t)) = Some (r', heard t) \<and>
     talk_inv E (N + 2 * length (t_msgs t)) G r' s'"
proof -
  note I = talk_invD [OF inv]
  obtain j js where ord: "t_order t = j # js" using t by (auto simp: turn_ok_def neq_Nil_conv)
  have js: "distinct (j # js)" "set (j # js) \<subseteq> {..<length (t_msgs t)}" "length (t_rnd t j) = 32"
    using t ord by (auto simp: turn_ok_def)
  have key: "turnKey E t = scalarmult_base E (t_rnd t j)" by (simp add: turnKey_def ord)
  have pub: "length (DHs_pub s) = 32" using offersD(1) [OF I(1)] laws(3) by (simp add: dh_law_def)
  obtain w where w: "skipTo E r (PN s) = Some w" "length (skipped w) \<le> length (skipped r) + unat (PN s)"
    using skipTo_tail [of "PN s" r E] I(4,6,8) room(1) kMaxSkippedTotal_val by auto
  have unseen: "unseen_generation (DHs_pub s) r" using I(10) by (simp add: blind_to_def)
  have few: "length (skipped r) \<le> kMaxSkippedTotal"
      "length (skipped w) + length (t_msgs t) \<le> kMaxSkippedTotal"
    using w(2) I(4) room(1) by (simp_all add: kMaxSkippedTotal_val)
  have fresh: "scalarmult_base E (t_rnd t j) \<noteq> DHr_pub s" using I(12) [of "turnKey E t"] key by auto
  obtain s' fs r' where r': "sendAll E s (t_msgs t) = Some (s', fs)"
      "recvAll E r (map (\<lambda>j. (t_rnd t j, fs ! j)) (j # js)) = Some (r', map (\<lambda>j. snd (t_msgs t ! j)) (j # js))"
      "offers E r' s'" "length fs = length (t_msgs t)" "\<forall>f \<in> set fs. f_dh f = DHs_pub s"
      "s' = s\<lparr>CKs := chainKey E (CKs s) (length (t_msgs t)), Ns := of_nat (length (t_msgs t))\<rparr>"
      "length (skipped r') \<le> length (skipped w) + length (t_msgs t)" "hash_ok (skipped r')"
      "unat (Nr r') \<le> length (t_msgs t)" "DHr_pub r' = DHs_pub s" "PN r' = Ns r"
      "DHs_pub r' = scalarmult_base E (t_rnd t j)"
    by (rule turn_delivers [where rnd = "t_rnd t", OF laws I(1) w(1) unseen I(3) few _ js(1,2) js(3) fresh I(11)])
      (use room(2) in simp_all)
  have "\<forall>x \<in> set (map (\<lambda>j. (t_rnd t j, fs ! j)) (j # js)). f_dh (snd x) = DHs_pub s"
    using r'(4,5) js(2) by auto
  then have bl: "blind_to g r'" if "length g = 32" "g \<noteq> DHs_pub s" "blind_to g r" for g
    using recvAll_blind [OF laws(4) that(1) pub that(2,3) _ r'(2)] by blast
  have "talk_inv E (N + 2 * length (t_msgs t)) G r' s'"
    unfolding talk_inv_def
  proof (intro conjI ballI)
    fix g assume "g \<in> G"
    then show "blind_to g s'" "unseen_generation g r'" "g \<noteq> DHr_pub r'" "g \<noteq> DHs_pub r'"
      using I(11) I(12) [of g] bl [of g] sizes new r'(6,10,12) key
      by (auto simp: blind_to_def unseen_generation_def)
  qed (use r' I w(2) room pub key in
      \<open>auto simp: blind_to_def unseen_generation_def unat_of_nat\<close>)
  with r'(1,2) ord show ?thesis by (auto simp: heard_def)
qed

section \<open>Conversations\<close>

lemma turnKey_length: "dh_law E \<Longrightarrow> length (turnKey E t) = 32"
  by (simp add: turnKey_def dh_law_def)

lemma converse_talk:
  assumes laws: "hmac_law E" "aead_law E" "dh_law E" "hash_order_law E"
  shows "talk_inv E N (turnKey E ` set ts) s r \<Longrightarrow> distinct (map (turnKey E) ts) \<Longrightarrow>
    \<forall>t \<in> set ts. turn_ok t \<Longrightarrow> N + 2 * msgCount ts \<le> 2000 \<Longrightarrow>
    converse E s r ts = Some (map heard ts)"
proof (induction ts arbitrary: N s r)
  case (Cons t ts)
  have sz: "N + 2 * length (t_msgs t) + 2 * msgCount ts \<le> 2000"
    using Cons.prems(4) by (simp add: msgCount_def)
  obtain s' fs r' where "sendAll E s (t_msgs t) = Some (s', fs)"
     "recvAll E r (map (\<lambda>j. (t_rnd t j, fs ! j)) (t_order t)) = Some (r', heard t)"
     and inv: "talk_inv E (N + 2 * length (t_msgs t)) (turnKey E ` set ts) r' s'"
    using talk_turn [OF laws, of N t "turnKey E ` set ts" s r] Cons.prems sz turnKey_length [OF laws(3)]
    by auto
  moreover have "converse E r' s' ts = Some (map heard ts)"
    using Cons.IH [OF inv] Cons.prems sz by simp
  ultimately show ?case by simp
qed simp

text \<open>Two sessions between which no message has passed, with \<open>s\<close> to speak.\<close>

definition conversation_start :: "external \<Rightarrow> RatchetSession \<Rightarrow> RatchetSession \<Rightarrow> bool" where
  "conversation_start E s r \<longleftrightarrow>
     offers E s r \<and> skipped s = [] \<and> skipped r = [] \<and> PN s = 0 \<and> Nr s = 0 \<and> Ns r = 0 \<and> Nr r = 0 \<and>
     CKr r = [] \<and> DHr_pub s = DHs_pub r"

lemma conversation_start_length:
  "dh_law E \<Longrightarrow> conversation_start E s r \<Longrightarrow> length (DHr_pub s) = 32"
  by (simp add: conversation_start_def offers_def dh_law_def)

text \<open>C1 (functional). Two sessions of which one is to speak and neither has carried a message run a
  whole conversation: the sides alternate, every turn is a run of messages of which at least one
  arrives, those that arrive do so in any order, and each decrypts to what was sent, as long as no
  ratchet key repeats and the conversation has at most 1000 messages.\<close>

theorem conversation_delivery:
  assumes laws: "hmac_law E" "aead_law E" "dh_law E" "hash_order_law E"
    and start: "conversation_start E s r"
    and turns: "\<forall>t \<in> set ts. turn_ok t" "msgCount ts \<le> 1000"
    and keys: "distinct (DHr_pub s # DHs_pub s # map (turnKey E) ts)"
  shows "converse E s r ts = Some (map heard ts)"
proof -
  have "talk_inv E 0 (turnKey E ` set ts) s r"
    using start keys conversation_start_length [OF laws(3) start]
    by (auto simp: conversation_start_def talk_inv_def blind_to_def unseen_generation_def hash_ok_def image_iff)
  with converse_talk [OF laws] keys turns show ?thesis by simp
qed

definition demoTurnR :: RatchetSession where
  "demoTurnR = newRatchetSession\<lparr>DHs_priv := replicate 32 3, DHs_pub := scalarmult_base demo (replicate 32 3),
     RK := replicate 32 8\<rparr>"

definition demoTurnS :: RatchetSession where
  "demoTurnS = (let (rk, ck) = kdfRk demo (RK demoTurnR) (dhFn demo (replicate 32 2) (DHs_pub demoTurnR))
     in newRatchetSession\<lparr>DHs_priv := replicate 32 2, DHs_pub := scalarmult_base demo (replicate 32 2),
          DHr_pub := DHs_pub demoTurnR, haveDHr := True, RK := rk, CKs := ck\<rparr>)"

lemma demo_conversation_start: "conversation_start demo demoTurnS demoTurnR"
  by (simp add: demoTurnS_def demoTurnR_def newRatchetSession_def offers_def conversation_start_def
      case_prod_beta)

definition demoTurns :: "turn list" where
  "demoTurns =
     [\<lparr>t_msgs = [([], [10]), ([], [20]), ([], [30])], t_order = [2, 0], t_rnd = (\<lambda>_. replicate 32 4)\<rparr>,
      \<lparr>t_msgs = [([], [40])], t_order = [0], t_rnd = (\<lambda>_. replicate 32 5)\<rparr>]"

theorem conversation_delivery_witness:
  "converse demo demoTurnS demoTurnR demoTurns = Some [[[30], [10]], [[40]]]"
proof -
  have "converse demo demoTurnS demoTurnR demoTurns = Some (map heard demoTurns)"
    by (rule conversation_delivery [OF demo_laws(1,3,2,8) demo_conversation_start])
      (simp_all add: demoTurns_def demoTurnS_def demoTurnR_def newRatchetSession_def
        turn_ok_def msgCount_def turnKey_def case_prod_beta, simp_all add: demo_def)
  then show ?thesis by (simp add: demoTurns_def heard_def)
qed

end
