(* ===== verification/Identity.thy ===== *)
theory Identity
  imports Conversation
begin

text \<open>
  The state of the class \<open>CryptoBox\<close> (\<^verbatim>\<open>client/src/cryptobox.h\<close>) and its identity operations
  (\<^verbatim>\<open>client/src/cryptobox.cpp\<close>): the two identity versions, the plain and the password-wrapped
  identity files, and the server-side password verifier. A file is its content; an operation that
  reads one takes \<open>None\<close> when the file could not be opened, one that writes one returns the bytes it
  hands to the write call.

  The lemmas are the round trips of both file formats and the answers on every malformed input.
\<close>

record CryptoBox =
  m_spkPriv :: bytes
  m_spkPub :: bytes
  m_spkSig :: bytes
  m_spkCreatedMs :: int
  m_prevSpkPriv :: bytes
  m_prevSpkPub :: bytes
  m_prevSpkRetiredMs :: int
  m_opkPriv :: "(u32 \<times> bytes) list"
  m_nextOpkId :: u32
  m_identitySeed :: bytes
  m_edPublicKey :: bytes
  m_identityVersion :: int
  m_privateKey :: bytes
  m_publicKey :: bytes
  m_peerIdentity :: "qstring \<rightharpoonup> bytes"
  m_sessions :: "qstring \<rightharpoonup> RatchetSession"

definition newCryptoBox :: CryptoBox where
  "newCryptoBox = \<lparr>m_spkPriv = [], m_spkPub = [], m_spkSig = [], m_spkCreatedMs = 0,
     m_prevSpkPriv = [], m_prevSpkPub = [], m_prevSpkRetiredMs = 0, m_opkPriv = [], m_nextOpkId = 0,
     m_identitySeed = [], m_edPublicKey = [], m_identityVersion = 0, m_privateKey = [],
     m_publicKey = [], m_peerIdentity = Map.empty, m_sessions = Map.empty\<rparr>"

definition hasX3dhIdentity :: "CryptoBox \<Rightarrow> bool" where
  "hasX3dhIdentity b \<longleftrightarrow> m_identityVersion b = 2 \<and> m_identitySeed b \<noteq> []"

definition deriveAgreementKeysFromSeed :: "external \<Rightarrow> CryptoBox \<Rightarrow> CryptoBox option" where
  "deriveAgreementKeysFromSeed E b =
     (let seed = m_identitySeed b; edPub = identityPublic E seed; xPriv = identityToX25519Private E seed
      in if edPub = [] \<or> xPriv = [] then None
         else case identityToX25519Public E edPub of None \<Rightarrow> None
              | Some xPub \<Rightarrow> Some (b\<lparr>m_edPublicKey := edPub, m_privateKey := xPriv, m_publicKey := xPub\<rparr>))"

definition generateIdentity :: "external \<Rightarrow> bytes \<Rightarrow> CryptoBox \<Rightarrow> CryptoBox" where
  "generateIdentity E rnd b =
     (case X3DH_generateIdentity E rnd of None \<Rightarrow> b
      | Some (seed, edPub) \<Rightarrow>
          (case deriveAgreementKeysFromSeed E (b\<lparr>m_identitySeed := seed\<rparr>) of
             None \<Rightarrow> b\<lparr>m_identitySeed := []\<rparr>
           | Some b' \<Rightarrow> b'\<lparr>m_identityVersion := 2\<rparr>))"

definition edPublicKeyHex :: "CryptoBox \<Rightarrow> qstring" where
  "edPublicKeyHex b = toHex (m_edPublicKey b)"

definition publicKeyHex :: "CryptoBox \<Rightarrow> qstring" where
  "publicKeyHex b = toHex (m_publicKey b)"

definition signWithIdentity :: "external \<Rightarrow> CryptoBox \<Rightarrow> bytes \<Rightarrow> bytes" where
  "signWithIdentity E b message =
     (if m_identityVersion b \<noteq> 2 \<or> m_identitySeed b = [] then []
      else sign E (m_identitySeed b) message)"

definition verifyIdentitySignature :: "external \<Rightarrow> bytes \<Rightarrow> bytes \<Rightarrow> bytes \<Rightarrow> bool" where
  "verifyIdentitySignature E edPub message sig = verify E edPub message sig"

definition agreementKeyFor :: "external \<Rightarrow> bytes \<Rightarrow> qstring \<Rightarrow> bytes option" where
  "agreementKeyFor E publishedKey ikType =
     (if length publishedKey \<noteq> 32 then None
      else if ikType = ''ed25519'' then identityToX25519Public E publishedKey
      else if ikType = [] \<or> ikType = ''x25519'' then Some publishedKey
      else None)"

section \<open>The plain identity file\<close>

definition kPlainMagic :: bytes where "kPlainMagic = latin1 ''CE2EEIDP''"

definition loadIdentity :: "external \<Rightarrow> CryptoBox \<Rightarrow> bytes option \<Rightarrow> CryptoBox \<times> bool" where
  "loadIdentity E b file =
     (case file of None \<Rightarrow> (b, False)
      | Some raw \<Rightarrow>
        if length raw = 8 + 1 + 32 \<and> take 8 raw = kPlainMagic then
          (if raw ! 8 \<noteq> 2 then (b, False)
           else
             (let b1 = b\<lparr>m_identitySeed := take 32 (drop 9 raw)\<rparr>
              in case deriveAgreementKeysFromSeed E b1 of
                   None \<Rightarrow> (b1\<lparr>m_identitySeed := []\<rparr>, False)
                 | Some b2 \<Rightarrow> (b2\<lparr>m_identityVersion := 2\<rparr>, True)))
        else if length raw \<noteq> 32 then (b, False)
        else (b\<lparr>m_privateKey := raw, m_publicKey := scalarmult_base E raw, m_identitySeed := [],
                m_edPublicKey := [], m_identityVersion := 1\<rparr>, True))"

definition saveIdentity :: "CryptoBox \<Rightarrow> bytes" where
  "saveIdentity b =
     (if m_identityVersion b = 2 \<and> m_identitySeed b \<noteq> [] then kPlainMagic @ [2] @ m_identitySeed b
      else m_privateKey b)"

section \<open>The password-wrapped identity file\<close>

definition kWrapMagic :: bytes where "kWrapMagic = latin1 ''CE2EEID1''"
definition kWrapVersionLegacy :: byte where "kWrapVersionLegacy = 1"
definition kWrapVersion :: byte where "kWrapVersion = 2"
definition kWrapCtx :: bytes where "kWrapCtx = latin1 ''tamk-chat-idkey-wrap-v1''"
definition kVerifyCtx :: bytes where "kVerifyCtx = latin1 ''tamk-chat-pw-verify-v1''"

definition argon2id32 :: "external \<Rightarrow> bytes \<Rightarrow> bytes \<Rightarrow> bytes \<Rightarrow> bytes option" where
  "argon2id32 E ctx password salt = pwhash E (ctx @ password) salt"

definition saveIdentityEncrypted ::
  "external \<Rightarrow> CryptoBox \<Rightarrow> qstring \<Rightarrow> bytes \<Rightarrow> bytes \<Rightarrow> bytes option" where
  "saveIdentityEncrypted E b password salt nonce =
     (if length (m_privateKey b) \<noteq> 32 then None
      else case argon2id32 E kWrapCtx (toUtf8 E password) salt of None \<Rightarrow> None
           | Some wrapKey \<Rightarrow>
               (let v2 = (m_identityVersion b = 2 \<and> m_identitySeed b \<noteq> []);
                    secret = (if v2 then m_identitySeed b else m_privateKey b);
                    ct = secretbox_easy E wrapKey nonce secret
                in Some (kWrapMagic @ [if v2 then kWrapVersion else kWrapVersionLegacy] @ salt @ nonce @ ct)))"

text \<open>The source opens the sealed part into a buffer of 32 bytes, whatever its length. A longer part is opened
  whole here; the files that \<open>saveIdentityEncrypted\<close> writes seal 32 bytes.\<close>

definition loadIdentityEncrypted ::
  "external \<Rightarrow> CryptoBox \<Rightarrow> bytes option \<Rightarrow> qstring \<Rightarrow> CryptoBox \<times> bool" where
  "loadIdentityEncrypted E b file password =
     (case file of None \<Rightarrow> (b, False)
      | Some blob \<Rightarrow>
        if length blob < 8 + 1 + 16 + 24 + (32 + 16) then (b, False)
        else if take 8 blob \<noteq> kWrapMagic then (b, False)
        else if blob ! 8 \<noteq> kWrapVersion \<and> blob ! 8 \<noteq> kWrapVersionLegacy then (b, False)
        else
          (let version = blob ! 8;
               salt = take 16 (drop 9 blob);
               nonce = take 24 (drop 25 blob);
               ct = drop 49 blob
           in case argon2id32 E kWrapCtx (toUtf8 E password) salt of None \<Rightarrow> (b, False)
              | Some wrapKey \<Rightarrow>
                (case secretbox_open_easy E wrapKey nonce ct of None \<Rightarrow> (b, False)
                 | Some priv \<Rightarrow>
                   if version = kWrapVersion then
                     (let b1 = b\<lparr>m_identitySeed := priv\<rparr>
                      in case deriveAgreementKeysFromSeed E b1 of
                           None \<Rightarrow> (b1\<lparr>m_identitySeed := []\<rparr>, False)
                         | Some b2 \<Rightarrow> (b2\<lparr>m_identityVersion := 2\<rparr>, True))
                   else (b\<lparr>m_identitySeed := [], m_edPublicKey := [], m_identityVersion := 1,
                           m_privateKey := priv, m_publicKey := scalarmult_base E priv\<rparr>, True))))"

definition isEncryptedIdentityFile :: "bytes option \<Rightarrow> bool" where
  "isEncryptedIdentityFile file =
     (case file of None \<Rightarrow> False
      | Some content \<Rightarrow>
          (let head = take (8 + 1) content
           in if length head < 8 + 1 then False
              else if take 8 head \<noteq> kWrapMagic then False
              else head ! 8 = kWrapVersion))"

definition deriveVerifier :: "external \<Rightarrow> qstring \<Rightarrow> bytes \<Rightarrow> (qstring \<times> qstring) option" where
  "deriveVerifier E password salt =
     (case argon2id32 E kVerifyCtx (toUtf8 E password) salt of None \<Rightarrow> None
      | Some verifier \<Rightarrow> Some (toHex (take 32 verifier), toHex salt))"

definition deriveVerifierWithSalt :: "external \<Rightarrow> qstring \<Rightarrow> qstring \<Rightarrow> qstring" where
  "deriveVerifierWithSalt E password saltHex =
     (let salt = qFromHex E saltHex
      in if length salt \<noteq> 16 then []
         else case argon2id32 E kVerifyCtx (toUtf8 E password) salt of None \<Rightarrow> []
              | Some verifier \<Rightarrow> toHex (take 32 verifier))"

section \<open>Round trips\<close>

text \<open>A box that holds an identity: version 2 with the keys derived from its seed, or version 1 with
  a raw agreement key.\<close>

definition identity_ok :: "external \<Rightarrow> CryptoBox \<Rightarrow> bool" where
  "identity_ok E b \<longleftrightarrow>
     (if m_identityVersion b = 2
      then length (m_identitySeed b) = 32 \<and> deriveAgreementKeysFromSeed E b = Some b
      else m_identityVersion b = 1 \<and> length (m_privateKey b) = 32 \<and> m_identitySeed b = [] \<and>
           m_edPublicKey b = [] \<and> m_publicKey b = scalarmult_base E (m_privateKey b))"

definition same_identity :: "CryptoBox \<Rightarrow> CryptoBox \<Rightarrow> bool" where
  "same_identity b c \<longleftrightarrow> m_identitySeed b = m_identitySeed c \<and> m_edPublicKey b = m_edPublicKey c \<and>
     m_identityVersion b = m_identityVersion c \<and> m_privateKey b = m_privateKey c \<and>
     m_publicKey b = m_publicKey c"

lemma derive_same:
  assumes "deriveAgreementKeysFromSeed E b = Some b" "m_identitySeed c = m_identitySeed b"
  shows "deriveAgreementKeysFromSeed E c = Some (c\<lparr>m_edPublicKey := m_edPublicKey b,
     m_privateKey := m_privateKey b, m_publicKey := m_publicKey b\<rparr>)"
proof -
  let ?seed = "m_identitySeed b"
  have 1: "identityPublic E ?seed \<noteq> []" "identityToX25519Private E ?seed \<noteq> []"
    using assms(1) by (auto simp: deriveAgreementKeysFromSeed_def Let_def split: if_splits)
  then obtain x where x: "identityToX25519Public E (identityPublic E ?seed) = Some x"
    using assms(1) by (auto simp: deriveAgreementKeysFromSeed_def Let_def split: option.splits)
  have b: "b = b\<lparr>m_edPublicKey := identityPublic E ?seed,
      m_privateKey := identityToX25519Private E ?seed, m_publicKey := x\<rparr>"
    using assms(1) 1 x by (simp add: deriveAgreementKeysFromSeed_def Let_def)
  have "m_edPublicKey b = identityPublic E ?seed" "m_privateKey b = identityToX25519Private E ?seed"
    "m_publicKey b = x" by (subst b, simp)+
  then show ?thesis using 1 x assms(2) by (simp add: deriveAgreementKeysFromSeed_def Let_def)
qed

lemma magic_lengths [simp, size_simps]: "length kPlainMagic = 8" "length kWrapMagic = 8"
  by (simp_all add: kPlainMagic_def kWrapMagic_def)

lemma identity_ok_v2:
  assumes "identity_ok E b" "m_identityVersion b = 2"
  shows "length (m_identitySeed b) = 32" "m_identitySeed b \<noteq> []"
    "deriveAgreementKeysFromSeed E b = Some b"
  using assms by (auto simp: identity_ok_def)

lemma identity_ok_v1:
  assumes "identity_ok E b" "m_identityVersion b \<noteq> 2"
  shows "m_identityVersion b = 1" "length (m_privateKey b) = 32" "m_identitySeed b = []"
    "m_edPublicKey b = []" "m_publicKey b = scalarmult_base E (m_privateKey b)"
  using assms by (auto simp: identity_ok_def)

text \<open>The plain identity file restores the identity it was written from, of either
  version, into any box.\<close>

theorem plain_identity_roundtrip:
  assumes "identity_ok E b"
  shows "\<exists>c'. loadIdentity E c (Some (saveIdentity b)) = (c', True) \<and> same_identity c' b"
proof (cases "m_identityVersion b = 2")
  case True
  note v2 = identity_ok_v2 [OF assms True]
  have "deriveAgreementKeysFromSeed E (c\<lparr>m_identitySeed := m_identitySeed b\<rparr>) =
      Some (c\<lparr>m_identitySeed := m_identitySeed b, m_edPublicKey := m_edPublicKey b,
        m_privateKey := m_privateKey b, m_publicKey := m_publicKey b\<rparr>)"
    using derive_same [OF v2(3), of "c\<lparr>m_identitySeed := m_identitySeed b\<rparr>"] by simp
  with True v2 show ?thesis
    by (simp add: loadIdentity_def saveIdentity_def same_identity_def nth_append)
next
  case False
  with identity_ok_v1 [OF assms False] show ?thesis
    by (simp add: loadIdentity_def saveIdentity_def same_identity_def)
qed

definition demoLegacyBox :: CryptoBox where
  "demoLegacyBox = newCryptoBox\<lparr>m_identityVersion := 1, m_privateKey := replicate 32 6,
     m_publicKey := scalarmult_base demo (replicate 32 6)\<rparr>"

lemma demoLegacyBox_ok: "identity_ok demo demoLegacyBox"
  by (simp add: identity_ok_def demoLegacyBox_def newCryptoBox_def)

definition demoSeedBox :: "bytes \<Rightarrow> CryptoBox" where
  "demoSeedBox seed = generateIdentity demo seed newCryptoBox"

lemma generateIdentity_ok:
  assumes "identity_law E" "dh_law E" "length rnd = 32"
  shows "identity_ok E (generateIdentity E rnd b)" "m_identityVersion (generateIdentity E rnd b) = 2"
    "m_identitySeed (generateIdentity E rnd b) = rnd"
proof -
  obtain x where x: "length x = 32" "identityToX25519Private E rnd = x"
      "length (identityPublic E rnd) = 32"
      "identityToX25519Public E (identityPublic E rnd) = Some (scalarmult_base E x)"
    using identity_facts [OF assms] by metis
  then have ne: "identityToX25519Private E rnd \<noteq> []" "identityPublic E rnd \<noteq> []" by auto
  have "X3DH_generateIdentity E rnd = Some (rnd, identityPublic E rnd)"
    using ne by (simp add: X3DH_generateIdentity_def identityPublic_def split: option.splits)
  then have g: "generateIdentity E rnd b = b\<lparr>m_identitySeed := rnd, m_edPublicKey := identityPublic E rnd,
      m_privateKey := x, m_publicKey := scalarmult_base E x, m_identityVersion := 2\<rparr>"
    using x ne by (simp add: generateIdentity_def deriveAgreementKeysFromSeed_def)
  then show "m_identityVersion (generateIdentity E rnd b) = 2"
    "m_identitySeed (generateIdentity E rnd b) = rnd" by simp_all
  show "identity_ok E (generateIdentity E rnd b)"
    using g x ne assms(3) by (simp add: identity_ok_def deriveAgreementKeysFromSeed_def)
qed

lemma demoSeedBox_ok:
  "length seed = 32 \<Longrightarrow> identity_ok demo (demoSeedBox seed)"
  unfolding demoSeedBox_def by (rule generateIdentity_ok) (simp_all add: demo_identity_law demo_laws)

theorem plain_identity_roundtrip_witness:
  "(\<exists>c'. loadIdentity demo newCryptoBox (Some (saveIdentity demoLegacyBox)) = (c', True) \<and>
      same_identity c' demoLegacyBox) \<and>
   (\<exists>c'. loadIdentity demo newCryptoBox (Some (saveIdentity (demoSeedBox (replicate 32 4)))) = (c', True) \<and>
      same_identity c' (demoSeedBox (replicate 32 4)))"
  using plain_identity_roundtrip [OF demoLegacyBox_ok, of newCryptoBox]
    plain_identity_roundtrip [OF demoSeedBox_ok, of "replicate 32 4" newCryptoBox] by simp

text \<open>The password-wrapped identity file, opened with the password it was written
  under, restores the identity, of either version, into any box.\<close>

theorem wrapped_identity_roundtrip:
  assumes laws: "secretbox_law E" "pwhash_law E"
    and ok: "identity_ok E b" and sizes: "length salt = 16" "length nonce = 24"
    and len: "length (m_privateKey b) = 32"
  shows "\<exists>blob c'. saveIdentityEncrypted E b pw salt nonce = Some blob \<and>
     loadIdentityEncrypted E c (Some blob) pw = (c', True) \<and> same_identity c' b"
proof -
  obtain k where k: "argon2id32 E kWrapCtx (toUtf8 E pw) salt = Some k"
    using laws(2) sizes(1) unfolding pwhash_law_def argon2id32_def by blast
  note open_seal = laws(1) [unfolded secretbox_law_def]
  show ?thesis
  proof (cases "m_identityVersion b = 2")
    case True
    note v2 = identity_ok_v2 [OF ok True]
    have "deriveAgreementKeysFromSeed E (c\<lparr>m_identitySeed := m_identitySeed b\<rparr>) =
        Some (c\<lparr>m_identitySeed := m_identitySeed b, m_edPublicKey := m_edPublicKey b,
          m_privateKey := m_privateKey b, m_publicKey := m_publicKey b\<rparr>)"
      using derive_same [OF v2(3), of "c\<lparr>m_identitySeed := m_identitySeed b\<rparr>"] by simp
    with True v2 k sizes len open_seal show ?thesis
      by (simp add: saveIdentityEncrypted_def loadIdentityEncrypted_def nth_append Let_def
          same_identity_def)
  next
    case False
    with identity_ok_v1 [OF ok False] k sizes open_seal show ?thesis
      by (simp add: saveIdentityEncrypted_def loadIdentityEncrypted_def nth_append Let_def
          same_identity_def kWrapVersion_def kWrapVersionLegacy_def)
  qed
qed

lemma demoSeedBox_key: "length (m_privateKey (demoSeedBox (replicate 32 4))) = 32"
  by (simp add: demoSeedBox_def generateIdentity_def X3DH_generateIdentity_def secretKeyFromSeed_def
      deriveAgreementKeysFromSeed_def identityPublic_def identityToX25519Private_def
      identityToX25519Public_def demo_def Let_def)

theorem wrapped_identity_roundtrip_witness:
  "\<exists>blob c'. saveIdentityEncrypted demo (demoSeedBox (replicate 32 4)) ''pw'' (replicate 16 1) (replicate 24 2)
       = Some blob \<and>
     loadIdentityEncrypted demo newCryptoBox (Some blob) ''pw'' = (c', True) \<and>
     same_identity c' (demoSeedBox (replicate 32 4))"
  by (rule wrapped_identity_roundtrip [OF demo_laws(5,6) demoSeedBox_ok _ _ demoSeedBox_key]) simp_all

text \<open>A password whose derived key does not open the sealed payload loads nothing: the
  box, with whatever identity it held, is unchanged and the load reports failure.\<close>

theorem wrong_password_loads_nothing:
  assumes "\<And>k. argon2id32 E kWrapCtx (toUtf8 E pw) (take 16 (drop 9 blob)) = Some k \<Longrightarrow>
      secretbox_open_easy E k (take 24 (drop 25 blob)) (drop 49 blob) = None"
  shows "loadIdentityEncrypted E b (Some blob) pw = (b, False)"
  using assms by (auto simp: loadIdentityEncrypted_def Let_def split: option.splits)

theorem wrong_password_loads_nothing_witness:
  "loadIdentityEncrypted demo demoLegacyBox
     (Some (kWrapMagic @ [2] @ replicate 16 1 @ replicate 24 2 @ replicate 48 9)) ''pw'' = (demoLegacyBox, False)"
  by (rule wrong_password_loads_nothing)
    (auto simp: demo_def argon2id32_def demo_open_def kWrapMagic_def kWrapCtx_def latin1_def sum_list_replicate)

text \<open>The verifier re-derived at login from the salt uploaded at registration is the
  verifier uploaded at registration.\<close>

theorem verifier_roundtrip:
  assumes "hex_law E" "length salt = 16" "deriveVerifier E pw salt = Some (v, saltHex)"
  shows "deriveVerifierWithSalt E pw saltHex = v"
  using assms
  by (auto simp: deriveVerifier_def deriveVerifierWithSalt_def hex_law_def Let_def split: option.splits)

theorem verifier_roundtrip_witness:
  "deriveVerifierWithSalt demo ''pw'' (toHex (replicate 16 1)) =
   fst (the (deriveVerifier demo ''pw'' (replicate 16 1)))"
proof -
  have "deriveVerifier demo ''pw'' (replicate 16 1) =
      Some (fst (the (deriveVerifier demo ''pw'' (replicate 16 1))), toHex (replicate 16 1))"
    by (simp add: deriveVerifier_def argon2id32_def demo_def)
  from verifier_roundtrip [OF demo_laws(7) _ this] show ?thesis by simp
qed

text \<open>A wrapped identity file of a version 1 account carries the legacy version byte:
  the loader accepts it, but the recogniser answers that it is not a wrapped-identity file.\<close>

theorem legacy_wrapped_file_not_recognised:
  assumes "m_identityVersion b = 1" "saveIdentityEncrypted E b pw salt nonce = Some blob"
  shows "\<not> isEncryptedIdentityFile (Some blob) \<and> take 8 blob = kWrapMagic \<and>
     blob ! 8 = kWrapVersionLegacy"
  using assms
  by (auto simp: saveIdentityEncrypted_def isEncryptedIdentityFile_def nth_append Let_def
      kWrapVersion_def kWrapVersionLegacy_def split: if_splits option.splits)

theorem legacy_wrapped_file_not_recognised_witness:
  "\<not> isEncryptedIdentityFile
       (saveIdentityEncrypted demo demoLegacyBox ''pw'' (replicate 16 1) (replicate 24 2))"
proof -
  obtain blob where blob: "saveIdentityEncrypted demo demoLegacyBox ''pw'' (replicate 16 1) (replicate 24 2)
      = Some blob"
    by (simp add: saveIdentityEncrypted_def argon2id32_def demo_def demoLegacyBox_def newCryptoBox_def
        Let_def)
  have "m_identityVersion demoLegacyBox = 1" by (simp add: demoLegacyBox_def)
  from legacy_wrapped_file_not_recognised [OF this blob] blob show ?thesis by simp
qed

end
