(* ===== verification/Prekeys.thy ===== *)
theory Prekeys
  imports Identity
begin

text \<open>
  The X3DH prekeys of the class \<open>CryptoBox\<close> (\<^verbatim>\<open>client/src/cryptobox.cpp\<close>): generation of the signed
  prekey and of the pool of one-time prekeys, rotation with its grace period, the two operations
  that open a session from a bundle or from an opener header, and the persisted blob.

  The lemmas show that a one-time prekey answers at most one opener, that a stale opener costs
  nothing, that rotation keeps the pool and the superseded key, that the blob restores the prekeys,
  and that the two sessions X3DH opens stand in the relation from which a conversation runs.
\<close>

section \<open>Generation\<close>

fun opkLoop :: "external \<Rightarrow> (nat \<Rightarrow> bytes) \<Rightarrow> nat \<Rightarrow> nat \<Rightarrow> CryptoBox \<Rightarrow> CryptoBox \<times> bool" where
  "opkLoop E rnd i 0 b = (b, True)"
| "opkLoop E rnd i (Suc n) b =
     (case newOneTimePrekey E (rnd i) of None \<Rightarrow> (b, False)
      | Some (priv, pub) \<Rightarrow>
          opkLoop E rnd (Suc i) n
            (b\<lparr>m_opkPriv := qmap_insert (m_nextOpkId b) priv (m_opkPriv b),
               m_nextOpkId := m_nextOpkId b + 1\<rparr>))"

definition generatePrekeys ::
  "external \<Rightarrow> bytes \<Rightarrow> (nat \<Rightarrow> bytes) \<Rightarrow> int \<Rightarrow> CryptoBox \<Rightarrow> int \<Rightarrow> CryptoBox \<times> bool" where
  "generatePrekeys E spkRnd opkRnd currentMs b opkCount =
     (if \<not> hasX3dhIdentity b then (b, False)
      else
        (let n = (if opkCount < 0 then 0 else opkCount)
         in case newSignedPrekey E (m_identitySeed b) spkRnd of None \<Rightarrow> (b, False)
            | Some (spkPriv, spkPub, sig) \<Rightarrow>
                (let b1 = (if m_spkPriv b \<noteq> [] then
                             b\<lparr>m_prevSpkPriv := m_spkPriv b, m_prevSpkPub := m_spkPub b,
                               m_prevSpkRetiredMs := currentMs\<rparr>
                           else b);
                     b2 = b1\<lparr>m_spkPriv := spkPriv, m_spkPub := spkPub, m_spkSig := sig,
                             m_spkCreatedMs := currentMs, m_opkPriv := []\<rparr>
                 in opkLoop E opkRnd 0 (nat n) b2)))"

definition signedPrekeyPublicHex :: "CryptoBox \<Rightarrow> qstring" where
  "signedPrekeyPublicHex b = toHex (m_spkPub b)"

definition signedPrekeySignatureHex :: "CryptoBox \<Rightarrow> qstring" where
  "signedPrekeySignatureHex b = toHex (m_spkSig b)"

definition oneTimePrekeyPublicsHex :: "external \<Rightarrow> CryptoBox \<Rightarrow> (u32 \<times> qstring) list" where
  "oneTimePrekeyPublicsHex E b =
     fold (\<lambda>(k, priv) out. qmap_insert k (toHex (scalarmult_base E priv)) out) (m_opkPriv b) []"

definition verifyBundle :: "external \<Rightarrow> bytes \<Rightarrow> bytes \<Rightarrow> bytes \<Rightarrow> bool" where
  "verifyBundle E ikB spkB sigB =
     (if length ikB \<noteq> 32 \<or> length spkB \<noteq> 32 \<or> length sigB \<noteq> 64 then False
      else verifyIdentitySignature E ikB spkB sigB)"

definition takeOneTimePrekey :: "CryptoBox \<Rightarrow> u32 \<Rightarrow> CryptoBox \<times> bytes" where
  "takeOneTimePrekey b i =
     (case map_of (m_opkPriv b) i of None \<Rightarrow> (b, [])
      | Some priv \<Rightarrow> (b\<lparr>m_opkPriv := AList.delete i (m_opkPriv b)\<rparr>, priv))"

section \<open>Rotation\<close>

definition signedPrekeyAgeMs :: "CryptoBox \<Rightarrow> int \<Rightarrow> int" where
  "signedPrekeyAgeMs b nowMs =
     (if m_spkPriv b = [] \<or> m_spkCreatedMs b \<le> 0 then - 1 else nowMs - m_spkCreatedMs b)"

definition rotateSignedPrekeyIfDue ::
  "external \<Rightarrow> bytes \<Rightarrow> int \<Rightarrow> CryptoBox \<Rightarrow> int \<Rightarrow> int \<Rightarrow> CryptoBox \<times> bool" where
  "rotateSignedPrekeyIfDue E spkRnd currentMs b maxAgeMs nowMs =
     (if \<not> hasX3dhIdentity b \<or> m_spkPriv b = [] then (b, False)
      else
        (let age0 = signedPrekeyAgeMs b nowMs;
             b1 = (if age0 < 0 then b\<lparr>m_spkCreatedMs := nowMs\<rparr> else b);
             age = (if age0 < 0 then 0 else age0)
         in if age < maxAgeMs then (b1, False)
            else
              (let keepPool = m_opkPriv b1; keepNextId = m_nextOpkId b1;
                   (b2, ok) = generatePrekeys E spkRnd (\<lambda>_. []) currentMs b1 0
               in if \<not> ok then (b2, False)
                  else (b2\<lparr>m_opkPriv := keepPool, m_nextOpkId := keepNextId\<rparr>, True))))"

definition dropExpiredPreviousPrekey :: "CryptoBox \<Rightarrow> int \<Rightarrow> int \<Rightarrow> CryptoBox \<times> bool" where
  "dropExpiredPreviousPrekey b graceMs nowMs =
     (if m_prevSpkPriv b = [] then (b, False)
      else if nowMs - m_prevSpkRetiredMs b < graceMs then (b, False)
      else (b\<lparr>m_prevSpkPriv := [], m_prevSpkPub := [], m_prevSpkRetiredMs := 0\<rparr>, True))"

section \<open>Opening sessions\<close>

definition beginX3dhSession ::
  "external \<Rightarrow> bytes \<Rightarrow> bytes \<Rightarrow> CryptoBox \<Rightarrow> qstring \<Rightarrow> bytes \<Rightarrow> bytes \<Rightarrow> bytes \<Rightarrow> bytes \<Rightarrow> int \<Rightarrow>
   CryptoBox \<times> (bytes \<times> bytes \<times> int) option" where
  "beginX3dhSession E ekRnd dhsRnd b peer peerIk peerSpk peerSpkSig peerOpk peerOpkId =
     (if \<not> hasX3dhIdentity b then (b, None)
      else
        (let bun0 = \<lparr>ik = peerIk, spk = peerSpk, spkSig = peerSpkSig, opk = [], opkId = - 1\<rparr>;
             bun = (if peerOpk \<noteq> [] then bun0\<lparr>opk := peerOpk, opkId := peerOpkId\<rparr> else bun0)
         in case initiator E (m_identitySeed b) bun ekRnd of None \<Rightarrow> (b, None)
            | Some r \<Rightarrow>
                (let sk = r_sk r
                 in if length sk \<noteq> 32 then (b, None)
                    else
                      (let (priv, pub) = genKeypair E dhsRnd;
                           s0 = newRatchetSession\<lparr>DHs_priv := priv, DHs_pub := pub, DHr_pub := peerSpk,
                                  haveDHr := True\<rparr>;
                           (rk, cks) = kdfRk E sk (dhFn E (DHs_priv s0) (DHr_pub s0));
                           s = s0\<lparr>RK := rk, CKs := cks\<rparr>
                       in (b\<lparr>m_sessions := (m_sessions b)(peer \<mapsto> s)\<rparr>,
                           Some (r_ik r, r_ek r, if peerOpk = [] then - 1 else peerOpkId))))))"

text \<open>Which signed prekey an opener was built from: the current one, the retained previous one, or
  one that is no longer held. An opener that names none predates rotation.\<close>

definition chooseSpkPriv :: "CryptoBox \<Rightarrow> bytes \<Rightarrow> bytes option" where
  "chooseSpkPriv b spkUsed =
     (if spkUsed = [] then Some (m_spkPriv b)
      else if spkUsed = m_spkPub b then Some (m_spkPriv b)
      else if m_prevSpkPub b \<noteq> [] \<and> spkUsed = m_prevSpkPub b then Some (m_prevSpkPriv b)
      else None)"

definition acceptX3dhSession ::
  "external \<Rightarrow> CryptoBox \<Rightarrow> qstring \<Rightarrow> bytes \<Rightarrow> bytes \<Rightarrow> int \<Rightarrow> bytes \<Rightarrow> CryptoBox \<times> bool" where
  "acceptX3dhSession E b peer ikA ekA headerOpkId spkUsed =
     (if \<not> hasX3dhIdentity b \<or> m_spkPriv b = [] then (b, False)
      else
        (let (b1, opkPriv) = (if 0 \<le> headerOpkId then takeOneTimePrekey b (word_of_int headerOpkId)
                              else (b, []))
         in if 0 \<le> headerOpkId \<and> opkPriv = [] then (b1, False)
            else
              (case chooseSpkPriv b1 spkUsed of
                 None \<Rightarrow>
                   (if 0 \<le> headerOpkId \<and> opkPriv \<noteq> []
                    then b1\<lparr>m_opkPriv := qmap_insert (word_of_int headerOpkId) opkPriv (m_opkPriv b1)\<rparr>
                    else b1, False)
               | Some useSpkPriv \<Rightarrow>
                   (case responder E (m_identitySeed b1) useSpkPriv opkPriv ikA ekA of
                      None \<Rightarrow> (b1, False)
                    | Some sk \<Rightarrow>
                        (let s = newRatchetSession\<lparr>DHs_priv := useSpkPriv,
                               DHs_pub := (if useSpkPriv = m_spkPriv b1 then m_spkPub b1 else m_prevSpkPub b1),
                               RK := sk, haveDHr := False\<rparr>
                         in (b1\<lparr>m_sessions := (m_sessions b1)(peer \<mapsto> s)\<rparr>, True))))))"

section \<open>The persisted blob\<close>

definition kPrekeyMagic :: bytes where "kPrekeyMagic = latin1 ''CE2EPKEY''"
definition kPrekeyVersionV1 :: byte where "kPrekeyVersionV1 = 1"
definition kPrekeyVersion :: byte where "kPrekeyVersion = 2"

definition serialisePrekeys :: "CryptoBox \<Rightarrow> bytes" where
  "serialisePrekeys b =
     (if m_spkPriv b = [] then []
      else kPrekeyMagic @ [kPrekeyVersion] @ m_spkPriv b @ m_spkSig b @
           be64 (m_spkCreatedMs b) @ be64 (m_prevSpkRetiredMs b) @
           be32 (of_nat (length (m_prevSpkPriv b))) @
           (if m_prevSpkPriv b \<noteq> [] then m_prevSpkPriv b @ m_prevSpkPub b else []) @
           be32 (m_nextOpkId b) @ be32 (of_nat (length (m_opkPriv b))) @
           concat (map (wr_pair be32 (\<lambda>p. p)) (m_opkPriv b)))"

text \<open>The version 2 part of the blob: creation and retirement times and the previous prekey. A
  version 1 blob has none of it. A read past the end makes the whole restore fail, as the final
  status check of the stream does.\<close>

definition readPrevious ::
  "byte \<Rightarrow> bytes \<Rightarrow> ((int \<times> int \<times> bytes \<times> bytes) \<times> bytes) option" where
  "readPrevious ver bs =
     (if ver < kPrekeyVersion then Some ((0, 0, [], []), bs)
      else case rd64 bs of None \<Rightarrow> None
      | Some (created, r1) \<Rightarrow> (case rd64 r1 of None \<Rightarrow> None
      | Some (retired, r2) \<Rightarrow> (case rd32 r2 of None \<Rightarrow> None
      | Some (prevLen, r3) \<Rightarrow>
          if prevLen = 32 then
            (case rd_raw 32 r3 of None \<Rightarrow> None
             | Some (prevPriv, r4) \<Rightarrow> (case rd_raw 32 r4 of None \<Rightarrow> None
             | Some (prevPub, r5) \<Rightarrow> Some ((created, retired, prevPriv, prevPub), r5)))
          else if prevLen \<noteq> 0 then None
          else Some ((created, retired, [], []), r3))))"

definition restorePrekeys :: "external \<Rightarrow> int \<Rightarrow> CryptoBox \<Rightarrow> bytes \<Rightarrow> CryptoBox \<times> bool" where
  "restorePrekeys E currentMs b blob =
     (if length blob < 8 + 1 + 32 + 64 + 8 then (b, False)
      else if take 8 blob \<noteq> kPrekeyMagic then (b, False)
      else
        (let ver = blob ! 8
         in if ver \<noteq> kPrekeyVersion \<and> ver \<noteq> kPrekeyVersionV1 then (b, False)
            else case rd_raw 32 (drop 9 blob) of None \<Rightarrow> (b, False)
            | Some (spkPriv, r1) \<Rightarrow> (case rd_raw 64 r1 of None \<Rightarrow> (b, False)
            | Some (sig, r2) \<Rightarrow> (case readPrevious ver r2 of None \<Rightarrow> (b, False)
            | Some ((created, retired, prevPriv, prevPub), r3) \<Rightarrow>
                (case rd32 r3 of None \<Rightarrow> (b, False)
            | Some (nextId, r4) \<Rightarrow> (case rd32 r4 of None \<Rightarrow> (b, False)
            | Some (cnt, r5) \<Rightarrow>
                (case read_many (rd_pair rd32 (rd_raw 32)) (unat cnt) r5 of None \<Rightarrow> (b, False)
            | Some (entries, r6) \<Rightarrow>
                (b\<lparr>m_spkPriv := spkPriv, m_spkSig := sig, m_nextOpkId := nextId,
                   m_opkPriv := fold (\<lambda>(k, v). qmap_insert k v) entries [],
                   m_spkCreatedMs := (if kPrekeyVersion \<le> ver \<and> 0 < created then created else currentMs),
                   m_prevSpkPriv := prevPriv, m_prevSpkPub := prevPub, m_prevSpkRetiredMs := retired,
                   m_spkPub := scalarmult_base E spkPriv\<rparr>, True))))))))"

section \<open>The pool of one-time prekeys\<close>

definition pool_ok :: "CryptoBox \<Rightarrow> bool" where
  "pool_ok b \<longleftrightarrow> qmap_ok (m_opkPriv b) \<and> (\<forall>e \<in> set (m_opkPriv b). length (snd e) = 32)"

lemma qmap_reinsert:
  "qmap_ok ps \<Longrightarrow> map_of ps i = Some v \<Longrightarrow> qmap_insert i v (AList.delete i ps) = ps"
proof (induction ps)
  case (Cons p ps)
  show ?case
  proof (cases "fst p = i")
    case True
    with Cons.prems have v: "p = (i, v)" and below: "\<forall>q \<in> set ps. i < fst q"
      by (auto simp: qmap_ok_Cons)
    then have "AList.delete i ps = ps" by (intro AList.delete_id) auto
    moreover have "qmap_insert i v ps = (i, v) # ps" using below by (cases ps) auto
    ultimately show ?thesis using v by simp
  next
    case False
    with Cons.prems have m: "map_of ps i = Some v" and ok: "qmap_ok ps" "\<forall>q \<in> set ps. fst p < fst q"
      by (cases p; simp add: qmap_ok_Cons)+
    then have "fst p < i" using map_of_SomeD [OF m] by auto
    with False m ok Cons.IH show ?thesis by (cases p) simp
  qed
qed simp

lemma pool_nonempty: "pool_ok b \<Longrightarrow> map_of (m_opkPriv b) i = Some priv \<Longrightarrow> priv \<noteq> []"
  using map_of_SomeD [of "m_opkPriv b" i priv] by (auto simp: pool_ok_def)

lemma chooseSpkPriv_pool [simp]:
  "chooseSpkPriv (b\<lparr>m_opkPriv := ps\<rparr>) spkUsed = chooseSpkPriv b spkUsed"
  by (simp add: chooseSpkPriv_def)

lemma acceptX3dhSession_True:
  assumes "acceptX3dhSession E b peer ikA ekA i spkUsed = (b', True)" "0 \<le> i"
  shows "map_of (m_opkPriv b) (word_of_int i) \<noteq> None"
    "m_opkPriv b' = AList.delete (word_of_int i) (m_opkPriv b)"
    "hasX3dhIdentity b' \<longleftrightarrow> hasX3dhIdentity b" "m_spkPriv b' = m_spkPriv b"
  using assms
  by (auto simp: acceptX3dhSession_def takeOneTimePrekey_def hasX3dhIdentity_def Let_def
      split: if_splits option.splits)

text \<open>C21 (safety). A one-time prekey answers one opener: after a session has been accepted under its
  id, any opener that names the id again is refused and changes nothing, whatever else it carries.\<close>

theorem one_time_prekey_single_use:
  assumes "acceptX3dhSession E b peer ikA ekA i spkUsed = (b', True)" "0 \<le> i"
    "qmap_ok (m_opkPriv b)"
  shows "acceptX3dhSession E b' peer2 ikA2 ekA2 i spkUsed2 = (b', False)"
proof -
  have "map_of (m_opkPriv b') (word_of_int i) = None"
    using qmap.erase_once [OF assms(3)] acceptX3dhSession_True(2) [OF assms(1,2)] by simp
  with assms(2) show ?thesis by (simp add: acceptX3dhSession_def takeOneTimePrekey_def)
qed

text \<open>An opener built against a signed prekey that is no longer held is refused and leaves
  the box exactly as it was: the one-time prekey it named is back in the pool.\<close>

theorem stale_opener_costs_nothing:
  assumes "pool_ok b" "chooseSpkPriv b spkUsed = None"
  shows "acceptX3dhSession E b peer ikA ekA i spkUsed = (b, False)"
proof (cases "map_of (m_opkPriv b) (word_of_int i)")
  case None
  with assms show ?thesis by (simp add: acceptX3dhSession_def takeOneTimePrekey_def)
next
  case (Some priv)
  with assms pool_nonempty [OF assms(1) Some] show ?thesis
    by (simp add: acceptX3dhSession_def takeOneTimePrekey_def qmap_reinsert pool_ok_def)
qed

section \<open>Fresh identifiers\<close>

lemma qmap_insert_last: "\<forall>p \<in> set ps. fst p < k \<Longrightarrow> qmap_insert k v ps = ps @ [(k, v)]"
  by (induction ps) auto

lemma opkLoop_closed:
  assumes "unat (m_nextOpkId b) + n < 2 ^ 32" "\<forall>p \<in> set (m_opkPriv b). fst p < m_nextOpkId b"
  shows "opkLoop E rnd i n b =
    (b\<lparr>m_opkPriv := m_opkPriv b @ map (\<lambda>j. (m_nextOpkId b + of_nat j, rnd (i + j))) [0..<n],
       m_nextOpkId := m_nextOpkId b + of_nat n\<rparr>, True)"
  using assms
proof (induction n arbitrary: i b)
  case (Suc n)
  let ?k = "m_nextOpkId b"
  let ?b1 = "b\<lparr>m_opkPriv := m_opkPriv b @ [(?k, rnd i)], m_nextOpkId := ?k + 1\<rparr>"
  have k1: "unat (?k + 1) = unat ?k + 1"
    using Suc.prems(1) by (simp add: unat_word_ariths)
  then have lt: "?k < ?k + 1" by (simp add: word_less_nat_alt)
  have step: "opkLoop E rnd i (Suc n) b = opkLoop E rnd (Suc i) n ?b1"
    using Suc.prems(2) by (simp add: newOneTimePrekey_def qmap_insert_last)
  have "\<forall>p \<in> set (m_opkPriv ?b1). fst p < m_nextOpkId ?b1"
    using Suc.prems(2) lt by (auto dest: order.strict_trans)
  then have "opkLoop E rnd (Suc i) n ?b1 = (?b1\<lparr>m_opkPriv := m_opkPriv ?b1 @
       map (\<lambda>j. (m_nextOpkId ?b1 + of_nat j, rnd (Suc i + j))) [0..<n],
       m_nextOpkId := m_nextOpkId ?b1 + of_nat n\<rparr>, True)"
    using Suc.prems(1) k1 by (intro Suc.IH) simp_all
  moreover have "map (\<lambda>j. (?k + of_nat j, rnd (i + j))) [0..<Suc n] =
      (?k, rnd i) # map (\<lambda>j. (?k + 1 + of_nat j, rnd (Suc i + j))) [0..<n]"
    by (simp add: upt_conv_Cons map_Suc_upt [symmetric] comp_def add.assoc del: upt_Suc)
  ultimately show ?case using step by (simp add: add.assoc)
qed simp

section \<open>The state of the prekeys\<close>

text \<open>What a box with published prekeys holds: a signed prekey of the right sizes with its public
  half and a signature that verifies, a previous one or none, and a pool of one-time prekeys whose
  identifiers are below the next one.\<close>

definition prekeys_ok :: "external \<Rightarrow> CryptoBox \<Rightarrow> bool" where
  "prekeys_ok E b \<longleftrightarrow>
     identity_ok E b \<and> m_identityVersion b = 2 \<and>
     length (m_spkPriv b) = 32 \<and> m_spkPub b = scalarmult_base E (m_spkPriv b) \<and>
     m_spkSig b = sign E (m_identitySeed b) (m_spkPub b) \<and>
     (m_prevSpkPriv b = [] \<and> m_prevSpkPub b = [] \<or>
      length (m_prevSpkPriv b) = 32 \<and> m_prevSpkPub b = scalarmult_base E (m_prevSpkPriv b)) \<and>
     pool_ok b \<and> (\<forall>p \<in> set (m_opkPriv b). fst p < m_nextOpkId b)"

lemma prekeys_okD:
  assumes "prekeys_ok E b"
  shows "identity_ok E b" "m_identityVersion b = 2" "length (m_identitySeed b) = 32"
    "hasX3dhIdentity b" "length (m_spkPriv b) = 32" "m_spkPriv b \<noteq> []"
    "m_spkPub b = scalarmult_base E (m_spkPriv b)" "m_spkSig b = sign E (m_identitySeed b) (m_spkPub b)"
    "m_prevSpkPriv b = [] \<and> m_prevSpkPub b = [] \<or>
      length (m_prevSpkPriv b) = 32 \<and> m_prevSpkPub b = scalarmult_base E (m_prevSpkPriv b)"
    "pool_ok b" "qmap_ok (m_opkPriv b)" "\<forall>p \<in> set (m_opkPriv b). fst p < m_nextOpkId b"
  using assms by (auto simp: prekeys_ok_def hasX3dhIdentity_def pool_ok_def identity_ok_def)

lemma newSignedPrekey_Some:
  assumes "identity_law E" "sign_law E" "length seed = 32"
  shows "newSignedPrekey E seed rnd =
    Some (rnd, scalarmult_base E rnd, sign E seed (scalarmult_base E rnd))"
proof -
  have "sign E seed (scalarmult_base E rnd) \<noteq> []"
    using sign_verifies(2) [OF assms, of "scalarmult_base E rnd"] by auto
  then show ?thesis by (simp add: newSignedPrekey_def Let_def)
qed

lemma derive_frame:
  assumes "deriveAgreementKeysFromSeed E b = Some b"
    "m_identitySeed c = m_identitySeed b" "m_edPublicKey c = m_edPublicKey b"
    "m_privateKey c = m_privateKey b" "m_publicKey c = m_publicKey b"
  shows "deriveAgreementKeysFromSeed E c = Some c"
  using derive_same [OF assms(1,2)] assms(3-5) by (cases c) simp

lemma identity_ok_frame:
  assumes "identity_ok E b" "same_identity c b"
  shows "identity_ok E c"
  using assms derive_frame [of E b c] by (auto simp: identity_ok_def same_identity_def)

lemma identity_ok_ed:
  assumes "identity_ok E b" "m_identityVersion b = 2"
  shows "m_edPublicKey b = identityPublic E (m_identitySeed b)"
proof -
  obtain x y where "Some (b\<lparr>m_edPublicKey := identityPublic E (m_identitySeed b), m_privateKey := x,
      m_publicKey := y\<rparr>) = Some b"
    using identity_ok_v2(3) [OF assms]
    by (auto simp: deriveAgreementKeysFromSeed_def Let_def split: if_splits option.splits)
  then have "m_edPublicKey (b\<lparr>m_edPublicKey := identityPublic E (m_identitySeed b), m_privateKey := x,
      m_publicKey := y\<rparr>) = m_edPublicKey b" by simp
  then show ?thesis by simp
qed

lemma generatePrekeys_closed:
  assumes laws: "identity_law E" "sign_law E" and id: "identity_ok E b" "m_identityVersion b = 2"
    and room: "unat (m_nextOpkId b) + nat n < 2 ^ 32"
  shows "generatePrekeys E spkRnd opkRnd t b n =
    ((if m_spkPriv b \<noteq> [] then b\<lparr>m_prevSpkPriv := m_spkPriv b, m_prevSpkPub := m_spkPub b,
        m_prevSpkRetiredMs := t\<rparr> else b)
      \<lparr>m_spkPriv := spkRnd, m_spkPub := scalarmult_base E spkRnd,
       m_spkSig := sign E (m_identitySeed b) (scalarmult_base E spkRnd), m_spkCreatedMs := t,
       m_opkPriv := map (\<lambda>j. (m_nextOpkId b + of_nat j, opkRnd j)) [0..<nat n],
       m_nextOpkId := m_nextOpkId b + of_nat (nat n)\<rparr>, True)"
proof -
  have x3: "hasX3dhIdentity b" and len: "length (m_identitySeed b) = 32"
    using id by (auto simp: hasX3dhIdentity_def identity_ok_def)
  have "(if n < 0 then 0 else n) = int (nat n)" by simp
  with x3 room show ?thesis
    by (simp add: generatePrekeys_def newSignedPrekey_Some [OF laws len] Let_def opkLoop_closed
        del: of_nat_nat)
qed

lemma sorted_fresh_ids:
  assumes "unat (k :: u32) + n < 2 ^ 32"
  shows "qmap_ok (map (\<lambda>j. (k + of_nat j, f j)) [0..<n])"
    "\<forall>p \<in> set (map (\<lambda>j. (k + of_nat j, f j)) [0..<n]). k \<le> fst p \<and> fst p < k + of_nat n"
proof -
  have u: "unat (k + of_nat j) = unat k + j" if "j \<le> n" for j
    using assms that by (simp add: window_unat)
  show "qmap_ok (map (\<lambda>j. (k + of_nat j, f j)) [0..<n])"
    using u by (auto simp: qmap_ok_def sorted_wrt_iff_nth_less word_less_nat_alt)
  show "\<forall>p \<in> set (map (\<lambda>j. (k + of_nat j, f j)) [0..<n]). k \<le> fst p \<and> fst p < k + of_nat n"
    using u [of n] u by (auto simp: word_less_nat_alt word_le_nat_alt)
qed

text \<open>Generating prekeys on a version 2 identity succeeds and leaves well-formed
  prekeys: the new signed prekey verifies as a bundle, the replaced one is retained, the pool has
  exactly the requested number of entries, and its identifiers were never handed out before.\<close>

theorem generatePrekeys_fresh:
  assumes laws: "identity_law E" "sign_law E" "dh_law E"
    and id: "identity_ok E b" "m_identityVersion b = 2"
    and room: "unat (m_nextOpkId b) + nat n < 2 ^ 32"
    and sizes: "length spkRnd = 32" "\<And>j. length (opkRnd j) = 32"
    and old: "m_spkPriv b = [] \<and> m_prevSpkPriv b = [] \<and> m_prevSpkPub b = [] \<or>
        length (m_spkPriv b) = 32 \<and> m_spkPub b = scalarmult_base E (m_spkPriv b)"
    and gen: "generatePrekeys E spkRnd opkRnd t b n = (b', ok)"
  shows "ok \<and> prekeys_ok E b' \<and> verifyBundle E (m_edPublicKey b') (m_spkPub b') (m_spkSig b') \<and>
    length (m_opkPriv b') = nat n \<and> (\<forall>p \<in> set (m_opkPriv b'). m_nextOpkId b \<le> fst p) \<and>
    (m_spkPriv b \<noteq> [] \<longrightarrow> m_prevSpkPriv b' = m_spkPriv b \<and> m_prevSpkPub b' = m_spkPub b)"
proof -
  have len: "length (m_identitySeed b) = 32" using id by (auto simp: identity_ok_def)
  note b' = gen [unfolded generatePrekeys_closed [OF laws(1,2) id(1,2) room], simplified, THEN conjunct1, symmetric]
  have ok: ok using gen by (simp add: generatePrekeys_closed [OF laws(1,2) id(1,2) room])
  have same: "same_identity b' b" by (auto simp: b' same_identity_def)
  have fields: "m_spkPriv b' = spkRnd" "m_spkPub b' = scalarmult_base E spkRnd"
    "m_spkSig b' = sign E (m_identitySeed b) (scalarmult_base E spkRnd)"
    "m_opkPriv b' = map (\<lambda>j. (m_nextOpkId b + of_nat j, opkRnd j)) [0..<nat n]"
    "m_nextOpkId b' = m_nextOpkId b + of_nat (nat n)"
    "m_prevSpkPriv b' = (if m_spkPriv b = [] then m_prevSpkPriv b else m_spkPriv b)"
    "m_prevSpkPub b' = (if m_spkPriv b = [] then m_prevSpkPub b else m_spkPub b)"
    by (auto simp: b')
  note ids = sorted_fresh_ids [OF room, of opkRnd]
  have pool: "pool_ok b'" using ids(1) sizes(2) by (auto simp: pool_ok_def fields)
  have pk: "prekeys_ok E b'"
    unfolding prekeys_ok_def
    using identity_ok_frame [OF id(1) same] same id(2) sizes(1) old pool ids(2)
    by (auto simp: fields same_identity_def)
  have "verifyBundle E (m_edPublicKey b') (m_spkPub b') (m_spkSig b')"
    using sign_verifies [OF laws(1,2) len, of "scalarmult_base E spkRnd"] same identity_ok_ed [OF id] laws(3)
    by (simp add: verifyBundle_def verifyIdentitySignature_def fields same_identity_def dh_law_def
        verify_def split: if_splits)
  with ok pk ids(2) show ?thesis by (simp add: fields)
qed

lemma demo_seed_box:
  "identity_ok demo (demoSeedBox (replicate 32 4))" "m_identityVersion (demoSeedBox (replicate 32 4)) = 2"
  "m_identitySeed (demoSeedBox (replicate 32 4)) = replicate 32 4"
  "m_spkPriv (demoSeedBox (replicate 32 4)) = []" "m_prevSpkPriv (demoSeedBox (replicate 32 4)) = []"
  "m_prevSpkPub (demoSeedBox (replicate 32 4)) = []" "m_nextOpkId (demoSeedBox (replicate 32 4)) = 0"
  using demoSeedBox_ok [of "replicate 32 4"]
  by (simp_all add: demoSeedBox_def generateIdentity_ok demo_identity_law demo_laws)
    (simp_all add: generateIdentity_def X3DH_generateIdentity_def deriveAgreementKeysFromSeed_def
      newCryptoBox_def Let_def split: option.splits)

definition demoPrekeyBox :: CryptoBox where
  "demoPrekeyBox = fst (generatePrekeys demo (replicate 32 5) (\<lambda>j. replicate 32 (of_nat j + 7)) 1000
     (demoSeedBox (replicate 32 4)) 3)"

theorem generatePrekeys_fresh_witness:
  "prekeys_ok demo demoPrekeyBox \<and> length (m_opkPriv demoPrekeyBox) = 3"
  using generatePrekeys_fresh [OF demo_identity_law demo_laws(4,2) demo_seed_box(1,2), of 3
      "replicate 32 5" "\<lambda>j. replicate 32 (of_nat j + 7)" 1000]
  by (simp add: demo_seed_box demoPrekeyBox_def)
    (metis (no_types, lifting) prod.collapse)

lemma demoPrekeyBox_eq:
  "demoPrekeyBox = (demoSeedBox (replicate 32 4))
      \<lparr>m_spkPriv := replicate 32 5, m_spkPub := scalarmult_base demo (replicate 32 5),
       m_spkSig := sign demo (replicate 32 4) (scalarmult_base demo (replicate 32 5)),
       m_spkCreatedMs := 1000,
       m_opkPriv := map (\<lambda>j. (of_nat j, replicate 32 (of_nat j + 7))) [0..<3], m_nextOpkId := 3\<rparr>"
  unfolding demoPrekeyBox_def
  by (subst generatePrekeys_closed [OF demo_identity_law demo_laws(4) demo_seed_box(1,2)])
    (simp_all add: demo_seed_box)

lemma demoPrekeyBox_ok: "prekeys_ok demo demoPrekeyBox"
  unfolding prekeys_ok_def demoPrekeyBox_eq
  using sorted_fresh_ids [of 0 3 "\<lambda>j. replicate 32 (of_nat j + 7) :: bytes"]
    identity_ok_frame [OF demo_seed_box(1)]
  by (auto simp: demo_seed_box pool_ok_def same_identity_def)

section \<open>Rotation and its grace period\<close>

lemma prekeys_ok_restamp: "prekeys_ok E b \<Longrightarrow> prekeys_ok E (b\<lparr>m_spkCreatedMs := x\<rparr>)"
  using identity_ok_frame [of E b "b\<lparr>m_spkCreatedMs := x\<rparr>"]
  by (simp add: prekeys_ok_def pool_ok_def same_identity_def)

lemma rotate_due:
  assumes laws: "identity_law E" "sign_law E" and ok: "prekeys_ok E b"
    and due: "maxAgeMs \<le> max 0 (signedPrekeyAgeMs b nowMs)"
  shows "rotateSignedPrekeyIfDue E spkRnd t b maxAgeMs nowMs =
    (b\<lparr>m_prevSpkPriv := m_spkPriv b, m_prevSpkPub := m_spkPub b, m_prevSpkRetiredMs := t,
       m_spkPriv := spkRnd, m_spkPub := scalarmult_base E spkRnd,
       m_spkSig := sign E (m_identitySeed b) (scalarmult_base E spkRnd), m_spkCreatedMs := t\<rparr>, True)"
proof -
  define b1 where "b1 = (if signedPrekeyAgeMs b nowMs < 0 then b\<lparr>m_spkCreatedMs := nowMs\<rparr> else b)"
  have id: "identity_ok E b1" "m_identityVersion b1 = 2"
    using prekeys_okD(1,2) [OF ok] identity_ok_frame [OF prekeys_okD(1) [OF ok], of b1]
    by (auto simp: b1_def same_identity_def)
  have gen: "generatePrekeys E spkRnd (\<lambda>_. []) t b1 0 =
    (b\<lparr>m_prevSpkPriv := m_spkPriv b, m_prevSpkPub := m_spkPub b, m_prevSpkRetiredMs := t,
       m_spkPriv := spkRnd, m_spkPub := scalarmult_base E spkRnd,
       m_spkSig := sign E (m_identitySeed b) (scalarmult_base E spkRnd), m_spkCreatedMs := t,
       m_opkPriv := []\<rparr>, True)"
    using prekeys_okD(6) [OF ok] unsigned_less [of "m_nextOpkId b", where ?'a = nat]
    by (subst generatePrekeys_closed [OF laws id]) (auto simp: b1_def)
  have "m_opkPriv b1 = m_opkPriv b" "m_nextOpkId b1 = m_nextOpkId b" by (auto simp: b1_def)
  with gen prekeys_okD(4,6) [OF ok] due show ?thesis
    unfolding rotateSignedPrekeyIfDue_def b1_def [symmetric] Let_def by (auto simp: max_def split: if_splits)
qed

lemma rotate_not_due:
  assumes "prekeys_ok E b" "max 0 (signedPrekeyAgeMs b nowMs) < maxAgeMs"
  shows "rotateSignedPrekeyIfDue E spkRnd t b maxAgeMs nowMs =
    (if signedPrekeyAgeMs b nowMs < 0 then b\<lparr>m_spkCreatedMs := nowMs\<rparr> else b, False)"
  using assms prekeys_okD(4,6) [OF assms(1)] by (auto simp: rotateSignedPrekeyIfDue_def Let_def)

text \<open>A call to rotate the signed prekey keeps the prekeys well formed and the pool of
  one-time prekeys with its counter exactly as they were; it replaces the signed prekey if and only
  if the key is old enough, counting an unreadable or future creation time as new.\<close>

theorem rotation_preserves_prekeys:
  assumes "identity_law E" "sign_law E" "prekeys_ok E b" "length spkRnd = 32"
    "rotateSignedPrekeyIfDue E spkRnd t b maxAgeMs nowMs = (b', rotated)"
  shows "prekeys_ok E b' \<and> m_opkPriv b' = m_opkPriv b \<and> m_nextOpkId b' = m_nextOpkId b \<and>
    (rotated \<longleftrightarrow> maxAgeMs \<le> max 0 (signedPrekeyAgeMs b nowMs)) \<and>
    m_spkPriv b' = (if rotated then spkRnd else m_spkPriv b)"
proof (cases "maxAgeMs \<le> max 0 (signedPrekeyAgeMs b nowMs)")
  case True
  note b' = assms(5) [unfolded rotate_due [OF assms(1-3) True]]
  have "same_identity b' b" using b' by (auto simp: same_identity_def)
  from identity_ok_frame [OF prekeys_okD(1) [OF assms(3)] this] b' True show ?thesis
    using assms(3,4) by (clarsimp simp: prekeys_ok_def pool_ok_def)
next
  case False
  note b' = assms(5) [unfolded rotate_not_due [OF assms(3) False [unfolded not_le]]]
  with False assms(3) prekeys_ok_restamp show ?thesis by (auto split: if_splits)
qed

theorem rotation_preserves_prekeys_witness:
  "prekeys_ok demo (fst (rotateSignedPrekeyIfDue demo (replicate 32 6) 9000 demoPrekeyBox 5000 9000)) \<and>
   length (m_opkPriv (fst (rotateSignedPrekeyIfDue demo (replicate 32 6) 9000 demoPrekeyBox 5000 9000))) = 3"
  using rotation_preserves_prekeys [OF demo_identity_law demo_laws(4) demoPrekeyBox_ok, of "replicate 32 6"]
  by (simp add: demoPrekeyBox_eq) (metis (no_types, lifting) length_map length_upt prod.collapse diff_zero)

text \<open>After a rotation, an opener built against the replaced prekey is answered with
  its key until the grace period has passed and refused from then on, while an opener built against
  the new prekey is answered with the new key in both cases.\<close>

theorem rotation_grace_period:
  assumes "identity_law E" "sign_law E" "dh_law E" "prekeys_ok E b"
    "rotateSignedPrekeyIfDue E spkRnd t b maxAgeMs nowMs = (b', True)"
    "dropExpiredPreviousPrekey b' graceMs laterMs = (b'', dropped)"
    and "scalarmult_base E spkRnd \<noteq> m_spkPub b"
  shows "dropped = (graceMs \<le> laterMs - t) \<and>
    chooseSpkPriv b'' (m_spkPub b) = (if laterMs - t < graceMs then Some (m_spkPriv b) else None) \<and>
    chooseSpkPriv b'' (m_spkPub b'') = Some spkRnd"
proof -
  have due: "maxAgeMs \<le> max 0 (signedPrekeyAgeMs b nowMs)"
    using rotate_not_due [OF assms(4), of nowMs maxAgeMs spkRnd t] assms(5)
    by (cases "maxAgeMs \<le> max 0 (signedPrekeyAgeMs b nowMs)") (auto simp: not_le)
  note b' = assms(5) [unfolded rotate_due [OF assms(1,2,4) due]]
  have ne: "scalarmult_base E k \<noteq> []" for k
    using assms(3) by (metis dh_law_def list.size(3) zero_neq_numeral)
  have pub: "m_spkPub b \<noteq> []" "m_spkPriv b \<noteq> []"
    using prekeys_okD(6,7) [OF assms(4)] ne by simp_all
  from b' assms(6,7) pub ne show ?thesis
    by (auto simp: dropExpiredPreviousPrekey_def chooseSpkPriv_def split: if_splits)
qed

text \<open>A prekey that was not due is replaced once the maximum age has passed since that
  check, whatever creation time was recorded: a clock that was wrong cannot postpone it.\<close>

theorem rotation_not_postponed:
  assumes "identity_law E" "sign_law E" "prekeys_ok E b" "0 < nowMs" "0 \<le> maxAgeMs"
    "rotateSignedPrekeyIfDue E spkRnd t b maxAgeMs nowMs = (b', False)" "maxAgeMs \<le> laterMs - nowMs"
  shows "snd (rotateSignedPrekeyIfDue E spkRnd2 t2 b' maxAgeMs laterMs)"
proof -
  have nd: "max 0 (signedPrekeyAgeMs b nowMs) < maxAgeMs"
    using rotate_due [OF assms(1-3), of maxAgeMs nowMs spkRnd t] assms(6)
    by (cases "maxAgeMs \<le> max 0 (signedPrekeyAgeMs b nowMs)") auto
  note b' = assms(6) [unfolded rotate_not_due [OF assms(3) nd]]
  then have ok: "prekeys_ok E b'" using assms(3) prekeys_ok_restamp by (auto split: if_splits)
  have "maxAgeMs \<le> signedPrekeyAgeMs b' laterMs"
    using b' assms(4,7) prekeys_okD(6) [OF ok]
    by (auto simp: signedPrekeyAgeMs_def split: if_splits)
  then have "maxAgeMs \<le> max 0 (signedPrekeyAgeMs b' laterMs)" by simp
  from rotate_due [OF assms(1,2) ok this] show ?thesis by simp
qed

theorem rotation_not_postponed_witness:
  "snd (rotateSignedPrekeyIfDue demo (replicate 32 8) 900
     (fst (rotateSignedPrekeyIfDue demo (replicate 32 6) 200 demoPrekeyBox 500 200)) 500 900)"
proof -
  have "rotateSignedPrekeyIfDue demo (replicate 32 6) 200 demoPrekeyBox 500 200 =
      (demoPrekeyBox\<lparr>m_spkCreatedMs := 200\<rparr>, False)"
    by (subst rotate_not_due [OF demoPrekeyBox_ok])
      (simp_all add: signedPrekeyAgeMs_def demoPrekeyBox_eq)
  with rotation_not_postponed [OF demo_identity_law demo_laws(4) demoPrekeyBox_ok _ _ this] show ?thesis
    by simp
qed

theorem rotation_grace_period_witness:
  "chooseSpkPriv (fst (dropExpiredPreviousPrekey
       (fst (rotateSignedPrekeyIfDue demo (replicate 32 6) 9000 demoPrekeyBox 5000 9000)) 1000 9500))
     (m_spkPub demoPrekeyBox) = Some (replicate 32 5)"
proof -
  have "maxAge \<le> max 0 (signedPrekeyAgeMs demoPrekeyBox 9000)" if "maxAge = 5000" for maxAge
    using that by (simp add: signedPrekeyAgeMs_def demoPrekeyBox_eq)
  from rotate_due [OF demo_identity_law demo_laws(4) demoPrekeyBox_ok this]
  obtain b' where b': "rotateSignedPrekeyIfDue demo (replicate 32 6) 9000 demoPrekeyBox 5000 9000 = (b', True)"
    by blast
  obtain b'' d where b'': "dropExpiredPreviousPrekey b' 1000 9500 = (b'', d)" by fastforce
  have "scalarmult_base demo (replicate 32 6) \<noteq> m_spkPub demoPrekeyBox"
    by (simp add: demoPrekeyBox_eq) (simp add: demo_def)
  from rotation_grace_period [OF demo_identity_law demo_laws(4,2) demoPrekeyBox_ok b' b'' this]
  show ?thesis by (simp add: b' b'') (simp add: demoPrekeyBox_eq)
qed

section \<open>The persisted blob restores the prekeys\<close>

lemma qmap_fold_insert:
  "qmap_ok (qs @ ps) \<Longrightarrow> fold (\<lambda>(k, v). qmap_insert k v) ps qs = qs @ ps"
proof (induction ps arbitrary: qs)
  case (Cons p ps)
  have "\<forall>q \<in> set qs. fst q < fst p" using Cons.prems by (auto simp: qmap_ok_def sorted_wrt_append)
  then show ?case using Cons by (simp add: case_prod_beta qmap_insert_last)
qed simp

lemma readPrevious_written:
  assumes "i64_range created" "i64_range retired"
    and "priv = [] \<and> pub = [] \<or> length priv = 32 \<and> length pub = 32"
  shows "readPrevious kPrekeyVersion (be64 created @ be64 retired @ be32 (of_nat (length priv)) @
      (if priv \<noteq> [] then priv @ pub else []) @ rest) = Some ((created, retired, priv, pub), rest)"
  using assms(3)
proof
  assume "priv = [] \<and> pub = []"
  with assms(1,2) show ?thesis by (simp add: readPrevious_def)
next
  assume "length priv = 32 \<and> length pub = 32"
  with assms(1,2) craw.dec_enc [of priv 32 "pub @ rest"] craw.dec_enc [of pub 32 rest]
  show ?thesis by (auto simp: readPrevious_def)
qed

text \<open>The blob written for a box restores its prekeys into any box: the signed prekey
  with its times, the previous one, the pool and the counter.\<close>

theorem prekeys_roundtrip:
  assumes laws: "identity_law E" "sign_law E" "dh_law E" and ok: "prekeys_ok E b"
    and times: "i64_range (m_spkCreatedMs b)" "i64_range (m_prevSpkRetiredMs b)" "0 < m_spkCreatedMs b"
    and few: "length (m_opkPriv b) < 2 ^ 32"
  shows "restorePrekeys E t c (serialisePrekeys b) =
    (c\<lparr>m_spkPriv := m_spkPriv b, m_spkPub := m_spkPub b, m_spkSig := m_spkSig b,
       m_spkCreatedMs := m_spkCreatedMs b, m_prevSpkPriv := m_prevSpkPriv b,
       m_prevSpkPub := m_prevSpkPub b, m_prevSpkRetiredMs := m_prevSpkRetiredMs b,
       m_opkPriv := m_opkPriv b, m_nextOpkId := m_nextOpkId b\<rparr>, True)"
proof -
  note I = prekeys_okD [OF ok]
  let ?pool = "concat (map (wr_pair be32 (\<lambda>p. p)) (m_opkPriv b))"
  let ?r3 = "be32 (m_nextOpkId b) @ be32 (of_nat (length (m_opkPriv b))) @ ?pool"
  let ?r2 = "be64 (m_spkCreatedMs b) @ be64 (m_prevSpkRetiredMs b) @ be32 (of_nat (length (m_prevSpkPriv b))) @
      (if m_prevSpkPriv b \<noteq> [] then m_prevSpkPriv b @ m_prevSpkPub b else []) @ ?r3"
  have sig: "length (m_spkSig b) = 64" using sign_verifies(2) [OF laws(1,2) I(3)] I(8) by simp
  have blob: "serialisePrekeys b = kPrekeyMagic @ [kPrekeyVersion] @ m_spkPriv b @ m_spkSig b @ ?r2"
    using I(6) by (simp add: serialisePrekeys_def)
  have magic: "length kPrekeyMagic = 8" by (simp add: kPrekeyMagic_def)
  have "m_prevSpkPriv b = [] \<and> m_prevSpkPub b = [] \<or>
      length (m_prevSpkPriv b) = 32 \<and> length (m_prevSpkPub b) = 32"
    using I(9) laws(3) by (auto simp: dh_law_def)
  note prev = readPrevious_written [OF times(1,2) this, of ?r3]
  have "\<forall>x \<in> set (m_opkPriv b). True \<and> length (snd x) = 32" using I(10) by (simp add: pool_ok_def)
  note many = copk.both.read_many_enc [OF this, of "[]", simplified]
  have cnt: "unat (of_nat (length (m_opkPriv b)) :: u32) = length (m_opkPriv b)"
    using few by (simp add: unat_of_nat)
  have len: "\<not> length (serialisePrekeys b) < 8 + 1 + 32 + 64 + 8"
    using magic I(5) sig by (simp add: blob)
  have parts: "take 8 (serialisePrekeys b) = kPrekeyMagic" "serialisePrekeys b ! 8 = kPrekeyVersion"
      "drop 9 (serialisePrekeys b) = m_spkPriv b @ m_spkSig b @ ?r2"
    using magic by (simp_all add: blob nth_append)
  have pool: "fold (\<lambda>(k, v). qmap_insert k v) (m_opkPriv b) [] = m_opkPriv b"
    using qmap_fold_insert [of "[]" "m_opkPriv b"] I(11) by simp
  show ?thesis
    unfolding restorePrekeys_def parts Let_def
    using len craw.dec_enc [of "m_spkPriv b" 32, OF I(5)] craw.dec_enc [of "m_spkSig b" 64, OF sig]
      prev many cnt pool times(3) I(7)
    by simp
qed

theorem prekeys_roundtrip_witness:
  "restorePrekeys demo 7 newCryptoBox (serialisePrekeys demoPrekeyBox) =
    (newCryptoBox\<lparr>m_spkPriv := m_spkPriv demoPrekeyBox, m_spkPub := m_spkPub demoPrekeyBox,
       m_spkSig := m_spkSig demoPrekeyBox, m_spkCreatedMs := 1000, m_opkPriv := m_opkPriv demoPrekeyBox,
       m_nextOpkId := 3\<rparr>, True)"
proof -
  have "m_spkCreatedMs demoPrekeyBox = 1000" "m_prevSpkRetiredMs demoPrekeyBox = 0"
    "length (m_opkPriv demoPrekeyBox) = 3" "m_prevSpkPriv demoPrekeyBox = []"
    "m_prevSpkPub demoPrekeyBox = []" "m_nextOpkId demoPrekeyBox = 3"
    by (simp_all add: demoPrekeyBox_eq demo_seed_box)
      (simp add: demoSeedBox_def generateIdentity_def X3DH_generateIdentity_def
        deriveAgreementKeysFromSeed_def newCryptoBox_def Let_def split: option.splits)
  then show ?thesis
    using prekeys_roundtrip [OF demo_identity_law demo_laws(4,2) demoPrekeyBox_ok, of 7 newCryptoBox]
    by (simp add: i64_range_def) (simp add: newCryptoBox_def)
qed

section \<open>Opening a conversation\<close>

text \<open>The responder's side of an opener built from its own published bundle: the one-time prekey the
  bundle offered under \<open>i\<close> (none when \<open>i\<close> is negative).\<close>

definition offered_opk :: "external \<Rightarrow> CryptoBox \<Rightarrow> int \<Rightarrow> bytes \<Rightarrow> bytes \<Rightarrow> bool" where
  "offered_opk E b i priv pub \<longleftrightarrow>
     (if i < 0 then i = - 1 \<and> priv = [] \<and> pub = []
      else map_of (m_opkPriv b) (word_of_int i) = Some priv \<and> pub = scalarmult_base E priv)"

lemma offered_opk_facts:
  assumes "dh_law E" "pool_ok b" "offered_opk E b i priv pub"
  shows "priv = [] \<or> length priv = 32" "pub = (if priv = [] then [] else scalarmult_base E priv)"
    "pub = [] \<longleftrightarrow> i < 0" "priv = [] \<longleftrightarrow> i < 0"
proof -
  have base: "scalarmult_base E k \<noteq> []" for k
    using assms(1) by (metis dh_law_def list.size(3) zero_neq_numeral)
  show "priv = [] \<or> length priv = 32"
    using assms(2,3) map_of_SomeD [of "m_opkPriv b" "word_of_int i" priv]
    by (auto simp: offered_opk_def pool_ok_def split: if_splits)
  show "pub = (if priv = [] then [] else scalarmult_base E priv)" "pub = [] \<longleftrightarrow> i < 0" "priv = [] \<longleftrightarrow> i < 0"
    using assms(3) pool_nonempty [OF assms(2), of "word_of_int i" priv] base
    by (auto simp: offered_opk_def split: if_splits)
qed

lemma beginX3dhSession_Some:
  assumes "beginX3dhSession E ek dhs a peer ikB spkB sigB opkB i = (a', Some (ikA, ekA, hid))"
  obtains r where "initiator E (m_identitySeed a)
      \<lparr>ik = ikB, spk = spkB, spkSig = sigB, opk = opkB, opkId = (if opkB = [] then - 1 else i)\<rparr> ek = Some r"
    "ikA = r_ik r" "ekA = r_ek r" "hid = (if opkB = [] then - 1 else i)"
    "m_sessions a' peer = Some (newRatchetSession\<lparr>DHs_priv := dhs, DHs_pub := scalarmult_base E dhs,
       DHr_pub := spkB, haveDHr := True, RK := fst (kdfRk E (r_sk r) (dhFn E dhs spkB)),
       CKs := snd (kdfRk E (r_sk r) (dhFn E dhs spkB))\<rparr>)"
  using assms
  by (cases "opkB = []") (auto simp: beginX3dhSession_def Let_def case_prod_beta genKeypair_def
      split: if_splits option.splits)

lemma opener_accepted:
  assumes laws: "hmac_law E" "dh_law E" "identity_law E" "sign_law E"
    and a: "length (m_identitySeed a) = 32" and b: "prekeys_ok E b"
    and opk: "offered_opk E b i opkPriv opkPub" and dhs: "length dhs = 32"
    and call: "beginX3dhSession E ek dhs a peerB (m_edPublicKey b) (m_spkPub b) (m_spkSig b) opkPub i =
      (a', Some (ikA, ekA, hid))"
  shows "\<exists>b' sA sB. DHr_pub sA = m_spkPub b \<and> m_peerIdentity b' = m_peerIdentity b \<and> m_privateKey b' = m_privateKey b \<and>
    acceptX3dhSession E b peerA ikA ekA hid (m_spkPub b) = (b', True) \<and>
    m_sessions a' peerB = Some sA \<and> m_sessions b' peerA = Some sB \<and> conversation_start E sA sB \<and>
    (0 \<le> i \<longrightarrow> map_of (m_opkPriv b') (word_of_int i) = None)"
proof -
  note I = prekeys_okD [OF b]
  note opkf = offered_opk_facts [OF laws(2) I(10) opk]
  let ?bdl = "\<lparr>ik = m_edPublicKey b, spk = m_spkPub b, spkSig = m_spkSig b, opk = opkPub,
      opkId = (if opkPub = [] then - 1 else i)\<rparr>"
  obtain r where r: "initiator E (m_identitySeed a) ?bdl ek = Some r" "ikA = r_ik r" "ekA = r_ek r"
      "hid = (if opkPub = [] then - 1 else i)"
    and sA: "m_sessions a' peerB = Some (newRatchetSession\<lparr>DHs_priv := dhs, DHs_pub := scalarmult_base E dhs,
       DHr_pub := m_spkPub b, haveDHr := True, RK := fst (kdfRk E (r_sk r) (dhFn E dhs (m_spkPub b))),
       CKs := snd (kdfRk E (r_sk r) (dhFn E dhs (m_spkPub b)))\<rparr>)"
    using beginX3dhSession_Some [OF call] by metis
  have hid: "hid = i" using r(4) opkf(3) opk by (auto simp: offered_opk_def split: if_splits)
  have ed: "m_edPublicKey b = identityPublic E (m_identitySeed b)" by (rule identity_ok_ed [OF I(1,2)])
  have sent: "length ek = 32" "ikA = identityPublic E (m_identitySeed a)" "ekA = scalarmult_base E ek"
      "verify E (m_edPublicKey b) (m_spkPub b) (m_spkSig b)"
    using initiator_sends [OF r(1)] r(2,3) by simp_all
  have "map_option r_sk (initiatorWithEphemeral E (m_identitySeed a) ?bdl ek) =
      responder E (m_identitySeed b) (m_spkPriv b) opkPriv ikA ekA"
    unfolding sent(2,3)
    by (rule x3dh_agrees [OF laws(1-3) a I(3,5) sent(1) opkf(1)]) (use ed I(7) opkf(2) sent(4) in simp_all)
  then have resp: "responder E (m_identitySeed b) (m_spkPriv b) opkPriv ikA ekA = Some (r_sk r)"
    using r(1) by (simp add: initiator_def)
  let ?sB = "newRatchetSession\<lparr>DHs_priv := m_spkPriv b, DHs_pub := m_spkPub b, RK := r_sk r, haveDHr := False\<rparr>"
  let ?b' = "(if 0 \<le> i then b\<lparr>m_opkPriv := AList.delete (word_of_int i) (m_opkPriv b)\<rparr> else b)
      \<lparr>m_sessions := (m_sessions b)(peerA \<mapsto> ?sB)\<rparr>"
  have acc: "acceptX3dhSession E b peerA ikA ekA hid (m_spkPub b) = (?b', True)"
    using hid opk opkf(4) I(4,6) resp
    by (auto simp: acceptX3dhSession_def takeOneTimePrekey_def offered_opk_def chooseSpkPriv_def Let_def
        split: if_splits)
  have start: "conversation_start E (the (m_sessions a' peerB)) ?sB"
    using sA dhs I(5,7) by (simp add: conversation_start_def offers_def newRatchetSession_def)
  have "map_of (m_opkPriv ?b') (word_of_int i) = None" if "0 \<le> i"
    using qmap.erase_once [OF I(11)] that by simp
  with acc start sA show ?thesis by (intro exI [of _ ?b'] exI [of _ "the (m_sessions a' peerB)"] exI [of _ ?sB]) auto
qed

text \<open>C4 (functional). When a session opens from the bundle a box published, that box accepts the
  opener, and the two new sessions stand at the start of a conversation in which the initiator
  speaks first; the one-time prekey of the bundle leaves the pool.\<close>

theorem x3dh_opens_conversation:
  assumes laws: "hmac_law E" "dh_law E" "identity_law E" "sign_law E"
    and a: "length (m_identitySeed a) = 32" and b: "prekeys_ok E b"
    and opk: "offered_opk E b i opkPriv opkPub" and dhs: "length dhs = 32"
    and call: "beginX3dhSession E ek dhs a peerB (m_edPublicKey b) (m_spkPub b) (m_spkSig b) opkPub i =
      (a', Some (ikA, ekA, hid))"
  shows "\<exists>b' sA sB. acceptX3dhSession E b peerA ikA ekA hid (m_spkPub b) = (b', True) \<and>
    m_sessions a' peerB = Some sA \<and> m_sessions b' peerA = Some sB \<and> conversation_start E sA sB \<and>
    (0 \<le> i \<longrightarrow> map_of (m_opkPriv b') (word_of_int i) = None)"
  using opener_accepted [OF assms] by blast

section \<open>The small instance\<close>

lemma demo_dh: "length a = 32 \<Longrightarrow> length p = 32 \<Longrightarrow> dh demo a p = replicate 32 (demo_scalar a * demo_scalar p)"
  by (simp add: dh_def demo_def)

lemma demo_responder:
  assumes "length seed = 32" "length k = 32" "length ok = 32" "length ikA = 32" "length ekA = 32"
  shows "responder demo seed k ok ikA ekA \<noteq> None"
proof -
  have x: "identityToX25519Public demo ikA = Some (replicate 32 (demo_scalar ikA))"
    "identityToX25519Private demo seed = replicate 32 (demo_scalar (seed @ replicate 32 0))"
    using assms by (simp_all add: identityToX25519Public_def identityToX25519Private_def
        secretKeyFromSeed_def demo_def)
  show ?thesis
    using assms X3DH_kdf_nonempty [OF demo_laws(1)] by (simp add: responder_def x demo_dh Let_def)
qed

lemma demo_initiator:
  assumes "verify demo (ik bdl) (spk bdl) (spkSig bdl)" "length seed = 32" "length (ik bdl) = 32"
    "length (spk bdl) = 32" "length (opk bdl) = 32" "length ek = 32"
  shows "initiator demo seed bdl ek \<noteq> None"
proof -
  have x: "identityToX25519Public demo (ik bdl) = Some (replicate 32 (demo_scalar (ik bdl)))"
    "identityToX25519Private demo seed = replicate 32 (demo_scalar (seed @ replicate 32 0))"
    "identityPublic demo seed = replicate 32 (9 * demo_scalar seed)"
    using assms by (simp_all add: identityToX25519Public_def identityToX25519Private_def
        identityPublic_def secretKeyFromSeed_def demo_def)
  show ?thesis
    using assms X3DH_kdf_nonempty [OF demo_laws(1)]
    by (auto simp: initiator_def initiatorWithEphemeral_def x demo_dh Let_def)
qed

lemma demo_accepts:
  "\<exists>b'. acceptX3dhSession demo demoPrekeyBox ''alice'' (replicate 32 18) (replicate 32 99) 1
     (m_spkPub demoPrekeyBox) = (b', True)"
proof -
  note I = prekeys_okD [OF demoPrekeyBox_ok]
  obtain sk where "responder demo (m_identitySeed demoPrekeyBox) (m_spkPriv demoPrekeyBox) (replicate 32 8)
      (replicate 32 18) (replicate 32 99) = Some sk"
    using demo_responder [OF I(3,5), of "replicate 32 8" "replicate 32 18" "replicate 32 99"] by auto
  moreover have "map_of (m_opkPriv demoPrekeyBox) 1 = Some (replicate 32 8)"
    by (simp add: demoPrekeyBox_eq upt_rec)
  ultimately show ?thesis using I(4,6)
    by (simp add: acceptX3dhSession_def takeOneTimePrekey_def chooseSpkPriv_def Let_def)
qed

theorem one_time_prekey_single_use_witness:
  "\<exists>b'. acceptX3dhSession demo demoPrekeyBox ''alice'' (replicate 32 18) (replicate 32 99) 1
       (m_spkPub demoPrekeyBox) = (b', True) \<and>
     acceptX3dhSession demo b' ''mallory'' (replicate 32 27) (replicate 32 45) 1 [] = (b', False)"
  using demo_accepts one_time_prekey_single_use [of demo demoPrekeyBox "''alice''" "replicate 32 18"
      "replicate 32 99" 1 "m_spkPub demoPrekeyBox", OF _ _ prekeys_okD(11) [OF demoPrekeyBox_ok]]
  by fastforce

theorem stale_opener_costs_nothing_witness:
  "acceptX3dhSession demo demoPrekeyBox ''alice'' (replicate 32 18) (replicate 32 99) 1 (replicate 32 77) =
     (demoPrekeyBox, False)"
proof (rule stale_opener_costs_nothing [OF prekeys_okD(10) [OF demoPrekeyBox_ok]])
  show "chooseSpkPriv demoPrekeyBox (replicate 32 77) = None"
    by (simp add: chooseSpkPriv_def demoPrekeyBox_eq demo_seed_box) (simp add: demo_def)
qed

lemma demo_sk_length: "initiator demo seed bdl ek = Some r \<Longrightarrow> length (r_sk r) = 32"
  using hkdf_length [OF demo_laws(1)]
  by (auto simp: initiator_def initiatorWithEphemeral_def Let_def X3DH_kdf_def X3DH_hkdf_eq
      split: if_splits option.splits)

lemma demo_begin:
  assumes ek: "length ek = 32"
  shows "\<exists>a' h. beginX3dhSession demo ek dhs (demoSeedBox (replicate 32 4)) peer
     (m_edPublicKey demoPrekeyBox) (m_spkPub demoPrekeyBox) (m_spkSig demoPrekeyBox)
     (scalarmult_base demo (replicate 32 8)) 1 = (a', Some h)"
proof -
  note I = prekeys_okD [OF demoPrekeyBox_ok]
  let ?bdl = "\<lparr>ik = m_edPublicKey demoPrekeyBox, spk = m_spkPub demoPrekeyBox,
    spkSig = m_spkSig demoPrekeyBox, opk = scalarmult_base demo (replicate 32 8), opkId = 1\<rparr>"
  have len: "length (scalarmult_base demo k) = 32" for k using demo_laws(2) by (simp add: dh_law_def)
  have v: "verify demo (ik ?bdl) (spk ?bdl) (spkSig ?bdl)" "length (ik ?bdl) = 32"
    using sign_verifies(1) [OF demo_identity_law demo_laws(4) I(3), of "m_spkPub demoPrekeyBox"]
      identity_ok_ed [OF I(1,2)] I(8)
    by (auto simp: verify_def split: if_splits)
  have l: "length (spk ?bdl) = 32" "length (opk ?bdl) = 32" using I(7) len by simp_all
  obtain r where r: "initiator demo (replicate 32 4) ?bdl ek = Some r"
    using demo_initiator [OF v(1) _ v(2) l ek, of "replicate 32 4"] by auto
  moreover have "scalarmult_base demo (replicate 32 8) \<noteq> []" using len [of "replicate 32 8"] by auto
  moreover have "hasX3dhIdentity (demoSeedBox (replicate 32 4))"
    using demo_seed_box by (simp add: hasX3dhIdentity_def)
  ultimately show ?thesis
    using demo_sk_length [OF r] by (simp add: beginX3dhSession_def demo_seed_box Let_def case_prod_beta)
qed

theorem x3dh_opens_conversation_witness:
  "\<exists>a' b' sA sB ikA ekA.
     beginX3dhSession demo (replicate 32 11) (replicate 32 13) (demoSeedBox (replicate 32 4)) ''bob''
       (m_edPublicKey demoPrekeyBox) (m_spkPub demoPrekeyBox) (m_spkSig demoPrekeyBox)
       (scalarmult_base demo (replicate 32 8)) 1 = (a', Some (ikA, ekA, 1)) \<and>
     acceptX3dhSession demo demoPrekeyBox ''alice'' ikA ekA 1 (m_spkPub demoPrekeyBox) = (b', True) \<and>
     m_sessions a' ''bob'' = Some sA \<and> m_sessions b' ''alice'' = Some sB \<and> conversation_start demo sA sB"
proof -
  obtain a' ikA ekA hid where h: "beginX3dhSession demo (replicate 32 11) (replicate 32 13)
      (demoSeedBox (replicate 32 4)) ''bob''
      (m_edPublicKey demoPrekeyBox) (m_spkPub demoPrekeyBox) (m_spkSig demoPrekeyBox)
      (scalarmult_base demo (replicate 32 8)) 1 = (a', Some (ikA, ekA, hid))"
    using demo_begin [of "replicate 32 11" "replicate 32 13" "''bob''"] by auto
  have "scalarmult_base demo (replicate 32 8) \<noteq> []" by (simp add: demo_def)
  then have hid: "hid = 1" using beginX3dhSession_Some [OF h] by (metis (mono_tags, lifting))
  have "offered_opk demo demoPrekeyBox 1 (replicate 32 8) (scalarmult_base demo (replicate 32 8))"
    by (simp add: offered_opk_def demoPrekeyBox_eq upt_rec)
  from x3dh_opens_conversation [OF demo_laws(1,2) demo_identity_law demo_laws(4) _ demoPrekeyBox_ok this _ h,
      of "''alice''"] h hid
  show ?thesis by (auto simp: demo_seed_box)
qed

end
