(* ===== verification/Box.thy ===== *)
theory Box
  imports Prekeys "HOL-Library.Monad_Syntax"
begin

text \<open>
  The session table of the class \<open>CryptoBox\<close> (\<^verbatim>\<open>client/src/cryptobox.cpp\<close>): peer identities and
  key changes, the deterministic bootstrap role, encryption and decryption through the table with
  the hexadecimal wire form, the safety number, the sealing of local history and the persisted form
  of a session. An operation on the box returns the new box; \<open>decryptFrom\<close> returns \<open>None\<close> where the
  code emits \<open>decryptionFailed\<close> and returns a null string.

  The lemmas show that exactly one of two peers takes the initiator's role and that the sessions
  they bootstrap stand at the start of a conversation, that a frame that fails to decrypt costs
  nothing, that a message sent through one box is read at the other, that the store of skipped keys
  is bounded in every reachable box, and the round trips of the sealed history and of the persisted
  session.
\<close>

section \<open>Peer identities\<close>

definition ensureSharedKey :: "external \<Rightarrow> CryptoBox \<Rightarrow> qstring \<Rightarrow> qstring \<Rightarrow> CryptoBox \<times> bool" where
  "ensureSharedKey E b peerName peerPubHex =
     (let pub = qFromHex E peerPubHex
      in if length pub \<noteq> 32 then (b, False)
         else
           (let keyChanged = (case m_peerIdentity b peerName of None \<Rightarrow> False | Some old \<Rightarrow> old \<noteq> pub);
                b1 = b\<lparr>m_peerIdentity := (m_peerIdentity b)(peerName \<mapsto> pub)\<rparr>
            in if keyChanged then (b1\<lparr>m_sessions := (m_sessions b1)(peerName := None)\<rparr>, True)
               else (b1, False)))"

definition hasSessionFor :: "CryptoBox \<Rightarrow> qstring \<Rightarrow> bool" where
  "hasSessionFor b peerName \<longleftrightarrow> m_sessions b peerName \<noteq> None"

definition dropSession :: "CryptoBox \<Rightarrow> qstring \<Rightarrow> CryptoBox \<times> bool" where
  "dropSession b peerName =
     (b\<lparr>m_sessions := (m_sessions b)(peerName := None)\<rparr>, m_sessions b peerName \<noteq> None)"

definition resetForNewUser :: "CryptoBox \<Rightarrow> CryptoBox" where
  "resetForNewUser b =
     b\<lparr>m_sessions := Map.empty, m_peerIdentity := Map.empty, m_privateKey := [], m_publicKey := []\<rparr>"

definition setPeerIdentity :: "external \<Rightarrow> CryptoBox \<Rightarrow> qstring \<Rightarrow> qstring \<Rightarrow> CryptoBox \<times> bool" where
  "setPeerIdentity E b peerName peerPubHex =
     (let pub = qFromHex E peerPubHex
      in if length pub \<noteq> 32 then (b, False)
         else (b\<lparr>m_peerIdentity := (m_peerIdentity b)(peerName \<mapsto> pub)\<rparr>, True))"

definition peerIdentityHex :: "CryptoBox \<Rightarrow> qstring \<Rightarrow> qstring" where
  "peerIdentityHex b peerName = (case m_peerIdentity b peerName of None \<Rightarrow> [] | Some pub \<Rightarrow> toHex pub)"

definition sharedSecretWith :: "external \<Rightarrow> CryptoBox \<Rightarrow> qstring \<Rightarrow> bytes" where
  "sharedSecretWith E b peerPubHex =
     (let pub = qFromHex E peerPubHex
      in if m_privateKey b = [] \<or> length pub \<noteq> 32 then [] else bootstrapSk E (m_privateKey b) pub)"

section \<open>The bootstrap role\<close>

text \<open>\<open>memcmp\<close> of the C library, over buffers of at least \<open>n\<close> bytes.\<close>

fun memcmp :: "bytes \<Rightarrow> bytes \<Rightarrow> nat \<Rightarrow> int" where
  "memcmp (x # xs) (y # ys) (Suc n) = (if x < y then - 1 else if y < x then 1 else memcmp xs ys n)"
| "memcmp _ _ _ = 0"

definition amInitiatorFor :: "CryptoBox \<Rightarrow> qstring \<Rightarrow> bool" where
  "amInitiatorFor b peerName =
     (case m_peerIdentity b peerName of None \<Rightarrow> False
      | Some peerPub \<Rightarrow>
          if m_privateKey b = [] then False else memcmp (m_publicKey b) peerPub 32 < 0)"

definition sessionFor ::
  "external \<Rightarrow> bytes \<Rightarrow> CryptoBox \<Rightarrow> qstring \<Rightarrow> (CryptoBox \<times> RatchetSession) option" where
  "sessionFor E rnd b peerName =
     (case m_sessions b peerName of Some s \<Rightarrow> Some (b, s)
      | None \<Rightarrow>
        (case m_peerIdentity b peerName of None \<Rightarrow> None
         | Some peerPub \<Rightarrow>
           if m_privateKey b = [] then None
           else
             (let sk = bootstrapSk E (m_privateKey b) peerPub;
                  s = (if memcmp (m_publicKey b) peerPub 32 < 0 then
                         (let (priv, pub) = genKeypair E rnd;
                              s0 = newRatchetSession\<lparr>DHs_priv := priv, DHs_pub := pub,
                                     DHr_pub := peerPub, haveDHr := True\<rparr>;
                              (rk, cks) = kdfRk E sk (dhFn E (DHs_priv s0) (DHr_pub s0))
                          in s0\<lparr>RK := rk, CKs := cks\<rparr>)
                       else newRatchetSession\<lparr>DHs_priv := m_privateKey b, DHs_pub := m_publicKey b,
                              RK := sk, haveDHr := False\<rparr>)
              in Some (b\<lparr>m_sessions := (m_sessions b)(peerName \<mapsto> s)\<rparr>, s))))"

section \<open>Encryption and decryption through the table\<close>

record wire =
  w_cipher :: qstring
  w_dh :: qstring
  w_pn :: u32
  w_n :: u32
  w_nonce :: qstring
  w_ct :: qstring

datatype encrypt_result = EncFailed | EncNotReady | EncOk wire

definition frameToWire :: "frame \<Rightarrow> wire" where
  "frameToWire f = \<lparr>w_cipher = of_latin1 (f_cipher f), w_dh = toHex (f_dh f), w_pn = f_pn f, w_n = f_n f,
     w_nonce = toHex (f_nonce f), w_ct = toHex (f_ct f)\<rparr>"

definition wireToFrame :: "external \<Rightarrow> wire \<Rightarrow> frame" where
  "wireToFrame E w = \<lparr>f_cipher = latin1 (w_cipher w), f_dh = qFromHex E (w_dh w), f_pn = w_pn w,
     f_n = w_n w, f_nonce = qFromHex E (w_nonce w), f_ct = qFromHex E (w_ct w)\<rparr>"

definition encryptFor ::
  "external \<Rightarrow> bytes \<Rightarrow> bytes \<Rightarrow> CryptoBox \<Rightarrow> qstring \<Rightarrow> qstring \<Rightarrow> CryptoBox \<times> encrypt_result" where
  "encryptFor E rnd nonce b peerName plaintext =
     (case sessionFor E rnd b peerName of None \<Rightarrow> (b, EncFailed)
      | Some (b1, s) \<Rightarrow>
          (case encryptStep E s nonce (toUtf8 E plaintext) of None \<Rightarrow> (b1, EncNotReady)
           | Some (s', f) \<Rightarrow>
               (b1\<lparr>m_sessions := (m_sessions b1)(peerName \<mapsto> s')\<rparr>, EncOk (frameToWire f))))"

definition decryptFrom ::
  "external \<Rightarrow> bytes \<Rightarrow> bytes \<Rightarrow> CryptoBox \<Rightarrow> qstring \<Rightarrow> wire \<Rightarrow> CryptoBox \<times> qstring option" where
  "decryptFrom E rnd ratchetRnd b peerName w =
     (case sessionFor E rnd b peerName of None \<Rightarrow> (b, None)
      | Some (b1, s) \<Rightarrow>
          (case decryptStep E ratchetRnd s (wireToFrame E w) of None \<Rightarrow> (b1, None)
           | Some (s', pt) \<Rightarrow>
               (b1\<lparr>m_sessions := (m_sessions b1)(peerName \<mapsto> s')\<rparr>, Some (fromUtf8 E pt))))"

section \<open>Safety number\<close>

definition digitChar :: "nat \<Rightarrow> char" where
  "digitChar d = ''0123456789'' ! d"

text \<open>\<open>QString::number(v).rightJustified(5, '0')\<close> of a value below 100000.\<close>

definition number5 :: "nat \<Rightarrow> qstring" where
  "number5 v = map (\<lambda>i. digitChar (v div 10 ^ (4 - i) mod 10)) [0..<5]"

fun joinWith :: "qstring \<Rightarrow> qstring list \<Rightarrow> qstring" where
  "joinWith sep [] = []"
| "joinWith sep [g] = g"
| "joinWith sep (g # gs) = g @ sep @ joinWith sep gs"

definition digestGroup :: "bytes \<Rightarrow> nat \<Rightarrow> u32" where
  "digestGroup digest g =
     (push_bit 24 (ucast (digest ! (g * 4))) OR push_bit 16 (ucast (digest ! (g * 4 + 1))) OR
      push_bit 8 (ucast (digest ! (g * 4 + 2))) OR ucast (digest ! (g * 4 + 3))) mod 100000"

definition safetyNumber :: "external \<Rightarrow> qstring \<Rightarrow> qstring \<Rightarrow> qstring" where
  "safetyNumber E pubKeyHexA pubKeyHexB =
     (let a = qFromHex E pubKeyHexA; b = qFromHex E pubKeyHexB
      in if length a \<noteq> 32 \<or> length b \<noteq> 32 then []
         else
           (let (a, b) = (if 0 < memcmp a b 32 then (b, a) else (a, b));
                digest = sha256 E (a @ b)
            in joinWith '' '' (map (\<lambda>g. number5 (unat (digestGroup digest g))) [0..<6])))"

section \<open>Local history\<close>

definition localKey :: "external \<Rightarrow> CryptoBox \<Rightarrow> bytes" where
  "localKey E b = hkdf E None (m_privateKey b) kLocalInfo 32"

definition localSeal :: "external \<Rightarrow> bytes \<Rightarrow> CryptoBox \<Rightarrow> qstring \<Rightarrow> (qstring \<times> qstring) option" where
  "localSeal E nonce b plaintext =
     (if m_privateKey b = [] then None
      else Some (toHex nonce, toHex (xchacha_encrypt E (localKey E b) nonce [] (toUtf8 E plaintext))))"

definition localOpen :: "external \<Rightarrow> CryptoBox \<Rightarrow> qstring \<Rightarrow> qstring \<Rightarrow> qstring option" where
  "localOpen E b nonceHex ctHex =
     (if m_privateKey b = [] then None
      else map_option (fromUtf8 E) (xchacha_decrypt E (localKey E b) (qFromHex E nonceHex) [] (qFromHex E ctHex)))"

section \<open>Persisted sessions\<close>

definition writeSession :: "external \<Rightarrow> RatchetSession \<Rightarrow> bytes" where
  "writeSession E s =
     wr_qba (DHs_priv s) @ wr_qba (DHs_pub s) @ wr_qba (DHr_pub s) @ wr_qba (RK s) @ wr_qba (CKs s) @
     wr_qba (CKr s) @ be32 (Ns s) @ be32 (Nr s) @ be32 (PN s) @ wr_bool (haveDHr s) @
     be32 (of_nat (length (skipped s))) @ concat (map (wr_pair wr_qba wr_qba) (hash_order E (skipped s)))"

definition readSession :: "bytes \<Rightarrow> (RatchetSession \<times> bytes) option" where
  "readSession bs = do {
     (priv, r) \<leftarrow> rd_qba bs; (pub, r) \<leftarrow> rd_qba r; (peer, r) \<leftarrow> rd_qba r; (rk, r) \<leftarrow> rd_qba r;
     (cks, r) \<leftarrow> rd_qba r; (ckr, r) \<leftarrow> rd_qba r;
     (ns, r) \<leftarrow> rd32 r; (nr, r) \<leftarrow> rd32 r; (pn, r) \<leftarrow> rd32 r; (have, r) \<leftarrow> rd_bool r;
     (nskip, r) \<leftarrow> rd32 r; (kvs, r) \<leftarrow> read_many (rd_pair rd_qba rd_qba) (unat nskip) r;
     Some (\<lparr>DHs_priv = priv, DHs_pub = pub, DHr_pub = peer, RK = rk, CKs = cks, CKr = ckr, Ns = ns,
            Nr = nr, PN = pn, haveDHr = have,
            skipped = fold (\<lambda>(k, v). AList.update k v) kvs []\<rparr>, r)
   }"

definition exportSession :: "external \<Rightarrow> CryptoBox \<Rightarrow> qstring \<Rightarrow> bytes" where
  "exportSession E b peerName =
     (case m_sessions b peerName of None \<Rightarrow> []
      | Some s \<Rightarrow>
          (let peerId = (case m_peerIdentity b peerName of None \<Rightarrow> [] | Some p \<Rightarrow> p)
           in [2] @ wr_qba (m_publicKey b) @ wr_qba peerId @ writeSession E s))"

definition parseSessionBlob :: "bytes \<Rightarrow> (bytes \<times> bytes \<times> RatchetSession) option" where
  "parseSessionBlob blob = do {
     (ver, r) \<leftarrow> rd8 blob;
     if ver \<noteq> 2 then None
     else do { (mine, r) \<leftarrow> rd_qba r; (peer, r) \<leftarrow> rd_qba r; (s, r) \<leftarrow> readSession r; Some (mine, peer, s) }
   }"

definition importSession :: "CryptoBox \<Rightarrow> qstring \<Rightarrow> bytes \<Rightarrow> CryptoBox \<times> bool" where
  "importSession b peerName blob =
     (if blob = [] then (b, False)
      else case parseSessionBlob blob of None \<Rightarrow> (b, False)
      | Some (stampMine, stampPeer, s) \<Rightarrow>
          (let curPeerId = (case m_peerIdentity b peerName of None \<Rightarrow> [] | Some p \<Rightarrow> p)
           in if stampMine \<noteq> m_publicKey b then (b, False)
              else if curPeerId = [] \<or> stampPeer \<noteq> curPeerId then (b, False)
              else (b\<lparr>m_sessions := (m_sessions b)(peerName \<mapsto> s)\<rparr>, True)))"

section \<open>Roles\<close>

text \<open>What the bootstrap and the safety number rely on: a three-way comparison of keys that both
  sides evaluate, each with its own key first.\<close>

locale key_order =
  fixes cmp :: "'k \<Rightarrow> 'k \<Rightarrow> int" and key :: "'k \<Rightarrow> bool"
  assumes cmp_flip: "key a \<Longrightarrow> key b \<Longrightarrow> cmp b a = - cmp a b"
    and cmp_zero: "key a \<Longrightarrow> key b \<Longrightarrow> cmp a b = 0 \<Longrightarrow> a = b"
begin

lemma exactly_one_first:
  "key a \<Longrightarrow> key b \<Longrightarrow> a \<noteq> b \<Longrightarrow> cmp a b < 0 \<longleftrightarrow> \<not> cmp b a < 0"
  using cmp_flip [of a b] cmp_zero [of a b] by linarith

lemma sorted_pair_commute:
  "key a \<Longrightarrow> key b \<Longrightarrow>
   (if 0 < cmp a b then (b, a) else (a, b)) = (if 0 < cmp b a then (a, b) else (b, a))"
  using cmp_flip [of a b] cmp_zero [of a b] by auto

end

lemma memcmp_flip: "memcmp b a n = - memcmp a b n"
  by (induction a b n rule: memcmp.induct) auto

lemma memcmp_zero: "length a = n \<Longrightarrow> length b = n \<Longrightarrow> memcmp a b n = 0 \<Longrightarrow> a = b"
  by (induction a b n rule: memcmp.induct) (auto split: if_splits)

interpretation pubkeys: key_order "\<lambda>a b. memcmp a b 32" "\<lambda>k. length k = 32"
  by unfold_locales (use memcmp_flip memcmp_zero in blast)+

text \<open>A box with an agreement key pair that knows a peer by its public key.\<close>

definition knows :: "external \<Rightarrow> CryptoBox \<Rightarrow> qstring \<Rightarrow> bytes \<Rightarrow> bool" where
  "knows E b peer pub \<longleftrightarrow> length (m_privateKey b) = 32 \<and>
     m_publicKey b = scalarmult_base E (m_privateKey b) \<and> m_peerIdentity b peer = Some pub"

lemma sessionFor_initiator:
  assumes "knows E a peer pub" "m_sessions a peer = None" "memcmp (m_publicKey a) pub 32 < 0"
  shows "sessionFor E rnd a peer = Some (a\<lparr>m_sessions := (m_sessions a)(peer \<mapsto> s)\<rparr>, s) \<longleftrightarrow>
    s = newRatchetSession\<lparr>DHs_priv := rnd, DHs_pub := scalarmult_base E rnd, DHr_pub := pub,
          haveDHr := True,
          RK := fst (kdfRk E (bootstrapSk E (m_privateKey a) pub) (dhFn E rnd pub)),
          CKs := snd (kdfRk E (bootstrapSk E (m_privateKey a) pub) (dhFn E rnd pub))\<rparr>"
  using assms by (auto simp: sessionFor_def knows_def genKeypair_def case_prod_beta Let_def)

lemma sessionFor_responder:
  assumes "knows E b peer pub" "m_sessions b peer = None" "\<not> memcmp (m_publicKey b) pub 32 < 0"
  shows "sessionFor E rnd b peer = Some (b\<lparr>m_sessions := (m_sessions b)(peer \<mapsto> s)\<rparr>, s) \<longleftrightarrow>
    s = newRatchetSession\<lparr>DHs_priv := m_privateKey b, DHs_pub := m_publicKey b,
          RK := bootstrapSk E (m_privateKey b) pub, haveDHr := False\<rparr>"
  using assms by (auto simp: sessionFor_def knows_def Let_def)

text \<open>C24 (functional). Two boxes that hold each other's (different) public keys and have no session yet
  take opposite roles, whichever of them is asked first, and the sessions they bootstrap stand at the
  start of a conversation in which the box that says it is the initiator speaks first.\<close>

theorem bootstrap_roles_agree:
  assumes laws: "dh_law E"
    and a: "knows E a peerB (m_publicKey b)" "m_sessions a peerB = None"
    and b: "knows E b peerA (m_publicKey a)" "m_sessions b peerA = None"
    and "m_publicKey a \<noteq> m_publicKey b" and rnd: "length rndA = 32" "length rndB = 32"
  shows "\<exists>sA sB. sessionFor E rndA a peerB = Some (a\<lparr>m_sessions := (m_sessions a)(peerB \<mapsto> sA)\<rparr>, sA) \<and>
    sessionFor E rndB b peerA = Some (b\<lparr>m_sessions := (m_sessions b)(peerA \<mapsto> sB)\<rparr>, sB) \<and>
    (if amInitiatorFor a peerB then \<not> amInitiatorFor b peerA \<and> conversation_start E sA sB
     else amInitiatorFor b peerA \<and> conversation_start E sB sA)"
proof -
  have len: "length (m_publicKey a) = 32" "length (m_publicKey b) = 32"
    using a(1) b(1) laws by (simp_all add: knows_def dh_law_def)
  have sk: "bootstrapSk E (m_privateKey a) (m_publicKey b) = bootstrapSk E (m_privateKey b) (m_publicKey a)"
    using a(1) b(1) dhFn_commutes [OF laws, of "m_privateKey a" "m_privateKey b"]
    by (simp add: bootstrapSk_def knows_def)
  have role: "memcmp (m_publicKey a) (m_publicKey b) 32 < 0 \<longleftrightarrow>
      \<not> memcmp (m_publicKey b) (m_publicKey a) 32 < 0"
    by (rule pubkeys.exactly_one_first [OF len assms(6)])
  have am: "amInitiatorFor a peerB \<longleftrightarrow> memcmp (m_publicKey a) (m_publicKey b) 32 < 0"
    "amInitiatorFor b peerA \<longleftrightarrow> memcmp (m_publicKey b) (m_publicKey a) 32 < 0"
    using a(1) b(1) by (auto simp: amInitiatorFor_def knows_def)
  have ne: "m_privateKey a \<noteq> []" "m_privateKey b \<noteq> []" using a(1) b(1) by (auto simp: knows_def)
  show ?thesis
  proof (cases "memcmp (m_publicKey a) (m_publicKey b) 32 < 0")
    case True
    with role have resp: "\<not> memcmp (m_publicKey b) (m_publicKey a) 32 < 0" by simp
    with True am a b sk ne rnd show ?thesis
      unfolding sessionFor_initiator [OF a True] sessionFor_responder [OF b resp]
      by (simp add: conversation_start_def offers_def newRatchetSession_def knows_def)
  next
    case False
    with role have init: "memcmp (m_publicKey b) (m_publicKey a) 32 < 0" by simp
    with False am a b sk ne rnd show ?thesis
      unfolding sessionFor_responder [OF a False] sessionFor_initiator [OF b init]
      by (simp add: conversation_start_def offers_def newRatchetSession_def knows_def)
  qed
qed

definition demoPeerA :: CryptoBox where
  "demoPeerA = newCryptoBox\<lparr>m_privateKey := replicate 32 2, m_publicKey := scalarmult_base demo (replicate 32 2),
     m_peerIdentity := [''bob'' \<mapsto> scalarmult_base demo (replicate 32 3)]\<rparr>"

definition demoPeerB :: CryptoBox where
  "demoPeerB = newCryptoBox\<lparr>m_privateKey := replicate 32 3, m_publicKey := scalarmult_base demo (replicate 32 3),
     m_peerIdentity := [''alice'' \<mapsto> scalarmult_base demo (replicate 32 2)]\<rparr>"

lemma demo_peers:
  "knows demo demoPeerA ''bob'' (m_publicKey demoPeerB)" "m_sessions demoPeerA ''bob'' = None"
  "knows demo demoPeerB ''alice'' (m_publicKey demoPeerA)" "m_sessions demoPeerB ''alice'' = None"
  "m_publicKey demoPeerA \<noteq> m_publicKey demoPeerB"
  by (simp_all add: knows_def demoPeerA_def demoPeerB_def newCryptoBox_def) (simp add: demo_def)

theorem bootstrap_roles_agree_witness:
  "\<exists>sA sB. sessionFor demo (replicate 32 4) demoPeerA ''bob'' =
      Some (demoPeerA\<lparr>m_sessions := (m_sessions demoPeerA)(''bob'' \<mapsto> sA)\<rparr>, sA) \<and>
    sessionFor demo (replicate 32 5) demoPeerB ''alice'' =
      Some (demoPeerB\<lparr>m_sessions := (m_sessions demoPeerB)(''alice'' \<mapsto> sB)\<rparr>, sB) \<and>
    (if amInitiatorFor demoPeerA ''bob'' then \<not> amInitiatorFor demoPeerB ''alice'' \<and> conversation_start demo sA sB
     else amInitiatorFor demoPeerB ''alice'' \<and> conversation_start demo sB sA)"
  by (rule bootstrap_roles_agree [OF demo_laws(2) demo_peers]) simp_all

section \<open>What a call changes\<close>

lemma sessionFor_box:
  assumes "sessionFor E rnd b peer = Some (b1, s)"
  shows "b1 = b\<lparr>m_sessions := (m_sessions b)(peer \<mapsto> s)\<rparr>" "m_sessions b1 peer = Some s"
    "m_sessions b peer = Some s0 \<Longrightarrow> s = s0"
  using assms by (auto simp: sessionFor_def Let_def fun_upd_idem split: option.splits if_splits)

text \<open>C17 (safety). A frame that fails to decrypt changes nothing that was there: every session the box
  held is byte for byte the same, as is everything outside the session table. (At most, a session
  towards the sender is bootstrapped where there was none.)\<close>

theorem failed_decrypt_changes_nothing:
  assumes "decryptFrom E rnd ratchetRnd b peer w = (b', None)"
  shows "m_sessions b \<subseteq>\<^sub>m m_sessions b' \<and> b' = b\<lparr>m_sessions := m_sessions b'\<rparr> \<and>
    (m_sessions b peer \<noteq> None \<longrightarrow> b' = b)"
proof (cases "sessionFor E rnd b peer")
  case None
  with assms show ?thesis by (simp add: decryptFrom_def)
next
  case (Some r)
  obtain b1 s where bs: "sessionFor E rnd b peer = Some (b1, s)" using Some by (cases r) auto
  with assms have "b' = b1" by (simp add: decryptFrom_def split: option.splits prod.splits)
  with sessionFor_box(1,3) [OF bs] show ?thesis
    by (auto simp: map_le_def dom_def fun_upd_idem split: if_splits)
qed

lemma memcmp_replicate: "0 < n \<Longrightarrow> y < x \<Longrightarrow> memcmp (replicate n x) (replicate n y) n = 1"
  by (cases n) auto

definition demoBadWire :: wire where
  "demoBadWire = \<lparr>w_cipher = ''xc20p1305-r1'', w_dh = toHex (replicate 32 9), w_pn = 5000, w_n = 0,
     w_nonce = [], w_ct = []\<rparr>"

theorem failed_decrypt_changes_nothing_witness:
  "decryptFrom demo [] [] demoPeerB ''alice'' demoBadWire =
     (fst (decryptFrom demo [] [] demoPeerB ''alice'' demoBadWire), None) \<and>
   fst (decryptFrom demo [] [] demoPeerB ''alice'' demoBadWire) =
     demoPeerB\<lparr>m_sessions := m_sessions (fst (decryptFrom demo [] [] demoPeerB ''alice'' demoBadWire))\<rparr>"
proof -
  have "\<not> memcmp (m_publicKey demoPeerB) (m_publicKey demoPeerA) 32 < 0"
    by (simp add: demoPeerA_def demoPeerB_def demo_def memcmp_replicate)
  from sessionFor_responder [OF demo_peers(3,4) this, of "[]", THEN iffD2, OF refl]
  have "decryptFrom demo [] [] demoPeerB ''alice'' demoBadWire =
      (fst (decryptFrom demo [] [] demoPeerB ''alice'' demoBadWire), None)"
    by (simp add: decryptFrom_def decryptStep_def advanceTo_def skipTo_def newRatchetSession_def
        wireToFrame_def demoBadWire_def kMaxSkip_def)
  with failed_decrypt_changes_nothing [OF this] show ?thesis by blast
qed

section \<open>A message through two boxes\<close>

lemma wire_roundtrip:
  "hex_law E \<Longrightarrow> f_cipher f = latin1 c \<Longrightarrow> wireToFrame E (frameToWire f) = f"
  by (simp add: wireToFrame_def frameToWire_def hex_law_def)

lemma encryptStep_cipher: "encryptStep E s nonce pt = Some (s', f) \<Longrightarrow> f_cipher f = kCipherXchacha"
  by (auto simp: encryptStep_def Let_def case_prod_beta split: if_splits)

lemma sessionFor_existing: "m_sessions b peer = Some s \<Longrightarrow> sessionFor E rnd b peer = Some (b, s)"
  by (simp add: sessionFor_def)

lemma first_frame:
  assumes laws: "hmac_law E" "aead_law E" "dh_law E" "hash_order_law E"
    and start: "conversation_start E s r" and rnd: "length rnd = 32" "scalarmult_base E rnd \<noteq> DHr_pub s"
  obtains s' f r' where "encryptStep E s nonce pt = Some (s', f)" "decryptStep E rnd r f = Some (r', pt)"
    "offers E r' s'"
proof -
  have off: "offers E s r" and st: "skipped r = []" "PN s = 0" "CKr r = []" "Nr r = 0"
    using start by (simp_all add: conversation_start_def)
  have skip: "skipTo E r (PN s) = Some r" using st by (simp add: skipTo_def)
  obtain s' fs r' where "sendAll E s [(nonce, pt)] = Some (s', fs)"
      "recvAll E r (map (\<lambda>j. (rnd, fs ! j)) [0]) = Some (r', map (\<lambda>j. snd ([(nonce, pt)] ! j)) [0])"
      "offers E r' s'"
    by (rule turn_delivers [where rnd = "\<lambda>_. rnd" and ms = "[(nonce, pt)]" and j = 0 and js = "[]",
        OF laws off skip])
      (use st rnd conversation_start_length [OF laws(3) start] in
        \<open>simp_all add: unseen_generation_def hash_ok_def kMaxSkippedTotal_val\<close>)
  with that show ?thesis by (auto split: option.splits)
qed

lemma crosses:
  assumes laws: "hmac_law E" "aead_law E" "dh_law E" "hash_order_law E" "hex_law E" "text_law E"
    and sess: "m_sessions a peerB = Some sA" "conversation_start E sA sB"
    and rnd: "length ratchetRnd = 32" "scalarmult_base E ratchetRnd \<noteq> DHr_pub sA"
  obtains s' f r' where
    "\<And>rndA. encryptFor E rndA nonce a peerB pt = (a\<lparr>m_sessions := (m_sessions a)(peerB \<mapsto> s')\<rparr>, EncOk (frameToWire f))"
    "\<And>b rndB peerA. m_sessions b peerA = Some sB \<Longrightarrow> decryptFrom E rndB ratchetRnd b peerA (frameToWire f) =
       (b\<lparr>m_sessions := (m_sessions b)(peerA \<mapsto> r')\<rparr>, Some pt)"
    "offers E r' s'"
proof -
  obtain s' f r' where f: "encryptStep E sA nonce (toUtf8 E pt) = Some (s', f)"
      "decryptStep E ratchetRnd sB f = Some (r', toUtf8 E pt)" "offers E r' s'"
    using first_frame [OF laws(1-4) sess(2) rnd] by metis
  have "wireToFrame E (frameToWire f) = f"
    using wire_roundtrip [OF laws(5)] encryptStep_cipher [OF f(1)] by (simp add: kCipherXchacha_def)
  then have "decryptFrom E rndB ratchetRnd b peerA (frameToWire f) =
      (b\<lparr>m_sessions := (m_sessions b)(peerA \<mapsto> r')\<rparr>, Some pt)" if "m_sessions b peerA = Some sB" for b rndB peerA
    using f(2) that laws(6) by (simp add: decryptFrom_def sessionFor_existing text_law_def)
  moreover have "encryptFor E rndA nonce a peerB pt = (a\<lparr>m_sessions := (m_sessions a)(peerB \<mapsto> s')\<rparr>, EncOk (frameToWire f))" for rndA
    using f(1) sess(1) by (simp add: encryptFor_def sessionFor_existing)
  ultimately show thesis using that f(3) by blast
qed

text \<open>C3 (functional). Between two boxes whose sessions stand at the start of a conversation, the text
  encrypted at one is the text decrypted at the other, through the hexadecimal wire form, and the
  receiver is then able to answer.\<close>

theorem message_crosses_boxes:
  assumes laws: "hmac_law E" "aead_law E" "dh_law E" "hash_order_law E" "hex_law E" "text_law E"
    and sess: "m_sessions a peerB = Some sA" "m_sessions b peerA = Some sB" "conversation_start E sA sB"
    and rnd: "length ratchetRnd = 32" "scalarmult_base E ratchetRnd \<noteq> DHr_pub sA"
  shows "\<exists>a' w b' w'. encryptFor E rndA nonce a peerB pt = (a', EncOk w) \<and>
    decryptFrom E rndB ratchetRnd b peerA w = (b', Some pt) \<and>
    snd (encryptFor E rndB nonce' b' peerA pt') = EncOk w'"
proof -
  obtain s' f r' where f:
      "encryptFor E rndA nonce a peerB pt = (a\<lparr>m_sessions := (m_sessions a)(peerB \<mapsto> s')\<rparr>, EncOk (frameToWire f))"
      "decryptFrom E rndB ratchetRnd b peerA (frameToWire f) = (b\<lparr>m_sessions := (m_sessions b)(peerA \<mapsto> r')\<rparr>, Some pt)"
      "offers E r' s'"
    using crosses [OF laws sess(1,3) rnd] sess(2) by metis
  have "CKs r' \<noteq> []"
    using offersD(5) [OF f(3)] kdfRk_lengths(2) [OF laws(1)] by (metis list.size(3) snd_conv zero_neq_numeral)
  then obtain s2 f2 where "encryptStep E r' nonce' (toUtf8 E pt') = Some (s2, f2)"
    using encryptStep_Some by blast
  with f(1,2) show ?thesis by (simp add: encryptFor_def sessionFor_existing)
qed

theorem message_crosses_boxes_witness:
  "\<exists>a' w b' w'.
     encryptFor demo [] [1] (newCryptoBox\<lparr>m_sessions := [''bob'' \<mapsto> demoTurnS]\<rparr>) ''bob'' ''hello'' = (a', EncOk w) \<and>
     decryptFrom demo [] (replicate 32 4) (newCryptoBox\<lparr>m_sessions := [''alice'' \<mapsto> demoTurnR]\<rparr>) ''alice'' w =
       (b', Some ''hello'') \<and>
     snd (encryptFor demo [] [2] b' ''alice'' ''hi'') = EncOk w'"
proof (rule message_crosses_boxes [OF demo_laws(1,3,2,8,7) demo_text_law _ _ demo_conversation_start])
  show "scalarmult_base demo (replicate 32 4) \<noteq> DHr_pub demoTurnS"
    by (simp add: demoTurnS_def demoTurnR_def case_prod_beta) (simp add: demo_def)
qed simp_all

section \<open>Round trips\<close>

definition session_ok :: "RatchetSession \<Rightarrow> bool" where
  "session_ok s \<longleftrightarrow> qba_ok (DHs_priv s) \<and> qba_ok (DHs_pub s) \<and> qba_ok (DHr_pub s) \<and> qba_ok (RK s) \<and>
     qba_ok (CKs s) \<and> qba_ok (CKr s) \<and> store_ok s \<and>
     (\<forall>e \<in> set (skipped s). qba_ok (fst e) \<and> qba_ok (snd e))"

lemma readSession_written:
  assumes "hash_order_law E" "session_ok s"
  shows "readSession (writeSession E s @ rest) = Some (s\<lparr>skipped := hash_order E (skipped s)\<rparr>, rest)"
proof -
  let ?o = "hash_order E (skipped s)"
  have ok: "\<forall>e \<in> set ?o. qba_ok (fst e) \<and> qba_ok (snd e)"
    using assms by (simp add: session_ok_def hash_order_set)
  have "length (skipped s) < 2 ^ 32"
    using assms(2) by (simp add: session_ok_def store_ok_def kMaxSkippedTotal_val)
  then have cnt: "unat (of_nat (length (skipped s)) :: u32) = length ?o"
    using assms(1) by (simp add: unat_of_nat hash_order_length)
  have "hash_ok ?o" using assms by (simp add: hash_order_ok session_ok_def store_ok_def)
  then have fold: "fold (\<lambda>(k, v). AList.update k v) ?o [] = ?o"
    using hash_fold_update_distinct [of "[]" ?o] by (simp add: hash_ok_def)
  show ?thesis
    using assms(2)
    by (simp add: readSession_def writeSession_def session_ok_def cqba.dec_enc cbool.dec_enc cnt
        cq2.both.read_many_enc [OF ok] fold del: size_simps)
qed

text \<open>A persisted session restores, with the same keys, counters and skipped keys, into
  a box that has the same identity and holds the same key for the peer; any other box refuses it and
  is left unchanged.\<close>

lemma import_exported:
  assumes law: "hash_order_law E" and s: "m_sessions b peer = Some s" "session_ok s"
    and stamp: "qba_ok (m_publicKey b)" "m_peerIdentity b peer = Some pid" "qba_ok pid" "pid \<noteq> []"
  shows "if m_publicKey c = m_publicKey b \<and> m_peerIdentity c peer = Some pid
    then \<exists>s'. importSession c peer (exportSession E b peer) =
           (c\<lparr>m_sessions := (m_sessions c)(peer \<mapsto> s')\<rparr>, True) \<and>
         s'\<lparr>skipped := []\<rparr> = s\<lparr>skipped := []\<rparr> \<and> map_of (skipped s') = map_of (skipped s)
    else importSession c peer (exportSession E b peer) = (c, False)"
proof -
  have rd: "rd_qba (wr_qba (m_publicKey b) @ r) = Some (m_publicKey b, r)"
    "rd_qba (wr_qba pid @ r) = Some (pid, r)" for r
    by (rule cqba.dec_enc [OF stamp(1)], rule cqba.dec_enc [OF stamp(3)])
  have "exportSession E b peer = 2 # wr_qba (m_publicKey b) @ wr_qba pid @ writeSession E s"
    using s(1) stamp(2) by (simp add: exportSession_def)
  then have imp: "importSession c peer (exportSession E b peer) =
      (let curPeerId = (case m_peerIdentity c peer of None \<Rightarrow> [] | Some p \<Rightarrow> p)
       in if m_publicKey b \<noteq> m_publicKey c then (c, False)
          else if curPeerId = [] \<or> pid \<noteq> curPeerId then (c, False)
          else (c\<lparr>m_sessions := (m_sessions c)(peer \<mapsto> s\<lparr>skipped := hash_order E (skipped s)\<rparr>)\<rparr>, True))"
    using rd readSession_written [OF law s(2), of "[]"]
    by (simp add: importSession_def parseSessionBlob_def rd8_def)
  have "map_of (hash_order E (skipped s)) = map_of (skipped s)"
    using s(2) by (intro hash_order_map_of [OF law]) (simp add: session_ok_def store_ok_def)
  then show ?thesis
    unfolding imp using stamp(4)
    by (cases "m_peerIdentity c peer") (auto intro: exI [of _ "s\<lparr>skipped := hash_order E (skipped s)\<rparr>"])
qed

text \<open>A text sealed for the local history opens to itself in any box with the same
  agreement key, and without an agreement key nothing is sealed or opened.\<close>

theorem local_history_roundtrip:
  assumes "aead_law E" "hex_law E" "text_law E" "m_privateKey c = m_privateKey b"
  shows "(localSeal E nonce b pt = None \<longleftrightarrow> m_privateKey b = []) \<and>
    (case localSeal E nonce b pt of None \<Rightarrow> localOpen E c x y = None
     | Some (n, ct) \<Rightarrow> localOpen E c n ct = Some pt)"
  using assms
  by (simp add: localSeal_def localOpen_def localKey_def aead_law_def hex_law_def text_law_def)

theorem local_history_roundtrip_witness:
  "\<exists>n ct. localSeal demo (replicate 24 1) demoPeerA ''note'' = Some (n, ct) \<and>
     localOpen demo demoPeerA n ct = Some ''note''"
proof -
  have "m_privateKey demoPeerA \<noteq> []" by (simp add: demoPeerA_def)
  with local_history_roundtrip [OF demo_laws(3,7) demo_text_law refl,
      of "replicate 24 1" demoPeerA "''note''" "[]" "[]"]
  show ?thesis by (auto split: option.splits)
qed

section \<open>Safety numbers\<close>

definition decimal5 :: "qstring \<Rightarrow> bool" where
  "decimal5 g \<longleftrightarrow> length g = 5 \<and> set g \<subseteq> set ''0123456789''"

lemma number5_decimal: "decimal5 (number5 v)"
proof -
  have "digitChar (d mod 10) \<in> set ''0123456789''" for d
    unfolding digitChar_def by (rule nth_mem) simp
  then show ?thesis by (auto simp: number5_def decimal5_def)
qed

text \<open>Both users compute the same safety number from the two keys, whichever comes
  first; for keys of the right size it is six groups of five decimal digits, otherwise it is empty.\<close>

theorem safety_number_symmetric:
  shows "safetyNumber E x y = safetyNumber E y x \<and>
    (if length (qFromHex E x) = 32 \<and> length (qFromHex E y) = 32
     then \<exists>gs. safetyNumber E x y = joinWith '' '' gs \<and> length gs = 6 \<and>
       list_all decimal5 gs
     else safetyNumber E x y = [])"
proof (cases "length (qFromHex E x) = 32 \<and> length (qFromHex E y) = 32")
  case True
  then have "safetyNumber E x y = safetyNumber E y x"
    using pubkeys.sorted_pair_commute [of "qFromHex E x" "qFromHex E y"]
    by (simp add: safetyNumber_def Let_def)
  moreover obtain d where "safetyNumber E x y = joinWith '' '' (map (\<lambda>g. number5 (unat (digestGroup d g))) [0..<6])"
    using True by (simp add: safetyNumber_def Let_def case_prod_beta)
  ultimately show ?thesis
    using True number5_decimal
    by (auto simp: list_all_iff intro!: exI [of _ "map (\<lambda>g. number5 (unat (digestGroup d g))) [0..<6]"])
qed (auto simp: safetyNumber_def Let_def)

section \<open>Key changes\<close>

text \<open>Recording a peer's key: a malformed key is refused without effect; a key that
  differs from the recorded one drops the session, so that the next one is bootstrapped from the new
  key; the recorded key again, or a first key, keeps any session. Other peers are never affected.\<close>

theorem key_change_drops_session:
  assumes "ensureSharedKey E b peer hex = (b', changed)"
  shows "(changed \<longleftrightarrow> length (qFromHex E hex) = 32 \<and>
       (\<exists>old. m_peerIdentity b peer = Some old \<and> old \<noteq> qFromHex E hex)) \<and>
    m_sessions b' peer = (if changed then None else m_sessions b peer) \<and>
    m_peerIdentity b' peer =
      (if length (qFromHex E hex) = 32 then Some (qFromHex E hex) else m_peerIdentity b peer) \<and>
    (\<forall>p. p \<noteq> peer \<longrightarrow> m_sessions b' p = m_sessions b p \<and> m_peerIdentity b' p = m_peerIdentity b p)"
  using assms by (auto simp: ensureSharedKey_def Let_def split: if_splits option.splits)

theorem key_change_drops_session_witness:
  "snd (ensureSharedKey demo (demoPeerA\<lparr>m_sessions := [''bob'' \<mapsto> demoTurnR]\<rparr>) ''bob'' (toHex (replicate 32 1)))
   \<and> m_sessions (fst (ensureSharedKey demo (demoPeerA\<lparr>m_sessions := [''bob'' \<mapsto> demoTurnR]\<rparr>) ''bob''
       (toHex (replicate 32 1)))) ''bob'' = None"
proof -
  let ?b = "demoPeerA\<lparr>m_sessions := [''bob'' \<mapsto> demoTurnR]\<rparr>"
  obtain b' c where e: "ensureSharedKey demo ?b ''bob'' (toHex (replicate 32 1)) = (b', c)" by fastforce
  have h: "qFromHex demo (toHex (replicate 32 1)) = replicate 32 1"
    using demo_laws(7) by (simp add: hex_law_def)
  have "\<exists>old. m_peerIdentity ?b ''bob'' = Some old \<and> old \<noteq> replicate 32 1"
    by (simp add: demoPeerA_def) (simp add: demo_def)
  with key_change_drops_session [OF e] h have "c \<and> m_sessions b' ''bob'' = None" by simp
  with e show ?thesis by simp
qed

section \<open>The store of skipped keys in every reachable box\<close>

text \<open>C23 (safety). When a frame of a new generation is accepted, the keys that stay banked belong to
  that generation or to the one it supersedes: older generations are gone.\<close>

theorem superseded_generations_purged:
  assumes law: "hash_order_law E" and dec: "decryptStep E rnd s f = Some (s', pt)"
    and new: "fresh_generation s f" "map_of (skipped s) (skipKey (f_dh f) (f_n f)) = None"
    and e: "(k, v) \<in> set (skipped s')"
  shows "take (length (f_dh f)) k \<in> {f_dh f, DHr_pub s}"
proof -
  obtain w where w: "advanceTo E rnd s f = Some w" "skipped s' = skipped w"
    using dec new(2) by (auto simp: decryptStep_def Let_def case_prod_beta split: option.splits)
  show ?thesis using w(1)
  proof (cases rule: advanceTo_cases)
    case same
    with new(1) show ?thesis by simp
  next
    case (ratchet u)
    let ?r = "dhRatchet E rnd u (f_dh f)"
    have "(k, v) \<in> set (bank E (f_dh f) (Nr ?r) (CKr ?r) (unat (f_n f) - unat (Nr ?r))) \<union> set (skipped ?r)"
      using skipTo_entries [OF law ratchet(3)] e w(2) dhRatchet_fields(3) [of E rnd u "f_dh f"] by auto
    moreover have "take (length (f_dh f)) k \<in> {f_dh f, DHr_pub s}" if "(k, v) \<in> set (skipped ?r)"
      using dhRatchet_skipped(2) [OF law that] skipTo_frame(3) [OF ratchet(2)] by auto
    moreover have "take (length (f_dh f)) k = f_dh f"
      if "(k, v) \<in> set (bank E (f_dh f) (Nr ?r) (CKr ?r) (unat (f_n f) - unat (Nr ?r)))"
      using that by (auto simp: bank_def skipKey_def)
    ultimately show ?thesis by auto
  qed
qed

definition demoLateFrame :: frame where
  "demoLateFrame = \<lparr>f_cipher = kCipherXchacha, f_dh = DHs_pub demoTurnS, f_pn = 0, f_n = 1, f_nonce = [],
     f_ct = aeadEncrypt demo kCipherXchacha (msgKey demo (CKs demoTurnS) 1) [] [42]
       (adBytes kCipherXchacha (DHs_pub demoTurnS) 0 1)\<rparr>"

lemma demoLateFrame_banks:
  "\<exists>s' v. decryptStep demo (replicate 32 4) demoTurnR demoLateFrame = Some (s', [42]) \<and>
     (skipKey (DHs_pub demoTurnS) 0, v) \<in> set (skipped s')"
proof -
  let ?g = "DHs_pub demoTurnS" and ?ck = "CKs demoTurnS"
  let ?r2 = "dhRatchet demo (replicate 32 4) demoTurnR ?g"
  have st: "offers demo demoTurnS demoTurnR" "skipped demoTurnR = []" "PN demoTurnS = 0"
      "CKr demoTurnR = []" "Nr demoTurnR = 0"
    using demo_conversation_start by (simp_all add: conversation_start_def)
  have skip: "skipTo demo demoTurnR (PN demoTurnS) = Some demoTurnR" using st by (simp add: skipTo_def)
  have inv: "rx_inv 2000 demo ?g ?ck 0 2 {} 0 ?r2"
    by (rule turn_start [OF demo_laws(1,2,8) st(1) skip])
      (simp_all add: st unseen_generation_def hash_ok_def kMaxSkippedTotal_val)
  have fr: "chain_frame demo ?g ?ck 0 1 [42] demoLateFrame"
    by (simp add: chain_frame_def demoLateFrame_def)
  have ck: "?ck \<noteq> []"
    using offersD(5) [OF st(1)] kdfRk_lengths(2) [OF demo_laws(1)]
    by (metis list.size(3) snd_conv zero_neq_numeral)
  obtain r' where r': "decryptStep demo (replicate 32 4) ?r2 demoLateFrame = Some (r', [42])"
      "rx_inv 2000 demo ?g ?ck 0 2 (insert 1 {}) (Suc 1) r'"
    using rx_ahead [OF inv _ _ _ fr demo_laws(3,1) ck, of "replicate 32 4"] by (auto simp: window_ok_def)
  have "decryptStep demo (replicate 32 4) demoTurnR demoLateFrame =
      decryptStep demo (replicate 32 4) ?r2 demoLateFrame"
    using decryptStep_new_generation [of demoTurnR demoLateFrame demo demoTurnR "replicate 32 4"]
      offersD(2) [OF st(1)] skip st rx_invD(5) [OF inv, of 1]
    by (simp add: fresh_generation_def demoLateFrame_def)
  moreover have "map_of (skipped r') (skipKey ?g 0) = Some (msgKey demo ?ck 0)"
    using rx_invD(5) [OF r'(2), of 0] by simp
  ultimately show ?thesis using r'(1) map_of_SomeD by fastforce
qed

theorem superseded_generations_purged_witness:
  "\<exists>s' v. decryptStep demo (replicate 32 4) demoTurnR demoLateFrame = Some (s', [42]) \<and>
     (skipKey (DHs_pub demoTurnS) 0, v) \<in> set (skipped s') \<and>
     take (length (f_dh demoLateFrame)) (skipKey (DHs_pub demoTurnS) 0) \<in> {f_dh demoLateFrame, DHr_pub demoTurnR}"
proof -
  obtain s' v where d: "decryptStep demo (replicate 32 4) demoTurnR demoLateFrame = Some (s', [42])"
      "(skipKey (DHs_pub demoTurnS) 0, v) \<in> set (skipped s')"
    using demoLateFrame_banks by blast
  have "fresh_generation demoTurnR demoLateFrame"
    "map_of (skipped demoTurnR) (skipKey (f_dh demoLateFrame) (f_n demoLateFrame)) = None"
    by (simp_all add: fresh_generation_def demoTurnR_def newRatchetSession_def)
  from superseded_generations_purged [OF demo_laws(8) d(1) this d(2)] d show ?thesis by blast
qed

text \<open>The boxes a run of the client can reach from a new one, whatever arrives from the network and
  whatever random bytes are drawn. A session is only ever imported from the blob of a box that was
  itself reached, with field sizes a data stream can carry.\<close>

inductive box_reach :: "external \<Rightarrow> CryptoBox \<Rightarrow> bool" for E where
  start: "box_reach E newCryptoBox"
| generate: "box_reach E b \<Longrightarrow> box_reach E (generateIdentity E rnd b)"
| load: "box_reach E b \<Longrightarrow> box_reach E (fst (loadIdentity E b file))"
| load_encrypted: "box_reach E b \<Longrightarrow> box_reach E (fst (loadIdentityEncrypted E b file pw))"
| prekeys: "box_reach E b \<Longrightarrow> box_reach E (fst (generatePrekeys E spkRnd opkRnd t b n))"
| rotate: "box_reach E b \<Longrightarrow> box_reach E (fst (rotateSignedPrekeyIfDue E spkRnd t b maxAge now))"
| drop_previous: "box_reach E b \<Longrightarrow> box_reach E (fst (dropExpiredPreviousPrekey b grace now))"
| restore: "box_reach E b \<Longrightarrow> box_reach E (fst (restorePrekeys E t b blob))"
| take_prekey: "box_reach E b \<Longrightarrow> box_reach E (fst (takeOneTimePrekey b i))"
| begin_x3dh: "box_reach E b \<Longrightarrow> box_reach E (fst (beginX3dhSession E ek dhs b peer k1 k2 k3 k4 i))"
| accept_x3dh: "box_reach E b \<Longrightarrow> box_reach E (fst (acceptX3dhSession E b peer k1 k2 i k3))"
| ensure: "box_reach E b \<Longrightarrow> box_reach E (fst (ensureSharedKey E b peer hex))"
| set_peer: "box_reach E b \<Longrightarrow> box_reach E (fst (setPeerIdentity E b peer hex))"
| drop: "box_reach E b \<Longrightarrow> box_reach E (fst (dropSession b peer))"
| reset: "box_reach E b \<Longrightarrow> box_reach E (resetForNewUser b)"
| encrypt: "box_reach E b \<Longrightarrow> box_reach E (fst (encryptFor E rnd nonce b peer text))"
| decrypt: "box_reach E b \<Longrightarrow> box_reach E (fst (decryptFrom E rnd ratchetRnd b peer w))"
| import_session: "box_reach E b \<Longrightarrow> box_reach E c \<Longrightarrow> m_sessions c peer = Some s \<Longrightarrow> session_ok s \<Longrightarrow>
    qba_ok (m_publicKey c) \<Longrightarrow> qba_ok (case m_peerIdentity c peer of None \<Rightarrow> [] | Some p \<Rightarrow> p) \<Longrightarrow>
    box_reach E (fst (importSession b peer (exportSession E c peer)))"

definition box_inv :: "CryptoBox \<Rightarrow> bool" where
  "box_inv b \<longleftrightarrow> (\<forall>p s. m_sessions b p = Some s \<longrightarrow> store_ok s) \<and> qmap_ok (m_opkPriv b)"

lemma store_ok_new: "skipped s = [] \<Longrightarrow> store_ok s"
  by (simp add: store_ok_def hash_ok_def)

lemma box_inv_session:
  "box_inv b \<Longrightarrow> store_ok s \<Longrightarrow> box_inv (b\<lparr>m_sessions := (m_sessions b)(p \<mapsto> s)\<rparr>)"
  by (simp add: box_inv_def)

lemma box_inv_frame:
  "box_inv b \<Longrightarrow> m_sessions c = m_sessions b \<Longrightarrow> m_opkPriv c = m_opkPriv b \<Longrightarrow> box_inv c"
  by (simp add: box_inv_def)

lemma derive_frames:
  "deriveAgreementKeysFromSeed E b = Some c \<Longrightarrow> m_sessions c = m_sessions b \<and> m_opkPriv c = m_opkPriv b"
  by (auto simp: deriveAgreementKeysFromSeed_def Let_def split: if_splits option.splits)

lemma identity_frames:
  "m_sessions (generateIdentity E rnd b) = m_sessions b \<and> m_opkPriv (generateIdentity E rnd b) = m_opkPriv b"
  "m_sessions (fst (loadIdentity E b file)) = m_sessions b \<and> m_opkPriv (fst (loadIdentity E b file)) = m_opkPriv b"
  "m_sessions (fst (loadIdentityEncrypted E b file pw)) = m_sessions b \<and>
   m_opkPriv (fst (loadIdentityEncrypted E b file pw)) = m_opkPriv b"
  by (auto simp: generateIdentity_def loadIdentity_def loadIdentityEncrypted_def Let_def
      dest: derive_frames split: option.splits prod.splits)

lemma opkLoop_inv:
  "qmap_ok (m_opkPriv b) \<Longrightarrow> qmap_ok (m_opkPriv (fst (opkLoop E rnd i n b))) \<and>
   m_sessions (fst (opkLoop E rnd i n b)) = m_sessions b"
  by (induction n arbitrary: i b) (auto simp: newOneTimePrekey_def qmap.ok_insert)

lemma generatePrekeys_inv:
  "qmap_ok (m_opkPriv b) \<Longrightarrow> qmap_ok (m_opkPriv (fst (generatePrekeys E r1 r2 t b n))) \<and>
   m_sessions (fst (generatePrekeys E r1 r2 t b n)) = m_sessions b"
  by (auto simp: generatePrekeys_def Let_def opkLoop_inv qmap.ok_empty split: option.splits)

lemma prekeys_inv:
  assumes "box_inv b"
  shows "box_inv (fst (generatePrekeys E r1 r2 t b n))"
    "box_inv (fst (rotateSignedPrekeyIfDue E r1 t b maxAge now))"
    "box_inv (fst (dropExpiredPreviousPrekey b grace now))"
    "box_inv (fst (takeOneTimePrekey b i))"
    "box_inv (fst (restorePrekeys E t b blob))"
proof -
  have q: "qmap_ok (m_opkPriv b)" using assms by (simp add: box_inv_def)
  show "box_inv (fst (generatePrekeys E r1 r2 t b n))"
    using assms generatePrekeys_inv [OF q, of E r1 r2 t n] by (simp add: box_inv_def)
  have g: "box_inv (fst (generatePrekeys E r1 r3 t c n))" if "box_inv c" for c r3 n
    using that generatePrekeys_inv [of c E r1 r3 t n] by (simp add: box_inv_def)
  have c1: "box_inv (b\<lparr>m_spkCreatedMs := now\<rparr>)" using assms by (rule box_inv_frame) simp_all
  show "box_inv (fst (rotateSignedPrekeyIfDue E r1 t b maxAge now))"
    using assms c1 g [OF assms, of "\<lambda>_. []" 0] g [OF c1, of "\<lambda>_. []" 0] q
    by (simp add: rotateSignedPrekeyIfDue_def Let_def case_prod_beta) (simp add: box_inv_def)
  show "box_inv (fst (dropExpiredPreviousPrekey b grace now))"
    using assms by (simp add: dropExpiredPreviousPrekey_def box_inv_def)
  show "box_inv (fst (takeOneTimePrekey b i))"
    using assms by (simp add: takeOneTimePrekey_def box_inv_def qmap.ok_erase split: option.split)
  show "box_inv (fst (restorePrekeys E t b blob))"
    using assms qmap.ok_fold_insert [OF qmap.ok_empty]
    by (auto simp: restorePrekeys_def Let_def box_inv_def split: option.splits)
qed

lemma x3dh_inv:
  assumes "box_inv b"
  shows "box_inv (fst (beginX3dhSession E ek dhs b peer k1 k2 k3 k4 i))"
    "box_inv (fst (acceptX3dhSession E b peer k1 k2 i k3))"
proof -
  show "box_inv (fst (beginX3dhSession E ek dhs b peer k1 k2 k3 k4 i))"
    using assms
    by (auto simp: beginX3dhSession_def Let_def case_prod_beta newRatchetSession_def
        intro!: box_inv_session store_ok_new split: option.splits)
  obtain b1 opkPriv where p: "(if 0 \<le> i then takeOneTimePrekey b (word_of_int i) else (b, [])) = (b1, opkPriv)"
    by fastforce
  have b1: "box_inv b1" using assms prekeys_inv(4) [OF assms, of "word_of_int i"] p by (auto split: if_splits)
  then have b2: "box_inv (b1\<lparr>m_opkPriv := qmap_insert (word_of_int i) v (m_opkPriv b1)\<rparr>)" for v
    by (simp add: box_inv_def qmap.ok_insert)
  have b3: "box_inv (b1\<lparr>m_sessions := (m_sessions b1)(peer \<mapsto> newRatchetSession\<lparr>DHs_priv := x, DHs_pub := y,
      RK := z, haveDHr := False\<rparr>)\<rparr>)" for x y z
    by (intro box_inv_session b1 store_ok_new) (simp add: newRatchetSession_def)
  show "box_inv (fst (acceptX3dhSession E b peer k1 k2 i k3))"
    unfolding acceptX3dhSession_def p Let_def prod.case
    by (simp add: assms b1 b2 b3 split: option.split)
qed

lemma sessionFor_Some:
  "m_peerIdentity b peer = Some k \<Longrightarrow> m_privateKey b \<noteq> [] \<Longrightarrow> \<exists>b1 s. sessionFor E rnd b peer = Some (b1, s)"
  by (cases "m_sessions b peer") (simp_all add: sessionFor_def Let_def)

lemma sessionFor_inv:
  assumes "box_inv b" "sessionFor E rnd b peer = Some (b1, s)"
  shows "box_inv b1" "store_ok s"
proof -
  show "store_ok s" using assms
    by (auto simp: sessionFor_def Let_def case_prod_beta newRatchetSession_def box_inv_def
        intro!: store_ok_new split: option.splits if_splits)
  with assms sessionFor_box(1) [OF assms(2)] show "box_inv b1" by (simp add: box_inv_session)
qed

lemma cipher_inv:
  assumes "hash_order_law E" "box_inv b"
  shows "box_inv (fst (encryptFor E rnd nonce b peer text))"
    "box_inv (fst (decryptFrom E rnd ratchetRnd b peer w))"
proof -
  have enc: "store_ok s'" if "encryptStep E s nonce pt = Some (s', f)" "store_ok s" for s s' pt f
    using that by (auto simp: encryptStep_def Let_def case_prod_beta store_ok_def split: if_splits)
  have dec: "store_ok s'" if "decryptStep E ratchetRnd s f = Some (s', pt)" "store_ok s" for s s' pt f
    using decryptStep_store [OF assms(1) that(2,1)] .
  show "box_inv (fst (encryptFor E rnd nonce b peer text))"
    using assms(2) sessionFor_inv [OF assms(2)] enc
    by (auto simp: encryptFor_def split: option.splits intro!: box_inv_session)
  show "box_inv (fst (decryptFrom E rnd ratchetRnd b peer w))"
    using assms(2) sessionFor_inv [OF assms(2)] dec
    by (auto simp: decryptFrom_def split: option.splits intro!: box_inv_session)
qed

lemma import_inv:
  assumes law: "hash_order_law E" and b: "box_inv b" and s: "m_sessions c peer = Some s" "session_ok s"
    and stamp: "qba_ok (m_publicKey c)" "qba_ok (case m_peerIdentity c peer of None \<Rightarrow> [] | Some p \<Rightarrow> p)"
  shows "box_inv (fst (importSession b peer (exportSession E c peer)))"
proof -
  have "store_ok (s\<lparr>skipped := hash_order E (skipped s)\<rparr>)"
    using s(2) law by (simp add: session_ok_def store_ok_def hash_order_ok hash_order_length)
  then show ?thesis
    using b s(1) readSession_written [OF law s(2), of "[]"] cqba.dec_enc [OF stamp(1)] cqba.dec_enc [OF stamp(2)]
    by (simp add: importSession_def parseSessionBlob_def exportSession_def Let_def rd8_def box_inv_session)
qed

lemma box_reach_inv:
  assumes "hash_order_law E" "box_reach E b"
  shows "box_inv b"
  using assms(2)
proof (induction rule: box_reach.induct)
  case start
  then show ?case by (simp add: box_inv_def newCryptoBox_def qmap.ok_empty)
next
  case (ensure b peer hex)
  then show ?case by (auto simp: ensureSharedKey_def Let_def box_inv_def split: option.splits)
next
  case (import_session b c peer s)
  then show ?case by (intro import_inv [OF assms(1)]) auto
next
  case (generate b rnd)
  then show ?case using identity_frames(1) [of E rnd b] by (auto intro: box_inv_frame)
next
  case (load b content)
  then show ?case using identity_frames(2) [of E b content] by (auto intro: box_inv_frame)
next
  case (load_encrypted b content pw)
  then show ?case using identity_frames(3) [of E b content pw] by (auto intro: box_inv_frame)
next
  case (set_peer b peer hex)
  then show ?case by (simp add: setPeerIdentity_def Let_def box_inv_def)
next
  case (drop b peer)
  then show ?case by (simp add: dropSession_def box_inv_def)
next
  case (reset b)
  then show ?case by (simp add: resetForNewUser_def box_inv_def)
qed (rule prekeys_inv x3dh_inv cipher_inv [OF assms(1)]; assumption)+

text \<open>C15 (bounds). In every box a run of the client can reach, no session banks more than 2000 skipped
  message keys, no key is banked twice, and the pool of one-time prekeys has strictly increasing
  identifiers.\<close>

theorem reachable_store_bound:
  assumes "hash_order_law E" "box_reach E b"
  shows "(m_sessions b peer = Some s \<longrightarrow>
      length (skipped s) \<le> 2000 \<and> distinct (map fst (skipped s))) \<and>
    sorted_wrt (<) (map fst (m_opkPriv b))"
  using box_reach_inv [OF assms]
  by (simp add: box_inv_def store_ok_def hash_ok_def qmap_ok_def kMaxSkippedTotal_val)

theorem reachable_store_bound_witness:
  "\<exists>s. m_sessions (fst (decryptFrom demo (replicate 32 4) (replicate 32 5)
        (fst (ensureSharedKey demo (generateIdentity demo (replicate 32 3) newCryptoBox) ''bob''
          (toHex (replicate 32 1)))) ''bob'' demoBadWire)) ''bob'' = Some s \<and> length (skipped s) \<le> 2000"
proof -
  let ?b = "fst (ensureSharedKey demo (generateIdentity demo (replicate 32 3) newCryptoBox) ''bob''
          (toHex (replicate 32 1)))"
  let ?c = "fst (decryptFrom demo (replicate 32 4) (replicate 32 5) ?b ''bob'' demoBadWire)"
  have "box_reach demo ?c"
    by (intro box_reach.decrypt box_reach.ensure box_reach.generate box_reach.start)
  note bound = reachable_store_bound [OF demo_laws(8) this, of "''bob''"]
  have "m_peerIdentity ?b ''bob'' = Some (replicate 32 1)" "m_privateKey ?b \<noteq> []"
    using demo_laws(7)
    by (simp_all add: ensureSharedKey_def hex_law_def Let_def split: option.split)
      (simp add: generateIdentity_def X3DH_generateIdentity_def secretKeyFromSeed_def
        deriveAgreementKeysFromSeed_def identityPublic_def identityToX25519Private_def
        identityToX25519Public_def Let_def demo_def)
  then obtain b1 s where "sessionFor demo (replicate 32 4) ?b ''bob'' = Some (b1, s)"
    using sessionFor_Some by blast
  then have "\<exists>s. m_sessions ?c ''bob'' = Some s"
    using sessionFor_box(2) by (auto simp: decryptFrom_def split: option.split)
  with bound show ?thesis by blast
qed

end
