(* ===== verification/HistoryStore.thy ===== *)
theory HistoryStore
  imports Prelude
begin

text \<open>
  The local database (\<^verbatim>\<open>client/src/historystore.cpp\<close>). A database file is its tables, and a table is
  the list of its rows in the order they were inserted, with the counter of an \<^verbatim>\<open>AUTOINCREMENT\<close> key
  where it has one; \<open>None\<close> is SQL \<^verbatim>\<open>NULL\<close>, which reads as an empty text and equals no text. Each
  statement of the code is one update of or one query on the tables. The files are a map from paths,
  so that logging in as another user switches the database. Statements on an open database succeed;
  an operation on a closed one does nothing, as the guards of the code say.

  The lemmas show that rows keep their order and identifiers, that a storm of identical system lines
  leaves one row, that tombstoned and foreign rows are never edited, that the outbox drains in the
  order it was filled, that the two halves of a verification are independent, and what reopening a
  database keeps.
\<close>

section \<open>Tables\<close>

record HistoryRow =
  h_id :: nat
  h_peer :: qstring
  h_kind :: qstring
  h_sender :: qstring
  h_ts :: int
  h_mine :: bool
  h_nonce :: qstring
  h_ct :: qstring
  h_msgId :: "qstring option"
  h_filename :: qstring
  h_mime :: qstring
  h_size :: int
  h_localpath :: qstring
  h_systext :: qstring
  h_deleted :: bool
  h_edited :: bool

definition emptyRow :: HistoryRow where
  "emptyRow = \<lparr>h_id = 0, h_peer = [], h_kind = [], h_sender = [], h_ts = 0, h_mine = False, h_nonce = [],
     h_ct = [], h_msgId = None, h_filename = [], h_mime = [], h_size = 0, h_localpath = [],
     h_systext = [], h_deleted = False, h_edited = False\<rparr>"

record SessionRow =
  ses_peer :: qstring
  ses_blob :: bytes
  ses_peerId :: qstring
  ses_updated :: int
  ses_sentSince :: int

record OutboxRow =
  o_id :: nat
  o_kind :: qstring
  o_peer :: qstring
  o_body :: qstring
  o_srcPath :: qstring
  o_identity :: qstring
  o_mid :: qstring
  o_ts :: int

record ReactionRow =
  rx_mid :: qstring
  rx_who :: qstring
  rx_peer :: qstring
  rx_kind :: qstring

record VerificationRow =
  v_peer :: qstring
  v_peerIdentity :: qstring
  v_myIdentity :: qstring
  v_ts :: int

record Db =
  db_columns :: "qstring \<rightharpoonup> qstring list"
  db_history :: "HistoryRow list"
  db_historySeq :: nat
  db_sessions :: "SessionRow list"
  db_outbox :: "OutboxRow list"
  db_outboxSeq :: nat
  db_received :: "(qstring \<times> qstring \<times> int) list"
  db_reactions :: "ReactionRow list"
  db_verification :: "VerificationRow list"
  db_prekeys :: "bytes option"

definition emptyDb :: Db where
  "emptyDb = \<lparr>db_columns = Map.empty, db_history = [], db_historySeq = 0, db_sessions = [], db_outbox = [],
     db_outboxSeq = 0, db_received = [], db_reactions = [], db_verification = [], db_prekeys = None\<rparr>"

record HistoryStore =
  hs_files :: "qstring \<rightharpoonup> Db"
  hs_path :: qstring
  m_ready :: bool

definition newHistoryStore :: "(qstring \<rightharpoonup> Db) \<Rightarrow> HistoryStore" where
  "newHistoryStore files = \<lparr>hs_files = files, hs_path = [], m_ready = False\<rparr>"

definition db :: "HistoryStore \<Rightarrow> Db" where
  "db h = (case hs_files h (hs_path h) of None \<Rightarrow> emptyDb | Some d \<Rightarrow> d)"

definition setDb :: "HistoryStore \<Rightarrow> Db \<Rightarrow> HistoryStore" where
  "setDb h d = h\<lparr>hs_files := (hs_files h)(hs_path h \<mapsto> d)\<rparr>"

lemma db_setDb [simp]: "db (setDb h d) = d" "m_ready (setDb h d) = m_ready h" "hs_path (setDb h d) = hs_path h"
  by (simp_all add: db_def setDb_def)

lemma setDb_other [simp]: "p \<noteq> hs_path h \<Longrightarrow> hs_files (setDb h d) p = hs_files h p"
  by (simp add: setDb_def)

section \<open>Opening\<close>

text \<open>\<open>isLetterOrNumber\<close> is the character class of \<^verbatim>\<open>QChar\<close>.\<close>

definition safeName :: "(char \<Rightarrow> bool) \<Rightarrow> qstring \<Rightarrow> qstring" where
  "safeName isLetterOrNumber localUser =
     (let safe = map (\<lambda>c. if isLetterOrNumber c \<or> c = CHR ''_'' \<or> c = CHR ''-'' then c else CHR ''_'') localUser
      in if safe = [] then ''default'' else safe)"

definition dbPath :: "(char \<Rightarrow> bool) \<Rightarrow> qstring \<Rightarrow> qstring \<Rightarrow> qstring" where
  "dbPath isLetterOrNumber baseDir localUser =
     baseDir @ ''/history_'' @ safeName isLetterOrNumber localUser @ ''.db''"

definition createTable :: "qstring \<Rightarrow> qstring list \<Rightarrow> Db \<Rightarrow> Db" where
  "createTable name cols d =
     (case db_columns d name of Some _ \<Rightarrow> d | None \<Rightarrow> d\<lparr>db_columns := (db_columns d)(name \<mapsto> cols)\<rparr>)"

definition addColumn :: "qstring \<Rightarrow> qstring \<Rightarrow> Db \<Rightarrow> Db" where
  "addColumn name col d =
     (case db_columns d name of None \<Rightarrow> d
      | Some cols \<Rightarrow>
          if col \<in> set cols then d else d\<lparr>db_columns := (db_columns d)(name \<mapsto> cols @ [col])\<rparr>)"

definition migrate :: "Db \<Rightarrow> Db" where
  "migrate d =
     (let d = createTable ''history'' [''id'', ''peer'', ''kind'', ''sender'', ''ts'', ''mine'', ''nonce_hex'',
                ''ct_hex'', ''msg_id'', ''filename'', ''mime'', ''size'', ''localpath'', ''systext''] d;
          d = createTable ''sessions'' [''peer'', ''blob'', ''peer_id'', ''updated'', ''sent_since''] d;
          d = createTable ''outbox'' [''id'', ''kind'', ''peer'', ''body'', ''srcpath'', ''identity'', ''mid'', ''ts''] d;
          d = addColumn ''outbox'' ''identity'' d;
          d = addColumn ''outbox'' ''mid'' d;
          d = createTable ''received_files'' [''msg_id'', ''peer'', ''ts''] d;
          d = createTable ''reactions'' [''msg_id'', ''who'', ''peer'', ''kind''] d;
          d = createTable ''verification'' [''peer'', ''peer_identity'', ''my_identity'', ''ts''] d;
          d = addColumn ''sessions'' ''peer_id'' d;
          d = addColumn ''sessions'' ''sent_since'' d;
          d = addColumn ''history'' ''deleted'' d
      in addColumn ''history'' ''edited'' d)"

definition closeIfOpen :: "HistoryStore \<Rightarrow> HistoryStore" where
  "closeIfOpen h = h\<lparr>hs_path := [], m_ready := False\<rparr>"

definition openStore ::
  "(char \<Rightarrow> bool) \<Rightarrow> (qstring \<Rightarrow> bool) \<Rightarrow> HistoryStore \<Rightarrow> qstring \<Rightarrow> qstring \<Rightarrow> HistoryStore \<times> bool" where
  "openStore isLetterOrNumber canOpen h baseDir localUser =
     (let h1 = closeIfOpen h; path = dbPath isLetterOrNumber baseDir localUser
      in if \<not> canOpen path then (h1\<lparr>hs_path := path\<rparr>, False)
         else (let h2 = h1\<lparr>hs_path := path\<rparr>
               in ((setDb h2 (migrate (db h2)))\<lparr>m_ready := True\<rparr>, True)))"

section \<open>Conversation rows\<close>

definition insertHistory :: "Db \<Rightarrow> HistoryRow \<Rightarrow> Db" where
  "insertHistory d r =
     d\<lparr>db_history := db_history d @ [r\<lparr>h_id := Suc (db_historySeq d)\<rparr>],
       db_historySeq := Suc (db_historySeq d)\<rparr>"

definition addTextRow ::
  "HistoryStore \<Rightarrow> qstring \<Rightarrow> qstring \<Rightarrow> qstring \<Rightarrow> qstring \<Rightarrow> int \<Rightarrow> bool \<Rightarrow> qstring \<Rightarrow> HistoryStore \<times> bool" where
  "addTextRow h peer sender nonceHex ctHex ts mine msgId =
     (if \<not> m_ready h then (h, False)
      else (setDb h (insertHistory (db h)
              (emptyRow\<lparr>h_peer := peer, h_kind := ''text'', h_sender := sender, h_ts := ts, h_mine := mine,
                 h_nonce := nonceHex, h_ct := ctHex, h_msgId := (if msgId = [] then None else Some msgId)\<rparr>)), True))"

definition addFileRow ::
  "HistoryStore \<Rightarrow> qstring \<Rightarrow> qstring \<Rightarrow> qstring \<Rightarrow> qstring \<Rightarrow> qstring \<Rightarrow> int \<Rightarrow> qstring \<Rightarrow> int \<Rightarrow> bool \<Rightarrow>
   HistoryStore \<times> bool" where
  "addFileRow h peer sender msgId filename mime sz localPath ts mine =
     (if \<not> m_ready h then (h, False)
      else (setDb h (insertHistory (db h)
              (emptyRow\<lparr>h_peer := peer, h_kind := ''file'', h_sender := sender, h_ts := ts, h_mine := mine,
                 h_msgId := Some msgId, h_filename := filename, h_mime := mime, h_size := sz,
                 h_localpath := localPath\<rparr>)), True))"

definition kSystemDedupWindowMs :: int where "kSystemDedupWindowMs = 5000"

text \<open>\<^verbatim>\<open>ORDER BY id DESC LIMIT 1\<close>.\<close>

definition newest :: "HistoryRow list \<Rightarrow> HistoryRow option" where
  "newest rs = (case rev (sort_key h_id rs) of [] \<Rightarrow> None | r # _ \<Rightarrow> Some r)"

definition addSystemRow :: "HistoryStore \<Rightarrow> qstring \<Rightarrow> qstring \<Rightarrow> int \<Rightarrow> HistoryStore \<times> bool" where
  "addSystemRow h peer body ts =
     (if \<not> m_ready h then (h, False)
      else if (case newest (filter (\<lambda>r. h_peer r = peer) (db_history (db h))) of None \<Rightarrow> False
               | Some r \<Rightarrow> h_kind r = ''system'' \<and> h_systext r = body) then (h, True)
      else if (case newest (filter (\<lambda>r. h_peer r = peer \<and> h_kind r = ''system'' \<and> h_systext r = body)
                              (db_history (db h))) of None \<Rightarrow> False
               | Some r \<Rightarrow> (let delta = ts - h_ts r in 0 \<le> delta \<and> delta < kSystemDedupWindowMs)) then (h, True)
      else (setDb h (insertHistory (db h)
              (emptyRow\<lparr>h_peer := peer, h_kind := ''system'', h_sender := [], h_ts := ts, h_mine := False,
                 h_systext := body\<rparr>)), True))"

definition markDeleted :: "HistoryStore \<Rightarrow> qstring \<Rightarrow> HistoryStore \<times> bool" where
  "markDeleted h msgId =
     (if \<not> m_ready h \<or> msgId = [] then (h, False)
      else (let d = db h
            in (setDb h (d\<lparr>db_history := map (\<lambda>r. if h_msgId r = Some msgId then r\<lparr>h_deleted := True\<rparr> else r)
                             (db_history d)\<rparr>), True)))"

definition editable :: "qstring \<Rightarrow> HistoryRow \<Rightarrow> bool" where
  "editable msgId r \<longleftrightarrow> h_msgId r = Some msgId \<and> h_kind r = ''text'' \<and> \<not> h_deleted r"

definition updateTextRow :: "HistoryStore \<Rightarrow> qstring \<Rightarrow> qstring \<Rightarrow> qstring \<Rightarrow> HistoryStore \<times> bool" where
  "updateTextRow h msgId nonceHex ctHex =
     (if \<not> m_ready h \<or> msgId = [] then (h, False)
      else (let d = db h
            in (setDb h (d\<lparr>db_history := map (\<lambda>r. if editable msgId r
                             then r\<lparr>h_nonce := nonceHex, h_ct := ctHex, h_edited := True\<rparr> else r)
                             (db_history d)\<rparr>),
                0 < length (filter (editable msgId) (db_history d)))))"

record StoredRow =
  sr_peer :: qstring
  sr_sender :: qstring
  sr_ts :: int
  sr_mine :: bool
  sr_system :: bool
  sr_systemText :: qstring
  sr_nonceHex :: qstring
  sr_ctHex :: qstring
  sr_isFile :: bool
  sr_msgId :: qstring
  sr_filename :: qstring
  sr_mime :: qstring
  sr_size :: int
  sr_localPath :: qstring
  sr_mid :: qstring
  sr_deleted :: bool
  sr_edited :: bool

definition readRow :: "qstring \<Rightarrow> HistoryRow \<Rightarrow> StoredRow" where
  "readRow peer r =
     (let msgId = (case h_msgId r of None \<Rightarrow> [] | Some i \<Rightarrow> i);
          s = \<lparr>sr_peer = peer, sr_sender = h_sender r, sr_ts = h_ts r, sr_mine = h_mine r,
               sr_system = False, sr_systemText = [], sr_nonceHex = [], sr_ctHex = [], sr_isFile = False,
               sr_msgId = [], sr_filename = [], sr_mime = [], sr_size = 0, sr_localPath = [], sr_mid = [],
               sr_deleted = h_deleted r, sr_edited = h_edited r\<rparr>
      in if h_kind r = ''text'' then
           s\<lparr>sr_nonceHex := h_nonce r, sr_ctHex := h_ct r, sr_mid := msgId\<rparr>
         else if h_kind r = ''file'' then
           s\<lparr>sr_isFile := True, sr_msgId := msgId, sr_mid := msgId, sr_filename := h_filename r,
             sr_mime := h_mime r, sr_size := h_size r, sr_localPath := h_localpath r\<rparr>
         else s\<lparr>sr_system := True, sr_systemText := h_systext r\<rparr>)"

text \<open>\<^verbatim>\<open>ORDER BY id ASC LIMIT ?\<close>; a negative limit is none.\<close>

definition rowsForPeer :: "HistoryStore \<Rightarrow> qstring \<Rightarrow> int \<Rightarrow> StoredRow list" where
  "rowsForPeer h peer limit =
     (if \<not> m_ready h then []
      else (let rs = sort_key h_id (filter (\<lambda>r. h_peer r = peer) (db_history (db h)))
            in map (readRow peer) (if limit < 0 then rs else take (nat limit) rs)))"

section \<open>Reactions\<close>

definition setReaction ::
  "HistoryStore \<Rightarrow> qstring \<Rightarrow> qstring \<Rightarrow> qstring \<Rightarrow> qstring \<Rightarrow> HistoryStore \<times> bool" where
  "setReaction h peer mid who kind =
     (if \<not> m_ready h \<or> mid = [] \<or> who = [] then (h, False)
      else
        (let d = db h;
             others = filter (\<lambda>r. \<not> (rx_mid r = mid \<and> rx_who r = who)) (db_reactions d)
         in if kind = [] then (setDb h (d\<lparr>db_reactions := others\<rparr>), True)
            else (setDb h (d\<lparr>db_reactions := others @
                    [\<lparr>rx_mid = mid, rx_who = who, rx_peer = peer, rx_kind = kind\<rparr>]\<rparr>), True)))"

definition reactionsForPeer :: "HistoryStore \<Rightarrow> qstring \<Rightarrow> ReactionRow list" where
  "reactionsForPeer h peer =
     (if \<not> m_ready h then [] else filter (\<lambda>r. rx_peer r = peer) (db_reactions (db h)))"

section \<open>Ratchet sessions\<close>

text \<open>A null blob violates the \<^verbatim>\<open>NOT NULL\<close> constraint of its column: the statement fails and the table
  keeps what it had. The same holds for the prekeys below.\<close>

definition saveSession ::
  "int \<Rightarrow> HistoryStore \<Rightarrow> qstring \<Rightarrow> bytes \<Rightarrow> qstring \<Rightarrow> int \<Rightarrow> HistoryStore \<times> bool" where
  "saveSession currentMs h peer blob peerIdentityHex sentSinceRatchet =
     (if \<not> m_ready h \<or> blob = [] then (h, False)
      else
        (let d = db h
         in (setDb h (d\<lparr>db_sessions := filter (\<lambda>r. ses_peer r \<noteq> peer) (db_sessions d) @
               [\<lparr>ses_peer = peer, ses_blob = blob, ses_peerId = peerIdentityHex, ses_updated = currentMs,
                 ses_sentSince = sentSinceRatchet\<rparr>]\<rparr>), True)))"

definition sessionRow :: "HistoryStore \<Rightarrow> qstring \<Rightarrow> SessionRow option" where
  "sessionRow h peer = find (\<lambda>r. ses_peer r = peer) (db_sessions (db h))"

definition loadSentSince :: "HistoryStore \<Rightarrow> qstring \<Rightarrow> int" where
  "loadSentSince h peer =
     (if \<not> m_ready h then 0 else case sessionRow h peer of None \<Rightarrow> 0 | Some r \<Rightarrow> ses_sentSince r)"

definition loadSession :: "HistoryStore \<Rightarrow> qstring \<Rightarrow> bytes" where
  "loadSession h peer =
     (if \<not> m_ready h then [] else case sessionRow h peer of None \<Rightarrow> [] | Some r \<Rightarrow> ses_blob r)"

definition loadPeerIdentity :: "HistoryStore \<Rightarrow> qstring \<Rightarrow> qstring" where
  "loadPeerIdentity h peer =
     (if \<not> m_ready h then [] else case sessionRow h peer of None \<Rightarrow> [] | Some r \<Rightarrow> ses_peerId r)"

definition sessionPeers :: "HistoryStore \<Rightarrow> qstring list" where
  "sessionPeers h = (if \<not> m_ready h then [] else map ses_peer (db_sessions (db h)))"

definition clearSession :: "HistoryStore \<Rightarrow> qstring \<Rightarrow> HistoryStore \<times> bool" where
  "clearSession h peer =
     (if \<not> m_ready h then (h, False)
      else (let d = db h
            in (setDb h (d\<lparr>db_sessions := filter (\<lambda>r. ses_peer r \<noteq> peer) (db_sessions d)\<rparr>), True)))"

section \<open>The outbox\<close>

definition enqueueOutbox :: "HistoryStore \<Rightarrow> OutboxRow \<Rightarrow> HistoryStore \<times> int" where
  "enqueueOutbox h r =
     (if \<not> m_ready h then (h, - 1)
      else
        (let d = db h; rid = Suc (db_outboxSeq d)
         in (setDb h (d\<lparr>db_outbox := db_outbox d @ [r\<lparr>o_id := rid\<rparr>], db_outboxSeq := rid\<rparr>), int rid)))"

definition enqueueOutboxText ::
  "HistoryStore \<Rightarrow> qstring \<Rightarrow> qstring \<Rightarrow> int \<Rightarrow> qstring \<Rightarrow> qstring \<Rightarrow> HistoryStore \<times> int" where
  "enqueueOutboxText h peer sealedBody ts identityHex mid =
     enqueueOutbox h \<lparr>o_id = 0, o_kind = ''text'', o_peer = peer, o_body = sealedBody, o_srcPath = [],
       o_identity = identityHex, o_mid = mid, o_ts = ts\<rparr>"

definition enqueueOutboxFile ::
  "HistoryStore \<Rightarrow> qstring \<Rightarrow> qstring \<Rightarrow> int \<Rightarrow> qstring \<Rightarrow> HistoryStore \<times> int" where
  "enqueueOutboxFile h peer srcPath ts identityHex =
     enqueueOutbox h \<lparr>o_id = 0, o_kind = ''file'', o_peer = peer, o_body = [], o_srcPath = srcPath,
       o_identity = identityHex, o_mid = [], o_ts = ts\<rparr>"

definition enqueueOutboxHandshake :: "HistoryStore \<Rightarrow> qstring \<Rightarrow> int \<Rightarrow> qstring \<Rightarrow> HistoryStore \<times> int" where
  "enqueueOutboxHandshake h peer ts identityHex =
     enqueueOutbox h \<lparr>o_id = 0, o_kind = ''handshake'', o_peer = peer, o_body = [], o_srcPath = [],
       o_identity = identityHex, o_mid = [], o_ts = ts\<rparr>"

definition enqueueOutboxVerifyAck ::
  "HistoryStore \<Rightarrow> qstring \<Rightarrow> int \<Rightarrow> qstring \<Rightarrow> qstring \<Rightarrow> HistoryStore \<times> int" where
  "enqueueOutboxVerifyAck h peer ts identityHex verifiedPeerIdentityHex =
     enqueueOutbox h \<lparr>o_id = 0, o_kind = ''verifyack'', o_peer = peer, o_body = verifiedPeerIdentityHex,
       o_srcPath = [], o_identity = identityHex, o_mid = [], o_ts = ts\<rparr>"

definition loadOutbox :: "HistoryStore \<Rightarrow> OutboxRow list" where
  "loadOutbox h = (if \<not> m_ready h then [] else sort_key o_id (db_outbox (db h)))"

definition deleteOutboxRow :: "HistoryStore \<Rightarrow> int \<Rightarrow> HistoryStore \<times> bool" where
  "deleteOutboxRow h rid =
     (if \<not> m_ready h then (h, False)
      else (let d = db h
            in (setDb h (d\<lparr>db_outbox := filter (\<lambda>r. int (o_id r) \<noteq> rid) (db_outbox d)\<rparr>), True)))"

definition purgeOutbox :: "HistoryStore \<Rightarrow> HistoryStore" where
  "purgeOutbox h = (if \<not> m_ready h then h else setDb h ((db h)\<lparr>db_outbox := []\<rparr>))"

section \<open>Received files, verification, prekeys\<close>

definition recordReceivedFile :: "HistoryStore \<Rightarrow> qstring \<Rightarrow> qstring \<Rightarrow> int \<Rightarrow> HistoryStore" where
  "recordReceivedFile h msgId peer ts =
     (if \<not> m_ready h \<or> msgId = [] then h
      else if msgId \<in> fst ` set (db_received (db h)) then h
      else setDb h ((db h)\<lparr>db_received := db_received (db h) @ [(msgId, peer, ts)]\<rparr>))"

definition receivedFileIds :: "HistoryStore \<Rightarrow> qstring list" where
  "receivedFileIds h = (if \<not> m_ready h then [] else map fst (db_received (db h)))"

text \<open>\<^verbatim>\<open>INSERT ... ON CONFLICT(peer) DO UPDATE\<close>.\<close>

definition upsertVerification ::
  "Db \<Rightarrow> VerificationRow \<Rightarrow> (VerificationRow \<Rightarrow> VerificationRow) \<Rightarrow> Db" where
  "upsertVerification d r upd =
     (if v_peer r \<in> v_peer ` set (db_verification d)
      then d\<lparr>db_verification := map (\<lambda>x. if v_peer x = v_peer r then upd x else x) (db_verification d)\<rparr>
      else d\<lparr>db_verification := db_verification d @ [r]\<rparr>)"

definition recordVerifiedPeerIdentity :: "HistoryStore \<Rightarrow> qstring \<Rightarrow> qstring \<Rightarrow> int \<Rightarrow> HistoryStore \<times> bool" where
  "recordVerifiedPeerIdentity h peer peerIdentityHex ts =
     (if \<not> m_ready h \<or> peer = [] \<or> peerIdentityHex = [] then (h, False)
      else (setDb h (upsertVerification (db h)
              \<lparr>v_peer = peer, v_peerIdentity = peerIdentityHex, v_myIdentity = [], v_ts = ts\<rparr>
              (\<lambda>x. x\<lparr>v_peerIdentity := peerIdentityHex, v_ts := ts\<rparr>)), True))"

definition recordPeerAttestedMyIdentity :: "HistoryStore \<Rightarrow> qstring \<Rightarrow> qstring \<Rightarrow> int \<Rightarrow> HistoryStore \<times> bool" where
  "recordPeerAttestedMyIdentity h peer myIdentityHex ts =
     (if \<not> m_ready h \<or> peer = [] \<or> myIdentityHex = [] then (h, False)
      else (setDb h (upsertVerification (db h)
              \<lparr>v_peer = peer, v_peerIdentity = [], v_myIdentity = myIdentityHex, v_ts = ts\<rparr>
              (\<lambda>x. x\<lparr>v_myIdentity := myIdentityHex, v_ts := ts\<rparr>)), True))"

definition loadVerifiedPeerIdentities :: "HistoryStore \<Rightarrow> qstring \<rightharpoonup> qstring" where
  "loadVerifiedPeerIdentities h =
     (if \<not> m_ready h then Map.empty
      else map_of (rev (map (\<lambda>x. (v_peer x, v_peerIdentity x))
             (filter (\<lambda>x. v_peerIdentity x \<noteq> []) (db_verification (db h))))))"

definition loadPeerAttestations :: "HistoryStore \<Rightarrow> qstring \<rightharpoonup> qstring" where
  "loadPeerAttestations h =
     (if \<not> m_ready h then Map.empty
      else map_of (rev (map (\<lambda>x. (v_peer x, v_myIdentity x))
             (filter (\<lambda>x. v_myIdentity x \<noteq> []) (db_verification (db h))))))"

definition clearVerification :: "HistoryStore \<Rightarrow> qstring \<Rightarrow> HistoryStore \<times> bool" where
  "clearVerification h peer =
     (if \<not> m_ready h \<or> peer = [] then (h, False)
      else (let d = db h
            in (setDb h (d\<lparr>db_verification := filter (\<lambda>x. v_peer x \<noteq> peer) (db_verification d)\<rparr>), True)))"

definition savePrekeys :: "HistoryStore \<Rightarrow> bytes \<Rightarrow> HistoryStore \<times> bool" where
  "savePrekeys h blob =
     (if \<not> m_ready h \<or> blob = [] then (h, False)
      else (setDb h ((createTable ''prekeys'' [''id'', ''blob''] (db h))\<lparr>db_prekeys := Some blob\<rparr>), True))"

definition loadPrekeys :: "HistoryStore \<Rightarrow> bytes" where
  "loadPrekeys h =
     (if \<not> m_ready h then [] else case db_prekeys (db h) of None \<Rightarrow> [] | Some b \<Rightarrow> b)"

section \<open>Order and identifiers\<close>

definition db_ok :: "Db \<Rightarrow> bool" where
  "db_ok d \<longleftrightarrow>
     sorted_wrt (<) (map h_id (db_history d)) \<and> (\<forall>r \<in> set (db_history d). h_id r \<le> db_historySeq d) \<and>
     sorted_wrt (<) (map o_id (db_outbox d)) \<and> (\<forall>r \<in> set (db_outbox d). o_id r \<le> db_outboxSeq d) \<and>
     distinct (map ses_peer (db_sessions d)) \<and> distinct (map v_peer (db_verification d)) \<and>
     distinct (map fst (db_received d)) \<and>
     distinct (map (\<lambda>r. (rx_mid r, rx_who r)) (db_reactions d))"

lemma sorted_ids_filter:
  "sorted_wrt (<) (map (f :: 'a \<Rightarrow> nat) xs) \<Longrightarrow> sort_key f (filter P xs) = filter P xs"
proof -
  assume "sorted_wrt (<) (map f xs)"
  then have "sorted (map f (filter P xs))"
    unfolding sorted_wrt_map by (intro sorted_wrt_mono_rel [OF _ sorted_wrt_filter]) auto
  then show ?thesis by (rule sort_key_id_if_sorted)
qed

lemma db_ok_emptyDb: "db_ok emptyDb"
  by (simp add: db_ok_def emptyDb_def)

lemma createTable_rows [simp]:
  "db_history (createTable n c d) = db_history d" "db_historySeq (createTable n c d) = db_historySeq d"
  "db_sessions (createTable n c d) = db_sessions d" "db_outbox (createTable n c d) = db_outbox d"
  "db_outboxSeq (createTable n c d) = db_outboxSeq d" "db_received (createTable n c d) = db_received d"
  "db_reactions (createTable n c d) = db_reactions d" "db_verification (createTable n c d) = db_verification d"
  "db_prekeys (createTable n c d) = db_prekeys d"
  by (simp_all add: createTable_def split: option.split)

lemma addColumn_rows [simp]:
  "db_history (addColumn n c d) = db_history d" "db_historySeq (addColumn n c d) = db_historySeq d"
  "db_sessions (addColumn n c d) = db_sessions d" "db_outbox (addColumn n c d) = db_outbox d"
  "db_outboxSeq (addColumn n c d) = db_outboxSeq d" "db_received (addColumn n c d) = db_received d"
  "db_reactions (addColumn n c d) = db_reactions d" "db_verification (addColumn n c d) = db_verification d"
  "db_prekeys (addColumn n c d) = db_prekeys d"
  by (simp_all add: addColumn_def split: option.split)

lemma db_ok_migrate: "db_ok (migrate d) = db_ok d"
  by (simp add: migrate_def Let_def db_ok_def)

lemma db_ok_insertHistory: "db_ok d \<Longrightarrow> db_ok (insertHistory d r)"
  by (auto simp: db_ok_def insertHistory_def sorted_wrt_append less_Suc_eq_le intro: le_SucI)

lemma newest_last:
  "sorted_wrt (<) (map h_id xs) \<Longrightarrow> newest (filter P xs) =
     (if filter P xs = [] then None else Some (last (filter P xs)))"
  by (simp add: newest_def sorted_ids_filter last_rev [symmetric] hd_rev split: list.split)

section \<open>System lines\<close>

lemma addSystemRow_cases:
  obtains (skipped) "fst (addSystemRow h peer body ts) = h"
  | (added) r where "m_ready h" "fst (addSystemRow h peer body ts) = setDb h (insertHistory (db h) r)"
      "h_peer r = peer" "h_kind r = ''system''" "h_systext r = body"
  by (cases "fst (addSystemRow h peer body ts) = h")
    (auto simp: addSystemRow_def emptyRow_def split: if_splits)

lemma addSystemRow_repeat:
  assumes "db_ok (db h)" "db_history (db h) = rs @ [r]" "h_peer r = peer" "h_kind r = ''system''" "h_systext r = body"
  shows "fst (addSystemRow h peer body ts) = h"
proof -
  have "sorted_wrt (<) (map h_id (db_history (db h)))" using assms(1) by (simp add: db_ok_def)
  then have "newest (filter (\<lambda>r. h_peer r = peer) (db_history (db h))) = Some r"
    using newest_last [of "db_history (db h)" "\<lambda>r. h_peer r = peer"] assms(2,3) by simp
  with assms(4,5) show ?thesis by (simp add: addSystemRow_def)
qed

lemma system_repeats:
  assumes "db_ok (db h)" "db_history (db h) = rs @ [r]" "h_peer r = peer" "h_kind r = ''system''" "h_systext r = body"
  shows "foldl (\<lambda>h ts. fst (addSystemRow h peer body ts)) h tss = h"
  by (induction tss) (simp_all add: addSystemRow_repeat [OF assms])

text \<open>However often the same system line is reported for a peer, and with whatever
  timestamps, an unbroken run of reports adds at most one row to the history.\<close>

theorem system_storm_adds_one_row:
  assumes "db_ok (db h)"
  shows "length (db_history (db (foldl (\<lambda>h ts. fst (addSystemRow h peer body ts)) h tss)))
    \<le> Suc (length (db_history (db h)))"
proof (induction tss)
  case (Cons ts tss)
  show ?case
  proof (cases rule: addSystemRow_cases [of h peer body ts])
    case skipped
    with Cons show ?thesis by simp
  next
    case (added r)
    have ok: "db_ok (db (setDb h (insertHistory (db h) r)))" using assms by (simp add: db_ok_insertHistory)
    have "foldl (\<lambda>h ts. fst (addSystemRow h peer body ts)) (setDb h (insertHistory (db h) r)) tss =
        setDb h (insertHistory (db h) r)"
      by (rule system_repeats [OF ok, of "db_history (db h)" "r\<lparr>h_id := Suc (db_historySeq (db h))\<rparr>"])
        (use added in \<open>simp_all add: insertHistory_def\<close>)
    with added show ?thesis by (simp add: insertHistory_def)
  qed
qed simp

definition demoStore :: HistoryStore where
  "demoStore = fst (openStore (\<lambda>c. c \<in> set ''abcdefghijklmnopqrstuvwxyz'') (\<lambda>_. True)
     (newHistoryStore Map.empty) ''/d'' ''al'')"

lemma demoStore_facts: "m_ready demoStore" "db_ok (db demoStore)" "db_history (db demoStore) = []"
    "db_outbox (db demoStore) = []" "db_outboxSeq (db demoStore) = 0" "db_verification (db demoStore) = []"
    "db_sessions (db demoStore) = []"
proof -
  have d: "db demoStore = migrate emptyDb"
    by (simp add: demoStore_def openStore_def newHistoryStore_def closeIfOpen_def db_def setDb_def Let_def)
  show "m_ready demoStore" by (simp add: demoStore_def openStore_def Let_def)
  show "db_ok (db demoStore)" by (simp add: d db_ok_migrate db_ok_emptyDb)
  show "db_history (db demoStore) = []" "db_outbox (db demoStore) = []" "db_outboxSeq (db demoStore) = 0"
    "db_verification (db demoStore) = []" "db_sessions (db demoStore) = []"
    by (simp_all add: d migrate_def Let_def) (simp_all add: emptyDb_def)
qed

theorem system_storm_adds_one_row_witness:
  "length (db_history (db (foldl (\<lambda>h ts. fst (addSystemRow h ''bob'' ''key changed'' ts)) demoStore
     [0, 7000, 14000, 21000]))) \<le> 1"
  using system_storm_adds_one_row [OF demoStore_facts(2), of "''bob''" "''key changed''" "[0, 7000, 14000, 21000]"]
  by (simp only: demoStore_facts(3) list.size One_nat_def)

section \<open>Deletion and editing\<close>

lemma markDeleted_rows:
  "m_ready h \<Longrightarrow> msgId \<noteq> [] \<Longrightarrow> db_history (db (fst (markDeleted h msgId))) =
     map (\<lambda>r. if h_msgId r = Some msgId then r\<lparr>h_deleted := True\<rparr> else r) (db_history (db h))"
  by (simp add: markDeleted_def Let_def)

text \<open>A message marked deleted can no longer be edited: a later update of its text reports
  that no row was changed and leaves the database exactly as it was. An update never touches a row of
  another message, a file row or a system row.\<close>

theorem deleted_rows_not_edited:
  assumes "m_ready h" "msgId \<noteq> []"
  shows "snd (updateTextRow (fst (markDeleted h msgId)) msgId n c) = False \<and>
    db (fst (updateTextRow (fst (markDeleted h msgId)) msgId n c)) = db (fst (markDeleted h msgId)) \<and>
    (\<forall>i < length (db_history (db h)). let r = db_history (db h) ! i in
       db_history (db (fst (updateTextRow h msgId n c))) ! i \<noteq> r \<longrightarrow>
       h_msgId r = Some msgId \<and> h_kind r = ''text'' \<and> \<not> h_deleted r)"
proof -
  let ?h = "fst (markDeleted h msgId)"
  have none: "\<not> editable msgId r" if "r \<in> set (db_history (db ?h))" for r
    using that markDeleted_rows [OF assms] by (auto simp: editable_def)
  have ready: "m_ready ?h" using assms by (simp add: markDeleted_def Let_def)
  have "map (\<lambda>r. if editable msgId r then r\<lparr>h_nonce := n, h_ct := c, h_edited := True\<rparr> else r) (db_history (db ?h)) =
      db_history (db ?h)"
    using none by (intro map_idI) auto
  moreover have "filter (editable msgId) (db_history (db ?h)) = []" using none by (simp add: filter_empty_conv)
  ultimately have "snd (updateTextRow ?h msgId n c) = False" "db (fst (updateTextRow ?h msgId n c)) = db ?h"
    using ready assms(2) by (simp_all add: updateTextRow_def Let_def)
  then show ?thesis
    using assms by (auto simp: updateTextRow_def Let_def editable_def split: if_splits)
qed

theorem deleted_rows_not_edited_witness:
  "snd (updateTextRow (fst (markDeleted (fst (addTextRow demoStore ''bob'' ''al'' ''n'' ''c'' 1 True ''m1'')) ''m1''))
     ''m1'' ''n2'' ''c2'') = False"
  using deleted_rows_not_edited [of "fst (addTextRow demoStore ''bob'' ''al'' ''n'' ''c'' 1 True ''m1'')" "''m1''" "''n2''" "''c2''"]
  by (simp add: addTextRow_def demoStore_facts(1))

section \<open>Reading a conversation\<close>

lemma rowsForPeer_ok:
  assumes "m_ready h" "db_ok (db h)"
  shows "rowsForPeer h peer limit =
    map (readRow peer) ((if limit < 0 then (\<lambda>xs. xs) else take (nat limit))
      (filter (\<lambda>r. h_peer r = peer) (db_history (db h))))"
  using assms by (simp add: rowsForPeer_def sorted_ids_filter db_ok_def Let_def)

text \<open>A read without limit returns every row of the peer in the order the rows were
  added. A read with a limit returns the oldest rows: once a conversation has reached the limit, a
  newly stored message does not appear in it.\<close>

theorem limited_read_misses_new_rows:
  assumes "m_ready h" "db_ok (db h)" "0 \<le> limit"
    "nat limit \<le> length (filter (\<lambda>r. h_peer r = peer) (db_history (db h)))"
    and add: "addTextRow h peer sender nonce ct ts mine msgId = (h', True)"
  shows "rowsForPeer h' peer limit = rowsForPeer h peer limit \<and>
    rowsForPeer h' peer (- 1) = rowsForPeer h peer (- 1) @ [last (rowsForPeer h' peer (- 1))] \<and>
    sr_ctHex (last (rowsForPeer h' peer (- 1))) = ct"
proof -
  let ?r = "emptyRow\<lparr>h_peer := peer, h_kind := ''text'', h_sender := sender, h_ts := ts, h_mine := mine,
     h_nonce := nonce, h_ct := ct, h_msgId := (if msgId = [] then None else Some msgId)\<rparr>"
  have h': "h' = setDb h (insertHistory (db h) ?r)" using add assms(1) by (simp add: addTextRow_def)
  have ok: "m_ready h'" "db_ok (db h')" using assms(1,2) h' by (simp_all add: db_ok_insertHistory)
  have rows: "filter (\<lambda>r. h_peer r = peer) (db_history (db h')) =
      filter (\<lambda>r. h_peer r = peer) (db_history (db h)) @ [?r\<lparr>h_id := Suc (db_historySeq (db h))\<rparr>]"
    by (simp add: h' insertHistory_def)
  show ?thesis
    using assms(3,4) unfolding rowsForPeer_ok [OF assms(1,2)] rowsForPeer_ok [OF ok] rows
    by (simp add: readRow_def Let_def emptyRow_def)
qed

theorem limited_read_misses_new_rows_witness:
  "rowsForPeer (fst (addTextRow (fst (addTextRow demoStore ''bob'' ''al'' ''n'' ''c1'' 1 True ''m1''))
       ''bob'' ''al'' ''n'' ''c2'' 2 True ''m2'')) ''bob'' 1 =
     rowsForPeer (fst (addTextRow demoStore ''bob'' ''al'' ''n'' ''c1'' 1 True ''m1'')) ''bob'' 1"
proof -
  let ?h = "fst (addTextRow demoStore ''bob'' ''al'' ''n'' ''c1'' 1 True ''m1'')"
  have "?h = setDb demoStore (insertHistory (db demoStore) (emptyRow\<lparr>h_peer := ''bob'', h_kind := ''text'',
      h_sender := ''al'', h_ts := 1, h_mine := True, h_nonce := ''n'', h_ct := ''c1'', h_msgId := Some ''m1''\<rparr>))"
    by (simp add: addTextRow_def demoStore_facts(1))
  then have h: "m_ready ?h" "db_ok (db ?h)" "length (filter (\<lambda>r. h_peer r = ''bob'') (db_history (db ?h))) = 1"
    using demoStore_facts(1-3) by (simp_all add: db_ok_insertHistory) (simp add: insertHistory_def emptyRow_def)
  obtain h' where "addTextRow ?h ''bob'' ''al'' ''n'' ''c2'' 2 True ''m2'' = (h', True)"
    using h(1) by (simp add: addTextRow_def)
  with limited_read_misses_new_rows [OF h(1,2) _ _ this, of 1] h(3) show ?thesis by simp
qed

section \<open>The outbox is a queue\<close>

text \<open>C33 (functional). The outbox is a first-in first-out queue with identifiers that are never reused: a
  queued row comes last, under an identifier above every earlier one; removing it by its identifier
  restores the queue before, and the next row gets a new identifier all the same.\<close>

theorem outbox_is_fifo:
  assumes "m_ready h" "db_ok (db h)" "enqueueOutbox h r = (h', i)"
  shows "loadOutbox h' = loadOutbox h @ [r\<lparr>o_id := nat i\<rparr>] \<and> list_all (\<lambda>x. int (o_id x) < i) (loadOutbox h) \<and>
    loadOutbox (fst (deleteOutboxRow h' i)) = loadOutbox h \<and>
    snd (enqueueOutbox (fst (deleteOutboxRow h' i)) r2) = i + 1"
proof -
  have srt: "sort_key o_id (filter P (db_outbox (db h))) = filter P (db_outbox (db h))" for P
    using assms(2) by (intro sorted_ids_filter) (simp add: db_ok_def)
  have i: "i = int (Suc (db_outboxSeq (db h)))" and h': "h' = setDb h ((db h)\<lparr>
      db_outbox := db_outbox (db h) @ [r\<lparr>o_id := Suc (db_outboxSeq (db h))\<rparr>], db_outboxSeq := Suc (db_outboxSeq (db h))\<rparr>)"
    using assms(1,3) by (auto simp: enqueueOutbox_def Let_def)
  have le: "\<forall>x \<in> set (db_outbox (db h)). o_id x \<le> db_outboxSeq (db h)" using assms(2) by (simp add: db_ok_def)
  have "sorted_wrt (<) (map o_id (db_outbox (db h')))"
    using assms(2) by (auto simp: h' db_ok_def sorted_wrt_append less_Suc_eq_le)
  then have srt': "sort_key o_id (db_outbox (db h')) = db_outbox (db h')"
    using sorted_ids_filter [of o_id "db_outbox (db h')" "\<lambda>_. True"] by simp
  have "filter (\<lambda>x. int (o_id x) \<noteq> i) (db_outbox (db h')) = db_outbox (db h)"
    using le by (auto simp: h' i filter_id_conv)
  then show ?thesis
    using assms(1) srt [of "\<lambda>_. True"] srt' le
    by (simp add: loadOutbox_def deleteOutboxRow_def enqueueOutbox_def Let_def h' list_all_iff)
      (auto simp: i less_Suc_eq_le)
qed

theorem outbox_is_fifo_witness:
  "loadOutbox (fst (enqueueOutboxHandshake (fst (enqueueOutboxFile demoStore ''bob'' ''/f'' 1 ''id'')) ''bob'' 2 ''id'')) =
     loadOutbox (fst (enqueueOutboxFile demoStore ''bob'' ''/f'' 1 ''id'')) @
       [\<lparr>o_id = 2, o_kind = ''handshake'', o_peer = ''bob'', o_body = [], o_srcPath = [], o_identity = ''id'',
         o_mid = [], o_ts = 2\<rparr>]"
proof -
  let ?h = "fst (enqueueOutboxFile demoStore ''bob'' ''/f'' 1 ''id'')"
  let ?r = "\<lparr>o_id = 0, o_kind = ''handshake'', o_peer = ''bob'', o_body = [], o_srcPath = [],
     o_identity = ''id'', o_mid = [], o_ts = 2\<rparr>"
  have "m_ready ?h" "db_outboxSeq (db ?h) = 1" "db_ok (db ?h)"
    using demoStore_facts by (simp_all add: enqueueOutboxFile_def enqueueOutbox_def Let_def db_ok_def)
  moreover from this have "enqueueOutbox ?h ?r = (fst (enqueueOutbox ?h ?r), 2)"
    by (simp add: enqueueOutbox_def Let_def)
  ultimately show ?thesis
    using outbox_is_fifo [of ?h ?r "fst (enqueueOutbox ?h ?r)" 2] by (simp add: enqueueOutboxHandshake_def)
qed

section \<open>Verification\<close>

lemma upsert_ok:
  assumes "distinct (map v_peer (db_verification d))" "\<And>x. v_peer (upd x) = v_peer x"
  shows "distinct (map v_peer (db_verification (upsertVerification d r upd)))"
proof -
  have "map v_peer (map (\<lambda>x. if v_peer x = v_peer r then upd x else x) (db_verification d)) =
      map v_peer (db_verification d)"
    using assms(2) by auto
  with assms(1) show ?thesis by (auto simp: upsertVerification_def simp del: map_map)
qed

definition column :: "(VerificationRow \<Rightarrow> qstring) \<Rightarrow> VerificationRow list \<Rightarrow> qstring \<rightharpoonup> qstring" where
  "column f vs = map_of (rev (map (\<lambda>x. (v_peer x, f x)) (filter (\<lambda>x. f x \<noteq> []) vs)))"

lemma column_Some:
  assumes "distinct (map v_peer vs)"
  shows "column f vs p = Some k \<longleftrightarrow> k \<noteq> [] \<and> (\<exists>x \<in> set vs. v_peer x = p \<and> f x = k)"
proof -
  have "distinct (map fst (rev (map (\<lambda>x. (v_peer x, f x)) (filter (\<lambda>x. f x \<noteq> []) vs))))"
    using distinct_map_filter [OF assms, of "\<lambda>x. f x \<noteq> []"] by (simp add: comp_def flip: rev_map)
  then show ?thesis by (auto simp: column_def map_of_eq_Some_iff)
qed

lemma column_eqI:
  assumes "distinct (map v_peer vs)" "distinct (map v_peer ws)"
    "\<And>p k. k \<noteq> [] \<Longrightarrow> (\<exists>x \<in> set vs. v_peer x = p \<and> f x = k) \<longleftrightarrow> (\<exists>x \<in> set ws. v_peer x = p \<and> f x = k)"
  shows "column f vs = column f ws"
proof
  fix p
  have "column f vs p = Some k \<longleftrightarrow> column f ws p = Some k" for k
    using column_Some [OF assms(1), of f p k] column_Some [OF assms(2), of f p k] assms(3) by blast
  then show "column f vs p = column f ws p" by (metis option.exhaust)
qed

lemma upsert_set:
  "set (db_verification (upsertVerification d r upd)) =
     (if v_peer r \<in> v_peer ` set (db_verification d)
      then (\<lambda>x. if v_peer x = v_peer r then upd x else x) ` set (db_verification d)
      else insert r (set (db_verification d)))"
  by (simp add: upsertVerification_def)

lemma upsert_other_column:
  assumes "distinct (map v_peer (db_verification d))" "\<And>x. v_peer (upd x) = v_peer x" "\<And>x. g (upd x) = g x"
    "g r = []"
  shows "column g (db_verification (upsertVerification d r upd)) = column g (db_verification d)"
proof (rule column_eqI [OF upsert_ok [OF assms(1,2)] assms(1)])
  fix p and k :: qstring assume k: "k \<noteq> []"
  define h where "h = (\<lambda>x. if v_peer x = v_peer r then upd x else x)"
  have "v_peer (h x) = v_peer x" "g (h x) = g x" for x
    using assms(2,3) by (simp_all add: h_def)
  with k assms(4) show "(\<exists>x \<in> set (db_verification (upsertVerification d r upd)). v_peer x = p \<and> g x = k) \<longleftrightarrow>
      (\<exists>x \<in> set (db_verification d). v_peer x = p \<and> g x = k)"
    unfolding upsert_set h_def [symmetric] by auto
qed

lemma upsert_own_rows:
  assumes "\<And>x. v_peer (upd x) = v_peer x" "\<And>x. f (upd x) = k" "f r = k"
  shows "(\<exists>x \<in> set (db_verification (upsertVerification d r upd)). v_peer x = p \<and> f x = j) \<longleftrightarrow>
    (if p = v_peer r then j = k else \<exists>x \<in> set (db_verification d). v_peer x = p \<and> f x = j)"
proof (cases "v_peer r \<in> v_peer ` set (db_verification d)")
  case True
  define h where "h = (\<lambda>x. if v_peer x = v_peer r then upd x else x)"
  have "v_peer (h x) = v_peer x" "f (h x) = (if v_peer x = v_peer r then k else f x)" for x
    using assms(1,2) by (simp_all add: h_def)
  with True show ?thesis unfolding upsert_set h_def [symmetric] by auto
next
  case False
  then have "\<And>x. x \<in> set (db_verification d) \<Longrightarrow> v_peer x \<noteq> v_peer r"
    by (metis image_eqI)
  with False assms(3) show ?thesis by (auto simp: upsert_set)
qed

lemma upsert_own_column:
  assumes "distinct (map v_peer (db_verification d))" "\<And>x. v_peer (upd x) = v_peer x" "\<And>x. f (upd x) = k"
    "f r = k" "k \<noteq> []"
  shows "column f (db_verification (upsertVerification d r upd)) = (column f (db_verification d))(v_peer r \<mapsto> k)"
proof
  fix p
  have "column f (db_verification (upsertVerification d r upd)) p = Some j \<longleftrightarrow>
      ((column f (db_verification d))(v_peer r \<mapsto> k)) p = Some j" for j
    unfolding column_Some [OF upsert_ok [OF assms(1,2), of r]] upsert_own_rows [of upd f k r, OF assms(2-4)]
    using column_Some [OF assms(1), of f p j] assms(5) by auto
  then show "column f (db_verification (upsertVerification d r upd)) p =
      ((column f (db_verification d))(v_peer r \<mapsto> k)) p" by (metis option.exhaust)
qed

text \<open>The two halves of a verification are independent: recording the key of a peer that
  was confirmed sets exactly that entry and leaves every attestation as it was, and recording that a
  peer attested the own key does the converse, whichever happens first.\<close>

theorem verification_halves_independent:
  assumes "m_ready h" "db_ok (db h)" "peer \<noteq> []" "key \<noteq> []"
  shows "loadVerifiedPeerIdentities (fst (recordVerifiedPeerIdentity h peer key ts)) =
      (loadVerifiedPeerIdentities h)(peer \<mapsto> key) \<and>
    loadPeerAttestations (fst (recordVerifiedPeerIdentity h peer key ts)) = loadPeerAttestations h \<and>
    loadPeerAttestations (fst (recordPeerAttestedMyIdentity h peer key ts)) =
      (loadPeerAttestations h)(peer \<mapsto> key) \<and>
    loadVerifiedPeerIdentities (fst (recordPeerAttestedMyIdentity h peer key ts)) = loadVerifiedPeerIdentities h"
proof -
  have d: "distinct (map v_peer (db_verification (db h)))" using assms(2) by (simp add: db_ok_def)
  have load: "loadVerifiedPeerIdentities g = column v_peerIdentity (db_verification (db g))"
    "loadPeerAttestations g = column v_myIdentity (db_verification (db g))" if "m_ready g" for g
    using that by (simp_all add: loadVerifiedPeerIdentities_def loadPeerAttestations_def column_def)
  note own = upsert_own_column [OF d] and other = upsert_other_column [OF d]
  show ?thesis
    using assms(1,3,4)
    by (auto simp: recordVerifiedPeerIdentity_def recordPeerAttestedMyIdentity_def load own [where k = key] other)
qed

theorem verification_halves_independent_witness:
  "loadPeerAttestations (fst (recordVerifiedPeerIdentity
     (fst (recordPeerAttestedMyIdentity demoStore ''bob'' ''mine'' 1)) ''bob'' ''his'' 2)) =
   loadPeerAttestations (fst (recordPeerAttestedMyIdentity demoStore ''bob'' ''mine'' 1))"
proof -
  let ?h = "fst (recordPeerAttestedMyIdentity demoStore ''bob'' ''mine'' 1)"
  have "m_ready ?h" "db_ok (db ?h)"
    using demoStore_facts
    by (simp_all add: recordPeerAttestedMyIdentity_def upsertVerification_def db_ok_def)
  from verification_halves_independent [OF this, of "''bob''" "''his''" 2] show ?thesis by simp
qed

section \<open>Sessions across a restart\<close>

lemma sessionRow_saved:
  assumes "m_ready h" "blob \<noteq> []"
  shows "sessionRow (fst (saveSession t h peer blob pid n)) p =
    (if p = peer then Some \<lparr>ses_peer = peer, ses_blob = blob, ses_peerId = pid, ses_updated = t, ses_sentSince = n\<rparr>
     else sessionRow h p)"
proof -
  have other: "find (\<lambda>r. ses_peer r = p) (filter (\<lambda>r. ses_peer r \<noteq> peer) rs @ [x]) =
      (if p = peer then (if ses_peer x = p then Some x else None)
       else case find (\<lambda>r. ses_peer r = p) rs of Some r \<Rightarrow> Some r
            | None \<Rightarrow> if ses_peer x = p then Some x else None)" for rs x
    by (induction rs) (auto split: option.splits)
  show ?thesis using assms by (simp add: sessionRow_def saveSession_def Let_def other split: option.split)
qed

lemma saved_session_loads:
  assumes "m_ready h" "blob \<noteq> []" "saveSession t h peer blob pid n = (h', ok)"
  shows "ok" "loadSession h' peer = blob" "loadPeerIdentity h' peer = pid" "loadSentSince h' peer = n"
    "p \<noteq> peer \<Longrightarrow> loadSession h' p = loadSession h p"
    "p \<noteq> peer \<Longrightarrow> loadPeerIdentity h' p = loadPeerIdentity h p"
  using sessionRow_saved [OF assms(1,2), of t peer pid n] assms
  by (auto simp: loadSession_def loadPeerIdentity_def loadSentSince_def saveSession_def Let_def)

section \<open>Reopening\<close>

lemma migrate_rows [simp]:
  "db_history (migrate d) = db_history d" "db_sessions (migrate d) = db_sessions d"
  "db_outbox (migrate d) = db_outbox d" "db_received (migrate d) = db_received d"
  "db_reactions (migrate d) = db_reactions d" "db_verification (migrate d) = db_verification d"
  "db_prekeys (migrate d) = db_prekeys d"
  by (simp_all add: migrate_def Let_def)

lemma open_keeps_rows:
  assumes "openStore L canOpen h base user = (h', True)"
  shows "m_ready h'" "hs_path h' = dbPath L base user"
    "db h' = migrate (case hs_files h (dbPath L base user) of None \<Rightarrow> emptyDb | Some d \<Rightarrow> d)"
    "p \<noteq> dbPath L base user \<Longrightarrow> hs_files h' p = hs_files h p"
  using assms by (auto simp: openStore_def closeIfOpen_def db_def setDb_def Let_def split: if_splits)

text \<open>Two users whose names have the same letters, digits, hyphens and underscores in the
  same places share one database file: what one of them stores, the other reads after logging in.\<close>

theorem similar_names_share_a_database:
  assumes "safeName L u1 = safeName L u2" "openStore L canOpen h base u1 = (h1, True)"
    "addTextRow h1 peer sender nonce ct ts mine msgId = (h2, True)"
    "openStore L canOpen h2 base u2 = (h3, True)" "db_ok (db h1)"
  shows "\<exists>r \<in> set (rowsForPeer h3 peer (- 1)). sr_sender r = sender \<and> sr_ctHex r = ct"
proof -
  note o1 = open_keeps_rows [OF assms(2)] and o3 = open_keeps_rows [OF assms(4)]
  have path: "dbPath L base u2 = hs_path h2" and h2: "h2 = setDb h1 (insertHistory (db h1)
      (emptyRow\<lparr>h_peer := peer, h_kind := ''text'', h_sender := sender, h_ts := ts, h_mine := mine,
         h_nonce := nonce, h_ct := ct, h_msgId := (if msgId = [] then None else Some msgId)\<rparr>))"
    using assms(1,3) o1(1,2) by (auto simp: addTextRow_def dbPath_def)
  have db3: "db h3 = migrate (db h2)"
    using o3(3) by (simp add: path h2 db_def setDb_def split: option.split)
  have ok: "db_ok (db h3)" using assms(5) by (simp add: db3 db_ok_migrate h2 db_ok_insertHistory)
  show ?thesis
    unfolding rowsForPeer_ok [OF o3(1) ok]
    by (simp add: db3 h2 insertHistory_def readRow_def emptyRow_def Let_def)
qed

theorem similar_names_share_a_database_witness:
  "\<exists>r \<in> set (rowsForPeer
      (fst (openStore (\<lambda>c. c \<in> set ''ab'') (\<lambda>_. True)
        (fst (addTextRow (fst (openStore (\<lambda>c. c \<in> set ''ab'') (\<lambda>_. True) (newHistoryStore Map.empty) ''/d'' ''a.b''))
           ''bob'' ''a.b'' ''n'' ''c'' 1 True ''m'')) ''/d'' ''a_b'')) ''bob'' (- 1)).
     sr_sender r = ''a.b'' \<and> sr_ctHex r = ''c''"
proof -
  let ?L = "\<lambda>c. c \<in> set ''ab''"
  let ?h = "newHistoryStore Map.empty"
  have safe: "safeName ?L ''a.b'' = safeName ?L ''a_b''" by (simp add: safeName_def)
  obtain h1 where h1: "openStore ?L (\<lambda>_. True) ?h ''/d'' ''a.b'' = (h1, True)"
    by (simp add: openStore_def Let_def)
  obtain h2 where h2: "addTextRow h1 ''bob'' ''a.b'' ''n'' ''c'' 1 True ''m'' = (h2, True)"
    using open_keeps_rows(1) [OF h1] by (simp add: addTextRow_def)
  obtain h3 where h3: "openStore ?L (\<lambda>_. True) h2 ''/d'' ''a_b'' = (h3, True)"
    by (simp add: openStore_def Let_def)
  have "db_ok (db h1)"
    using open_keeps_rows(3) [OF h1] by (simp add: newHistoryStore_def db_ok_migrate db_ok_emptyDb)
  from similar_names_share_a_database [OF safe h1 h2 h3 this] show ?thesis
    unfolding h1 h2 h3 fst_conv .
qed

end
