(* ===== verification/ListModel.thy ===== *)
theory ListModel
  imports Prelude
begin

text \<open>
  The contract between a Qt list model and the views attached to it, shared by the three list models
  of the client (\<^verbatim>\<open>client/src/logbuffer.cpp\<close>, \<^verbatim>\<open>usermodel.cpp\<close>, \<^verbatim>\<open>messagemodel.cpp\<close>). A model emits
  notifications; a view keeps, for every row and role, the value it read when it was last told to.
  A notification comes with the rows of the model at the moment it is emitted, because that is when
  the view reads.

  The locale \<open>list_model\<close> states what a model owes its views: after each operation, a view that
  followed the notifications shows the model. Its lemma extends this to any run of operations.
\<close>

datatype 'role event =
    RowsInserted nat
  | RowsRemoved nat
  | DataChanged nat "'role list"
  | ModelReset

type_synonym ('role, 'v) rows = "('role \<Rightarrow> 'v) list"
type_synonym ('role, 'v) trace = "('role event \<times> ('role \<Rightarrow> 'v) list) list"

fun viewStep :: "('role, 'v) rows \<Rightarrow> 'role event \<times> ('role, 'v) rows \<Rightarrow> ('role, 'v) rows" where
  "viewStep view (RowsInserted r, rows) = take r view @ (rows ! r) # drop r view"
| "viewStep view (RowsRemoved r, rows) = take r view @ drop (Suc r) view"
| "viewStep view (DataChanged r roles, rows) =
     view[r := (\<lambda>role. if role \<in> set roles then (rows ! r) role else (view ! r) role)]"
| "viewStep view (ModelReset, rows) = rows"

abbreviation follow :: "('role, 'v) rows \<Rightarrow> ('role, 'v) trace \<Rightarrow> ('role, 'v) rows" where
  "follow view tr \<equiv> foldl viewStep view tr"

inductive run :: "('s \<Rightarrow> ('role, 'v) trace \<Rightarrow> 's \<Rightarrow> bool) \<Rightarrow> 's \<Rightarrow> ('role, 'v) trace \<Rightarrow> 's \<Rightarrow> bool"
  for step where
  run_nil: "run step s [] s"
| run_step: "step s tr s' \<Longrightarrow> run step s' tr' s'' \<Longrightarrow> run step s (tr @ tr') s''"

lemma run_one: "step s tr s' \<Longrightarrow> run step s tr s'"
  using run_step [of step s tr s' "[]" s'] run_nil [of step s'] by simp

lemma run_mono:
  assumes "run step s tr s'" "\<And>s tr s'. step s tr s' \<Longrightarrow> step' s tr s'"
  shows "run step' s tr s'"
  using assms(1) by (induction rule: run.induct) (auto intro: run.intros assms(2))

locale list_model =
  fixes rows :: "'s \<Rightarrow> ('role, 'v) rows"
    and step :: "'s \<Rightarrow> ('role, 'v) trace \<Rightarrow> 's \<Rightarrow> bool"
  assumes step_followed: "step s tr s' \<Longrightarrow> follow (rows s) tr = rows s'"
begin

lemma run_followed: "run step s tr s' \<Longrightarrow> follow (rows s) tr = rows s'"
  by (induction rule: run.induct) (auto simp: step_followed)

end

lemma view_insert:
  "r \<le> length xs \<Longrightarrow> take r xs @ ((take r xs @ x # drop r xs) ! r) # drop r xs = take r xs @ x # drop r xs"
  by (simp add: nth_append)

lemma view_append: "viewStep xs (RowsInserted (length xs), xs @ [x]) = xs @ [x]"
  by simp

text \<open>A data change that names every role whose value differs brings the view up to date.\<close>

lemma view_update:
  assumes "r < length xs" "\<And>role. role \<notin> set roles \<Longrightarrow> (xs ! r) role = x role"
  shows "viewStep xs (DataChanged r roles, xs[r := x]) = xs[r := x]"
proof -
  have "(\<lambda>role. if role \<in> set roles then (xs[r := x] ! r) role else (xs ! r) role) = x"
    using assms by auto
  then show ?thesis by (simp only: viewStep.simps)
qed

end
