(* ===== verification/MessageModel.thy ===== *)
theory MessageModel
  imports ListModel
begin

text \<open>
  The conversation on screen (\<^verbatim>\<open>client/src/messagemodel.cpp\<close>): text, file and system rows, tombstones,
  reactions and edits. The state is the list of rows; the rendering of a timestamp is a parameter.

  The lemmas show that rows never move and a tombstone is final, what each operation does to the row
  it addresses, and which operations keep attached views up to date.
\<close>

datatype msg_role =
    SenderRole | TextRole | TimestampRole | IsMineRole | IsSystemRole | IsFileRole | MsgIdRole
  | FilenameRole | MimeRole | SizeRole | LocalPathRole | MidRole | IsDeletedRole | MyReactionRole
  | PeerReactionRole | IsEditedRole

datatype msg_value = Str qstring | Flag bool | Num int

record Message =
  row_sender :: qstring
  row_text :: qstring
  row_ts :: int
  row_mine :: bool
  row_system :: bool
  row_isFile :: bool
  row_msgId :: qstring
  row_filename :: qstring
  row_mime :: qstring
  row_size :: int
  row_localPath :: qstring
  row_mid :: qstring
  row_deleted :: bool
  row_myReaction :: qstring
  row_peerReaction :: qstring
  row_edited :: bool

definition newMessage :: Message where
  "newMessage = \<lparr>row_sender = [], row_text = [], row_ts = 0, row_mine = False, row_system = False,
     row_isFile = False, row_msgId = [], row_filename = [], row_mime = [], row_size = 0,
     row_localPath = [], row_mid = [], row_deleted = False, row_myReaction = [], row_peerReaction = [],
     row_edited = False\<rparr>"

type_synonym MessageModel = "Message list"
type_synonym msg_trace = "(msg_role, msg_value) trace"

definition msg_rowCount :: "MessageModel \<Rightarrow> nat" where
  "msg_rowCount ms = length ms"

definition rowMid :: "Message \<Rightarrow> qstring" where
  "rowMid m = (if row_mid m \<noteq> [] then row_mid m else if row_isFile m then row_msgId m else [])"

definition rowData :: "(int \<Rightarrow> qstring) \<Rightarrow> Message \<Rightarrow> msg_role \<Rightarrow> msg_value" where
  "rowData formatTs m role =
     (case role of
        SenderRole \<Rightarrow> Str (row_sender m)
      | TextRole \<Rightarrow> Str (if row_deleted m then ''This message was deleted'' else row_text m)
      | TimestampRole \<Rightarrow> Str (formatTs (row_ts m))
      | IsMineRole \<Rightarrow> Flag (row_mine m)
      | IsSystemRole \<Rightarrow> Flag (row_system m)
      | IsFileRole \<Rightarrow> Flag (if row_deleted m then False else row_isFile m)
      | MsgIdRole \<Rightarrow> Str (row_msgId m)
      | FilenameRole \<Rightarrow> Str (row_filename m)
      | MimeRole \<Rightarrow> Str (if row_deleted m then [] else row_mime m)
      | SizeRole \<Rightarrow> Num (row_size m)
      | LocalPathRole \<Rightarrow> Str (if row_deleted m then [] else row_localPath m)
      | MidRole \<Rightarrow> Str (rowMid m)
      | IsDeletedRole \<Rightarrow> Flag (row_deleted m)
      | MyReactionRole \<Rightarrow> Str (if row_deleted m then [] else row_myReaction m)
      | PeerReactionRole \<Rightarrow> Str (if row_deleted m then [] else row_peerReaction m)
      | IsEditedRole \<Rightarrow> Flag (if row_deleted m then False else row_edited m))"

definition msg_data :: "(int \<Rightarrow> qstring) \<Rightarrow> MessageModel \<Rightarrow> nat \<Rightarrow> msg_role \<Rightarrow> msg_value option" where
  "msg_data formatTs ms row role =
     (if length ms \<le> row then None else Some (rowData formatTs (ms ! row) role))"

definition msg_rows :: "(int \<Rightarrow> qstring) \<Rightarrow> MessageModel \<Rightarrow> (msg_role, msg_value) rows" where
  "msg_rows formatTs ms = map (rowData formatTs) ms"

definition appendRow ::
  "(int \<Rightarrow> qstring) \<Rightarrow> MessageModel \<Rightarrow> Message \<Rightarrow> MessageModel \<times> msg_trace" where
  "appendRow F ms m = (let ms' = ms @ [m] in (ms', [(RowsInserted (length ms), msg_rows F ms')]))"

definition addMessage ::
  "(int \<Rightarrow> qstring) \<Rightarrow> MessageModel \<Rightarrow> qstring \<Rightarrow> qstring \<Rightarrow> int \<Rightarrow> bool \<Rightarrow> qstring \<Rightarrow>
   MessageModel \<times> msg_trace" where
  "addMessage F ms sender body tsMillis mine mid =
     appendRow F ms (newMessage\<lparr>row_sender := sender, row_text := body, row_ts := tsMillis,
       row_mine := mine, row_system := False, row_mid := mid\<rparr>)"

definition addSystem :: "(int \<Rightarrow> qstring) \<Rightarrow> int \<Rightarrow> MessageModel \<Rightarrow> qstring \<Rightarrow> MessageModel \<times> msg_trace" where
  "addSystem F currentMs ms body =
     appendRow F ms (newMessage\<lparr>row_text := body, row_ts := currentMs, row_mine := False,
       row_system := True\<rparr>)"

definition appendFileMessage ::
  "(int \<Rightarrow> qstring) \<Rightarrow> int \<Rightarrow> MessageModel \<Rightarrow> qstring \<Rightarrow> qstring \<Rightarrow> qstring \<Rightarrow> qstring \<Rightarrow> int \<Rightarrow> qstring \<Rightarrow>
   bool \<Rightarrow> int \<Rightarrow> MessageModel \<times> msg_trace" where
  "appendFileMessage F currentMs ms sender msgId filename mime sz localPath isOutgoing tsMillis =
     appendRow F ms (newMessage\<lparr>row_sender := sender, row_text := [],
       row_ts := (if 0 < tsMillis then tsMillis else currentMs), row_mine := isOutgoing,
       row_system := False, row_isFile := True, row_msgId := msgId, row_filename := filename,
       row_mime := mime, row_size := sz, row_localPath := localPath\<rparr>)"

definition msg_clear :: "(int \<Rightarrow> qstring) \<Rightarrow> MessageModel \<Rightarrow> MessageModel \<times> msg_trace" where
  "msg_clear F ms = ([], [(ModelReset, msg_rows F [])])"

fun findMid :: "MessageModel \<Rightarrow> nat \<Rightarrow> qstring \<Rightarrow> int" where
  "findMid [] i mid = - 1"
| "findMid (m # ms) i mid = (if rowMid m = mid then int i else findMid ms (Suc i) mid)"

definition indexOfMid :: "MessageModel \<Rightarrow> qstring \<Rightarrow> int" where
  "indexOfMid ms mid = (if mid = [] then - 1 else findMid ms 0 mid)"

definition updateRow ::
  "(int \<Rightarrow> qstring) \<Rightarrow> MessageModel \<Rightarrow> nat \<Rightarrow> Message \<Rightarrow> msg_role list \<Rightarrow> MessageModel \<times> msg_trace" where
  "updateRow F ms row m roles =
     (let ms' = ms[row := m] in (ms', [(DataChanged row roles, msg_rows F ms')]))"

definition markDeletedByMid ::
  "(int \<Rightarrow> qstring) \<Rightarrow> MessageModel \<Rightarrow> qstring \<Rightarrow> (MessageModel \<times> msg_trace) \<times> bool" where
  "markDeletedByMid F ms mid =
     (let row = indexOfMid ms mid
      in if row < 0 then ((ms, []), False)
         else
           (let m = ms ! nat row
            in if row_deleted m then ((ms, []), True)
               else (updateRow F ms (nat row)
                       (m\<lparr>row_deleted := True, row_text := [], row_localPath := [], row_mime := [],
                          row_filename := [], row_myReaction := [], row_peerReaction := []\<rparr>)
                       [TextRole, IsFileRole, MimeRole, FilenameRole, LocalPathRole, IsDeletedRole,
                        MyReactionRole, PeerReactionRole], True)))"

definition midAt :: "MessageModel \<Rightarrow> int \<Rightarrow> qstring" where
  "midAt ms row = (if row < 0 \<or> int (length ms) \<le> row then [] else rowMid (ms ! nat row))"

definition isMineAt :: "MessageModel \<Rightarrow> int \<Rightarrow> bool" where
  "isMineAt ms row = (if row < 0 \<or> int (length ms) \<le> row then False else row_mine (ms ! nat row))"

definition applyReaction ::
  "(int \<Rightarrow> qstring) \<Rightarrow> MessageModel \<Rightarrow> qstring \<Rightarrow> bool \<Rightarrow> qstring \<Rightarrow> (MessageModel \<times> msg_trace) \<times> bool" where
  "applyReaction F ms mid mine kind =
     (let row = indexOfMid ms mid
      in if row < 0 then ((ms, []), False)
         else
           (let m = ms ! nat row
            in if row_deleted m then ((ms, []), False)
               else
                 (let k = (if kind = ''up'' \<or> kind = ''down'' then kind else [])
                  in (updateRow F ms (nat row)
                        (if mine then m\<lparr>row_myReaction := k\<rparr> else m\<lparr>row_peerReaction := k\<rparr>)
                        [if mine then MyReactionRole else PeerReactionRole], True))))"

definition editTextByMid ::
  "(int \<Rightarrow> qstring) \<Rightarrow> MessageModel \<Rightarrow> qstring \<Rightarrow> qstring \<Rightarrow> (MessageModel \<times> msg_trace) \<times> bool" where
  "editTextByMid F ms mid newText =
     (let row = indexOfMid ms mid
      in if row < 0 then ((ms, []), False)
         else
           (let m = ms ! nat row
            in if row_isFile m \<or> row_system m \<or> row_deleted m then ((ms, []), False)
               else (updateRow F ms (nat row) (m\<lparr>row_text := newText, row_edited := True\<rparr>)
                       [TextRole, IsEditedRole], True)))"

definition markEditedByMid ::
  "(int \<Rightarrow> qstring) \<Rightarrow> MessageModel \<Rightarrow> qstring \<Rightarrow> (MessageModel \<times> msg_trace) \<times> bool" where
  "markEditedByMid F ms mid =
     (let row = indexOfMid ms mid
      in if row < 0 then ((ms, []), False)
         else
           (let m = ms ! nat row
            in if row_isFile m \<or> row_system m \<or> row_deleted m then ((ms, []), False)
               else if row_edited m then ((ms, []), True)
               else (updateRow F ms (nat row) (m\<lparr>row_edited := True\<rparr>) [IsEditedRole], True)))"

definition isFileAt :: "MessageModel \<Rightarrow> int \<Rightarrow> bool" where
  "isFileAt ms row = (if row < 0 \<or> int (length ms) \<le> row then False else row_isFile (ms ! nat row))"

definition textAt :: "MessageModel \<Rightarrow> int \<Rightarrow> qstring" where
  "textAt ms row =
     (if row < 0 \<or> int (length ms) \<le> row then []
      else (let m = ms ! nat row in if row_isFile m \<or> row_system m then [] else row_text m))"

section \<open>Addressing rows\<close>

lemma findMid_spec:
  "findMid ms i mid = - 1 \<and> (\<forall>m \<in> set ms. rowMid m \<noteq> mid) \<or>
   (\<exists>j < length ms. findMid ms i mid = int (i + j) \<and> rowMid (ms ! j) = mid \<and>
      (\<forall>k < j. rowMid (ms ! k) \<noteq> mid))"
proof (induction ms arbitrary: i)
  case (Cons m ms)
  show ?case
  proof (cases "rowMid m = mid")
    case True
    then show ?thesis by (intro disjI2 exI [of _ 0]) simp
  next
    case False
    with Cons.IH [of "Suc i"] show ?thesis
    proof (elim disjE exE conjE)
      fix j assume "j < length ms" "findMid ms (Suc i) mid = int (Suc i + j)" "rowMid (ms ! j) = mid"
        "\<forall>k<j. rowMid (ms ! k) \<noteq> mid"
      with False show ?thesis by (intro disjI2 exI [of _ "Suc j"]) (auto simp: less_Suc_eq_0_disj)
    qed simp
  qed
qed simp

lemma indexOfMid_cases:
  obtains (absent) "indexOfMid ms mid = - 1" "mid = [] \<or> (\<forall>m \<in> set ms. rowMid m \<noteq> mid)"
  | (found) j where "j < length ms" "indexOfMid ms mid = int j" "rowMid (ms ! j) = mid" "mid \<noteq> []"
      "\<forall>k < j. rowMid (ms ! k) \<noteq> mid"
  using findMid_spec [of ms 0 mid] by (cases "mid = []") (auto simp: indexOfMid_def)

section \<open>Operations\<close>

datatype msg_op =
    AddMessage qstring qstring int bool qstring
  | AddSystem int qstring
  | AddFile int qstring qstring qstring qstring int qstring bool int
  | Delete qstring
  | React qstring bool qstring
  | Edit qstring qstring
  | MarkEdited qstring

fun perform :: "(int \<Rightarrow> qstring) \<Rightarrow> MessageModel \<Rightarrow> msg_op \<Rightarrow> MessageModel \<times> msg_trace" where
  "perform F ms (AddMessage sender body ts mine mid) = addMessage F ms sender body ts mine mid"
| "perform F ms (AddSystem now body) = addSystem F now ms body"
| "perform F ms (AddFile now sender msgId filename mime sz localPath isOutgoing ts) =
     appendFileMessage F now ms sender msgId filename mime sz localPath isOutgoing ts"
| "perform F ms (Delete mid) = fst (markDeletedByMid F ms mid)"
| "perform F ms (React mid mine kind) = fst (applyReaction F ms mid mine kind)"
| "perform F ms (Edit mid newText) = fst (editTextByMid F ms mid newText)"
| "perform F ms (MarkEdited mid) = fst (markEditedByMid F ms mid)"

text \<open>A deletion that hits an edited row: its edit marker disappears from the data.\<close>

fun deletes_edited :: "MessageModel \<Rightarrow> msg_op \<Rightarrow> bool" where
  "deletes_edited ms (Delete mid) \<longleftrightarrow>
     0 \<le> indexOfMid ms mid \<and> row_edited (ms ! nat (indexOfMid ms mid)) \<and>
     \<not> row_deleted (ms ! nat (indexOfMid ms mid))"
| "deletes_edited ms _ \<longleftrightarrow> False"

text \<open>The four operations on an addressed row have one shape: look the row up, refuse or change it, and
  announce some roles.\<close>

definition addressed ::
  "(int \<Rightarrow> qstring) \<Rightarrow> MessageModel \<Rightarrow> qstring \<Rightarrow> (Message \<Rightarrow> (Message \<times> msg_role list) option) \<Rightarrow>
   MessageModel \<times> msg_trace" where
  "addressed F ms mid f =
     (let row = indexOfMid ms mid
      in if row < 0 then (ms, [])
         else case f (ms ! nat row) of None \<Rightarrow> (ms, [])
            | Some (m', roles) \<Rightarrow> updateRow F ms (nat row) m' roles)"

lemma addressed_ops:
  "fst (markDeletedByMid F ms mid) = addressed F ms mid (\<lambda>m. if row_deleted m then None
     else Some (m\<lparr>row_deleted := True, row_text := [], row_localPath := [], row_mime := [],
        row_filename := [], row_myReaction := [], row_peerReaction := []\<rparr>,
        [TextRole, IsFileRole, MimeRole, FilenameRole, LocalPathRole, IsDeletedRole, MyReactionRole,
         PeerReactionRole]))"
  "fst (applyReaction F ms mid mine kind) = addressed F ms mid (\<lambda>m. if row_deleted m then None
     else (let k = (if kind = ''up'' \<or> kind = ''down'' then kind else [])
           in Some (if mine then m\<lparr>row_myReaction := k\<rparr> else m\<lparr>row_peerReaction := k\<rparr>,
                    [if mine then MyReactionRole else PeerReactionRole])))"
  "fst (editTextByMid F ms mid newText) = addressed F ms mid (\<lambda>m.
     if row_isFile m \<or> row_system m \<or> row_deleted m then None
     else Some (m\<lparr>row_text := newText, row_edited := True\<rparr>, [TextRole, IsEditedRole]))"
  "fst (markEditedByMid F ms mid) = addressed F ms mid (\<lambda>m.
     if row_isFile m \<or> row_system m \<or> row_deleted m \<or> row_edited m then None
     else Some (m\<lparr>row_edited := True\<rparr>, [IsEditedRole]))"
  by (auto simp: markDeletedByMid_def applyReaction_def editTextByMid_def markEditedByMid_def
      addressed_def Let_def)

lemma addressed_cases:
  obtains (unchanged) "addressed F ms mid f = (ms, [])"
  | (updated) j m' roles where "j < length ms" "indexOfMid ms mid = int j" "f (ms ! j) = Some (m', roles)"
      "addressed F ms mid f = updateRow F ms j m' roles"
proof (cases rule: indexOfMid_cases [of ms mid])
  case absent
  with that(1) show ?thesis by (simp add: addressed_def)
next
  case (found j)
  show ?thesis
  proof (cases "f (ms ! j)")
    case None
    with found that(1) show ?thesis by (simp add: addressed_def)
  next
    case (Some r)
    then show ?thesis using found that(2) [of j "fst r" "snd r"] by (cases r) (simp add: addressed_def)
  qed
qed

text \<open>What every operation does: it appends a live row, changes nothing, or replaces one live row; then
  the identity of the row stays and, unless an edited row is deleted, every role that changes is
  announced.\<close>

definition covers :: "(int \<Rightarrow> qstring) \<Rightarrow> Message \<Rightarrow> Message \<Rightarrow> msg_role list \<Rightarrow> bool" where
  "covers F m m' roles \<longleftrightarrow> (\<forall>role. role \<notin> set roles \<longrightarrow> rowData F m role = rowData F m' role)"

lemma covers_all:
  "(\<And>role. role \<in> {SenderRole, TextRole, TimestampRole, IsMineRole, IsSystemRole, IsFileRole, MsgIdRole,
      FilenameRole, MimeRole, SizeRole, LocalPathRole, MidRole, IsDeletedRole, MyReactionRole,
      PeerReactionRole, IsEditedRole} - set roles \<Longrightarrow> rowData F m role = rowData F m' role) \<Longrightarrow> covers F m m' roles"
  unfolding covers_def
proof (intro allI impI)
  fix role assume a: "\<And>role. role \<in> {SenderRole, TextRole, TimestampRole, IsMineRole, IsSystemRole, IsFileRole,
      MsgIdRole, FilenameRole, MimeRole, SizeRole, LocalPathRole, MidRole, IsDeletedRole, MyReactionRole,
      PeerReactionRole, IsEditedRole} - set roles \<Longrightarrow> rowData F m role = rowData F m' role"
    and "role \<notin> set roles"
  then show "rowData F m role = rowData F m' role" by (intro a) (cases role; simp)
qed

lemma covers_ops:
  "\<not> row_edited m \<Longrightarrow> \<not> row_deleted m \<Longrightarrow>
    covers F m (m\<lparr>row_deleted := True, row_text := [], row_localPath := [], row_mime := [],
        row_filename := [], row_myReaction := [], row_peerReaction := []\<rparr>)
      [TextRole, IsFileRole, MimeRole, FilenameRole, LocalPathRole, IsDeletedRole, MyReactionRole,
       PeerReactionRole]"
  "covers F m (m\<lparr>row_myReaction := k\<rparr>) [MyReactionRole]"
  "covers F m (m\<lparr>row_peerReaction := k\<rparr>) [PeerReactionRole]"
  "covers F m (m\<lparr>row_text := newText, row_edited := True\<rparr>) [TextRole, IsEditedRole]"
  "covers F m (m\<lparr>row_edited := True\<rparr>) [IsEditedRole]"
  by (rule covers_all, auto simp: rowData_def rowMid_def)+

lemma perform_cases:
  obtains (appended) m where "perform F ms op = appendRow F ms m" "\<not> row_deleted m"
  | (unchanged) "perform F ms op = (ms, [])"
  | (updated) j m' roles where "j < length ms" "\<not> row_deleted (ms ! j)"
      "perform F ms op = updateRow F ms j m' roles" "rowMid m' = rowMid (ms ! j)"
      "\<not> deletes_edited ms op \<Longrightarrow> covers F (ms ! j) m' roles"
proof -
  have add: thesis if "perform F ms op = addressed F ms mid f"
    "\<And>j m' roles. indexOfMid ms mid = int j \<Longrightarrow> f (ms ! j) = Some (m', roles) \<Longrightarrow> \<not> row_deleted (ms ! j) \<and>
       rowMid m' = rowMid (ms ! j) \<and> (\<not> deletes_edited ms op \<longrightarrow> covers F (ms ! j) m' roles)" for mid f
    by (cases rule: addressed_cases [of F ms mid f]) (use that(1,2) unchanged updated in force)+
  show thesis
  proof (cases op)
    case (Delete mid)
    with addressed_ops(1) [of F ms mid] show ?thesis
      by (intro add [of mid]) (simp, auto simp: covers_ops rowMid_def Let_def split: if_splits)
  next
    case (React mid mine kind)
    with addressed_ops(2) [of F ms mid mine kind] show ?thesis
      by (intro add [of mid]) (simp, auto simp: covers_ops rowMid_def Let_def split: if_splits)
  next
    case (Edit mid newText)
    with addressed_ops(3) [of F ms mid newText] show ?thesis
      by (intro add [of mid]) (simp, auto simp: covers_ops rowMid_def Let_def split: if_splits)
  next
    case (MarkEdited mid)
    with addressed_ops(4) [of F ms mid] show ?thesis
      by (intro add [of mid]) (simp, auto simp: covers_ops rowMid_def Let_def split: if_splits)
  qed (use appended in \<open>auto simp: addMessage_def addSystem_def appendFileMessage_def newMessage_def\<close>)
qed

section \<open>The views of the conversation\<close>

definition msg_step :: "(int \<Rightarrow> qstring) \<Rightarrow> MessageModel \<Rightarrow> msg_trace \<Rightarrow> MessageModel \<Rightarrow> bool" where
  "msg_step F ms tr ms' \<longleftrightarrow>
     (\<exists>op. perform F ms op = (ms', tr) \<and> \<not> deletes_edited ms op) \<or> msg_clear F ms = (ms', tr)"

lemma append_row_followed:
  "follow (msg_rows F ms) (snd (appendRow F ms m)) = msg_rows F (fst (appendRow F ms m))"
  using view_append [of "msg_rows F ms" "rowData F m"] by (simp add: appendRow_def msg_rows_def)

lemma update_row_followed:
  assumes "j < length ms" "covers F (ms ! j) m roles"
  shows "follow (msg_rows F ms) (snd (updateRow F ms j m roles)) = msg_rows F (fst (updateRow F ms j m roles))"
proof -
  have "viewStep (msg_rows F ms) (DataChanged j roles, (msg_rows F ms)[j := rowData F m]) =
      (msg_rows F ms)[j := rowData F m]"
    by (rule view_update) (use assms in \<open>simp_all add: msg_rows_def covers_def\<close>)
  then show ?thesis by (simp add: updateRow_def msg_rows_def map_update Let_def del: viewStep.simps)
qed

interpretation msg_views: list_model "msg_rows F" "msg_step F" for F
proof
  fix ms tr ms' assume "msg_step F ms tr ms'"
  then consider op where "perform F ms op = (ms', tr)" "\<not> deletes_edited ms op" | "msg_clear F ms = (ms', tr)"
    by (auto simp: msg_step_def)
  then show "follow (msg_rows F ms) tr = msg_rows F ms'"
  proof cases
    case (1 op)
    show ?thesis
    proof (cases rule: perform_cases [of F ms op])
      case (appended m)
      with 1 append_row_followed [of F ms m] show ?thesis by simp
    next
      case unchanged
      with 1 show ?thesis by simp
    next
      case (updated j m' roles)
      with 1 update_row_followed [of j ms F m' roles] show ?thesis by simp
    qed
  next
    case 2
    then show ?thesis by (auto simp: msg_clear_def)
  qed
qed

text \<open>A view attached to the conversation that follows its notifications shows the
  conversation after any run of operations in which no edited row is deleted.\<close>

theorem message_view_current:
  assumes "run (msg_step F) ms tr ms'"
  shows "follow (msg_rows F ms) tr = msg_rows F ms'"
  using assms by (rule msg_views.run_followed)

definition demoRows :: MessageModel where
  "demoRows = [newMessage\<lparr>row_sender := ''al'', row_text := ''hi'', row_mid := ''m1'', row_edited := True\<rparr>,
     newMessage\<lparr>row_sender := ''bob'', row_text := ''yo'', row_mid := ''m2''\<rparr>]"

theorem message_view_current_witness:
  "follow (msg_rows (\<lambda>_. []) demoRows) (snd (perform (\<lambda>_. []) demoRows (Delete ''m2''))) =
     msg_rows (\<lambda>_. []) (fst (perform (\<lambda>_. []) demoRows (Delete ''m2'')))"
proof -
  have "\<not> deletes_edited demoRows (Delete ''m2'')"
    by (simp add: demoRows_def newMessage_def indexOfMid_def rowMid_def)
  then have "msg_step (\<lambda>_. []) demoRows (snd (perform (\<lambda>_. []) demoRows (Delete ''m2'')))
      (fst (perform (\<lambda>_. []) demoRows (Delete ''m2'')))"
    unfolding msg_step_def by (intro disjI1 exI [of _ "Delete ''m2''"]) simp
  from message_view_current [OF run_one [of "msg_step (\<lambda>_. [])", OF this]] show ?thesis .
qed

text \<open>Deleting a row that had been edited does not announce the change of its edit
  marker: a view keeps showing the marker on the tombstone, while the model no longer does.\<close>

theorem deleting_edited_row_leaves_stale_marker:
  assumes "deletes_edited ms (Delete mid)" "perform F ms (Delete mid) = (ms', tr)"
  shows "\<exists>row < length ms'. (follow (msg_rows F ms) tr ! row) IsDeletedRole = Flag True \<and>
    (follow (msg_rows F ms) tr ! row) IsEditedRole = Flag True \<and>
    msg_data F ms' row IsEditedRole = Some (Flag False)"
proof (cases rule: indexOfMid_cases [of ms mid])
  case absent
  with assms(1) show ?thesis by simp
next
  case (found j)
  with assms show ?thesis
    by (intro exI [of _ j])
      (auto simp: markDeletedByMid_def updateRow_def Let_def msg_rows_def msg_data_def rowData_def)
qed

theorem deleting_edited_row_leaves_stale_marker_witness:
  "\<exists>row. (follow (msg_rows (\<lambda>_. []) demoRows) (snd (perform (\<lambda>_. []) demoRows (Delete ''m1''))) ! row)
      IsEditedRole = Flag True \<and>
    msg_data (\<lambda>_. []) (fst (perform (\<lambda>_. []) demoRows (Delete ''m1''))) row IsEditedRole = Some (Flag False)"
proof -
  have d: "deletes_edited demoRows (Delete ''m1'')"
    by (simp add: demoRows_def newMessage_def indexOfMid_def rowMid_def)
  obtain ms' tr where p: "perform (\<lambda>_. []) demoRows (Delete ''m1'') = (ms', tr)" by fastforce
  from deleting_edited_row_leaves_stale_marker [OF d p] p show ?thesis by auto
qed

section \<open>Tombstones\<close>

lemma perform_keeps_row:
  assumes "i < length ms"
  shows "i < length (fst (perform F ms op)) \<and> rowMid (fst (perform F ms op) ! i) = rowMid (ms ! i) \<and>
    (row_deleted (ms ! i) \<longrightarrow> fst (perform F ms op) ! i = ms ! i)"
proof (cases rule: perform_cases [of F ms op])
  case (appended m)
  with assms show ?thesis by (simp add: appendRow_def nth_append Let_def)
next
  case (updated j m' roles)
  with assms show ?thesis by (cases "i = j") (simp_all add: updateRow_def Let_def)
qed (use assms in simp)

lemma performs_keep_row:
  "i < length ms \<Longrightarrow> i < length (foldl (\<lambda>ms op. fst (perform F ms op)) ms ops) \<and>
   rowMid (foldl (\<lambda>ms op. fst (perform F ms op)) ms ops ! i) = rowMid (ms ! i) \<and>
   (row_deleted (ms ! i) \<longrightarrow> foldl (\<lambda>ms op. fst (perform F ms op)) ms ops ! i = ms ! i)"
proof (induction ops arbitrary: ms)
  case (Cons op ops)
  note k = perform_keeps_row [OF Cons.prems, of F op]
  from k Cons.IH [of "fst (perform F ms op)"] show ?case by auto
qed simp

text \<open>The row a deletion leaves, and what addresses it from then on.\<close>

definition tombstone :: "Message \<Rightarrow> Message" where
  "tombstone m = m\<lparr>row_deleted := True, row_text := [], row_localPath := [], row_mime := [],
     row_filename := [], row_myReaction := [], row_peerReaction := []\<rparr>"

lemma tombstone_mid: "rowMid (tombstone m) = rowMid m"
  by (simp add: tombstone_def rowMid_def)

lemma indexOfMid_found:
  "i < length ms \<Longrightarrow> mid \<noteq> [] \<Longrightarrow> rowMid (ms ! i) = mid \<Longrightarrow> (\<And>k. k < i \<Longrightarrow> rowMid (ms ! k) \<noteq> mid) \<Longrightarrow>
   indexOfMid ms mid = int i"
  by (cases rule: indexOfMid_cases [of ms mid]) (auto dest: nth_mem, metis linorder_neqE_nat)

lemma performs_keep_index:
  assumes "i < length ms" "indexOfMid ms mid = int i"
  shows "indexOfMid (foldl (\<lambda>ms op. fst (perform F ms op)) ms ops) mid = int i"
proof (cases rule: indexOfMid_cases [of ms mid])
  case (found j)
  with assms have "j = i" by simp
  with found show ?thesis
    using performs_keep_row [of _ ms F ops] by (intro indexOfMid_found) auto
qed (use assms in simp)

text \<open>C34 (invariant). Deleting a message is final as long as the conversation stays loaded. The deletion empties
  the stored row: no text, no attachment (path, name, type) and no reaction is left in it. After any further
  sequence of messages, reactions, edits and deletions the row is exactly that tombstone, at its old
  position and under its old identity; a reaction, an edit or an edit marker aimed at it is refused and
  changes nothing, a second deletion succeeds and changes nothing, the text handed out for editing is empty
  and the text shown is the placeholder.\<close>

theorem tombstone_is_final:
  assumes row: "indexOfMid ms mid = int i" "\<not> row_deleted (ms ! i)"
    and run: "ms' = foldl (\<lambda>ms op. fst (perform F ms op)) (fst (fst (markDeletedByMid F ms mid))) ops"
  shows "ms' ! i = (ms ! i)\<lparr>row_deleted := True, row_text := [], row_localPath := [], row_mime := [],
       row_filename := [], row_myReaction := [], row_peerReaction := []\<rparr> \<and>
    indexOfMid ms' mid = int i \<and> textAt ms' (int i) = [] \<and>
    msg_data F ms' i TextRole = Some (Str ''This message was deleted'') \<and>
    applyReaction F ms' mid mine kind = ((ms', []), False) \<and> editTextByMid F ms' mid newText = ((ms', []), False) \<and>
    markEditedByMid F ms' mid = ((ms', []), False) \<and> markDeletedByMid F ms' mid = ((ms', []), True)"
proof -
  let ?ms = "ms[i := tombstone (ms ! i)]"
  from row(1) have found: "i < length ms" "rowMid (ms ! i) = mid" "mid \<noteq> []" "\<forall>k < i. rowMid (ms ! k) \<noteq> mid"
    by (cases rule: indexOfMid_cases [of ms mid]; simp)+
  have del: "fst (fst (markDeletedByMid F ms mid)) = ?ms"
    using row by (simp add: markDeletedByMid_def updateRow_def tombstone_def Let_def)
  have here: "i < length ?ms" "indexOfMid ?ms mid = int i"
    using found by (auto simp: tombstone_mid intro!: indexOfMid_found)
  have "i < length ms'" "ms' ! i = tombstone (ms ! i)"
    using performs_keep_row [OF here(1), of F ops] found(1) by (auto simp: run del tombstone_def)
  moreover have "indexOfMid ms' mid = int i"
    unfolding run del by (rule performs_keep_index [OF here])
  ultimately show ?thesis
    by (simp add: tombstone_def textAt_def msg_data_def rowData_def applyReaction_def editTextByMid_def
        markEditedByMid_def markDeletedByMid_def Let_def)
qed

theorem tombstone_is_final_witness:
  "foldl (\<lambda>ms op. fst (perform (\<lambda>_. []) ms op)) (fst (fst (markDeletedByMid (\<lambda>_. []) demoRows ''m2'')))
     [Edit ''m2'' ''new'', React ''m2'' True ''up'', AddSystem 5 ''note''] ! 1 =
   newMessage\<lparr>row_sender := ''bob'', row_mid := ''m2'', row_deleted := True\<rparr>"
proof -
  have "indexOfMid demoRows ''m2'' = int 1" "\<not> row_deleted (demoRows ! 1)"
    by (simp_all add: demoRows_def newMessage_def indexOfMid_def rowMid_def)
  from tombstone_is_final [OF this refl, of "\<lambda>_. []" "[Edit ''m2'' ''new'', React ''m2'' True ''up'', AddSystem 5 ''note'']"]
  show ?thesis by (simp add: demoRows_def newMessage_def)
qed

end
