(* ===== verification/UserModel.thy ===== *)
theory UserModel
  imports ListModel
begin

text \<open>
  The list of known users (\<^verbatim>\<open>client/src/usermodel.cpp\<close>): every user ever seen, kept in
  case-insensitive order, with an online flag and an unread counter. The case-insensitive comparison
  of \<^verbatim>\<open>QString\<close> and the iteration order of a \<^verbatim>\<open>QSet\<close> are parameters; a set is the list of its elements
  without repetition.

  The lemmas show that the list stays sorted and without repetition, that presence updates never
  forget a user, how the counters move, and which operations keep attached views up to date.
\<close>

record text_order =
  compareCI :: "qstring \<Rightarrow> qstring \<Rightarrow> int"
  set_order :: "qstring list \<Rightarrow> qstring list"

datatype user_role = NameRole | IsSelfRole | UnreadRole | OnlineRole

datatype user_value = Name qstring | Flag bool | Count int

record UserModel =
  m_users :: "qstring list"
  m_self :: qstring
  m_unread :: "qstring \<rightharpoonup> int"
  m_online :: "qstring list"

definition newUserModel :: UserModel where
  "newUserModel = \<lparr>m_users = [], m_self = [], m_unread = Map.empty, m_online = []\<rparr>"

definition user_rowCount :: "UserModel \<Rightarrow> nat" where
  "user_rowCount u = length (m_users u)"

definition unreadOf :: "UserModel \<Rightarrow> qstring \<Rightarrow> int" where
  "unreadOf u name = (case m_unread u name of None \<Rightarrow> 0 | Some n \<Rightarrow> n)"

definition user_data :: "UserModel \<Rightarrow> nat \<Rightarrow> user_role \<Rightarrow> user_value option" where
  "user_data u row role =
     (if length (m_users u) \<le> row then None
      else (let name = m_users u ! row
            in Some (case role of NameRole \<Rightarrow> Name name
                   | IsSelfRole \<Rightarrow> Flag (name = m_self u)
                   | UnreadRole \<Rightarrow> Count (unreadOf u name)
                   | OnlineRole \<Rightarrow> Flag (name \<in> set (m_online u)))))"

definition isOnline :: "UserModel \<Rightarrow> qstring \<Rightarrow> bool" where
  "isOnline u name \<longleftrightarrow> name \<in> set (m_online u)"

definition user_rows :: "UserModel \<Rightarrow> (user_role, user_value option) rows" where
  "user_rows u = map (user_data u) [0..<user_rowCount u]"

type_synonym user_result = "UserModel \<times> (user_role, user_value option) trace"

definition insertUserSorted :: "text_order \<Rightarrow> UserModel \<Rightarrow> qstring \<Rightarrow> user_result" where
  "insertUserSorted T u name =
     (let row = length (takeWhile (\<lambda>x. compareCI T x name < 0) (m_users u));
          u' = u\<lparr>m_users := take row (m_users u) @ name # drop row (m_users u)\<rparr>
      in (u', [(RowsInserted row, user_rows u')]))"

definition ensureUser :: "text_order \<Rightarrow> UserModel \<Rightarrow> qstring \<Rightarrow> user_result" where
  "ensureUser T u name =
     (if name = [] \<or> name \<in> set (m_users u) then (u, []) else insertUserSorted T u name)"

fun indexOf :: "qstring list \<Rightarrow> qstring \<Rightarrow> int" where
  "indexOf [] name = - 1"
| "indexOf (x # xs) name =
     (if x = name then 0 else let i = indexOf xs name in if i < 0 then - 1 else i + 1)"

definition refreshRowFor :: "UserModel \<Rightarrow> qstring \<Rightarrow> (user_role, user_value option) trace" where
  "refreshRowFor u name =
     (let row = indexOf (m_users u) name
      in if row < 0 then []
         else [(DataChanged (nat row) [UnreadRole, OnlineRole, IsSelfRole], user_rows u)])"

fun addUnseen :: "text_order \<Rightarrow> UserModel \<Rightarrow> qstring list \<Rightarrow> user_result" where
  "addUnseen T u [] = (u, [])"
| "addUnseen T u (n # ns) =
     (let (u1, tr1) = (if n \<in> set (m_users u) then (u, []) else insertUserSorted T u n);
          (u2, tr2) = addUnseen T u1 ns
      in (u2, tr1 @ tr2))"

definition setOnlineUsers :: "text_order \<Rightarrow> UserModel \<Rightarrow> qstring list \<Rightarrow> user_result" where
  "setOnlineUsers T u names =
     (let nowOnline = remdups names;
          (u1, tr1) = addUnseen T u names;
          wasOnline = m_online u1;
          u2 = u1\<lparr>m_online := nowOnline\<rparr>;
          changed = filter (\<lambda>n. \<not> (n \<in> set wasOnline \<and> n \<in> set nowOnline)) (remdups (wasOnline @ nowOnline))
      in (u2, tr1 @ concat (map (refreshRowFor u2) (set_order T changed))))"

definition setSelfName :: "text_order \<Rightarrow> UserModel \<Rightarrow> qstring \<Rightarrow> user_result" where
  "setSelfName T u name =
     (let (u1, tr1) = ensureUser T (u\<lparr>m_self := name\<rparr>) name
      in (u1, tr1 @ refreshRowFor u1 name))"

definition incrementUnread :: "text_order \<Rightarrow> UserModel \<Rightarrow> qstring \<Rightarrow> user_result" where
  "incrementUnread T u peer =
     (let (u1, tr1) = ensureUser T u peer;
          u2 = u1\<lparr>m_unread := (m_unread u1)(peer \<mapsto> unreadOf u1 peer + 1)\<rparr>
      in (u2, tr1 @ refreshRowFor u2 peer))"

definition clearUnread :: "UserModel \<Rightarrow> qstring \<Rightarrow> user_result" where
  "clearUnread u peer =
     (if unreadOf u peer = 0 then (u, [])
      else (let u1 = u\<lparr>m_unread := (m_unread u)(peer \<mapsto> 0)\<rparr> in (u1, refreshRowFor u1 peer)))"

section \<open>The list of users\<close>

text \<open>Documented behaviour: the comparison is a total preorder of the folded texts, and iterating a set
  visits each element once.\<close>

definition order_law :: "text_order \<Rightarrow> bool" where
  "order_law T \<longleftrightarrow> (\<forall>x y. compareCI T x y \<le> 0 \<or> compareCI T y x \<le> 0) \<and>
     (\<forall>x y. compareCI T x y < 0 \<longrightarrow> \<not> compareCI T y x \<le> 0) \<and>
     (\<forall>x y. \<not> compareCI T x y < 0 \<longrightarrow> compareCI T y x \<le> 0) \<and>
     (\<forall>x y z. compareCI T x y \<le> 0 \<longrightarrow> compareCI T y z \<le> 0 \<longrightarrow> compareCI T x z \<le> 0) \<and>
     (\<forall>xs. mset (set_order T xs) = mset xs)"

definition users_ok :: "text_order \<Rightarrow> UserModel \<Rightarrow> bool" where
  "users_ok T u \<longleftrightarrow> distinct (m_users u) \<and> sorted_wrt (\<lambda>x y. compareCI T x y \<le> 0) (m_users u)"

lemma insertUserSorted_users:
  assumes "order_law T" "users_ok T u" "name \<notin> set (m_users u)"
  shows "users_ok T (fst (insertUserSorted T u name))"
    "set (m_users (fst (insertUserSorted T u name))) = insert name (set (m_users u))"
proof -
  define p where "p = takeWhile (\<lambda>x. compareCI T x name < 0) (m_users u)"
  define q where "q = dropWhile (\<lambda>x. compareCI T x name < 0) (m_users u)"
  have pq: "m_users u = p @ q" by (simp add: p_def q_def)
  have new: "m_users (fst (insertUserSorted T u name)) = p @ name # q"
    unfolding insertUserSorted_def Let_def p_def [symmetric] by (simp add: pq)
  show "set (m_users (fst (insertUserSorted T u name))) = insert name (set (m_users u))"
    by (auto simp: new pq)
  have below: "\<forall>x \<in> set p. compareCI T x name < 0" by (auto simp: p_def dest: set_takeWhileD)
  have above: "\<forall>y \<in> set q. compareCI T name y \<le> 0"
  proof (cases q)
    case (Cons z zs)
    then have "\<not> compareCI T z name < 0" using hd_dropWhile [of "\<lambda>x. compareCI T x name < 0" "m_users u"]
      by (simp add: q_def)
    then have z: "compareCI T name z \<le> 0" using assms(1) by (auto simp: order_law_def)
    have "\<forall>y \<in> set zs. compareCI T z y \<le> 0"
      using assms(2) Cons by (simp add: users_ok_def pq sorted_wrt_append)
    with z Cons assms(1) show ?thesis unfolding order_law_def by auto
  qed simp
  show "users_ok T (fst (insertUserSorted T u name))"
    using assms(2,3) below above by (auto simp: users_ok_def new pq sorted_wrt_append)
qed

lemma ensureUser_users:
  assumes "order_law T" "users_ok T u"
  shows "users_ok T (fst (ensureUser T u name))"
    "set (m_users (fst (ensureUser T u name))) = set (m_users u) \<union> (if name = [] then {} else {name})"
  using assms insertUserSorted_users [OF assms, of name] by (auto simp: ensureUser_def)

lemma insertUserSorted_frame:
  "m_self (fst (insertUserSorted T u n)) = m_self u" "m_unread (fst (insertUserSorted T u n)) = m_unread u"
  "m_online (fst (insertUserSorted T u n)) = m_online u"
  by (simp_all add: insertUserSorted_def Let_def)

lemma addUnseen_users:
  assumes "order_law T"
  shows "users_ok T u \<Longrightarrow> users_ok T (fst (addUnseen T u ns)) \<and>
    set (m_users (fst (addUnseen T u ns))) = set (m_users u) \<union> set ns"
proof (induction ns arbitrary: u)
  case (Cons n ns)
  show ?case
  proof (cases "n \<in> set (m_users u)")
    case True
    with Cons.IH [OF Cons.prems] show ?thesis by (auto simp: case_prod_beta Let_def)
  next
    case False
    note ins = insertUserSorted_users [OF assms Cons.prems False]
    from Cons.IH [OF ins(1)] False ins(2) show ?thesis by (auto simp: case_prod_beta Let_def)
  qed
qed simp

lemma addUnseen_frame:
  "m_self (fst (addUnseen T u ns)) = m_self u" "m_unread (fst (addUnseen T u ns)) = m_unread u"
  "m_online (fst (addUnseen T u ns)) = m_online u"
  by (induction ns arbitrary: u) (simp_all add: case_prod_beta Let_def insertUserSorted_frame)

lemma setOnlineUsers_fst:
  "fst (setOnlineUsers T u names) = (fst (addUnseen T u names))\<lparr>m_online := remdups names\<rparr>"
  by (simp add: setOnlineUsers_def Let_def case_prod_beta)

lemma users_ok_frame: "m_users u' = m_users u \<Longrightarrow> users_ok T u' = users_ok T u"
  by (simp add: users_ok_def)

text \<open>A presence update merges: the list stays sorted and without repetition, every user
  known before is still there, the named users have joined it, exactly they are online, and no unread
  counter moves.\<close>

theorem presence_merges:
  assumes "order_law T" "users_ok T u" "setOnlineUsers T u names = (u', tr)"
  shows "users_ok T u' \<and> set (m_users u') = set (m_users u) \<union> set names \<and>
    (\<forall>n. isOnline u' n \<longleftrightarrow> n \<in> set names) \<and> m_unread u' = m_unread u \<and> m_self u' = m_self u"
proof -
  have u': "u' = (fst (addUnseen T u names))\<lparr>m_online := remdups names\<rparr>"
    using setOnlineUsers_fst [of T u names] assms(3) by simp
  show ?thesis
    using addUnseen_users [OF assms(1,2), of names] users_ok_frame [of u' "fst (addUnseen T u names)" T]
    by (simp add: u' addUnseen_frame isOnline_def)
qed

section \<open>The views of the list\<close>

definition rowOf :: "UserModel \<Rightarrow> qstring \<Rightarrow> user_role \<Rightarrow> user_value option" where
  "rowOf u name role = Some (case role of NameRole \<Rightarrow> Name name | IsSelfRole \<Rightarrow> Flag (name = m_self u)
     | UnreadRole \<Rightarrow> Count (unreadOf u name) | OnlineRole \<Rightarrow> Flag (name \<in> set (m_online u)))"

lemma user_rows_map: "user_rows u = map (rowOf u) (m_users u)"
  by (auto simp: user_rows_def user_rowCount_def user_data_def rowOf_def fun_eq_iff Let_def
      intro!: nth_equalityI)

lemma rowOf_cong:
  "m_self u' = m_self u \<Longrightarrow> m_unread u' = m_unread u \<Longrightarrow> m_online u' = m_online u \<Longrightarrow> rowOf u' = rowOf u"
  by (simp add: rowOf_def fun_eq_iff unreadOf_def split: user_role.split)

lemma insert_followed:
  "follow (user_rows u) (snd (insertUserSorted T u name)) = user_rows (fst (insertUserSorted T u name))"
proof -
  define row where "row = length (takeWhile (\<lambda>x. compareCI T x name < 0) (m_users u))"
  define u' where "u' = u\<lparr>m_users := take row (m_users u) @ name # drop row (m_users u)\<rparr>"
  have row: "row \<le> length (m_users u)" by (simp add: row_def length_takeWhile_le)
  have ins: "insertUserSorted T u name = (u', [(RowsInserted row, user_rows u')])"
    unfolding insertUserSorted_def Let_def row_def [symmetric] u'_def by simp
  have "rowOf u' = rowOf u" by (rule rowOf_cong) (simp_all add: u'_def)
  then have "user_rows u' = take row (user_rows u) @ rowOf u name # drop row (user_rows u)"
    by (simp add: user_rows_map u'_def take_map drop_map)
  moreover have "row \<le> length (user_rows u)" using row by (simp add: user_rows_map)
  ultimately show ?thesis by (simp add: ins view_insert)
qed

lemma ensure_followed:
  "follow (user_rows u) (snd (ensureUser T u name)) = user_rows (fst (ensureUser T u name))"
  by (simp add: ensureUser_def insert_followed)

lemma addUnseen_followed:
  "follow (user_rows u) (snd (addUnseen T u ns)) = user_rows (fst (addUnseen T u ns))"
proof (induction ns arbitrary: u)
  case (Cons n ns)
  then show ?case by (simp add: case_prod_beta Let_def insert_followed)
qed simp

lemma indexOf_nth:
  "n \<in> set xs \<Longrightarrow> 0 \<le> indexOf xs n \<and> nat (indexOf xs n) < length xs \<and> xs ! nat (indexOf xs n) = n"
  "n \<notin> set xs \<Longrightarrow> indexOf xs n = - 1"
  by (induction xs) (auto simp: Let_def nat_add_distrib)

lemma map_update_distinct:
  "distinct xs \<Longrightarrow> i < length xs \<Longrightarrow> (map f xs)[i := y] = map (f(xs ! i := y)) xs"
  by (auto simp: nth_eq_iff_index_eq nth_list_update intro!: nth_equalityI)

text \<open>Rows that differ from the model in some users only, but agree on their names, are brought up to
  date by refreshing those users.\<close>

lemma refresh_followed:
  assumes "distinct (m_users u)"
  shows "(\<And>n. f n NameRole = rowOf u n NameRole) \<Longrightarrow>
    follow (map f (m_users u)) (concat (map (refreshRowFor u) cs)) =
    map (\<lambda>n. if n \<in> set cs then rowOf u n else f n) (m_users u)"
proof (induction cs arbitrary: f)
  case (Cons c cs)
  define g where "g = (if c \<in> set (m_users u) then f(c := rowOf u c) else f)"
  have "follow (map f (m_users u)) (refreshRowFor u c) = map g (m_users u)"
  proof (cases "c \<in> set (m_users u)")
    case True
    note ix = indexOf_nth(1) [OF True]
    let ?i = "nat (indexOf (m_users u) c)"
    have rows: "user_rows u ! ?i = rowOf u c" "map f (m_users u) ! ?i = f c"
      using ix by (simp_all add: user_rows_map)
    have "(\<lambda>role. if role \<in> set [UnreadRole, OnlineRole, IsSelfRole] then (user_rows u ! ?i) role
        else (map f (m_users u) ! ?i) role) = rowOf u c"
    proof
      fix role
      show "(if role \<in> set [UnreadRole, OnlineRole, IsSelfRole] then (user_rows u ! ?i) role
        else (map f (m_users u) ! ?i) role) = rowOf u c role"
        using Cons.prems [of c] by (cases role) (simp_all add: rows)
    qed
    moreover have "follow (map f (m_users u)) (refreshRowFor u c) =
        (map f (m_users u))[?i := (\<lambda>role. if role \<in> set [UnreadRole, OnlineRole, IsSelfRole]
          then (user_rows u ! ?i) role else (map f (m_users u) ! ?i) role)]"
      using ix by (simp add: refreshRowFor_def Let_def not_less)
    ultimately show ?thesis
      using ix True map_update_distinct [OF assms, of ?i f "rowOf u c"] by (simp add: g_def)
  next
    case False
    then show ?thesis by (simp add: refreshRowFor_def indexOf_nth(2) g_def)
  qed
  moreover have "follow (map g (m_users u)) (concat (map (refreshRowFor u) cs)) =
      map (\<lambda>n. if n \<in> set cs then rowOf u n else g n) (m_users u)"
    by (rule Cons.IH) (simp add: g_def Cons.prems)
  ultimately show ?case by (auto simp: g_def)
qed simp

lemma rowOf_name: "rowOf u n NameRole = rowOf u' n NameRole"
  by (simp add: rowOf_def)

lemma refresh_rows:
  assumes "distinct (m_users u')" "m_users u' = m_users u"
    "\<And>n. n \<in> set (m_users u) \<Longrightarrow> n \<notin> set cs \<Longrightarrow> rowOf u n = rowOf u' n"
  shows "follow (user_rows u) (concat (map (refreshRowFor u') cs)) = user_rows u'"
  using refresh_followed [OF assms(1), of "rowOf u" cs] rowOf_name [of u _ u'] assms(2,3)
  by (simp add: user_rows_map)

lemma online_followed:
  assumes "order_law T" "users_ok T u"
  shows "follow (user_rows u) (snd (setOnlineUsers T u names)) = user_rows (fst (setOnlineUsers T u names))"
proof -
  define u1 where "u1 = fst (addUnseen T u names)"
  define u2 where "u2 = u1\<lparr>m_online := remdups names\<rparr>"
  define changed where "changed = filter (\<lambda>n. \<not> (n \<in> set (m_online u1) \<and> n \<in> set (remdups names)))
      (remdups (m_online u1 @ remdups names))"
  have res: "setOnlineUsers T u names =
      (u2, snd (addUnseen T u names) @ concat (map (refreshRowFor u2) (set_order T changed)))"
    by (simp add: setOnlineUsers_def Let_def case_prod_beta u1_def u2_def changed_def)
  have "distinct (m_users u2)"
    using addUnseen_users [OF assms, of names] by (simp add: users_ok_def u1_def u2_def)
  moreover have "set (set_order T changed) = set changed"
    using assms(1) by (metis order_law_def set_mset_mset)
  ultimately have "follow (user_rows u1) (concat (map (refreshRowFor u2) (set_order T changed))) = user_rows u2"
    by (intro refresh_rows)
      (auto simp: u2_def changed_def rowOf_def unreadOf_def fun_eq_iff split: user_role.split)
  then show ?thesis using addUnseen_followed [of u T names] by (simp add: res u1_def)
qed

lemma increment_followed:
  assumes "order_law T" "users_ok T u"
  shows "follow (user_rows u) (snd (incrementUnread T u p)) = user_rows (fst (incrementUnread T u p))"
proof -
  define u1 where "u1 = fst (ensureUser T u p)"
  define u2 where "u2 = u1\<lparr>m_unread := (m_unread u1)(p \<mapsto> unreadOf u1 p + 1)\<rparr>"
  have "distinct (m_users u2)"
    using ensureUser_users(1) [OF assms, of p] by (simp add: users_ok_def u1_def u2_def)
  then have "follow (user_rows u1) (concat (map (refreshRowFor u2) [p])) = user_rows u2"
    by (intro refresh_rows) (auto simp: u2_def rowOf_def unreadOf_def fun_eq_iff split: user_role.split)
  with ensure_followed [of u T p] show ?thesis
    by (simp add: incrementUnread_def Let_def case_prod_beta u1_def u2_def)
qed

lemma clear_followed:
  assumes "users_ok T u"
  shows "follow (user_rows u) (snd (clearUnread u p)) = user_rows (fst (clearUnread u p))"
proof -
  define u2 where "u2 = u\<lparr>m_unread := (m_unread u)(p \<mapsto> 0)\<rparr>"
  have "follow (user_rows u) (concat (map (refreshRowFor u2) [p])) = user_rows u2"
    using assms by (intro refresh_rows)
      (auto simp: u2_def users_ok_def rowOf_def unreadOf_def fun_eq_iff split: user_role.split)
  then show ?thesis by (simp add: clearUnread_def Let_def u2_def)
qed

lemma self_followed:
  assumes "order_law T" "users_ok T u" "m_self u = name \<or> m_self u \<notin> set (m_users u)"
  shows "follow (user_rows u) (snd (setSelfName T u name)) = user_rows (fst (setSelfName T u name))"
proof -
  define u0 where "u0 = u\<lparr>m_self := name\<rparr>"
  define u1 where "u1 = fst (ensureUser T u0 name)"
  have ok: "users_ok T u0" using assms(2) by (simp add: users_ok_def u0_def)
  have d: "distinct (m_users u1)" using ensureUser_users(1) [OF assms(1) ok] by (simp add: users_ok_def u1_def)
  have other: "rowOf u n = rowOf u0 n" if "n \<in> set (m_users u)" "n \<noteq> name" for n
    using that assms(3) by (auto simp: u0_def rowOf_def unreadOf_def fun_eq_iff split: user_role.split)
  have res: "setSelfName T u name = (u1, snd (ensureUser T u0 name) @ refreshRowFor u1 name)"
    by (simp add: setSelfName_def Let_def case_prod_beta u0_def u1_def)
  show ?thesis
  proof (cases "name \<in> set (m_users u)")
    case True
    then have "u1 = u0" "snd (ensureUser T u0 name) = []" by (simp_all add: u1_def u0_def ensureUser_def)
    moreover from \<open>u1 = u0\<close> have "follow (user_rows u) (concat (map (refreshRowFor u1) [name])) = user_rows u1"
      using d other by (intro refresh_rows) (simp_all add: u0_def)
    ultimately show ?thesis by (simp add: res)
  next
    case False
    then have "user_rows u = user_rows u0" using other by (auto simp: user_rows_map u0_def)
    moreover have "follow (user_rows u1) (concat (map (refreshRowFor u1) [name])) = user_rows u1"
      using d by (intro refresh_rows) simp_all
    ultimately show ?thesis using ensure_followed [of u0 T name] by (simp add: res u1_def)
  qed
qed

inductive user_step ::
  "text_order \<Rightarrow> UserModel \<Rightarrow> (user_role, user_value option) trace \<Rightarrow> UserModel \<Rightarrow> bool" for T where
  ensure: "ensureUser T u n = (u', tr) \<Longrightarrow> user_step T u tr u'"
| presence: "setOnlineUsers T u names = (u', tr) \<Longrightarrow> users_ok T u \<Longrightarrow> user_step T u tr u'"
| increment: "incrementUnread T u n = (u', tr) \<Longrightarrow> users_ok T u \<Longrightarrow> user_step T u tr u'"
| clear: "clearUnread u n = (u', tr) \<Longrightarrow> users_ok T u \<Longrightarrow> user_step T u tr u'"
| self: "setSelfName T u n = (u', tr) \<Longrightarrow> users_ok T u \<Longrightarrow> m_self u = n \<or> m_self u \<notin> set (m_users u) \<Longrightarrow>
    user_step T u tr u'"

definition text_order_demo :: text_order where
  "text_order_demo = \<lparr>compareCI = (\<lambda>x y. int (length x) - int (length y)), set_order = (\<lambda>xs. xs)\<rparr>"

lemma text_order_demo_law: "order_law text_order_demo"
  by (auto simp: order_law_def text_order_demo_def)

lemma user_step_followed:
  assumes "order_law T" "user_step T u tr u'"
  shows "follow (user_rows u) tr = user_rows u'"
  using assms(2)
proof cases
  case (ensure n)
  then show ?thesis using ensure_followed [of u T n] by simp
next
  case (presence names)
  then show ?thesis using online_followed [OF assms(1), of u names] by simp
next
  case (increment n)
  then show ?thesis using increment_followed [OF assms(1), of u n] by simp
next
  case (clear n)
  then show ?thesis using clear_followed [of T u n] by simp
next
  case (self n)
  then show ?thesis using self_followed [OF assms(1), of u n] by simp
qed

interpretation user_views: list_model user_rows "\<lambda>u tr u'. order_law T \<and> user_step T u tr u'" for T
  by unfold_locales (use user_step_followed in blast)

text \<open>A view attached to the user list that follows its notifications shows the list after any
  run of presence updates, unread counts, added users and changes of the own name away from a name
  that is not listed.\<close>

theorem user_view_current:
  assumes "order_law T" "run (user_step T) u tr u'"
  shows "follow (user_rows u) tr = user_rows u'"
proof -
  have "run (\<lambda>u tr u'. order_law T \<and> user_step T u tr u') u tr u'"
    using run_mono [OF assms(2), of "\<lambda>u tr u'. order_law T \<and> user_step T u tr u'"] assms(1) by blast
  then show ?thesis by (rule user_views.run_followed)
qed

definition demoUsers :: UserModel where
  "demoUsers = \<lparr>m_users = [''al'', ''bob'', ''carl''], m_self = ''al'', m_unread = Map.empty, m_online = [''bob'']\<rparr>"

lemma demoUsers_ok: "users_ok text_order_demo demoUsers"
  by (simp add: users_ok_def demoUsers_def text_order_demo_def)

theorem presence_merges_witness:
  "m_users (fst (setOnlineUsers text_order_demo demoUsers [''carl'', ''david''])) =
     [''al'', ''bob'', ''carl'', ''david''] \<and>
   users_ok text_order_demo (fst (setOnlineUsers text_order_demo demoUsers [''carl'', ''david'']))"
proof -
  have "users_ok text_order_demo (fst (setOnlineUsers text_order_demo demoUsers [''carl'', ''david'']))"
    using presence_merges [OF text_order_demo_law demoUsers_ok] by (metis prod.collapse)
  then show ?thesis
    by (simp add: setOnlineUsers_fst insertUserSorted_def demoUsers_def text_order_demo_def Let_def)
qed

theorem user_view_current_witness:
  "follow (user_rows demoUsers) (snd (incrementUnread text_order_demo demoUsers ''bob'')) =
     user_rows (fst (incrementUnread text_order_demo demoUsers ''bob''))"
proof -
  have "user_step text_order_demo demoUsers (snd (incrementUnread text_order_demo demoUsers ''bob''))
      (fst (incrementUnread text_order_demo demoUsers ''bob''))"
    by (rule user_step.increment [where n = "''bob''"]) (simp_all add: demoUsers_ok)
  from user_view_current [OF text_order_demo_law run_one [of "user_step text_order_demo", OF this]]
  show ?thesis .
qed

text \<open>Changing the own name from one listed user to another does not refresh the row of
  the former: a view keeps showing that row as the own one, while the model no longer does.\<close>

theorem self_switch_leaves_stale_row:
  assumes "order_law T" "users_ok T u" "m_self u \<in> set (m_users u)" "name \<in> set (m_users u)" "name \<noteq> m_self u"
    "setSelfName T u name = (u', tr)"
  shows "\<exists>row < user_rowCount u'. user_data u' row NameRole = Some (Name (m_self u)) \<and>
    (follow (user_rows u) tr ! row) IsSelfRole = Some (Flag True) \<and>
    user_data u' row IsSelfRole = Some (Flag False)"
proof -
  have u': "u' = u\<lparr>m_self := name\<rparr>" "tr = refreshRowFor u' name"
    using assms(4,6) by (auto simp: setSelfName_def ensureUser_def Let_def)
  have d: "distinct (m_users u')" using assms(2) by (simp add: users_ok_def u'(1))
  have view: "follow (user_rows u) tr = map (\<lambda>n. if n = name then rowOf u' n else rowOf u n) (m_users u)"
    using refresh_followed [OF d, of "rowOf u" "[name]"] rowOf_name [of u _ u'] u'
    by (simp add: user_rows_map)
  obtain row where row: "row < length (m_users u)" "m_users u ! row = m_self u"
    using assms(3) by (auto simp: in_set_conv_nth)
  with assms(5) show ?thesis
    by (intro exI [of _ row]) (simp add: view u'(1) user_rowCount_def user_data_def rowOf_def)
qed

theorem self_switch_leaves_stale_row_witness:
  "\<exists>row < 3. user_data (fst (setSelfName text_order_demo demoUsers ''bob'')) row NameRole = Some (Name ''al'') \<and>
     (follow (user_rows demoUsers) (snd (setSelfName text_order_demo demoUsers ''bob'')) ! row) IsSelfRole =
       Some (Flag True) \<and>
     user_data (fst (setSelfName text_order_demo demoUsers ''bob'')) row IsSelfRole = Some (Flag False)"
proof -
  obtain u' tr where s: "setSelfName text_order_demo demoUsers ''bob'' = (u', tr)" by fastforce
  have "user_rowCount u' = 3"
    using s by (auto simp: setSelfName_def ensureUser_def demoUsers_def user_rowCount_def Let_def)
  moreover have "m_self demoUsers = ''al''" "''al'' \<in> set (m_users demoUsers)" "''bob'' \<in> set (m_users demoUsers)"
    by (simp_all add: demoUsers_def)
  ultimately show ?thesis
    using self_switch_leaves_stale_row [OF text_order_demo_law demoUsers_ok _ _ _ s] s by simp
qed

end
