(* ===== verification/FileCrypto.thy ===== *)
theory FileCrypto
  imports Ratchet
begin

text \<open>
  Chunked file encryption (\<^verbatim>\<open>client/src/filecrypto.cpp\<close>): a thin, stateful wrapper around libsodium's
  secret stream. A null byte array is \<open>None\<close>. The state of the stream is opaque; a failed call of the
  library leaves it as it was.

  The lemmas show that the receiver recovers the chunks in order, that a truncated transfer is
  recognised at every cut, that a chunk is refused before the stream is set up, and that the file
  key uses the same HKDF as the message keys.
\<close>

definition kFileHkdfPrefix :: bytes where "kFileHkdfPrefix = latin1 ''tamk-chat-file-v1|''"

definition TAG_BYTES :: nat where "TAG_BYTES = 17"
definition HEADER_BYTES :: nat where "HEADER_BYTES = 24"
definition KEY_BYTES :: nat where "KEY_BYTES = 32"

text \<open>The tags of the stream, from the header of libsodium.\<close>

definition TAG_MESSAGE :: byte where "TAG_MESSAGE = 0"
definition TAG_FINAL :: byte where "TAG_FINAL = 3"

record FileCrypto =
  fc_state :: bytes
  fc_header :: bytes
  fc_initialized :: bool
  fc_sawFinal :: bool

definition newFileCrypto :: FileCrypto where
  "newFileCrypto = \<lparr>fc_state = [], fc_header = [], fc_initialized = False, fc_sawFinal = False\<rparr>"

definition hkdfSha256 :: "external \<Rightarrow> bytes \<Rightarrow> bytes \<Rightarrow> nat \<Rightarrow> bytes" where
  "hkdfSha256 E ikm info okmLen =
     (let prk = hmacsha256 E (replicate 32 0) ikm;
          t = hmacsha256 E prk (info @ [1])
      in take (if okmLen \<le> 32 then okmLen else 32) t)"

definition randomKey :: "bytes \<Rightarrow> bytes" where
  "randomKey rnd = rnd"

definition deriveFileKey :: "external \<Rightarrow> bytes \<Rightarrow> qstring \<Rightarrow> bytes" where
  "deriveFileKey E sharedSecret msgId = hkdfSha256 E sharedSecret (kFileHkdfPrefix @ toUtf8 E msgId) KEY_BYTES"

definition initPush :: "external \<Rightarrow> bytes \<Rightarrow> FileCrypto \<Rightarrow> bytes \<Rightarrow> FileCrypto \<times> bool" where
  "initPush E rnd fc fileKey =
     (if length fileKey \<noteq> KEY_BYTES then (fc, False)
      else case stream_init_push E rnd fileKey of
             None \<Rightarrow> (fc\<lparr>fc_header := []\<rparr>, False)
           | Some (st, h) \<Rightarrow>
               (fc\<lparr>fc_state := st, fc_header := h, fc_initialized := True, fc_sawFinal := False\<rparr>, True))"

definition encryptChunk :: "external \<Rightarrow> FileCrypto \<Rightarrow> bytes \<Rightarrow> bool \<Rightarrow> FileCrypto \<times> bytes option" where
  "encryptChunk E fc plaintext isLast =
     (if \<not> fc_initialized fc then (fc, None)
      else case stream_push E (fc_state fc) plaintext (if isLast then TAG_FINAL else TAG_MESSAGE) of
             None \<Rightarrow> (fc, None)
           | Some (st, ct) \<Rightarrow> (fc\<lparr>fc_state := st\<rparr>, Some ct))"

definition initPull :: "external \<Rightarrow> FileCrypto \<Rightarrow> bytes \<Rightarrow> bytes \<Rightarrow> FileCrypto \<times> bool" where
  "initPull E fc fileKey header =
     (if length fileKey \<noteq> KEY_BYTES \<or> length header \<noteq> HEADER_BYTES then (fc, False)
      else case stream_init_pull E fileKey header of
             None \<Rightarrow> (fc, False)
           | Some st \<Rightarrow> (fc\<lparr>fc_state := st, fc_initialized := True, fc_sawFinal := False\<rparr>, True))"

definition decryptChunk :: "external \<Rightarrow> FileCrypto \<Rightarrow> bytes \<Rightarrow> FileCrypto \<times> bytes option \<times> bool" where
  "decryptChunk E fc ciphertext =
     (if \<not> fc_initialized fc then (fc, None, False)
      else if length ciphertext < TAG_BYTES then (fc, None, False)
      else case stream_pull E (fc_state fc) ciphertext of
             None \<Rightarrow> (fc, None, False)
           | Some (st, pt, tag) \<Rightarrow>
               (let fc1 = fc\<lparr>fc_state := st\<rparr>
                in if tag = TAG_FINAL then (fc1\<lparr>fc_sawFinal := True\<rparr>, Some pt, True)
                   else (fc1, Some pt, False)))"

section \<open>Streams of chunks\<close>

fun pushAll :: "external \<Rightarrow> FileCrypto \<Rightarrow> bytes list \<Rightarrow> (FileCrypto \<times> bytes list) option" where
  "pushAll E fc [] = Some (fc, [])"
| "pushAll E fc (p # ps) =
     (case encryptChunk E fc p (ps = []) of
        (fc1, None) \<Rightarrow> None
      | (fc1, Some ct) \<Rightarrow> map_option (\<lambda>(fc2, cts). (fc2, ct # cts)) (pushAll E fc1 ps))"

fun pullAll :: "external \<Rightarrow> FileCrypto \<Rightarrow> bytes list \<Rightarrow> (FileCrypto \<times> (bytes \<times> bool) list) option" where
  "pullAll E fc [] = Some (fc, [])"
| "pullAll E fc (ct # cts) =
     (case decryptChunk E fc ct of
        (fc1, None, fin) \<Rightarrow> None
      | (fc1, Some p, fin) \<Rightarrow> map_option (\<lambda>(fc2, ps). (fc2, (p, fin) # ps)) (pullAll E fc1 cts))"

lemma stream_push_pull:
  assumes "stream_law E sync" "sync (fc_state s) (fc_state r)" "fc_initialized s" "fc_initialized r"
  obtains s' ct r' where "encryptChunk E s p isLast = (s', Some ct)"
    "decryptChunk E r ct = (r', Some p, isLast)" "sync (fc_state s') (fc_state r')"
    "fc_initialized s'" "fc_initialized r'" "fc_sawFinal r' = (fc_sawFinal r \<or> isLast)"
proof -
  obtain st ct st' where "stream_push E (fc_state s) p (if isLast then TAG_FINAL else TAG_MESSAGE) = Some (st, ct)"
      "length ct = length p + 17"
      "stream_pull E (fc_state r) ct = Some (st', p, if isLast then TAG_FINAL else TAG_MESSAGE)" "sync st st'"
    using assms(1,2) unfolding stream_law_def by blast
  then show ?thesis
    using assms(3,4) that [of "s\<lparr>fc_state := st\<rparr>" ct
        "if isLast then r\<lparr>fc_state := st', fc_sawFinal := True\<rparr> else r\<lparr>fc_state := st'\<rparr>"]
    by (simp add: encryptChunk_def decryptChunk_def TAG_BYTES_def TAG_FINAL_def TAG_MESSAGE_def Let_def
        split: if_splits)
qed

lemma pushAll_pulled:
  assumes law: "stream_law E sync"
  shows "sync (fc_state s) (fc_state r) \<Longrightarrow> fc_initialized s \<Longrightarrow> fc_initialized r \<Longrightarrow> \<not> fc_sawFinal r \<Longrightarrow>
    \<exists>s' cts. pushAll E s ps = Some (s', cts) \<and> length cts = length ps \<and>
      (\<forall>k \<le> length ps. \<exists>r'. pullAll E r (take k cts) = Some (r', map (\<lambda>i. (ps ! i, Suc i = length ps)) [0..<k]) \<and>
         (fc_sawFinal r' \<longleftrightarrow> 0 < k \<and> k = length ps))"
proof (induction ps arbitrary: s r)
  case (Cons p ps)
  obtain s1 ct r1 where 1: "encryptChunk E s p (ps = []) = (s1, Some ct)"
      "decryptChunk E r ct = (r1, Some p, ps = [])" "sync (fc_state s1) (fc_state r1)"
      "fc_initialized s1" "fc_initialized r1" "fc_sawFinal r1 = (fc_sawFinal r \<or> ps = [])"
    using stream_push_pull [OF law Cons.prems(1-3)] by blast
  show ?case
  proof (cases "ps = []")
    case True
    with 1 Cons.prems(4) show ?thesis by (auto simp: le_Suc_eq)
  next
    case False
    then have "\<not> fc_sawFinal r1" using 1(6) Cons.prems(4) by simp
    from Cons.IH [OF 1(3-5) this] obtain s' cts where IH: "pushAll E s1 ps = Some (s', cts)"
        "length cts = length ps"
        "\<And>k. k \<le> length ps \<Longrightarrow> \<exists>r'. pullAll E r1 (take k cts) =
           Some (r', map (\<lambda>i. (ps ! i, Suc i = length ps)) [0..<k]) \<and> (fc_sawFinal r' \<longleftrightarrow> 0 < k \<and> k = length ps)"
      by blast
    have "\<exists>r'. pullAll E r (take k (ct # cts)) =
        Some (r', map (\<lambda>i. ((p # ps) ! i, Suc i = length (p # ps))) [0..<k]) \<and>
        (fc_sawFinal r' \<longleftrightarrow> 0 < k \<and> k = length (p # ps))" if "k \<le> length (p # ps)" for k
    proof (cases k)
      case 0
      with Cons.prems(4) show ?thesis by simp
    next
      case (Suc k')
      have "map (\<lambda>i. ((p # ps) ! i, Suc i = length (p # ps))) [0..<Suc k'] =
          (p, False) # map (\<lambda>i. (ps ! i, Suc i = length ps)) [0..<k']"
        using False by (simp add: upt_conv_Cons map_Suc_upt [symmetric] comp_def del: upt_Suc)
      with Suc that False IH(3) [of k'] 1(2) show ?thesis by (auto simp del: upt_Suc)
    qed
    with 1(1) IH(1,2) show ?thesis by auto
  qed
qed simp

text \<open>C31 (roundtrip). A file sent as a sequence of chunks is recovered chunk by chunk in order, only the
  last chunk is reported final, and the receiver has seen the end if and only if every chunk arrived:
  a transfer cut off after any number of chunks is recognised as truncated.\<close>

theorem file_stream_roundtrip:
  assumes law: "stream_law E sync" and sizes: "length key = 32" "length rnd = 24" and ps: "ps \<noteq> []"
  shows "\<exists>s cts s' r. initPush E rnd newFileCrypto key = (s, True) \<and> pushAll E s ps = Some (s', cts) \<and>
    initPull E newFileCrypto key (fc_header s) = (r, True) \<and>
    (\<forall>k \<le> length ps. \<exists>r'. pullAll E r (take k cts) =
       Some (r', map (\<lambda>i. (ps ! i, Suc i = length ps)) [0..<k]) \<and> (fc_sawFinal r' \<longleftrightarrow> k = length ps))"
proof -
  obtain st h st' where init: "stream_init_push E rnd key = Some (st, h)" "length h = 24"
      "stream_init_pull E key h = Some st'" "sync st st'"
    using law sizes unfolding stream_law_def by blast
  define s where "s = newFileCrypto\<lparr>fc_state := st, fc_header := h, fc_initialized := True, fc_sawFinal := False\<rparr>"
  define r where "r = newFileCrypto\<lparr>fc_state := st', fc_initialized := True, fc_sawFinal := False\<rparr>"
  have "initPush E rnd newFileCrypto key = (s, True)" "initPull E newFileCrypto key (fc_header s) = (r, True)"
    using init sizes by (simp_all add: initPush_def initPull_def s_def r_def KEY_BYTES_def HEADER_BYTES_def)
  moreover obtain s' cts where "pushAll E s ps = Some (s', cts)"
      "\<forall>k \<le> length ps. \<exists>r'. pullAll E r (take k cts) = Some (r', map (\<lambda>i. (ps ! i, Suc i = length ps)) [0..<k]) \<and>
         (fc_sawFinal r' \<longleftrightarrow> 0 < k \<and> k = length ps)"
    using pushAll_pulled [OF law, of s r ps] init(4) by (auto simp: s_def r_def)
  moreover from this(2) have "\<forall>k \<le> length ps. \<exists>r'. pullAll E r (take k cts) =
       Some (r', map (\<lambda>i. (ps ! i, Suc i = length ps)) [0..<k]) \<and> (fc_sawFinal r' \<longleftrightarrow> k = length ps)"
    using ps by fastforce
  ultimately show ?thesis by blast
qed

theorem file_stream_roundtrip_witness:
  "\<exists>s cts s' r r'. initPush demo (replicate 24 1) newFileCrypto (replicate 32 2) = (s, True) \<and>
     pushAll demo s [[1, 2], [3]] = Some (s', cts) \<and>
     initPull demo newFileCrypto (replicate 32 2) (fc_header s) = (r, True) \<and>
     pullAll demo r (take 1 cts) = Some (r', [([1, 2], False)]) \<and> \<not> fc_sawFinal r'"
proof -
  obtain s cts s' r where *: "initPush demo (replicate 24 1) newFileCrypto (replicate 32 2) = (s, True)"
      "pushAll demo s [[1, 2], [3]] = Some (s', cts)"
      "initPull demo newFileCrypto (replicate 32 2) (fc_header s) = (r, True)"
      "\<And>k. k \<le> 2 \<Longrightarrow> \<exists>r'. pullAll demo r (take k cts) =
         Some (r', map (\<lambda>i. ([[1, 2], [3]] ! i, Suc i = 2)) [0..<k]) \<and> (fc_sawFinal r' \<longleftrightarrow> k = 2)"
    using file_stream_roundtrip [OF demo_stream_law, of "replicate 32 2" "replicate 24 1" "[[1, 2], [3]]"]
    by (simp del: pushAll.simps pullAll.simps add: numeral_2_eq_2) blast
  from *(4) [of 1] *(1-3) show ?thesis by (auto simp del: pushAll.simps)
qed

text \<open>The HKDF of this file is the one of the message layer, for the lengths it is used
  with: the file key is that HKDF of the shared secret under the file's own context, of 32 bytes.\<close>

theorem file_hkdf_is_hkdf:
  assumes "hmac_law E" "n \<le> 32"
  shows "hkdfSha256 E ikm info n = hkdf E None ikm info n \<and>
    deriveFileKey E secret msgId = hkdf E None secret (kFileHkdfPrefix @ toUtf8 E msgId) 32 \<and>
    length (deriveFileKey E secret msgId) = 32"
proof -
  have eq: "hkdfSha256 E i inf k = hkdf E None i inf k" if "k \<le> 32" for i inf k
    using that hkdf_blocks [OF assms(1), of k 1]
    by (simp add: hkdfSha256_def Let_def hkdfBlocks_def)
  then have "deriveFileKey E secret msgId = hkdf E None secret (kFileHkdfPrefix @ toUtf8 E msgId) 32"
    by (simp add: deriveFileKey_def KEY_BYTES_def)
  with eq [OF assms(2)] hkdf_length [OF assms(1)] show ?thesis by simp
qed

theorem file_hkdf_is_hkdf_witness:
  "hkdfSha256 demo [1, 2] [3] 16 = hkdf demo None [1, 2] [3] 16"
  using file_hkdf_is_hkdf [OF demo_laws(1), of 16 "[1, 2]" "[3]"] by simp

end
