(* ===== verification/Client.thy ===== *)
theory Client
  imports Box HistoryStore MessageModel UserModel FileCrypto "HOL-Library.Char_ord" "HOL-Library.List_Lexorder"
begin

text \<open>
  The state of the class \<open>ChatClient\<close> (\<^verbatim>\<open>client/src/chatclient.cpp\<close>, \<^verbatim>\<open>chatclient.h\<close>) and the operations
  that keep its parts together: the persisted sessions, the conversation on screen, and the messages
  the user deletes, reacts to or edits.

  A frame the client hands to its socket is a value; the frames sent so far are part of the state.
  The JSON rendering of a frame belongs to Qt. A handler reads the clock once, as its argument \<open>now\<close>;
  random bytes and fresh identifiers come from the numbered draws of the parameter \<open>W\<close>, which also
  holds the external functions of the other theories. Signals to the user interface are left out:
  they change no state of the client. Texts outside Latin-1 are written by their UTF-8 bytes.

  The lemmas show that a restart resumes every persisted session and that the conversation on screen
  is rebuilt from the database in order, and that a deleted message comes back when the conversation
  is reopened.
\<close>

section \<open>Frames and state\<close>

text \<open>Addresses, trust and the asynchronous calls of the platform, as the parameter \<open>W\<close> gives them.\<close>

datatype host_address = IPv4 u32 | IPv6 bytes

text \<open>An asynchronous operation of the platform: whether its state can be read at all, its state at each
  poll (\<open>None\<close> when the call fails) and the result it yields.\<close>

record async_op =
  ao_info :: bool
  ao_status :: "nat \<Rightarrow> int option"
  ao_results :: "int option"

text \<open>The Windows calls behind the application lock and the vault. An absent operation or factory is \<open>None\<close>.\<close>

record windows =
  wi_combase :: bool \<comment> \<open>combase.dll and its entry points are there\<close>
  wi_string :: bool \<comment> \<open>WindowsCreateString succeeds\<close>
  wi_checkAvailability :: "async_op option option" \<comment> \<open>the statics, and the operation they start\<close>
  wi_requestVerification :: "async_op option option"
  wi_requestForWindow :: "async_op option option" \<comment> \<open>the interop factory, and the operation it starts\<close>
  wi_crypt32 :: bool
  wi_protect :: "bytes \<Rightarrow> bytes option"
  wi_unprotect :: "bytes \<Rightarrow> bytes option"

record world =
  w_ext :: external
  w_rnd :: "nat \<Rightarrow> nat \<Rightarrow> bytes" \<comment> \<open>number of the draw, number of bytes\<close>
  w_uuid :: "nat \<Rightarrow> qstring"
  w_fmt :: "int \<Rightarrow> qstring" \<comment> \<open>rendering of a timestamp\<close>
  w_order :: text_order
  w_values :: "qstring set \<Rightarrow> qstring list" \<comment> \<open>QSet::values, QHash::keys\<close>
  w_today :: "int \<Rightarrow> qstring" \<comment> \<open>rendering of a date\<close>
  w_cannotDecrypt :: qstring \<comment> \<open>the translated placeholder\<close>
  w_readFile :: "qstring \<Rightarrow> bytes option" \<comment> \<open>the files that can be opened\<close>
  w_exists :: "qstring \<Rightarrow> bool"
  w_fileName :: "qstring \<Rightarrow> qstring"
  w_mime :: "qstring \<Rightarrow> qstring"
  w_trimmed :: "qstring \<Rightarrow> qstring" \<comment> \<open>QString::trimmed\<close>
  w_appData :: qstring \<comment> \<open>the standard locations\<close>
  w_appLocalData :: qstring
  w_appConfig :: qstring
  w_genericData :: qstring
  w_canWrite :: "qstring \<Rightarrow> bool" \<comment> \<open>paths that can be opened for writing\<close>
  w_dirOf :: "qstring \<Rightarrow> qstring" \<comment> \<open>QFileInfo::absolutePath\<close>
  w_isLetterOrNumber :: "char \<Rightarrow> bool"
  w_sameIgnoringCase :: "qstring \<Rightarrow> qstring \<Rightarrow> bool"
  w_urlHost :: "qstring \<Rightarrow> qstring" \<comment> \<open>QUrl::host\<close>
  w_isWss :: "qstring \<Rightarrow> bool" \<comment> \<open>whether the scheme of an address is wss\<close>
  w_address :: "qstring \<Rightarrow> host_address option" \<comment> \<open>QHostAddress of a host name\<close>
  w_isLoopback :: "host_address \<Rightarrow> bool"
  w_isLinkLocal :: "host_address \<Rightarrow> bool"
  w_caCertificates :: "bytes list" \<comment> \<open>the certificates the system trusts\<close>
  w_embeddedCa :: "bytes option" \<comment> \<open>the anchor compiled in\<close>
  w_certificates :: "bytes \<Rightarrow> bytes list" \<comment> \<open>QSslCertificate::fromData, without null certificates\<close>
  w_tlsSession :: "qstring \<Rightarrow> qstring" \<comment> \<open>rendering of the negotiated session, given the anchor\<close>
  w_date :: "qstring \<Rightarrow> qstring \<Rightarrow> (int \<times> int \<times> int) option" \<comment> \<open>QDate::fromString, by format: year, month, day\<close>
  w_isoDate :: "int \<times> int \<times> int \<Rightarrow> qstring"
  w_t :: "qstring \<Rightarrow> qstring" \<comment> \<open>Localization::t\<close>
  w_arg :: "qstring \<Rightarrow> qstring list \<Rightarrow> qstring" \<comment> \<open>QString::arg\<close>
  w_stamp :: "int \<Rightarrow> qstring" \<comment> \<open>rendering of a date with its time\<close>
  w_dec :: "int \<Rightarrow> qstring" \<comment> \<open>a number in decimal\<close>
  w_oneDecimal :: "int \<Rightarrow> int \<Rightarrow> qstring" \<comment> \<open>a quotient with one digit after the point\<close>
  w_lower :: "qstring \<Rightarrow> qstring"
  w_localFile :: "qstring \<Rightarrow> qstring" \<comment> \<open>QUrl::toLocalFile\<close>
  w_newline :: qstring \<comment> \<open>the line end of the platform\<close>
  w_pdf :: "qstring \<Rightarrow> bytes option" \<comment> \<open>a document printed from HTML\<close>
  w_android :: bool
  w_canAuthenticate :: bool \<comment> \<open>the device credential of Android\<close>
  w_windows :: windows

record X3dhHeader =
  xh_ikA :: bytes
  xh_ekA :: bytes
  xh_opkId :: int
  xh_spkUsed :: bytes

text \<open>A frame of type \<^verbatim>\<open>msg\<close>. A field that is absent is empty.\<close>

record msg_frame =
  mf_from :: qstring
  mf_to :: qstring
  mf_kind :: qstring
  mf_mid :: qstring
  mf_editOf :: qstring
  mf_ik :: qstring
  mf_wire :: wire
  mf_ts :: int
  mf_x3dh :: "X3dhHeader option"

record file_init =
  fi_msgId :: qstring
  fi_from :: qstring
  fi_to :: qstring
  fi_filename :: qstring
  fi_mime :: qstring
  fi_size :: int
  fi_header :: qstring
  fi_keyenc :: "wire option"
  fi_replayed :: bool

text \<open>The frame that signs in: what is absent is empty.\<close>

record hello_frame =
  he_nick :: qstring
  he_pubkey :: qstring
  he_ikType :: qstring
  he_haveFiles :: "qstring list"
  he_pwVerifier :: qstring
  he_pwSalt :: qstring
  he_dobVerifier :: qstring

datatype net_frame =
    Msg msg_frame
  | AuthBegin qstring
  | Hello hello_frame
  | PublishPrekeys qstring qstring "(u32 \<times> qstring) list" int \<comment> \<open>spk, spk_sig, opks, ts\<close>
  | GetBundle qstring
  | GetKey qstring
  | VerifyAck qstring qstring qstring qstring int \<comment> \<open>from, to, ik, peer_ik, ts\<close>
  | VerifyResync qstring qstring qstring int \<comment> \<open>from, to, ik, ts\<close>
  | FileInit file_init
  | Binary bytes
  | FileEnd qstring
  | Delete qstring qstring qstring int \<comment> \<open>from, to, mid, ts\<close>
  | Reaction qstring qstring qstring qstring int \<comment> \<open>from, to, mid, kind, ts\<close>
  | Typing qstring qstring qstring \<comment> \<open>from, to, state\<close>

record PendingOut =
  po_dbId :: int
  po_kind :: qstring
  po_peer :: qstring
  po_plaintext :: qstring
  po_srcPath :: qstring
  po_peerIdentity :: qstring
  po_mid :: qstring
  po_ts :: int

definition newPendingOut :: PendingOut where
  "newPendingOut = \<lparr>po_dbId = - 1, po_kind = [], po_peer = [], po_plaintext = [], po_srcPath = [],
     po_peerIdentity = [], po_mid = [], po_ts = 0\<rparr>"

record IncomingFile =
  in_msgId :: qstring
  in_sender :: qstring
  in_filename :: qstring
  in_mime :: qstring
  in_expectedSize :: int
  in_receivedBytes :: int
  in_nextChunkIndex :: int
  in_file :: bytes \<comment> \<open>what was written through the file handle\<close>
  in_localPath :: qstring
  in_crypto :: FileCrypto
  in_replayed :: bool

datatype tls_version = TlsV1_2OrLater

record ssl_config =
  ssl_verifyPeer :: bool
  ssl_protocol :: tls_version
  ssl_caCertificates :: "bytes list"

text \<open>What a client knows of its account and of its connection.\<close>

record Account =
  a_password :: qstring
  a_verifierHex :: qstring
  a_saltHex :: qstring
  a_dobVerifierHex :: qstring
  a_registering :: bool
  a_settings :: "qstring \<rightharpoonup> qstring" \<comment> \<open>QSettings: each key is written and read with one type\<close>
  a_numbers :: "qstring \<rightharpoonup> int"
  a_flags :: "qstring \<rightharpoonup> bool"
  a_blobs :: "qstring \<rightharpoonup> bytes"
  a_serverUrl :: qstring
  a_historyBaseDir :: qstring
  a_saltTimer :: bool
  a_intentionalClose :: bool
  a_reconnectTimer :: "int option"
  a_reconnectDelayMs :: int
  a_rekeyTimer :: bool
  a_sessionActive :: bool
  a_locked :: bool
  a_dialled :: "(qstring \<times> ssl_config option) list" \<comment> \<open>the connections opened\<close>
  a_labAnchors :: "bytes list option" \<comment> \<open>the anchors read so far\<close>
  a_tlsSummary :: qstring
  a_bioLoginServerUrl :: qstring
  a_bioEnrollPassword :: qstring
  a_bioEnrollPending :: bool
  a_revealOnly :: bool
  a_helloCached :: bool

definition newAccount :: Account where
  "newAccount = \<lparr>a_password = [], a_verifierHex = [], a_saltHex = [], a_dobVerifierHex = [], a_registering = False,
     a_settings = Map.empty, a_numbers = Map.empty, a_flags = Map.empty, a_blobs = Map.empty, a_serverUrl = [], a_historyBaseDir = [], a_saltTimer = False, a_intentionalClose = False,
     a_reconnectTimer = None, a_reconnectDelayMs = 1000, a_rekeyTimer = False, a_sessionActive = False,
     a_locked = False, a_dialled = [], a_labAnchors = None, a_tlsSummary = [], a_bioLoginServerUrl = [],
     a_bioEnrollPassword = [], a_bioEnrollPending = False, a_revealOnly = False, a_helloCached = False\<rparr>"

record ChatClient =
  c_nick :: qstring
  c_activePeer :: qstring
  c_connected :: bool
  c_sent :: "net_frame list"
  c_draws :: nat
  c_uuids :: nat
  c_crypto :: CryptoBox
  c_history :: HistoryStore
  c_messages :: MessageModel
  c_users :: UserModel
  c_peerKeys :: "qstring \<rightharpoonup> qstring"
  c_seenFrames :: "(qstring \<times> qstring \<times> u32) set"
  c_pendingFrames :: "qstring \<Rightarrow> net_frame list"
  c_rebootstrapAdopted :: "qstring \<rightharpoonup> qstring"
  c_pendingX3dhHeader :: "qstring \<rightharpoonup> X3dhHeader"
  c_peerEdKeys :: "qstring \<rightharpoonup> bytes"
  c_relayServesUntaggedEd :: bool
  c_unverifiedKeyChange :: "qstring set"
  c_pendingBilateral :: "qstring set"
  c_peerVerified :: "qstring set"
  c_verifyAckResend :: "qstring set"
  c_peerVerifiedForIdentity :: "qstring \<rightharpoonup> qstring"
  c_verifiedPeerIdentity :: "qstring \<rightharpoonup> qstring"
  c_lastVerifyResyncMs :: "qstring \<rightharpoonup> int"
  c_outbox :: "PendingOut list"
  c_flushInProgress :: bool
  c_sentSinceRatchet :: "qstring \<rightharpoonup> int"
  c_rekeyOutstanding :: "qstring set"
  c_rekeyPingSentAt :: "qstring \<rightharpoonup> int"
  c_rekeyPingResends :: "qstring \<rightharpoonup> int"
  c_pongOwed :: "qstring set"
  c_healPending :: "qstring set"
  c_rekeyKickTries :: int
  c_kickActive :: bool
  c_incoming :: "qstring \<rightharpoonup> IncomingFile"
  c_receivedFilePaths :: "qstring \<rightharpoonup> qstring"
  c_sentFileSources :: "qstring \<rightharpoonup> qstring"
  c_lastTypingStateSent :: qstring
  c_typingPeer :: qstring
  c_peerTyping :: "qstring \<rightharpoonup> qstring"
  c_files :: "qstring \<rightharpoonup> bytes" \<comment> \<open>the files the client keeps\<close>
  c_account :: Account

text \<open>\<^verbatim>\<open>QHash::value\<close> with its default.\<close>

definition valueOr :: "'v \<Rightarrow> ('k \<rightharpoonup> 'v) \<Rightarrow> 'k \<Rightarrow> 'v" where
  "valueOr d m k = (case m k of None \<Rightarrow> d | Some v \<Rightarrow> v)"

lemma valueOr_simps [simp]: "valueOr d (m(k \<mapsto> v)) k = v" "valueOr d Map.empty k = d"
  "k \<noteq> j \<Longrightarrow> valueOr d (m(j := x)) k = valueOr d m k" "valueOr d (m(k := None)) k = d"
  by (simp_all add: valueOr_def)

text \<open>\<^verbatim>\<open>sendTextMessage\<close> and \<^verbatim>\<open>sendBinaryMessage\<close> of a socket that is not connected do nothing.\<close>

definition sendFrame :: "ChatClient \<Rightarrow> net_frame \<Rightarrow> ChatClient" where
  "sendFrame c f = (if c_connected c then c\<lparr>c_sent := c_sent c @ [f]\<rparr> else c)"

definition requestKeyFor :: "ChatClient \<Rightarrow> qstring \<Rightarrow> ChatClient" where
  "requestKeyFor c peer = sendFrame c (GetKey peer)"

definition freshUuid :: "world \<Rightarrow> ChatClient \<Rightarrow> ChatClient \<times> qstring" where
  "freshUuid W c = (c\<lparr>c_uuids := Suc (c_uuids c)\<rparr>, w_uuid W (c_uuids c))"

text \<open>Calls into the crypto box, with the random bytes they draw.\<close>

definition boxEncrypt :: "world \<Rightarrow> ChatClient \<Rightarrow> qstring \<Rightarrow> qstring \<Rightarrow> ChatClient \<times> encrypt_result" where
  "boxEncrypt W c peer plaintext =
     (let (b, r) = encryptFor (w_ext W) (w_rnd W (c_draws c) 32) (w_rnd W (c_draws c + 1) 24) (c_crypto c)
                     peer plaintext
      in (c\<lparr>c_crypto := b, c_draws := c_draws c + 2\<rparr>, r))"

definition boxDecrypt :: "world \<Rightarrow> ChatClient \<Rightarrow> qstring \<Rightarrow> wire \<Rightarrow> ChatClient \<times> qstring option" where
  "boxDecrypt W c peer w =
     (let (b, r) = decryptFrom (w_ext W) (w_rnd W (c_draws c) 32) (w_rnd W (c_draws c + 1) 32) (c_crypto c)
                     peer w
      in (c\<lparr>c_crypto := b, c_draws := c_draws c + 2\<rparr>, r))"

definition boxSeal :: "world \<Rightarrow> ChatClient \<Rightarrow> qstring \<Rightarrow> ChatClient \<times> (qstring \<times> qstring) option" where
  "boxSeal W c plaintext =
     (c\<lparr>c_draws := c_draws c + 1\<rparr>, localSeal (w_ext W) (w_rnd W (c_draws c) 24) (c_crypto c) plaintext)"

section \<open>Persisted sessions\<close>

definition persistSession :: "world \<Rightarrow> int \<Rightarrow> ChatClient \<Rightarrow> qstring \<Rightarrow> ChatClient" where
  "persistSession W now c peer =
     (if m_ready (c_history c)
      then c\<lparr>c_history := fst (saveSession now (c_history c) peer (exportSession (w_ext W) (c_crypto c) peer)
               (peerIdentityHex (c_crypto c) peer) (valueOr 0 (c_sentSinceRatchet c) peer))\<rparr>
      else c)"

definition persistAllSessions :: "world \<Rightarrow> int \<Rightarrow> ChatClient \<Rightarrow> ChatClient" where
  "persistAllSessions W now c =
     (if \<not> m_ready (c_history c) then c
      else fold (\<lambda>peer c.
             let blob = exportSession (w_ext W) (c_crypto c) peer
             in if blob = [] then c
                else c\<lparr>c_history := fst (saveSession now (c_history c) peer blob
                         (peerIdentityHex (c_crypto c) peer) (valueOr 0 (c_sentSinceRatchet c) peer))\<rparr>)
           (w_values W (dom (c_peerKeys c))) c)"

definition importPeer :: "external \<Rightarrow> CryptoBox \<Rightarrow> HistoryStore \<Rightarrow> qstring \<Rightarrow> CryptoBox \<times> bool" where
  "importPeer E b h peer =
     (let peerId = loadPeerIdentity h peer
      in importSession (if peerId = [] then b else fst (setPeerIdentity E b peer peerId)) peer (loadSession h peer))"

definition resumeCount :: "HistoryStore \<Rightarrow> (qstring \<rightharpoonup> int) \<Rightarrow> qstring \<Rightarrow> (qstring \<rightharpoonup> int)" where
  "resumeCount h m peer =
     (let savedCount = loadSentSince h peer
      in if 0 < savedCount then m(peer \<mapsto> max (valueOr 0 m peer) savedCount) else m)"

definition restoreSession :: "world \<Rightarrow> ChatClient \<Rightarrow> qstring \<Rightarrow> ChatClient" where
  "restoreSession W c peer =
     (let (b, imported) = importPeer (w_ext W) (c_crypto c) (c_history c) peer
      in c\<lparr>c_crypto := b,
           c_history := (if imported then c_history c else fst (clearSession (c_history c) peer)),
           c_sentSinceRatchet := (if imported then resumeCount (c_history c) (c_sentSinceRatchet c) peer
                                  else c_sentSinceRatchet c),
           c_users := fst (ensureUser (w_order W) (c_users c) peer)\<rparr>)"

definition restoreAllSessions :: "world \<Rightarrow> ChatClient \<Rightarrow> ChatClient" where
  "restoreAllSessions W c =
     (if \<not> m_ready (c_history c) then c
      else fold (\<lambda>peer c. restoreSession W c peer) (sessionPeers (c_history c)) c)"

section \<open>The conversation on screen\<close>

definition replayRow :: "world \<Rightarrow> int \<Rightarrow> CryptoBox \<Rightarrow> StoredRow \<Rightarrow> MessageModel \<Rightarrow> MessageModel" where
  "replayRow W now b r ms =
     (if sr_system r then fst (addSystem (w_fmt W) now ms (sr_systemText r))
      else if sr_isFile r then
        fst (appendFileMessage (w_fmt W) now ms (sr_sender r) (sr_msgId r) (sr_filename r) (sr_mime r)
               (sr_size r) (sr_localPath r) (sr_mine r) (sr_ts r))
      else
        (case localOpen (w_ext W) b (sr_nonceHex r) (sr_ctHex r) of
           Some (x # xs) \<Rightarrow>
             (let ms1 = fst (addMessage (w_fmt W) ms (sr_sender r) (x # xs) (sr_ts r) (sr_mine r) (sr_mid r))
              in if sr_edited r then fst (fst (markEditedByMid (w_fmt W) ms1 (sr_mid r))) else ms1)
         | _ \<Rightarrow> fst (addSystem (w_fmt W) now ms (w_cannotDecrypt W))))"

definition loadConversation :: "world \<Rightarrow> int \<Rightarrow> ChatClient \<Rightarrow> qstring \<Rightarrow> ChatClient" where
  "loadConversation W now c peer =
     (let ms0 = fst (msg_clear (w_fmt W) (c_messages c));
          ms1 = fold (replayRow W now (c_crypto c)) (rowsForPeer (c_history c) peer 500) ms0;
          ms2 = fold (\<lambda>r ms. fst (fst (applyReaction (w_fmt W) ms (rx_mid r) (rx_who r = ''me'') (rx_kind r))))
                  (reactionsForPeer (c_history c) peer) ms1
      in c\<lparr>c_messages := ms2\<rparr>)"

definition setActivePeer :: "world \<Rightarrow> int \<Rightarrow> ChatClient \<Rightarrow> qstring \<Rightarrow> ChatClient" where
  "setActivePeer W now c peer =
     (if c_activePeer c = peer then c
      else
        (let c1 = c\<lparr>c_activePeer := peer\<rparr>
         in if peer = [] then c1\<lparr>c_messages := fst (msg_clear (w_fmt W) (c_messages c1))\<rparr>
            else
              (let c2 = (case c_peerKeys c1 peer of
                           Some k \<Rightarrow> c1\<lparr>c_crypto := fst (ensureSharedKey (w_ext W) (c_crypto c1) peer k)\<rparr>
                         | None \<Rightarrow> requestKeyFor c1 peer);
                   c3 = c2\<lparr>c_users := fst (clearUnread (c_users c2) peer)\<rparr>
               in loadConversation W now c3 peer)))"

section \<open>The verification gate\<close>

definition hasUnverifiedKeyChange :: "ChatClient \<Rightarrow> qstring \<Rightarrow> bool" where
  "hasUnverifiedKeyChange c peer \<longleftrightarrow> peer \<in> c_unverifiedKeyChange c"

definition conversationBlocked :: "ChatClient \<Rightarrow> qstring \<Rightarrow> bool" where
  "conversationBlocked c peer \<longleftrightarrow> peer \<in> c_unverifiedKeyChange c \<or> peer \<in> c_pendingBilateral c"

definition awaitingPeerVerification :: "ChatClient \<Rightarrow> qstring \<Rightarrow> bool" where
  "awaitingPeerVerification c peer \<longleftrightarrow> peer \<in> c_pendingBilateral c \<and> peer \<notin> c_unverifiedKeyChange c"

definition safetyNumberWith :: "world \<Rightarrow> ChatClient \<Rightarrow> qstring \<Rightarrow> qstring" where
  "safetyNumberWith W c peer =
     (case c_peerKeys c peer of None \<Rightarrow> [] | Some k \<Rightarrow> safetyNumber (w_ext W) (publicKeyHex (c_crypto c)) k)"

section \<open>Deleting, reacting, typing\<close>

definition deleteForMe :: "world \<Rightarrow> ChatClient \<Rightarrow> qstring \<Rightarrow> ChatClient" where
  "deleteForMe W c mid =
     (if mid = [] then c
      else c\<lparr>c_messages := fst (fst (markDeletedByMid (w_fmt W) (c_messages c) mid)),
             c_history := fst (markDeleted (c_history c) mid)\<rparr>)"

definition deleteForEveryone :: "world \<Rightarrow> int \<Rightarrow> ChatClient \<Rightarrow> qstring \<Rightarrow> ChatClient" where
  "deleteForEveryone W now c mid =
     (if mid = [] then c
      else
        (let row = indexOfMid (c_messages c) mid
         in if row < 0 then c\<lparr>c_history := fst (markDeleted (c_history c) mid)\<rparr>
            else if \<not> isMineAt (c_messages c) row then deleteForMe W c mid
            else sendFrame
                   (c\<lparr>c_messages := fst (fst (markDeletedByMid (w_fmt W) (c_messages c) mid)),
                      c_history := fst (markDeleted (c_history c) mid)\<rparr>)
                   (Delete (c_nick c) (c_activePeer c) mid now)))"

definition sendReaction :: "world \<Rightarrow> int \<Rightarrow> ChatClient \<Rightarrow> qstring \<Rightarrow> qstring \<Rightarrow> ChatClient" where
  "sendReaction W now c mid kind =
     (if mid = [] then c
      else
        (let k = (if kind = ''up'' \<or> kind = ''down'' then kind else [])
         in sendFrame
              (c\<lparr>c_messages := fst (fst (applyReaction (w_fmt W) (c_messages c) mid True k)),
                 c_history := fst (setReaction (c_history c) (c_activePeer c) mid ''me'' k)\<rparr>)
              (Reaction (c_nick c) (c_activePeer c) mid k now)))"

definition sendTypingState :: "ChatClient \<Rightarrow> qstring \<Rightarrow> qstring \<Rightarrow> ChatClient" where
  "sendTypingState c peer state =
     (if peer = [] then c
      else if state = c_lastTypingStateSent c \<and> peer = c_typingPeer c then c
      else sendFrame (c\<lparr>c_lastTypingStateSent := state, c_typingPeer := peer\<rparr>) (Typing (c_nick c) peer state))"

text \<open>The timer that \<open>notifyTyping\<close> arms only calls \<open>sendTypingState\<close> later.\<close>

definition notifyTyping :: "ChatClient \<Rightarrow> bool \<Rightarrow> ChatClient" where
  "notifyTyping c sendingFile =
     (if c_activePeer c = [] \<or> \<not> c_connected c then c
      else sendTypingState (c\<lparr>c_typingPeer := c_activePeer c\<rparr>) (c_activePeer c)
             (if sendingFile then ''sending_file'' else ''typing''))"

definition setPeerTyping :: "ChatClient \<Rightarrow> qstring \<Rightarrow> qstring \<Rightarrow> ChatClient" where
  "setPeerTyping c peer state =
     (if peer = [] then c
      else c\<lparr>c_peerTyping := (c_peerTyping c)(peer := (if state \<noteq> ''idle'' \<and> state \<noteq> [] then Some state else None))\<rparr>)"

section \<open>Sessions across a restart\<close>

text \<open>What restoring the session of a peer reads and writes.\<close>

definition peerView :: "ChatClient \<Rightarrow> qstring \<Rightarrow>
    bool \<times> bytes \<times> bytes option \<times> RatchetSession option \<times> SessionRow option \<times> int option" where
  "peerView c p = (m_ready (c_history c), m_publicKey (c_crypto c), m_peerIdentity (c_crypto c) p,
     m_sessions (c_crypto c) p, sessionRow (c_history c) p, c_sentSinceRatchet c p)"

lemma sessionRow_cleared:
  "m_ready h \<Longrightarrow> sessionRow (fst (clearSession h p)) q = (if q = p then None else sessionRow h q)"
proof -
  have "find (\<lambda>r. ses_peer r = q) (filter (\<lambda>r. ses_peer r \<noteq> p) rs) =
      (if q = p then None else find (\<lambda>r. ses_peer r = q) rs)" for rs
    by (induction rs) auto
  note this [of "db_sessions (db h)"]
  moreover assume "m_ready h"
  ultimately show ?thesis by (simp add: sessionRow_def clearSession_def Let_def)
qed

lemma clearSession_ready [simp]: "m_ready (fst (clearSession h p)) = m_ready h"
  by (simp add: clearSession_def Let_def)

lemma setPeerIdentity_frames [simp]:
  "m_publicKey (fst (setPeerIdentity E b p k)) = m_publicKey b"
  "m_sessions (fst (setPeerIdentity E b p k)) = m_sessions b"
  "q \<noteq> p \<Longrightarrow> m_peerIdentity (fst (setPeerIdentity E b p k)) q = m_peerIdentity b q"
  by (simp_all add: setPeerIdentity_def Let_def)

lemma importSession_cases:
  "importSession b p blob = (b, False) \<or>
   (\<exists>s. importSession b p blob = (b\<lparr>m_sessions := (m_sessions b)(p \<mapsto> s)\<rparr>, True))"
proof (cases "blob = [] \<or> parseSessionBlob blob = None")
  case True
  then show ?thesis by (auto simp: importSession_def)
next
  case False
  then obtain mine stamp s where parsed: "blob \<noteq> []" "parseSessionBlob blob = Some (mine, stamp, s)"
    by (metis not_None_eq prod_cases3)
  let ?cur = "case m_peerIdentity b p of None \<Rightarrow> [] | Some k \<Rightarrow> k"
  have "importSession b p blob =
      (if mine = m_publicKey b \<and> ?cur \<noteq> [] \<and> stamp = ?cur
       then (b\<lparr>m_sessions := (m_sessions b)(p \<mapsto> s)\<rparr>, True) else (b, False))"
    using parsed by (simp add: importSession_def Let_def)
  then show ?thesis by (metis (no_types))
qed

lemma importSession_frames [simp]:
  "m_publicKey (fst (importSession b p blob)) = m_publicKey b"
  "m_peerIdentity (fst (importSession b p blob)) = m_peerIdentity b"
  "q \<noteq> p \<Longrightarrow> m_sessions (fst (importSession b p blob)) q = m_sessions b q"
  using importSession_cases [of b p blob] by auto

lemma importPeer_frames [simp]:
  "m_publicKey (fst (importPeer E b h p)) = m_publicKey b"
  "q \<noteq> p \<Longrightarrow> m_peerIdentity (fst (importPeer E b h p)) q = m_peerIdentity b q"
  "q \<noteq> p \<Longrightarrow> m_sessions (fst (importPeer E b h p)) q = m_sessions b q"
  by (simp_all add: importPeer_def Let_def)

lemma resumeCount_other [simp]: "q \<noteq> p \<Longrightarrow> resumeCount h m p q = m q"
  by (simp add: resumeCount_def Let_def)

lemma clearSession_other: "q \<noteq> p \<Longrightarrow> sessionRow (fst (clearSession h p)) q = sessionRow h q"
  by (cases "m_ready h") (simp_all add: sessionRow_cleared, simp add: clearSession_def)

lemma peerView_other:
  "p \<noteq> q \<Longrightarrow> peerView (restoreSession W c p) q = peerView c q"
  by (simp add: restoreSession_def peerView_def clearSession_other case_prod_beta)

lemma peerView_others:
  "p \<notin> set ps \<Longrightarrow> peerView (fold (\<lambda>q c. restoreSession W c q) ps c) p = peerView c p"
  by (induction ps arbitrary: c) (auto simp: peerView_other)

lemma restore_saved:
  assumes laws: "hash_order_law (w_ext W)" "hex_law (w_ext W)"
    and s: "m_sessions b peer = Some s" "session_ok s"
    and stamp: "qba_ok (m_publicKey b)" "m_peerIdentity b peer = Some pid" "length pid = 32"
    and row: "m_ready (c_history d)" "sessionRow (c_history d) peer = Some r"
      "ses_blob r = exportSession (w_ext W) b peer" "ses_peerId r = peerIdentityHex b peer"
  shows "if m_publicKey (c_crypto d) = m_publicKey b
    then \<exists>s'. m_sessions (c_crypto (restoreSession W d peer)) peer = Some s' \<and>
      s'\<lparr>skipped := []\<rparr> = s\<lparr>skipped := []\<rparr> \<and> map_of (skipped s') = map_of (skipped s) \<and>
      valueOr 0 (c_sentSinceRatchet (restoreSession W d peer)) peer =
        (if 0 < ses_sentSince r then max (valueOr 0 (c_sentSinceRatchet d) peer) (ses_sentSince r)
         else valueOr 0 (c_sentSinceRatchet d) peer)
    else m_sessions (c_crypto (restoreSession W d peer)) peer = m_sessions (c_crypto d) peer \<and>
      sessionRow (c_history (restoreSession W d peer)) peer = None"
proof -
  define b0 where "b0 = (c_crypto d)\<lparr>m_peerIdentity := (m_peerIdentity (c_crypto d))(peer \<mapsto> pid)\<rparr>"
  have "peerIdentityHex b peer = toHex pid" using stamp(2) by (simp add: peerIdentityHex_def)
  moreover have "toHex pid \<noteq> []" using stamp(3) by (cases pid) (auto simp: toHex_def)
  ultimately have imp: "importPeer (w_ext W) (c_crypto d) (c_history d) peer =
      importSession b0 peer (exportSession (w_ext W) b peer)"
    using row laws(2) stamp(3)
    by (simp add: importPeer_def loadPeerIdentity_def loadSession_def setPeerIdentity_def hex_law_def b0_def)
  have pid: "qba_ok pid" "pid \<noteq> []" using stamp(3) by (auto simp: qba_ok_def)
  note round = import_exported [OF laws(1) s stamp(1,2) pid, of b0]
  show ?thesis
  proof (cases "m_publicKey (c_crypto d) = m_publicKey b")
    case True
    with round imp obtain s' where s': "importPeer (w_ext W) (c_crypto d) (c_history d) peer =
        (b0\<lparr>m_sessions := (m_sessions b0)(peer \<mapsto> s')\<rparr>, True)"
        "s'\<lparr>skipped := []\<rparr> = s\<lparr>skipped := []\<rparr>" "map_of (skipped s') = map_of (skipped s)"
      by (auto simp: b0_def)
    then show ?thesis
      using True row(1,2) by (simp add: restoreSession_def resumeCount_def loadSentSince_def Let_def)
  next
    case False
    with round imp have "importPeer (w_ext W) (c_crypto d) (c_history d) peer = (b0, False)"
      by (auto simp: b0_def)
    with False show ?thesis using row(1) by (simp add: restoreSession_def sessionRow_cleared b0_def)
  qed
qed

lemma persistSession_row:
  assumes "m_ready (c_history c)" "m_sessions (c_crypto c) peer = Some s"
  shows "sessionRow (c_history (persistSession W now c peer)) peer =
    Some \<lparr>ses_peer = peer, ses_blob = exportSession (w_ext W) (c_crypto c) peer,
      ses_peerId = peerIdentityHex (c_crypto c) peer, ses_updated = now,
      ses_sentSince = valueOr 0 (c_sentSinceRatchet c) peer\<rparr>"
    "m_ready (c_history (persistSession W now c peer))"
    "peer \<in> set (sessionPeers (c_history (persistSession W now c peer)))"
    "db_ok (db (c_history c)) \<Longrightarrow> distinct (sessionPeers (c_history (persistSession W now c peer)))"
proof -
  have "exportSession (w_ext W) (c_crypto c) peer \<noteq> []" using assms(2) by (simp add: exportSession_def)
  with assms(1) show "sessionRow (c_history (persistSession W now c peer)) peer =
    Some \<lparr>ses_peer = peer, ses_blob = exportSession (w_ext W) (c_crypto c) peer,
      ses_peerId = peerIdentityHex (c_crypto c) peer, ses_updated = now,
      ses_sentSince = valueOr 0 (c_sentSinceRatchet c) peer\<rparr>"
    "m_ready (c_history (persistSession W now c peer))"
    "peer \<in> set (sessionPeers (c_history (persistSession W now c peer)))"
    "db_ok (db (c_history c)) \<Longrightarrow> distinct (sessionPeers (c_history (persistSession W now c peer)))"
    by (simp_all add: persistSession_def sessionRow_saved)
      (auto simp: saveSession_def sessionPeers_def db_ok_def Let_def distinct_map_filter)
qed

text \<open>C12 (roundtrip). A session persisted after it advanced is resumed by the next start of the client, with
  the same keys, counters and skipped keys and with its count of unanswered messages, whatever other
  sessions are restored before and after it. A client whose own identity has changed resumes nothing
  for the peer and removes the stored session.\<close>

theorem restart_resumes_session:
  assumes laws: "hash_order_law (w_ext W)" "hex_law (w_ext W)"
    and c: "m_ready (c_history c)" "db_ok (db (c_history c))" "m_sessions (c_crypto c) peer = Some s" "session_ok s"
      "qba_ok (m_publicKey (c_crypto c))" "m_peerIdentity (c_crypto c) peer = Some pid" "length pid = 32"
    and d: "c_history d = c_history (persistSession W now c peer)" "m_sessions (c_crypto d) peer = None"
      "c_sentSinceRatchet d = Map.empty"
  shows "if m_publicKey (c_crypto d) = m_publicKey (c_crypto c)
    then \<exists>s'. m_sessions (c_crypto (restoreAllSessions W d)) peer = Some s' \<and>
      s'\<lparr>skipped := []\<rparr> = s\<lparr>skipped := []\<rparr> \<and> map_of (skipped s') = map_of (skipped s) \<and>
      valueOr 0 (c_sentSinceRatchet (restoreAllSessions W d)) peer = max 0 (valueOr 0 (c_sentSinceRatchet c) peer)
    else m_sessions (c_crypto (restoreAllSessions W d)) peer = None \<and>
      loadSession (c_history (restoreAllSessions W d)) peer = []"
proof -
  note row = persistSession_row [OF c(1,3), of W now, folded d(1)]
  obtain us vs where split: "sessionPeers (c_history d) = us @ peer # vs" "peer \<notin> set us" "peer \<notin> set vs"
    using row(3) row(4) [OF c(2)] by (auto dest: split_list)
  define e where "e = fold (\<lambda>q c. restoreSession W c q) us d"
  have e: "peerView e peer = peerView d peer" unfolding e_def by (rule peerView_others [OF split(2)])
  have "restoreAllSessions W d = fold (\<lambda>q c. restoreSession W c q) vs (restoreSession W e peer)"
    using row(2) split(1) by (simp add: restoreAllSessions_def e_def)
  with peerView_others [OF split(3)]
  have after: "peerView (restoreAllSessions W d) peer = peerView (restoreSession W e peer) peer" by simp
  from e have e': "m_ready (c_history e)" "m_publicKey (c_crypto e) = m_publicKey (c_crypto d)"
      "m_sessions (c_crypto e) peer = None" "c_sentSinceRatchet e peer = None"
      "sessionRow (c_history e) peer = sessionRow (c_history d) peer"
    using row(2) d(2,3) by (simp_all add: peerView_def)
  from restore_saved [OF laws c(3-7) e'(1), unfolded e'(5), OF row(1)] e'(2-4) after
  show ?thesis by (simp add: peerView_def valueOr_def loadSession_def max_def split: if_splits)
qed

definition demoWorld :: world where
  "demoWorld = \<lparr>w_ext = demo, w_rnd = (\<lambda>i n. replicate n (of_nat (i + 4))), w_uuid = (\<lambda>i. replicate i CHR ''u'' @ ''id''),
     w_fmt = (\<lambda>_. []), w_order = text_order_demo, w_values = sorted_list_of_set, w_today = (\<lambda>_. []),
     w_cannotDecrypt = ''?'', w_readFile = (\<lambda>_. None), w_exists = (\<lambda>_. False), w_fileName = id, w_mime = id, w_trimmed = id,
     w_appData = ''/data'', w_appLocalData = ''/local'', w_appConfig = ''/config'', w_genericData = ''/share'',
     w_canWrite = (\<lambda>_. True), w_dirOf = (\<lambda>_. ''/data''), w_isLetterOrNumber = (\<lambda>_. True), w_sameIgnoringCase = (=),
     w_urlHost = id, w_isWss = (\<lambda>_. True), w_address = (\<lambda>_. None), w_isLoopback = (\<lambda>_. False), w_isLinkLocal = (\<lambda>_. False), w_caCertificates = [], w_embeddedCa = Some [1], w_certificates = (\<lambda>b. [b]),
     w_tlsSession = id, w_date = (\<lambda>f s. if f = ''yyyy-MM-dd'' \<and> s = ''1999-05-03'' then Some (1999, 5, 3) else None),
     w_isoDate = (\<lambda>_. ''1999-05-03''), w_t = id, w_arg = (\<lambda>t xs. concat (t # xs)), w_stamp = (\<lambda>_. ''now''), w_dec = (\<lambda>_. ''n''),
     w_oneDecimal = (\<lambda>_ _. ''n''), w_lower = id, w_localFile = id, w_newline = [CHR 0x0A], w_pdf = (\<lambda>_. None), w_android = False, w_canAuthenticate = False,
     w_windows = \<lparr>wi_combase = True, wi_string = True, wi_checkAvailability = None, wi_requestVerification = None,
       wi_requestForWindow = Some (Some \<lparr>ao_info = True, ao_status = (\<lambda>n. Some (if n < 3 then 0 else 1)), ao_results = Some 0\<rparr>),
       wi_crypt32 = True, wi_protect = Some, wi_unprotect = Some\<rparr>\<rparr>"

lemma demoWorld_ext [simp]: "w_ext demoWorld = demo" by (simp add: demoWorld_def)

definition newClient :: "CryptoBox \<Rightarrow> HistoryStore \<Rightarrow> ChatClient" where
  "newClient b h = \<lparr>c_nick = [], c_activePeer = [], c_connected = False, c_sent = [], c_draws = 0, c_uuids = 0,
     c_crypto = b, c_history = h, c_messages = [], c_users = newUserModel, c_peerKeys = Map.empty,
     c_seenFrames = {}, c_pendingFrames = (\<lambda>_. []), c_rebootstrapAdopted = Map.empty,
     c_pendingX3dhHeader = Map.empty, c_peerEdKeys = Map.empty, c_relayServesUntaggedEd = False, c_unverifiedKeyChange = {}, c_pendingBilateral = {}, c_peerVerified = {},
     c_verifyAckResend = {}, c_peerVerifiedForIdentity = Map.empty, c_verifiedPeerIdentity = Map.empty,
     c_lastVerifyResyncMs = Map.empty, c_outbox = [], c_flushInProgress = False, c_sentSinceRatchet = Map.empty,
     c_rekeyOutstanding = {}, c_rekeyPingSentAt = Map.empty, c_rekeyPingResends = Map.empty, c_pongOwed = {},
     c_healPending = {}, c_rekeyKickTries = 0, c_kickActive = False, c_incoming = Map.empty,
     c_receivedFilePaths = Map.empty, c_sentFileSources = Map.empty, c_lastTypingStateSent = [],
     c_typingPeer = [], c_peerTyping = Map.empty, c_files = Map.empty, c_account = newAccount\<rparr>"

definition demoClient :: ChatClient where
  "demoClient = (newClient demoPeerA demoStore)\<lparr>c_nick := ''alice''\<rparr>"

lemma demoTurnR_ok: "session_ok demoTurnR"
  by (simp add: session_ok_def demoTurnR_def newRatchetSession_def qba_ok_def store_ok_def hash_ok_def)
    (simp add: demo_def)

theorem restart_resumes_session_witness:
  "\<exists>s'. m_sessions (c_crypto (restoreAllSessions demoWorld (demoClient\<lparr>c_history :=
       c_history (persistSession demoWorld 5 (demoClient\<lparr>c_crypto := demoPeerA\<lparr>m_sessions := [''bob'' \<mapsto> demoTurnR]\<rparr>\<rparr>) ''bob'')\<rparr>)))
       ''bob'' = Some s' \<and> RK s' = replicate 32 8"
proof -
  let ?c = "demoClient\<lparr>c_crypto := demoPeerA\<lparr>m_sessions := [''bob'' \<mapsto> demoTurnR]\<rparr>\<rparr>"
  let ?d = "demoClient\<lparr>c_history := c_history (persistSession demoWorld 5 ?c ''bob'')\<rparr>"
  have "m_ready (c_history ?c)" "db_ok (db (c_history ?c))" "m_sessions (c_crypto ?c) ''bob'' = Some demoTurnR"
    using demoStore_facts by (simp_all add: demoClient_def newClient_def)
  moreover have "qba_ok (m_publicKey (c_crypto ?c))"
    "m_peerIdentity (c_crypto ?c) ''bob'' = Some (scalarmult_base demo (replicate 32 3))"
    "length (scalarmult_base demo (replicate 32 3)) = 32"
    by (simp_all add: demoPeerA_def qba_ok_def) (simp_all add: demo_def)
  moreover have "m_sessions (c_crypto ?d) ''bob'' = None" "c_sentSinceRatchet ?d = Map.empty"
    "m_publicKey (c_crypto ?d) = m_publicKey (c_crypto ?c)"
    by (simp_all add: demoClient_def newClient_def demoPeerA_def newCryptoBox_def)
  moreover have "hash_order_law (w_ext demoWorld)" "hex_law (w_ext demoWorld)" by (simp_all add: demo_laws)
  moreover have "c_history ?d = c_history (persistSession demoWorld 5 ?c ''bob'')" by simp
  ultimately obtain s' where s': "m_sessions (c_crypto (restoreAllSessions demoWorld ?d)) ''bob'' = Some s'"
      "s'\<lparr>skipped := []\<rparr> = demoTurnR\<lparr>skipped := []\<rparr>"
    using restart_resumes_session [of demoWorld ?c "''bob''" demoTurnR "scalarmult_base demo (replicate 32 3)" ?d 5]
      demoTurnR_ok by auto
  from arg_cong [OF s'(2), of RK] have "RK s' = replicate 32 8" by (simp add: demoTurnR_def)
  with s'(1) show ?thesis by blast
qed

section \<open>Reopening a conversation\<close>

text \<open>The row that a stored row is replayed into, up to reactions and the edit marker.\<close>

definition shownRow :: "world \<Rightarrow> int \<Rightarrow> CryptoBox \<Rightarrow> StoredRow \<Rightarrow> Message" where
  "shownRow W now b r =
     (if sr_system r then newMessage\<lparr>row_text := sr_systemText r, row_ts := now, row_system := True\<rparr>
      else if sr_isFile r then
        newMessage\<lparr>row_sender := sr_sender r, row_ts := (if 0 < sr_ts r then sr_ts r else now), row_mine := sr_mine r,
          row_isFile := True, row_msgId := sr_msgId r, row_filename := sr_filename r, row_mime := sr_mime r,
          row_size := sr_size r, row_localPath := sr_localPath r\<rparr>
      else
        (case localOpen (w_ext W) b (sr_nonceHex r) (sr_ctHex r) of
           Some (x # xs) \<Rightarrow> newMessage\<lparr>row_sender := sr_sender r, row_text := x # xs, row_ts := sr_ts r,
             row_mine := sr_mine r, row_mid := sr_mid r\<rparr>
         | _ \<Rightarrow> newMessage\<lparr>row_text := w_cannotDecrypt W, row_ts := now, row_system := True\<rparr>))"

definition plainMsg :: "Message \<Rightarrow> Message" where
  "plainMsg m = m\<lparr>row_myReaction := [], row_peerReaction := [], row_edited := False\<rparr>"

lemma plain_update:
  assumes "plainMsg m = plainMsg (ms ! i)"
  shows "map plainMsg (ms[i := m]) = map plainMsg ms"
  using assms by (cases "i < length ms") (simp_all add: map_update list_update_same_conv, simp add: list_update_beyond)

lemma markEdited_plain: "map plainMsg (fst (fst (markEditedByMid F ms mid))) = map plainMsg ms"
  by (simp add: markEditedByMid_def Let_def updateRow_def plain_update plainMsg_def)

lemma reaction_plain: "map plainMsg (fst (fst (applyReaction F ms mid mine kind))) = map plainMsg ms"
  by (simp add: applyReaction_def Let_def updateRow_def plain_update plainMsg_def)

lemma replay_plain:
  "map plainMsg (replayRow W now b r ms) = map plainMsg ms @ [shownRow W now b r]"
  by (simp add: replayRow_def shownRow_def addSystem_def addMessage_def appendFileMessage_def appendRow_def
      plainMsg_def newMessage_def markEdited_plain Let_def
      split: option.split list.split)

lemma replay_all: "map plainMsg (fold (replayRow W now b) rs ms) = map plainMsg ms @ map (shownRow W now b) rs"
  by (induction rs arbitrary: ms) (simp_all add: replay_plain)

lemma reactions_plain:
  "map plainMsg (fold (\<lambda>r ms. fst (fst (applyReaction F ms (rx_mid r) (rx_who r = ''me'') (rx_kind r)))) rs ms) =
     map plainMsg ms"
  by (induction rs arbitrary: ms) (simp_all add: reaction_plain)

lemma conversation_rebuilt:
  "map plainMsg (c_messages (loadConversation W now c peer)) =
     map (shownRow W now (c_crypto c)) (rowsForPeer (c_history c) peer 500)"
  by (simp add: loadConversation_def reactions_plain replay_all msg_clear_def)

lemma shownRow_not_deleted [simp]: "row_deleted (shownRow W now b r) = False"
  by (simp add: shownRow_def newMessage_def split: option.split list.split)

lemma seal_opens:
  assumes "aead_law E" "hex_law E" "text_law E" "localSeal E nonce b pt = Some (n, ct)"
  shows "localOpen E b n ct = Some pt"
  using assms by (auto simp: localSeal_def localOpen_def aead_law_def hex_law_def text_law_def split: if_splits)

lemma db_ok_markDeleted:
  assumes "db_ok (db h)"
  shows "db_ok (db (fst (markDeleted h mid)))"
proof -
  have "h_id \<circ> (\<lambda>r. if h_msgId r = Some mid then r\<lparr>h_deleted := True\<rparr> else r) = (h_id :: HistoryRow \<Rightarrow> nat)"
    by (simp add: fun_eq_iff)
  with assms show ?thesis by (auto simp: markDeleted_def Let_def db_ok_def)
qed

text \<open>A deleted message returns: once a text message was deleted, its row on screen is a
  tombstone, but opening the conversation again (with fewer than 500 rows stored) shows the message
  with its text, because the replay never looks at the deletion flag of the stored row. No row of a
  reopened conversation is a tombstone.\<close>

theorem deleted_message_returns:
  assumes laws: "aead_law (w_ext W)" "hex_law (w_ext W)" "text_law (w_ext W)"
    and h: "m_ready (c_history c)" "db_ok (db (c_history c))"
      "length (filter (\<lambda>r. h_peer r = peer) (db_history (db (c_history c)))) < 500"
    and msg: "mid \<noteq> []" "pt \<noteq> []" "localSeal (w_ext W) nonce (c_crypto c) pt = Some (n, ct)"
    and c1: "c1 = c\<lparr>c_history := fst (addTextRow (c_history c) peer sender n ct ts mine mid)\<rparr>"
  shows "(\<exists>m \<in> set (c_messages (loadConversation W now (deleteForMe W c1 mid) peer)).
      row_mid m = mid \<and> row_text m = pt \<and> row_sender m = sender \<and> row_mine m = mine) \<and>
    (\<forall>m \<in> set (c_messages (loadConversation W now (deleteForMe W c1 mid) peer)). \<not> row_deleted m) \<and>
    (\<exists>r \<in> set (rowsForPeer (c_history (deleteForMe W c1 mid)) peer 500). sr_mid r = mid \<and> sr_deleted r)"
proof -
  let ?d = "deleteForMe W c1 mid"
  let ?del = "\<lambda>r. if h_msgId r = Some mid then r\<lparr>h_deleted := True\<rparr> else r"
  define row where "row = emptyRow\<lparr>h_peer := peer, h_kind := ''text'', h_sender := sender, h_ts := ts, h_mine := mine,
     h_nonce := n, h_ct := ct, h_msgId := Some mid, h_id := Suc (db_historySeq (db (c_history c)))\<rparr>"
  have hist: "c_history ?d = fst (markDeleted (setDb (c_history c) (insertHistory (db (c_history c)) row)) mid)"
    using h(1) msg(1) by (simp add: deleteForMe_def c1 addTextRow_def row_def insertHistory_def)
  have rows: "db_history (db (c_history ?d)) = map ?del (db_history (db (c_history c)) @ [row])"
    unfolding hist using h(1) msg(1)
    by (subst markDeleted_rows) (simp_all add: insertHistory_def row_def)
  have ok: "m_ready (c_history ?d)" "db_ok (db (c_history ?d))"
    unfolding hist using h(1) by (simp add: markDeleted_def Let_def)
      (rule db_ok_markDeleted, simp add: db_ok_insertHistory [OF h(2)])
  have "take 500 (filter (\<lambda>r. h_peer r = peer) (db_history (db (c_history ?d)))) =
      map ?del (filter (\<lambda>r. h_peer r = peer) (db_history (db (c_history c)))) @ [row\<lparr>h_deleted := True\<rparr>]"
    using h(3) by (simp add: rows filter_map o_def if_distrib row_def emptyRow_def cong: if_cong)
  then have stored: "readRow peer (row\<lparr>h_deleted := True\<rparr>) \<in> set (rowsForPeer (c_history ?d) peer 500)"
    unfolding rowsForPeer_ok [OF ok] by simp
  let ?s = "readRow peer (row\<lparr>h_deleted := True\<rparr>)"
  have s: "sr_mid ?s = mid" "sr_deleted ?s" "\<not> sr_system ?s" "\<not> sr_isFile ?s" "sr_nonceHex ?s = n" "sr_ctHex ?s = ct"
      "sr_sender ?s = sender" "sr_mine ?s = mine"
    by (simp_all add: readRow_def row_def emptyRow_def)
  note shown = conversation_rebuilt [of W now ?d peer]
  have "c_crypto ?d = c_crypto c" by (simp add: deleteForMe_def c1)
  moreover obtain x xs where "pt = x # xs" using msg(2) by (cases pt) auto
  ultimately have "row_mid (shownRow W now (c_crypto ?d) ?s) = mid \<and>
      row_text (shownRow W now (c_crypto ?d) ?s) = pt \<and> row_sender (shownRow W now (c_crypto ?d) ?s) = sender \<and>
      row_mine (shownRow W now (c_crypto ?d) ?s) = mine"
    using seal_opens [OF laws msg(3)] s by (simp add: shownRow_def newMessage_def)
  moreover have "shownRow W now (c_crypto ?d) ?s \<in> plainMsg ` set (c_messages (loadConversation W now ?d peer))"
    unfolding set_map [symmetric] shown using stored by simp
  ultimately have "\<exists>m \<in> set (c_messages (loadConversation W now ?d peer)).
      row_mid m = mid \<and> row_text m = pt \<and> row_sender m = sender \<and> row_mine m = mine"
    by (auto simp: plainMsg_def)
  moreover have "\<not> row_deleted m" if "m \<in> set (c_messages (loadConversation W now ?d peer))" for m
  proof -
    have "plainMsg m \<in> set (map (shownRow W now (c_crypto ?d)) (rowsForPeer (c_history ?d) peer 500))"
      unfolding shown [symmetric] using that by simp
    then show ?thesis by (auto simp: plainMsg_def dest: arg_cong [of _ _ row_deleted])
  qed
  ultimately show ?thesis using stored s(1,2) by blast
qed

theorem deleted_message_returns_witness:
  "\<exists>m \<in> set (c_messages (loadConversation demoWorld 9 (deleteForMe demoWorld
      (demoClient\<lparr>c_history := fst (addTextRow demoStore ''bob'' ''alice'' (fst (the (localSeal demo [1] demoPeerA ''hi'')))
         (snd (the (localSeal demo [1] demoPeerA ''hi''))) 3 True ''m'')\<rparr>) ''m'') ''bob'')).
     row_mid m = ''m'' \<and> row_text m = ''hi''"
proof -
  obtain n ct where seal: "localSeal demo [1] demoPeerA ''hi'' = Some (n, ct)"
    by (simp add: localSeal_def demoPeerA_def)
  have "m_ready (c_history demoClient)" "db_ok (db (c_history demoClient))"
    "length (filter (\<lambda>r. h_peer r = ''bob'') (db_history (db (c_history demoClient)))) < 500"
    "localSeal (w_ext demoWorld) [1] (c_crypto demoClient) ''hi'' = Some (n, ct)"
    using demoStore_facts seal by (simp_all add: demoClient_def newClient_def)
  from deleted_message_returns [where mid = "''m''" and sender = "''alice''" and ts = 3 and mine = True and now = 9,
      OF _ _ _ this(1-3) _ _ this(4) refl]
  show ?thesis by (auto simp: demo_laws demo_text_law seal demoClient_def newClient_def)
qed

end
