(* ===== verification/Heartbeat.thy ===== *)
theory Heartbeat
  imports Client
begin

text \<open>
  The rekey heartbeat of \<open>ChatClient\<close> (\<^verbatim>\<open>client/src/chatclient.cpp\<close>, post-compromise security): after a
  run of unanswered messages, or when a session resumes, a ping is sent that the peer answers with a
  pong, so that both sides take a fresh ratchet step. Pings are re-sent while their pong is overdue, up
  to a budget; a pong that cannot be sent yet is owed. The retry timer is the flag \<open>c_kickActive\<close>; it is
  a one-shot timer, which is stopped when its handler \<open>kickRekey\<close> runs.

  The lemmas show that a ping only leaves for a peer that is online and whose conversation is open, that
  a debt of a pong is only discharged by a pong, the bookkeeping of pings in flight, and that neither an
  online peer that answers nothing nor an absent one ever ends the retries.
\<close>

section \<open>Constants and sentinels\<close>

definition kPcsRekeyAfterMessages :: int where "kPcsRekeyAfterMessages = 8"
definition kPcsRekeyKickMaxTries :: int where "kPcsRekeyKickMaxTries = 8"
definition kPcsRekeyPongTimeoutMs :: int where "kPcsRekeyPongTimeoutMs = 8000"
definition kPcsRekeyPingMaxResends :: int where "kPcsRekeyPingMaxResends = 5"

definition kRekeyPingSentinel :: qstring where "kRekeyPingSentinel = CHR 0x01 # ''__chate2ee_rekey_ping__''"
definition kRekeyPongSentinel :: qstring where "kRekeyPongSentinel = CHR 0x01 # ''__chate2ee_rekey_pong__''"

section \<open>Sending\<close>

definition newMsgFrame :: "ChatClient \<Rightarrow> qstring \<Rightarrow> wire \<Rightarrow> int \<Rightarrow> msg_frame" where
  "newMsgFrame c peer w ts = \<lparr>mf_from = c_nick c, mf_to = peer, mf_kind = [], mf_mid = [], mf_editOf = [],
     mf_ik = [], mf_wire = w, mf_ts = ts, mf_x3dh = None\<rparr>"

definition transmitRekey :: "world \<Rightarrow> int \<Rightarrow> ChatClient \<Rightarrow> qstring \<Rightarrow> bool \<Rightarrow> ChatClient \<times> bool" where
  "transmitRekey W now c peer isPong =
     (if \<not> isPong \<and> conversationBlocked c peer then (c, False)
      else if \<not> isPong \<and> \<not> isOnline (c_users c) peer then (c, False)
      else
        (case boxEncrypt W c peer (if isPong then kRekeyPongSentinel else kRekeyPingSentinel) of
           (c1, EncOk w) \<Rightarrow>
             (persistSession W now (sendFrame c1 (Msg ((newMsgFrame c1 peer w now)
                \<lparr>mf_kind := (if isPong then ''rekey-pong'' else ''rekey-ping'')\<rparr>))) peer, True)
         | (c1, _) \<Rightarrow> (c1, False)))"

definition markRekeyPingSent :: "int \<Rightarrow> ChatClient \<Rightarrow> qstring \<Rightarrow> ChatClient" where
  "markRekeyPingSent now c peer =
     (if peer = [] then c
      else c\<lparr>c_rekeyPingResends := (if peer \<in> c_rekeyOutstanding c then c_rekeyPingResends c
                                    else (c_rekeyPingResends c)(peer \<mapsto> 0)),
             c_rekeyOutstanding := insert peer (c_rekeyOutstanding c),
             c_rekeyPingSentAt := (c_rekeyPingSentAt c)(peer \<mapsto> now),
             c_kickActive := True\<rparr>)"

definition startKick :: "ChatClient \<Rightarrow> ChatClient" where
  "startKick c = c\<lparr>c_rekeyKickTries := 0, c_kickActive := True\<rparr>"

definition noteOutboundTo :: "world \<Rightarrow> int \<Rightarrow> ChatClient \<Rightarrow> qstring \<Rightarrow> ChatClient" where
  "noteOutboundTo W now c peer =
     (if peer = [] then c
      else
        (let count = valueOr 0 (c_sentSinceRatchet c) peer + 1;
             c1 = c\<lparr>c_sentSinceRatchet := (c_sentSinceRatchet c)(peer \<mapsto> count)\<rparr>
         in if kPcsRekeyAfterMessages \<le> count \<and> peer \<notin> c_rekeyOutstanding c1 \<and> c_connected c1 \<and>
               hasSessionFor (c_crypto c1) peer
            then (case transmitRekey W now c1 peer False of
                    (c2, True) \<Rightarrow> markRekeyPingSent now c2 peer
                  | (c2, False) \<Rightarrow> startKick c2)
            else c1))"

definition releasePing :: "ChatClient \<Rightarrow> qstring \<Rightarrow> ChatClient" where
  "releasePing c peer =
     c\<lparr>c_rekeyOutstanding := c_rekeyOutstanding c - {peer},
       c_rekeyPingSentAt := (c_rekeyPingSentAt c)(peer := None),
       c_rekeyPingResends := (c_rekeyPingResends c)(peer := None)\<rparr>"

definition noteInboundFrom :: "ChatClient \<Rightarrow> qstring \<Rightarrow> ChatClient" where
  "noteInboundFrom c peer =
     (if peer = [] then c
      else releasePing (c\<lparr>c_sentSinceRatchet := (c_sentSinceRatchet c)(peer \<mapsto> 0)\<rparr>) peer)"

definition resetPcsFor :: "ChatClient \<Rightarrow> qstring \<Rightarrow> ChatClient" where
  "resetPcsFor c peer =
     (if peer = [] then c
      else releasePing (c\<lparr>c_sentSinceRatchet := (c_sentSinceRatchet c)(peer := None)\<rparr>) peer)"

section \<open>The retry driver\<close>

definition kickOutstanding :: "world \<Rightarrow> int \<Rightarrow> qstring \<Rightarrow> ChatClient \<Rightarrow> ChatClient" where
  "kickOutstanding W now peer c =
     (let sentAt = valueOr 0 (c_rekeyPingSentAt c) peer
      in if sentAt = 0 \<or> now - sentAt < kPcsRekeyPongTimeoutMs then c
         else if kPcsRekeyPingMaxResends \<le> valueOr 0 (c_rekeyPingResends c) peer then releasePing c peer
         else if hasSessionFor (c_crypto c) peer then
           (case transmitRekey W now c peer False of
              (c1, True) \<Rightarrow> c1\<lparr>c_rekeyPingSentAt := (c_rekeyPingSentAt c1)(peer \<mapsto> now),
                 c_rekeyPingResends := (c_rekeyPingResends c1)(peer \<mapsto> valueOr 0 (c_rekeyPingResends c1) peer + 1)\<rparr>
            | (c1, False) \<Rightarrow> c1)
         else c)"

definition pingWanted :: "ChatClient \<Rightarrow> qstring \<Rightarrow> bool" where
  "pingWanted c peer \<longleftrightarrow> 0 < valueOr 0 (c_sentSinceRatchet c) peer \<and> peer \<notin> c_rekeyOutstanding c \<and>
     peer \<notin> c_unverifiedKeyChange c \<and> peer \<notin> c_pendingBilateral c \<and> hasSessionFor (c_crypto c) peer"

definition kickPing :: "world \<Rightarrow> int \<Rightarrow> qstring \<Rightarrow> ChatClient \<times> bool \<Rightarrow> ChatClient \<times> bool" where
  "kickPing W now peer = (\<lambda>(c, stillPending).
     if pingWanted c peer
     then (case transmitRekey W now c peer False of
             (c1, True) \<Rightarrow> (markRekeyPingSent now c1 peer, stillPending)
           | (c1, False) \<Rightarrow> (c1, True))
     else (c, stillPending))"

definition kickPong :: "world \<Rightarrow> int \<Rightarrow> qstring \<Rightarrow> ChatClient \<times> bool \<Rightarrow> ChatClient \<times> bool" where
  "kickPong W now peer = (\<lambda>(c, stillPending).
     if hasSessionFor (c_crypto c) peer
     then (case transmitRekey W now c peer True of
             (c1, True) \<Rightarrow> (c1\<lparr>c_pongOwed := c_pongOwed c1 - {peer}\<rparr>, stillPending)
           | (c1, False) \<Rightarrow> (c1, True))
     else (c, True))"

definition kickHeal :: "world \<Rightarrow> int \<Rightarrow> qstring \<Rightarrow> ChatClient \<times> bool \<Rightarrow> ChatClient \<times> bool" where
  "kickHeal W now peer = (\<lambda>(c, stillPending).
     if peer \<in> c_unverifiedKeyChange c \<or> peer \<in> c_pendingBilateral c \<or> peer \<in> c_rekeyOutstanding c
     then (c\<lparr>c_healPending := c_healPending c - {peer}\<rparr>, stillPending)
     else if hasSessionFor (c_crypto c) peer
     then (case transmitRekey W now c peer False of
             (c1, True) \<Rightarrow> (let c2 = markRekeyPingSent now c1 peer
                            in (c2\<lparr>c_healPending := c_healPending c2 - {peer}\<rparr>, stillPending))
           | (c1, False) \<Rightarrow> (c1, True))
     else (c, True))"

definition kickRearm :: "world \<Rightarrow> ChatClient \<times> bool \<Rightarrow> ChatClient" where
  "kickRearm W = (\<lambda>(c, stillPending).
     if (\<exists>peer \<in> set (w_values W (c_pongOwed c)). hasSessionFor (c_crypto c) peer) \<or> c_rekeyOutstanding c \<noteq> {}
     then startKick c
     else if stillPending \<and> c_rekeyKickTries c + 1 < kPcsRekeyKickMaxTries
     then c\<lparr>c_rekeyKickTries := c_rekeyKickTries c + 1, c_kickActive := True\<rparr>
     else c\<lparr>c_rekeyKickTries := 0\<rparr>)"

definition kickRekey :: "world \<Rightarrow> int \<Rightarrow> ChatClient \<Rightarrow> ChatClient" where
  "kickRekey W now c =
     (let c = c\<lparr>c_kickActive := False\<rparr>
      in if \<not> c_connected c then c
         else
           (let c0 = fold (kickOutstanding W now) (w_values W (c_rekeyOutstanding c)) c;
                s1 = fold (kickPing W now) (w_values W (dom (c_sentSinceRatchet c0))) (c0, False);
                s2 = fold (kickPong W now) (w_values W (c_pongOwed (fst s1))) s1;
                s3 = fold (kickHeal W now) (w_values W (c_healPending (fst s2))) s2
            in kickRearm W s3))"

section \<open>The other triggers\<close>

text \<open>The handler of the idle timer.\<close>

definition idlePing :: "world \<Rightarrow> int \<Rightarrow> qstring \<Rightarrow> ChatClient \<Rightarrow> ChatClient" where
  "idlePing W now peer c =
     (if pingWanted c peer
      then (case transmitRekey W now c peer False of
              (c1, True) \<Rightarrow> markRekeyPingSent now c1 peer
            | (c1, False) \<Rightarrow> startKick c1)
      else c)"

definition idleTick :: "world \<Rightarrow> int \<Rightarrow> ChatClient \<Rightarrow> ChatClient" where
  "idleTick W now c =
     (if \<not> c_connected c then c
      else (let c1 = fold (idlePing W now) (w_values W (dom (c_sentSinceRatchet c))) c
            in if c_pongOwed c1 \<noteq> {} then startKick c1 else c1))"

definition sendOwedPongIfReady :: "world \<Rightarrow> int \<Rightarrow> ChatClient \<Rightarrow> qstring \<Rightarrow> ChatClient" where
  "sendOwedPongIfReady W now c peer =
     (if peer = [] \<or> peer \<notin> c_pongOwed c then c
      else if c_connected c \<and> hasSessionFor (c_crypto c) peer
      then (case transmitRekey W now c peer True of
              (c1, True) \<Rightarrow> c1\<lparr>c_pongOwed := c_pongOwed c1 - {peer}\<rparr>
            | (c1, False) \<Rightarrow> c1)
      else c)"

definition healPeer :: "world \<Rightarrow> int \<Rightarrow> qstring \<Rightarrow> ChatClient \<Rightarrow> ChatClient" where
  "healPeer W now peer c =
     (if peer = [] \<or> \<not> hasSessionFor (c_crypto c) peer \<or> peer \<in> c_unverifiedKeyChange c \<or>
         peer \<in> c_pendingBilateral c \<or> peer \<in> c_rekeyOutstanding c then c
      else if \<not> c_connected c then c\<lparr>c_healPending := insert peer (c_healPending c)\<rparr>
      else (case transmitRekey W now c peer False of
              (c1, True) \<Rightarrow> (let c2 = markRekeyPingSent now c1 peer
                             in c2\<lparr>c_healPending := c_healPending c2 - {peer}\<rparr>)
            | (c1, False) \<Rightarrow> c1\<lparr>c_healPending := insert peer (c_healPending c1)\<rparr>))"

definition reestablishPcsForAll :: "world \<Rightarrow> int \<Rightarrow> ChatClient \<Rightarrow> ChatClient" where
  "reestablishPcsForAll W now c =
     (let c1 = fold (healPeer W now) (w_values W (dom (c_peerKeys c))) c
      in if c_healPending c1 \<noteq> {} then startKick c1 else c1)"

definition clearPcsState :: "ChatClient \<Rightarrow> ChatClient" where
  "clearPcsState c =
     c\<lparr>c_kickActive := False, c_sentSinceRatchet := Map.empty, c_rekeyOutstanding := {},
       c_rekeyPingSentAt := Map.empty, c_rekeyPingResends := Map.empty, c_pongOwed := {}, c_healPending := {},
       c_rekeyKickTries := 0, c_account := (c_account c)\<lparr>a_rekeyTimer := False\<rparr>\<rparr>"

definition forceRekey :: "world \<Rightarrow> int \<Rightarrow> ChatClient \<Rightarrow> qstring \<Rightarrow> ChatClient" where
  "forceRekey W now c peer =
     (if peer = [] \<or> \<not> c_connected c \<or> \<not> hasSessionFor (c_crypto c) peer then c
      else if peer \<in> c_rekeyOutstanding c then c
      else (case transmitRekey W now c peer False of
              (c1, True) \<Rightarrow> markRekeyPingSent now c1 peer
            | (c1, False) \<Rightarrow> c1))"

section \<open>What a transmission changes\<close>

lemma sendFrame_frame [simp]:
  "c_nick (sendFrame c f) = c_nick c"
  "c_activePeer (sendFrame c f) = c_activePeer c"
  "c_connected (sendFrame c f) = c_connected c"
  "c_draws (sendFrame c f) = c_draws c"
  "c_uuids (sendFrame c f) = c_uuids c"
  "c_crypto (sendFrame c f) = c_crypto c"
  "c_history (sendFrame c f) = c_history c"
  "c_messages (sendFrame c f) = c_messages c"
  "c_users (sendFrame c f) = c_users c"
  "c_peerKeys (sendFrame c f) = c_peerKeys c"
  "c_seenFrames (sendFrame c f) = c_seenFrames c"
  "c_pendingFrames (sendFrame c f) = c_pendingFrames c"
  "c_rebootstrapAdopted (sendFrame c f) = c_rebootstrapAdopted c"
  "c_pendingX3dhHeader (sendFrame c f) = c_pendingX3dhHeader c"
  "c_unverifiedKeyChange (sendFrame c f) = c_unverifiedKeyChange c"
  "c_pendingBilateral (sendFrame c f) = c_pendingBilateral c"
  "c_peerVerified (sendFrame c f) = c_peerVerified c"
  "c_verifyAckResend (sendFrame c f) = c_verifyAckResend c"
  "c_peerVerifiedForIdentity (sendFrame c f) = c_peerVerifiedForIdentity c"
  "c_verifiedPeerIdentity (sendFrame c f) = c_verifiedPeerIdentity c"
  "c_lastVerifyResyncMs (sendFrame c f) = c_lastVerifyResyncMs c"
  "c_outbox (sendFrame c f) = c_outbox c"
  "c_flushInProgress (sendFrame c f) = c_flushInProgress c"
  "c_sentSinceRatchet (sendFrame c f) = c_sentSinceRatchet c"
  "c_rekeyOutstanding (sendFrame c f) = c_rekeyOutstanding c"
  "c_rekeyPingSentAt (sendFrame c f) = c_rekeyPingSentAt c"
  "c_rekeyPingResends (sendFrame c f) = c_rekeyPingResends c"
  "c_pongOwed (sendFrame c f) = c_pongOwed c"
  "c_healPending (sendFrame c f) = c_healPending c"
  "c_rekeyKickTries (sendFrame c f) = c_rekeyKickTries c"
  "c_kickActive (sendFrame c f) = c_kickActive c"
  "c_incoming (sendFrame c f) = c_incoming c"
  "c_receivedFilePaths (sendFrame c f) = c_receivedFilePaths c"
  "c_sentFileSources (sendFrame c f) = c_sentFileSources c"
  "c_lastTypingStateSent (sendFrame c f) = c_lastTypingStateSent c"
  "c_typingPeer (sendFrame c f) = c_typingPeer c"
  "c_peerTyping (sendFrame c f) = c_peerTyping c"
  by (simp_all add: sendFrame_def)

lemma persistSession_frame [simp]:
  "c_nick (persistSession W now c peer) = c_nick c"
  "c_activePeer (persistSession W now c peer) = c_activePeer c"
  "c_connected (persistSession W now c peer) = c_connected c"
  "c_sent (persistSession W now c peer) = c_sent c"
  "c_draws (persistSession W now c peer) = c_draws c"
  "c_uuids (persistSession W now c peer) = c_uuids c"
  "c_crypto (persistSession W now c peer) = c_crypto c"
  "c_messages (persistSession W now c peer) = c_messages c"
  "c_users (persistSession W now c peer) = c_users c"
  "c_peerKeys (persistSession W now c peer) = c_peerKeys c"
  "c_seenFrames (persistSession W now c peer) = c_seenFrames c"
  "c_pendingFrames (persistSession W now c peer) = c_pendingFrames c"
  "c_rebootstrapAdopted (persistSession W now c peer) = c_rebootstrapAdopted c"
  "c_pendingX3dhHeader (persistSession W now c peer) = c_pendingX3dhHeader c"
  "c_unverifiedKeyChange (persistSession W now c peer) = c_unverifiedKeyChange c"
  "c_pendingBilateral (persistSession W now c peer) = c_pendingBilateral c"
  "c_peerVerified (persistSession W now c peer) = c_peerVerified c"
  "c_verifyAckResend (persistSession W now c peer) = c_verifyAckResend c"
  "c_peerVerifiedForIdentity (persistSession W now c peer) = c_peerVerifiedForIdentity c"
  "c_verifiedPeerIdentity (persistSession W now c peer) = c_verifiedPeerIdentity c"
  "c_lastVerifyResyncMs (persistSession W now c peer) = c_lastVerifyResyncMs c"
  "c_outbox (persistSession W now c peer) = c_outbox c"
  "c_flushInProgress (persistSession W now c peer) = c_flushInProgress c"
  "c_sentSinceRatchet (persistSession W now c peer) = c_sentSinceRatchet c"
  "c_rekeyOutstanding (persistSession W now c peer) = c_rekeyOutstanding c"
  "c_rekeyPingSentAt (persistSession W now c peer) = c_rekeyPingSentAt c"
  "c_rekeyPingResends (persistSession W now c peer) = c_rekeyPingResends c"
  "c_pongOwed (persistSession W now c peer) = c_pongOwed c"
  "c_healPending (persistSession W now c peer) = c_healPending c"
  "c_rekeyKickTries (persistSession W now c peer) = c_rekeyKickTries c"
  "c_kickActive (persistSession W now c peer) = c_kickActive c"
  "c_incoming (persistSession W now c peer) = c_incoming c"
  "c_receivedFilePaths (persistSession W now c peer) = c_receivedFilePaths c"
  "c_sentFileSources (persistSession W now c peer) = c_sentFileSources c"
  "c_lastTypingStateSent (persistSession W now c peer) = c_lastTypingStateSent c"
  "c_typingPeer (persistSession W now c peer) = c_typingPeer c"
  "c_peerTyping (persistSession W now c peer) = c_peerTyping c"
  by (simp_all add: persistSession_def)

lemma boxEncrypt_frame [simp]:
  "c_nick (fst (boxEncrypt W c peer pt)) = c_nick c"
  "c_activePeer (fst (boxEncrypt W c peer pt)) = c_activePeer c"
  "c_connected (fst (boxEncrypt W c peer pt)) = c_connected c"
  "c_sent (fst (boxEncrypt W c peer pt)) = c_sent c"
  "c_uuids (fst (boxEncrypt W c peer pt)) = c_uuids c"
  "c_history (fst (boxEncrypt W c peer pt)) = c_history c"
  "c_messages (fst (boxEncrypt W c peer pt)) = c_messages c"
  "c_users (fst (boxEncrypt W c peer pt)) = c_users c"
  "c_peerKeys (fst (boxEncrypt W c peer pt)) = c_peerKeys c"
  "c_seenFrames (fst (boxEncrypt W c peer pt)) = c_seenFrames c"
  "c_pendingFrames (fst (boxEncrypt W c peer pt)) = c_pendingFrames c"
  "c_rebootstrapAdopted (fst (boxEncrypt W c peer pt)) = c_rebootstrapAdopted c"
  "c_pendingX3dhHeader (fst (boxEncrypt W c peer pt)) = c_pendingX3dhHeader c"
  "c_unverifiedKeyChange (fst (boxEncrypt W c peer pt)) = c_unverifiedKeyChange c"
  "c_pendingBilateral (fst (boxEncrypt W c peer pt)) = c_pendingBilateral c"
  "c_peerVerified (fst (boxEncrypt W c peer pt)) = c_peerVerified c"
  "c_verifyAckResend (fst (boxEncrypt W c peer pt)) = c_verifyAckResend c"
  "c_peerVerifiedForIdentity (fst (boxEncrypt W c peer pt)) = c_peerVerifiedForIdentity c"
  "c_verifiedPeerIdentity (fst (boxEncrypt W c peer pt)) = c_verifiedPeerIdentity c"
  "c_lastVerifyResyncMs (fst (boxEncrypt W c peer pt)) = c_lastVerifyResyncMs c"
  "c_outbox (fst (boxEncrypt W c peer pt)) = c_outbox c"
  "c_flushInProgress (fst (boxEncrypt W c peer pt)) = c_flushInProgress c"
  "c_sentSinceRatchet (fst (boxEncrypt W c peer pt)) = c_sentSinceRatchet c"
  "c_rekeyOutstanding (fst (boxEncrypt W c peer pt)) = c_rekeyOutstanding c"
  "c_rekeyPingSentAt (fst (boxEncrypt W c peer pt)) = c_rekeyPingSentAt c"
  "c_rekeyPingResends (fst (boxEncrypt W c peer pt)) = c_rekeyPingResends c"
  "c_pongOwed (fst (boxEncrypt W c peer pt)) = c_pongOwed c"
  "c_healPending (fst (boxEncrypt W c peer pt)) = c_healPending c"
  "c_rekeyKickTries (fst (boxEncrypt W c peer pt)) = c_rekeyKickTries c"
  "c_kickActive (fst (boxEncrypt W c peer pt)) = c_kickActive c"
  "c_incoming (fst (boxEncrypt W c peer pt)) = c_incoming c"
  "c_receivedFilePaths (fst (boxEncrypt W c peer pt)) = c_receivedFilePaths c"
  "c_sentFileSources (fst (boxEncrypt W c peer pt)) = c_sentFileSources c"
  "c_lastTypingStateSent (fst (boxEncrypt W c peer pt)) = c_lastTypingStateSent c"
  "c_typingPeer (fst (boxEncrypt W c peer pt)) = c_typingPeer c"
  "c_peerTyping (fst (boxEncrypt W c peer pt)) = c_peerTyping c"
  by (simp_all add: boxEncrypt_def case_prod_beta)

lemma transmitRekey_frame [simp]:
  "c_nick (fst (transmitRekey W now c peer isPong)) = c_nick c"
  "c_activePeer (fst (transmitRekey W now c peer isPong)) = c_activePeer c"
  "c_connected (fst (transmitRekey W now c peer isPong)) = c_connected c"
  "c_uuids (fst (transmitRekey W now c peer isPong)) = c_uuids c"
  "c_messages (fst (transmitRekey W now c peer isPong)) = c_messages c"
  "c_users (fst (transmitRekey W now c peer isPong)) = c_users c"
  "c_peerKeys (fst (transmitRekey W now c peer isPong)) = c_peerKeys c"
  "c_seenFrames (fst (transmitRekey W now c peer isPong)) = c_seenFrames c"
  "c_pendingFrames (fst (transmitRekey W now c peer isPong)) = c_pendingFrames c"
  "c_rebootstrapAdopted (fst (transmitRekey W now c peer isPong)) = c_rebootstrapAdopted c"
  "c_pendingX3dhHeader (fst (transmitRekey W now c peer isPong)) = c_pendingX3dhHeader c"
  "c_unverifiedKeyChange (fst (transmitRekey W now c peer isPong)) = c_unverifiedKeyChange c"
  "c_pendingBilateral (fst (transmitRekey W now c peer isPong)) = c_pendingBilateral c"
  "c_peerVerified (fst (transmitRekey W now c peer isPong)) = c_peerVerified c"
  "c_verifyAckResend (fst (transmitRekey W now c peer isPong)) = c_verifyAckResend c"
  "c_peerVerifiedForIdentity (fst (transmitRekey W now c peer isPong)) = c_peerVerifiedForIdentity c"
  "c_verifiedPeerIdentity (fst (transmitRekey W now c peer isPong)) = c_verifiedPeerIdentity c"
  "c_lastVerifyResyncMs (fst (transmitRekey W now c peer isPong)) = c_lastVerifyResyncMs c"
  "c_outbox (fst (transmitRekey W now c peer isPong)) = c_outbox c"
  "c_flushInProgress (fst (transmitRekey W now c peer isPong)) = c_flushInProgress c"
  "c_sentSinceRatchet (fst (transmitRekey W now c peer isPong)) = c_sentSinceRatchet c"
  "c_rekeyOutstanding (fst (transmitRekey W now c peer isPong)) = c_rekeyOutstanding c"
  "c_rekeyPingSentAt (fst (transmitRekey W now c peer isPong)) = c_rekeyPingSentAt c"
  "c_rekeyPingResends (fst (transmitRekey W now c peer isPong)) = c_rekeyPingResends c"
  "c_pongOwed (fst (transmitRekey W now c peer isPong)) = c_pongOwed c"
  "c_healPending (fst (transmitRekey W now c peer isPong)) = c_healPending c"
  "c_rekeyKickTries (fst (transmitRekey W now c peer isPong)) = c_rekeyKickTries c"
  "c_kickActive (fst (transmitRekey W now c peer isPong)) = c_kickActive c"
  "c_incoming (fst (transmitRekey W now c peer isPong)) = c_incoming c"
  "c_receivedFilePaths (fst (transmitRekey W now c peer isPong)) = c_receivedFilePaths c"
  "c_sentFileSources (fst (transmitRekey W now c peer isPong)) = c_sentFileSources c"
  "c_lastTypingStateSent (fst (transmitRekey W now c peer isPong)) = c_lastTypingStateSent c"
  "c_typingPeer (fst (transmitRekey W now c peer isPong)) = c_typingPeer c"
  "c_peerTyping (fst (transmitRekey W now c peer isPong)) = c_peerTyping c"
  by (simp_all add: transmitRekey_def case_prod_beta split: encrypt_result.split)

lemma transmitRekey_sends:
  obtains f where "c_sent (fst (transmitRekey W now c peer isPong)) =
      c_sent c @ (if snd (transmitRekey W now c peer isPong) \<and> c_connected c then [Msg f] else [])"
    "mf_to f = peer" "mf_kind f = (if isPong then ''rekey-pong'' else ''rekey-ping'')"
proof -
  let ?s = "if isPong then kRekeyPongSentinel else kRekeyPingSentinel"
  obtain c1 r where enc: "boxEncrypt W c peer ?s = (c1, r)" by fastforce
  have c1: "c_sent c1 = c_sent c" "c_connected c1 = c_connected c"
    using boxEncrypt_frame [of W c peer ?s] by (simp_all add: enc)
  have "\<exists>f. c_sent (fst (transmitRekey W now c peer isPong)) =
      c_sent c @ (if snd (transmitRekey W now c peer isPong) \<and> c_connected c then [Msg f] else []) \<and>
    mf_to f = peer \<and> mf_kind f = (if isPong then ''rekey-pong'' else ''rekey-ping'')"
    unfolding transmitRekey_def enc using c1
    by (cases r) (auto simp: sendFrame_def newMsgFrame_def intro: msg_frame.select_convs)
  with that show thesis by blast
qed

lemma transmitRekey_guard:
  "snd (transmitRekey W now c peer False) \<Longrightarrow> \<not> conversationBlocked c peer \<and> isOnline (c_users c) peer"
  by (simp add: transmitRekey_def split: if_splits)

section \<open>Changes of the heartbeat\<close>

text \<open>A relation between the state before and after a call that composes along sequences of calls.\<close>

locale change_relation =
  fixes R :: "'s \<Rightarrow> 's \<Rightarrow> bool"
  assumes refl: "R c c" and trans: "R a b \<Longrightarrow> R b c \<Longrightarrow> R a c"
begin

lemma fold_change_set: "(\<And>x c. x \<in> set xs \<Longrightarrow> R c (f x c)) \<Longrightarrow> R c (fold f xs c)"
proof (induction xs arbitrary: c)
  case (Cons x xs)
  then have "R c (f x c)" "R (f x c) (fold f xs (f x c))" by simp_all
  then show ?case using trans by simp
qed (simp add: refl)

lemma fold_change: "(\<And>x c. R c (f x c)) \<Longrightarrow> R c (fold f xs c)"
  by (rule fold_change_set)

lemma fold_change_fst: "(\<And>x s. R (fst s) (fst (f x s))) \<Longrightarrow> R (fst s) (fst (fold f xs s))"
proof (induction xs arbitrary: s)
  case (Cons x xs)
  then show ?case using trans [OF Cons.prems [of s x] Cons.IH [of "f x s"]] by simp
qed (simp add: refl)

end

definition ping_ok :: "ChatClient \<Rightarrow> net_frame \<Rightarrow> bool" where
  "ping_ok c f \<longleftrightarrow> (\<forall>m. f = Msg m \<longrightarrow> mf_kind m = ''rekey-ping'' \<longrightarrow>
     \<not> conversationBlocked c (mf_to m) \<and> isOnline (c_users c) (mf_to m))"

definition pong_to :: "qstring \<Rightarrow> net_frame \<Rightarrow> bool" where
  "pong_to p f \<longleftrightarrow> (\<exists>m. f = Msg m \<and> mf_to m = p \<and> mf_kind m = ''rekey-pong'')"

text \<open>Every ping in flight has the time it was sent and a number of re-sends within the budget.\<close>

definition pcs_inv :: "ChatClient \<Rightarrow> bool" where
  "pcs_inv c \<longleftrightarrow> (\<forall>p \<in> c_rekeyOutstanding c. \<exists>t n. c_rekeyPingSentAt c p = Some t \<and>
     c_rekeyPingResends c p = Some n \<and> 0 \<le> n \<and> n \<le> kPcsRekeyPingMaxResends)"

definition same_gate :: "ChatClient \<Rightarrow> ChatClient \<Rightarrow> bool" where
  "same_gate c c' \<longleftrightarrow> c_unverifiedKeyChange c' = c_unverifiedKeyChange c \<and>
     c_pendingBilateral c' = c_pendingBilateral c \<and> c_users c' = c_users c \<and> c_connected c' = c_connected c"

definition pcs_change :: "ChatClient \<Rightarrow> ChatClient \<Rightarrow> bool" where
  "pcs_change c c' \<longleftrightarrow> same_gate c c' \<and> (pcs_inv c \<longrightarrow> pcs_inv c') \<and>
     (\<exists>fs. c_sent c' = c_sent c @ fs \<and> (\<forall>f \<in> set fs. ping_ok c f) \<and>
        (c_connected c \<longrightarrow> (\<forall>p \<in> c_pongOwed c - c_pongOwed c'. \<exists>f \<in> set fs. pong_to p f)))"

lemma ping_ok_gate: "same_gate c c' \<Longrightarrow> ping_ok c' f = ping_ok c f"
  by (simp add: same_gate_def ping_ok_def conversationBlocked_def)

interpretation pcs: change_relation pcs_change
proof
  show "pcs_change c c" for c by (simp add: pcs_change_def same_gate_def)
next
  fix a b c
  assume ab: "pcs_change a b" and bc: "pcs_change b c"
  then have gate: "same_gate a b" "same_gate a c" "c_connected b = c_connected a"
    by (simp_all add: pcs_change_def same_gate_def)
  obtain fs gs where fs: "c_sent b = c_sent a @ fs" "\<forall>f \<in> set fs. ping_ok a f"
      "c_connected a \<longrightarrow> (\<forall>p \<in> c_pongOwed a - c_pongOwed b. \<exists>f \<in> set fs. pong_to p f)"
      and gs: "c_sent c = c_sent b @ gs" "\<forall>f \<in> set gs. ping_ok b f"
      "c_connected b \<longrightarrow> (\<forall>p \<in> c_pongOwed b - c_pongOwed c. \<exists>f \<in> set gs. pong_to p f)"
    using ab bc by (auto simp: pcs_change_def)
  have "c_sent c = c_sent a @ (fs @ gs)" "\<forall>f \<in> set (fs @ gs). ping_ok a f"
    using fs gs ping_ok_gate [OF gate(1)] by auto
  moreover have "c_connected a \<longrightarrow> (\<forall>p \<in> c_pongOwed a - c_pongOwed c. \<exists>f \<in> set (fs @ gs). pong_to p f)"
    using fs(3) gs(3) gate(3) by (auto simp: bex_Un)
  ultimately show "pcs_change a c"
    using ab bc gate(2) unfolding pcs_change_def by blast
qed

text \<open>A change that sends nothing and pays no debt.\<close>

lemma quiet_change:
  "same_gate c c' \<Longrightarrow> c_sent c' = c_sent c \<Longrightarrow> c_pongOwed c \<subseteq> c_pongOwed c' \<Longrightarrow> (pcs_inv c \<Longrightarrow> pcs_inv c') \<Longrightarrow>
   pcs_change c c'"
  by (auto simp: pcs_change_def)

lemma transmit_change: "pcs_change c (fst (transmitRekey W now c peer isPong))"
proof (rule transmitRekey_sends [of W now c peer isPong])
  fix f
  assume f: "c_sent (fst (transmitRekey W now c peer isPong)) =
      c_sent c @ (if snd (transmitRekey W now c peer isPong) \<and> c_connected c then [Msg f] else [])"
    "mf_to f = peer" "mf_kind f = (if isPong then ''rekey-pong'' else ''rekey-ping'')"
  have "ping_ok c (Msg f)" if "snd (transmitRekey W now c peer isPong)"
    using that f(2,3) transmitRekey_guard [of W now c peer] by (cases isPong) (auto simp: ping_ok_def)
  then show ?thesis
    unfolding pcs_change_def f(1) by (auto simp: same_gate_def pcs_inv_def)
qed

lemma mark_change: "pcs_change c (markRekeyPingSent now c peer)"
  by (rule quiet_change)
    (auto simp: same_gate_def markRekeyPingSent_def pcs_inv_def kPcsRekeyPingMaxResends_def)

lemma release_change: "pcs_change c (releasePing c peer)"
  by (rule quiet_change) (auto simp: same_gate_def releasePing_def pcs_inv_def)

lemma startKick_change: "pcs_change c (startKick c)"
  by (rule quiet_change) (auto simp: same_gate_def startKick_def pcs_inv_def)

lemma count_change: "pcs_change c (c\<lparr>c_sentSinceRatchet := m\<rparr>)"
  by (rule quiet_change) (auto simp: same_gate_def pcs_inv_def)

lemma heal_change: "pcs_change c (c\<lparr>c_healPending := S\<rparr>)"
  by (rule quiet_change) (auto simp: same_gate_def pcs_inv_def)

lemma ping_change:
  "transmitRekey W now c peer False = (c1, ok) \<Longrightarrow>
   pcs_change c (if ok then markRekeyPingSent now c1 peer else c1) \<and> pcs_change c (startKick c1) \<and> pcs_change c c1"
  using transmit_change [of c W now peer False] mark_change startKick_change by (auto intro: pcs.trans)

lemma pong_change:
  assumes "transmitRekey W now c peer True = (c1, ok)"
  shows "pcs_change c (if ok then c1\<lparr>c_pongOwed := c_pongOwed c1 - {peer}\<rparr> else c1)"
proof (rule transmitRekey_sends [of W now c peer True])
  fix f
  assume f: "c_sent (fst (transmitRekey W now c peer True)) =
      c_sent c @ (if snd (transmitRekey W now c peer True) \<and> c_connected c then [Msg f] else [])"
    "mf_to f = peer" "mf_kind f = (if True then ''rekey-pong'' else ''rekey-ping'')"
  have "pong_to peer (Msg f)" "ping_ok c (Msg f)" using f(2,3) by (auto simp: pong_to_def ping_ok_def)
  then show ?thesis
    using f(1) transmitRekey_frame [of W now c peer True] unfolding pcs_change_def
    by (cases ok) (auto simp: assms same_gate_def pcs_inv_def)
qed

lemmas pcs_changes = pcs.refl mark_change release_change startKick_change count_change heal_change

lemma resend_change:
  assumes "transmitRekey W now c peer False = (c1, True)"
    and n: "valueOr 0 (c_rekeyPingResends c) peer < kPcsRekeyPingMaxResends"
  shows "pcs_change c (c1\<lparr>c_rekeyPingSentAt := (c_rekeyPingSentAt c1)(peer \<mapsto> now),
    c_rekeyPingResends := (c_rekeyPingResends c1)(peer \<mapsto> valueOr 0 (c_rekeyPingResends c1) peer + 1)\<rparr>)"
    (is "pcs_change c ?c")
proof (rule pcs.trans)
  show "pcs_change c c1" using ping_change [OF assms(1)] by blast
  have "c_rekeyPingResends c1 = c_rekeyPingResends c"
    using transmitRekey_frame [of W now c peer False] assms(1) by simp
  with n show "pcs_change c1 ?c"
    by (intro quiet_change) (auto simp: same_gate_def pcs_inv_def valueOr_def split: option.splits)
qed

lemma kickOutstanding_change: "pcs_change c (kickOutstanding W now peer c)"
proof (cases "transmitRekey W now c peer False")
  case (Pair c1 ok)
  with ping_change [OF Pair] resend_change [of W now c peer c1] pcs_changes show ?thesis
    by (cases ok) (auto simp: kickOutstanding_def Let_def not_le)
qed

lemma kickPing_change: "pcs_change (fst s) (fst (kickPing W now peer s))"
proof (cases "transmitRekey W now (fst s) peer False")
  case (Pair c1 ok)
  with ping_change [OF Pair] pcs_changes show ?thesis
    by (cases ok) (auto simp: kickPing_def case_prod_beta)
qed

lemma kickPong_change: "pcs_change (fst s) (fst (kickPong W now peer s))"
proof (cases "transmitRekey W now (fst s) peer True")
  case (Pair c1 ok)
  with pong_change [OF Pair] pcs_changes show ?thesis
    by (cases ok) (auto simp: kickPong_def case_prod_beta)
qed

lemma kickHeal_change: "pcs_change (fst s) (fst (kickHeal W now peer s))"
proof (cases "transmitRekey W now (fst s) peer False")
  case (Pair c1 ok)
  with ping_change [OF Pair] pcs.trans [OF _ heal_change] pcs_changes show ?thesis
    by (cases ok) (auto simp: kickHeal_def case_prod_beta Let_def)
qed

lemma kickRearm_change: "pcs_change (fst s) (kickRearm W s)"
  by (cases s) (auto simp: kickRearm_def startKick_def same_gate_def pcs_inv_def intro: quiet_change)

lemma kickRekey_change: "pcs_change c (kickRekey W now c)"
proof -
  define a where "a = c\<lparr>c_kickActive := False\<rparr>"
  define c0 where "c0 = fold (kickOutstanding W now) (w_values W (c_rekeyOutstanding a)) a"
  define s1 where "s1 = fold (kickPing W now) (w_values W (dom (c_sentSinceRatchet c0))) (c0, False)"
  define s2 where "s2 = fold (kickPong W now) (w_values W (c_pongOwed (fst s1))) s1"
  define s3 where "s3 = fold (kickHeal W now) (w_values W (c_healPending (fst s2))) s2"
  have a: "pcs_change c a"
    unfolding a_def by (rule quiet_change) (auto simp: same_gate_def pcs_inv_def)
  have "pcs_change a c0" unfolding c0_def by (rule pcs.fold_change [OF kickOutstanding_change])
  moreover have "pcs_change c0 (fst s1)"
    using pcs.fold_change_fst [of "kickPing W now", OF kickPing_change, of "(c0, False)"] by (simp add: s1_def)
  moreover have "pcs_change (fst s1) (fst s2)"
    unfolding s2_def by (rule pcs.fold_change_fst [OF kickPong_change])
  moreover have "pcs_change (fst s2) (fst s3)"
    unfolding s3_def by (rule pcs.fold_change_fst [OF kickHeal_change])
  ultimately have "pcs_change a (kickRearm W s3)"
    by (meson pcs.trans kickRearm_change)
  moreover have "kickRekey W now c = (if c_connected a then kickRearm W s3 else a)"
    by (simp add: kickRekey_def Let_def a_def c0_def s1_def s2_def s3_def)
  ultimately show ?thesis using a pcs.trans by auto
qed

lemma trigger_changes:
  "pcs_change c (noteOutboundTo W now c peer)" "pcs_change c (forceRekey W now c peer)"
  "pcs_change c (idlePing W now peer c)" "pcs_change c (healPeer W now peer c)"
proof -
  let ?c1 = "c\<lparr>c_sentSinceRatchet := (c_sentSinceRatchet c)(peer \<mapsto> valueOr 0 (c_sentSinceRatchet c) peer + 1)\<rparr>"
  obtain c2 ok where t: "transmitRekey W now ?c1 peer False = (c2, ok)" by fastforce
  have "pcs_change c (if ok then markRekeyPingSent now c2 peer else c2)" "pcs_change c (startKick c2)"
    using ping_change [OF t] pcs.trans [OF count_change] by blast+
  with t pcs_changes show "pcs_change c (noteOutboundTo W now c peer)"
    by (cases ok) (auto simp: noteOutboundTo_def Let_def)
  obtain c3 ok' where u: "transmitRekey W now c peer False = (c3, ok')" by fastforce
  with ping_change [OF u] pcs_changes show "pcs_change c (forceRekey W now c peer)" "pcs_change c (idlePing W now peer c)"
    by (cases ok'; auto simp: forceRekey_def idlePing_def)+
  from u ping_change [OF u] pcs.trans [OF _ heal_change] pcs_changes show "pcs_change c (healPeer W now peer c)"
    by (cases ok') (auto simp: healPeer_def Let_def)
qed

lemma owed_change: "pcs_change c (sendOwedPongIfReady W now c peer)"
proof (cases "transmitRekey W now c peer True")
  case (Pair c1 ok)
  with pong_change [OF Pair] pcs_changes show ?thesis
    by (cases ok) (auto simp: sendOwedPongIfReady_def)
qed

lemma timer_changes: "pcs_change c (idleTick W now c)" "pcs_change c (reestablishPcsForAll W now c)"
  using pcs.fold_change [of "idlePing W now", OF trigger_changes(3)]
    pcs.fold_change [of "healPeer W now", OF trigger_changes(4)] pcs.trans [OF _ startKick_change] pcs.refl
  by (auto simp: idleTick_def reestablishPcsForAll_def Let_def)

section \<open>Runs of the heartbeat\<close>

text \<open>The calls of the heartbeat, and the debt that a received ping records.\<close>

inductive pcs_step :: "world \<Rightarrow> ChatClient \<Rightarrow> ChatClient \<Rightarrow> bool" for W where
  outbound: "pcs_step W c (noteOutboundTo W now c peer)"
| inbound: "pcs_step W c (noteInboundFrom c peer)"
| reset: "pcs_step W c (resetPcsFor c peer)"
| kick: "pcs_step W c (kickRekey W now c)"
| idle: "pcs_step W c (idleTick W now c)"
| pinged: "pcs_step W c (c\<lparr>c_pongOwed := insert peer (c_pongOwed c)\<rparr>)"
| owed: "pcs_step W c (sendOwedPongIfReady W now c peer)"
| resume: "pcs_step W c (reestablishPcsForAll W now c)"
| force: "pcs_step W c (forceRekey W now c peer)"

inductive pcs_run :: "world \<Rightarrow> ChatClient \<Rightarrow> ChatClient \<Rightarrow> bool" for W where
  start: "pcs_run W c c"
| step: "pcs_run W c c1 \<Longrightarrow> pcs_step W c1 c2 \<Longrightarrow> pcs_run W c c2"

lemma pcs_step_change: "pcs_step W c c' \<Longrightarrow> pcs_change c c'"
proof (induction rule: pcs_step.induct)
  case (pinged c peer)
  show ?case by (rule quiet_change) (auto simp: same_gate_def pcs_inv_def)
qed (auto simp: noteInboundFrom_def resetPcsFor_def intro: trigger_changes owed_change timer_changes
    kickRekey_change pcs.refl pcs.trans [OF count_change release_change])

lemma pcs_run_change: "pcs_run W c c' \<Longrightarrow> pcs_change c c'"
  by (induction rule: pcs_run.induct) (auto intro: pcs.refl pcs.trans pcs_step_change)

text \<open>C16 (safety). In any run of the heartbeat, a ping is only ever sent to a peer that is online and whose
  conversation is not held by the verification gate; and, while connected, an owed pong stops being
  owed only by a pong that was put on the wire to that peer.\<close>

theorem heartbeat_pings_and_debts:
  assumes "pcs_run W c c'"
  shows "\<exists>fs. c_sent c' = c_sent c @ fs \<and>
    (\<forall>m. Msg m \<in> set fs \<longrightarrow> mf_kind m = ''rekey-ping'' \<longrightarrow>
       \<not> conversationBlocked c (mf_to m) \<and> isOnline (c_users c) (mf_to m)) \<and>
    (c_connected c \<longrightarrow> (\<forall>p \<in> c_pongOwed c - c_pongOwed c'.
       \<exists>m. Msg m \<in> set fs \<and> mf_to m = p \<and> mf_kind m = ''rekey-pong''))"
proof -
  from pcs_run_change [OF assms] obtain fs where "c_sent c' = c_sent c @ fs" "\<forall>f \<in> set fs. ping_ok c f"
      "c_connected c \<longrightarrow> (\<forall>p \<in> c_pongOwed c - c_pongOwed c'. \<exists>f \<in> set fs. pong_to p f)"
    by (auto simp: pcs_change_def)
  moreover from this(2) have "\<forall>m. Msg m \<in> set fs \<longrightarrow> mf_kind m = ''rekey-ping'' \<longrightarrow>
      \<not> conversationBlocked c (mf_to m) \<and> isOnline (c_users c) (mf_to m)"
    by (simp add: ping_ok_def)
  moreover have "(\<exists>f \<in> set fs. pong_to p f) \<longleftrightarrow>
      (\<exists>m. Msg m \<in> set fs \<and> mf_to m = p \<and> mf_kind m = ''rekey-pong'')" for p
    by (auto simp: pong_to_def)
  ultimately show ?thesis by simp
qed

text \<open>From a client that has just been set up or logged out, every ping in flight has a time
  at which it was sent and between none and five re-sends.\<close>

theorem pings_in_flight_bounded:
  assumes "pcs_run W (clearPcsState c) c'" "p \<in> c_rekeyOutstanding c'"
  shows "\<exists>t n. c_rekeyPingSentAt c' p = Some t \<and> c_rekeyPingResends c' p = Some n \<and> 0 \<le> n \<and> n \<le> 5"
proof -
  have "pcs_inv (clearPcsState c)" by (simp add: pcs_inv_def clearPcsState_def)
  with pcs_run_change [OF assms(1)] have "pcs_inv c'" by (simp add: pcs_change_def)
  with assms(2) show ?thesis by (simp add: pcs_inv_def kPcsRekeyPingMaxResends_def)
qed

section \<open>Pings of a live session\<close>

text \<open>A session that can send: its sending chain exists.\<close>

definition live :: "ChatClient \<Rightarrow> qstring \<Rightarrow> bool" where
  "live c peer \<longleftrightarrow> (\<exists>s. m_sessions (c_crypto c) peer = Some s \<and> CKs s \<noteq> [])"

text \<open>\<^verbatim>\<open>QSet::values\<close> and \<^verbatim>\<open>QHash::keys\<close> list every element once.\<close>

definition values_law :: "world \<Rightarrow> bool" where
  "values_law W \<longleftrightarrow> (\<forall>S. finite S \<longrightarrow> distinct (w_values W S) \<and> set (w_values W S) = S)"

lemma values_empty: "values_law W \<Longrightarrow> w_values W {} = []"
  unfolding values_law_def by (metis finite.emptyI set_empty)

lemma values_single: "values_law W \<Longrightarrow> w_values W {p} = [p]"
proof -
  assume "values_law W"
  then have "distinct (w_values W {p})" "set (w_values W {p}) = {p}" by (simp_all add: values_law_def)
  then show ?thesis by (cases "w_values W {p}" rule: list.exhaust; simp) (metis insert_absorb list.set_intros(1)
      set_empty singleton_iff subset_singletonD)
qed

lemma boxEncrypt_live:
  assumes "hmac_law (w_ext W)" "live c peer"
  obtains c1 w where "boxEncrypt W c peer pt = (c1, EncOk w)" "live c1 peer"
proof -
  from assms(2) obtain s where s: "m_sessions (c_crypto c) peer = Some s" "CKs s \<noteq> []" by (auto simp: live_def)
  have "fst (kdfCk (w_ext W) (CKs s)) \<noteq> []"
    using kdfCk_lengths(1) [OF assms(1), of "CKs s"] by (metis length_0_conv zero_neq_numeral)
  with s that show thesis
    by (auto simp: boxEncrypt_def encryptFor_def sessionFor_def encryptStep_def live_def case_prod_beta Let_def)
qed

lemma transmit_live:
  assumes "hmac_law (w_ext W)" "live c peer" "isPong \<or> \<not> conversationBlocked c peer \<and> isOnline (c_users c) peer"
  obtains c1 where "transmitRekey W now c peer isPong = (c1, True)" "live c1 peer"
proof -
  let ?s = "if isPong then kRekeyPongSentinel else kRekeyPingSentinel"
  from boxEncrypt_live [OF assms(1,2), of ?s] obtain c1 w where "boxEncrypt W c peer ?s = (c1, EncOk w)" "live c1 peer" .
  with assms(3) that show thesis by (auto simp: transmitRekey_def live_def)
qed

lemma live_session: "live c peer \<Longrightarrow> hasSessionFor (c_crypto c) peer"
  by (auto simp: live_def hasSessionFor_def)

lemma mark_live [simp]: "live (markRekeyPingSent now c p) q = live c q"
  by (simp add: live_def markRekeyPingSent_def)

text \<open>A frame that is a ping to the peer.\<close>

definition ping_to :: "qstring \<Rightarrow> net_frame \<Rightarrow> bool" where
  "ping_to p f \<longleftrightarrow> (case f of Msg m \<Rightarrow> mf_to m = p \<and> mf_kind m = ''rekey-ping'' | _ \<Rightarrow> False)"

lemma ping_live:
  assumes "hmac_law (w_ext W)" "live c peer" "\<not> conversationBlocked c peer" "isOnline (c_users c) peer" "c_connected c"
  obtains c1 f where "transmitRekey W now c peer False = (c1, True)" "live c1 peer" "c_sent c1 = c_sent c @ [f]"
    "ping_to peer f"
proof (rule transmitRekey_sends [of W now c peer False])
  fix m
  assume m: "c_sent (fst (transmitRekey W now c peer False)) =
      c_sent c @ (if snd (transmitRekey W now c peer False) \<and> c_connected c then [Msg m] else [])"
    "mf_to m = peer" "mf_kind m = (if False then ''rekey-pong'' else ''rekey-ping'')"
  from transmit_live [OF assms(1,2)] assms(3,4) obtain c1
    where "transmitRekey W now c peer False = (c1, True)" "live c1 peer" by metis
  with m assms(5) show thesis by (intro that [of c1 "Msg m"]) (auto simp: ping_to_def)
qed

text \<open>A message to a peer is counted. Below eight messages without an answer nothing is sent;
  from the eighth on, with a live session and an online peer whose conversation is open, one ping
  leaves, it is in flight from now on with no re-send, and the retry timer runs.\<close>

theorem eighth_message_pings:
  assumes "hmac_law (w_ext W)" "live c peer" "\<not> conversationBlocked c peer" "isOnline (c_users c) peer" "c_connected c"
    "peer \<noteq> []" "peer \<notin> c_rekeyOutstanding c"
  shows "if valueOr 0 (c_sentSinceRatchet c) peer < 7
    then noteOutboundTo W now c peer =
      c\<lparr>c_sentSinceRatchet := (c_sentSinceRatchet c)(peer \<mapsto> valueOr 0 (c_sentSinceRatchet c) peer + 1)\<rparr>
    else (\<exists>f. c_sent (noteOutboundTo W now c peer) = c_sent c @ [f] \<and> ping_to peer f) \<and>
      c_rekeyOutstanding (noteOutboundTo W now c peer) = insert peer (c_rekeyOutstanding c) \<and>
      c_rekeyPingSentAt (noteOutboundTo W now c peer) peer = Some now \<and>
      c_rekeyPingResends (noteOutboundTo W now c peer) peer = Some 0 \<and> c_kickActive (noteOutboundTo W now c peer)"
proof (cases "valueOr 0 (c_sentSinceRatchet c) peer < 7")
  case True
  with assms(6) show ?thesis by (simp add: noteOutboundTo_def kPcsRekeyAfterMessages_def Let_def)
next
  case False
  let ?c = "c\<lparr>c_sentSinceRatchet := (c_sentSinceRatchet c)(peer \<mapsto> valueOr 0 (c_sentSinceRatchet c) peer + 1)\<rparr>"
  have c: "live ?c peer" "\<not> conversationBlocked ?c peer" "isOnline (c_users ?c) peer" "c_connected ?c"
    using assms by (simp_all add: live_def conversationBlocked_def)
  from ping_live [OF assms(1) c] obtain c1 f where t: "transmitRekey W now ?c peer False = (c1, True)"
      "c_sent c1 = c_sent ?c @ [f]" "ping_to peer f" by metis
  have "c_rekeyOutstanding c1 = c_rekeyOutstanding c"
    using transmitRekey_frame [of W now ?c peer False] t(1) by simp
  moreover have "noteOutboundTo W now c peer = markRekeyPingSent now c1 peer"
    using False t(1) assms(5,6,7) live_session [OF assms(2)]
    by (simp add: noteOutboundTo_def kPcsRekeyAfterMessages_def Let_def)
  ultimately show ?thesis using False t(2,3) assms(6,7) by (simp add: markRekeyPingSent_def)
qed

section \<open>A ping that is never answered\<close>

text \<open>One peer has unanswered messages and a ping in flight; nothing else is owed.\<close>

definition waiting :: "ChatClient \<Rightarrow> qstring \<Rightarrow> int \<Rightarrow> bool" where
  "waiting c peer t \<longleftrightarrow> peer \<noteq> [] \<and> c_connected c \<and> live c peer \<and> \<not> conversationBlocked c peer \<and>
     c_rekeyOutstanding c = {peer} \<and> (\<exists>n > 0. c_sentSinceRatchet c = [peer \<mapsto> n]) \<and> c_pongOwed c = {} \<and>
     c_healPending c = {} \<and> c_rekeyPingSentAt c peer = Some t \<and> 0 < t"

lemma waiting_pass:
  assumes "values_law W" "waiting c peer t"
    and c0: "c0 = kickOutstanding W now peer (c\<lparr>c_kickActive := False\<rparr>)"
      "dom (c_sentSinceRatchet c0) = {peer}" "c_pongOwed c0 = {}" "c_healPending c0 = {}"
    and s1: "kickPing W now peer (c0, False) = (c1, False)" "c_pongOwed c1 = {}" "c_healPending c1 = {}"
      "c_rekeyOutstanding c1 = {peer}"
  shows "kickRekey W now c = startKick c1"
  using assms
  by (simp add: waiting_def kickRekey_def values_single values_empty kickRearm_def Let_def)

lemma overdue_resend:
  assumes laws: "hmac_law (w_ext W)" "values_law W"
    and w: "waiting c peer t" "isOnline (c_users c) peer" "8000 \<le> now - t"
      "valueOr 0 (c_rekeyPingResends c) peer < kPcsRekeyPingMaxResends"
  obtains c1 f where "kickRekey W now c = startKick c1" "c_sent c1 = c_sent c @ [f]" "ping_to peer f" "waiting c1 peer now"
    "c_users c1 = c_users c"
proof -
  let ?c = "c\<lparr>c_kickActive := False\<rparr>"
  have c: "live ?c peer" "\<not> conversationBlocked ?c peer" "isOnline (c_users ?c) peer" "c_connected ?c"
    using w(1,2) by (simp_all add: live_def conversationBlocked_def waiting_def)
  from ping_live [OF laws(1) c] obtain c1 f where t: "transmitRekey W now ?c peer False = (c1, True)" "live c1 peer"
      "c_sent c1 = c_sent ?c @ [f]" "ping_to peer f" by metis
  let ?c1 = "c1\<lparr>c_rekeyPingSentAt := (c_rekeyPingSentAt c1)(peer \<mapsto> now),
     c_rekeyPingResends := (c_rekeyPingResends c1)(peer \<mapsto> valueOr 0 (c_rekeyPingResends c1) peer + 1)\<rparr>"
  note fr = transmitRekey_frame [of W now ?c peer False, unfolded t(1)]
  have "valueOr 0 (c_rekeyPingSentAt c) peer = t" "t \<noteq> 0" using w(1) by (auto simp: waiting_def valueOr_def)
  with w t(1) live_session [OF c(1)] have ko: "kickOutstanding W now peer ?c = ?c1"
    by (simp add: kickOutstanding_def kPcsRekeyPongTimeoutMs_def Let_def)
  have k1: "kickPing W now peer (?c1, False) = (?c1, False)"
    using fr w(1) by (simp add: kickPing_def pingWanted_def waiting_def)
  have "waiting ?c1 peer now"
    using fr t(2) w(1,3) by (auto simp: waiting_def live_def conversationBlocked_def)
  moreover have "kickRekey W now c = startKick ?c1"
    by (rule waiting_pass [OF laws(2) w(1) ko [symmetric] _ _ _ k1]) (use fr w(1) in \<open>auto simp: waiting_def\<close>)
  ultimately show thesis using t(3,4) fr that [of ?c1 f] by simp
qed

lemma overdue_release:
  assumes laws: "hmac_law (w_ext W)" "values_law W"
    and w: "waiting c peer t" "isOnline (c_users c) peer" "8000 \<le> now - t"
      "kPcsRekeyPingMaxResends \<le> valueOr 0 (c_rekeyPingResends c) peer"
  obtains c1 f where "kickRekey W now c = startKick c1" "c_sent c1 = c_sent c @ [f]" "ping_to peer f" "waiting c1 peer now"
    "c_users c1 = c_users c"
proof -
  let ?c = "c\<lparr>c_kickActive := False\<rparr>"
  let ?r = "releasePing ?c peer"
  have c: "live ?r peer" "\<not> conversationBlocked ?r peer" "isOnline (c_users ?r) peer" "c_connected ?r"
    using w(1,2) by (simp_all add: live_def conversationBlocked_def waiting_def releasePing_def)
  from ping_live [OF laws(1) c] obtain c1 f where t: "transmitRekey W now ?r peer False = (c1, True)" "live c1 peer"
      "c_sent c1 = c_sent ?r @ [f]" "ping_to peer f" by metis
  let ?c1 = "markRekeyPingSent now c1 peer"
  note fr = transmitRekey_frame [of W now ?r peer False, unfolded t(1)]
  have "valueOr 0 (c_rekeyPingSentAt c) peer = t" "t \<noteq> 0" using w(1) by (auto simp: waiting_def valueOr_def)
  with w have ko: "kickOutstanding W now peer ?c = ?r"
    by (simp add: kickOutstanding_def kPcsRekeyPongTimeoutMs_def Let_def)
  have "pingWanted ?r peer"
    using w(1) live_session [OF c(1)] by (auto simp: pingWanted_def waiting_def releasePing_def conversationBlocked_def)
  with t(1) have k1: "kickPing W now peer (?r, False) = (?c1, False)" by (simp add: kickPing_def)
  have "waiting ?c1 peer now"
    using fr t(2) w(1,3)
    by (simp add: waiting_def conversationBlocked_def releasePing_def)
      (simp add: markRekeyPingSent_def)
  moreover from this have "kickRekey W now c = startKick ?c1"
    by (intro waiting_pass [OF laws(2) w(1) ko [symmetric] _ _ _ k1]) (use w(1) in \<open>auto simp: waiting_def releasePing_def\<close>)
  moreover have "c_sent ?c1 = c_sent c @ [f]" "c_users ?c1 = c_users c"
    using t(3) fr by (simp_all add: markRekeyPingSent_def releasePing_def)
  ultimately show thesis using t(4) that by blast
qed

lemma startKick_waiting [simp]: "waiting (startKick c) peer t = waiting c peer t" "c_sent (startKick c) = c_sent c"
  "c_users (startKick c) = c_users c" "c_kickActive (startKick c)"
  by (simp_all add: waiting_def startKick_def live_def conversationBlocked_def)

text \<open>Ticks of the retry timer that find the ping overdue.\<close>

fun overdue_ticks :: "int \<Rightarrow> int list \<Rightarrow> bool" where
  "overdue_ticks t [] \<longleftrightarrow> True"
| "overdue_ticks t (now # ts) \<longleftrightarrow> 8000 \<le> now - t \<and> overdue_ticks now ts"

text \<open>The budget of five re-sends does not end the pings to an online peer that answers nothing:
  the pass that releases the ping starts a fresh cycle at once, because the unanswered messages are
  still counted. Every overdue tick, however many there were before, sends one more ping, and the
  timer keeps running.\<close>

theorem unanswered_pings_never_stop:
  assumes "hmac_law (w_ext W)" "values_law W" "waiting c peer t" "isOnline (c_users c) peer" "overdue_ticks t ts"
  shows "\<exists>fs. c_sent (fold (kickRekey W) ts c) = c_sent c @ fs \<and> length fs = length ts \<and> (\<forall>f \<in> set fs. ping_to peer f) \<and>
    (ts \<noteq> [] \<longrightarrow> c_kickActive (fold (kickRekey W) ts c))"
  using assms(3-)
proof (induction ts arbitrary: c t)
  case (Cons now ts)
  then have due: "8000 \<le> now - t" by simp
  obtain c1 f where c1: "kickRekey W now c = startKick c1" "c_sent c1 = c_sent c @ [f]" "ping_to peer f"
      "waiting c1 peer now" "c_users c1 = c_users c"
    using overdue_resend [OF assms(1,2) Cons.prems(1,2) due] overdue_release [OF assms(1,2) Cons.prems(1,2) due]
    by (metis not_le)
  with Cons.prems Cons.IH [of "startKick c1" now] obtain fs
    where fs: "c_sent (fold (kickRekey W) ts (startKick c1)) = c_sent c1 @ fs" "length fs = length ts"
      "\<forall>g \<in> set fs. ping_to peer g" "ts \<noteq> [] \<longrightarrow> c_kickActive (fold (kickRekey W) ts (startKick c1))"
    by auto
  have "c_kickActive (fold (kickRekey W) ts (startKick c1))" using fs(4) by (cases "ts = []") auto
  with fs(1-3) c1(1-3) show ?case by (intro exI [of _ "f # fs"]) simp
qed simp

text \<open>Nor does it ever release a ping to a peer that has left: an overdue tick then sends
  nothing, counts no re-send and changes nothing but its own timer, which it starts again. The timer
  runs every three seconds for as long as the peer stays away.\<close>

theorem absent_peer_keeps_timer:
  assumes "values_law W" "waiting c peer t" "\<not> isOnline (c_users c) peer"
    "valueOr 0 (c_rekeyPingResends c) peer < 5" "ts \<noteq> []"
  shows "fold (kickRekey W) ts c = c\<lparr>c_rekeyKickTries := 0, c_kickActive := True\<rparr>"
proof -
  have pass: "kickRekey W now d = startKick d"
    if d: "waiting d peer t" "\<not> isOnline (c_users d) peer" "valueOr 0 (c_rekeyPingResends d) peer < 5" for d now
  proof -
    let ?d = "d\<lparr>c_kickActive := False\<rparr>"
    have "transmitRekey W now ?d peer False = (?d, False)" using d(2) by (simp add: transmitRekey_def)
    with d(3) have ko: "kickOutstanding W now peer ?d = ?d"
      by (simp add: kickOutstanding_def kPcsRekeyPingMaxResends_def Let_def)
    have k1: "kickPing W now peer (?d, False) = (?d, False)"
      using d(1) by (simp add: kickPing_def pingWanted_def waiting_def)
    have "kickRekey W now d = startKick ?d"
      by (rule waiting_pass [OF assms(1) d(1) ko [symmetric] _ _ _ k1]) (use d(1) in \<open>auto simp: waiting_def\<close>)
    then show ?thesis by (simp add: startKick_def)
  qed
  have "waiting (startKick c) peer t" "\<not> isOnline (c_users (startKick c)) peer"
      "valueOr 0 (c_rekeyPingResends (startKick c)) peer < 5"
    using assms(2-4) by (simp_all add: startKick_def [of c])  (simp add: waiting_def live_def conversationBlocked_def)
  from pass [OF this] have "kickRekey W now (startKick c) = startKick c" for now by (simp add: startKick_def)
  then have "fold (kickRekey W) us (startKick c) = startKick c" for us by (induction us) simp_all
  then have "fold (kickRekey W) ts c = startKick c" using assms(5) pass [OF assms(2-4)] by (cases ts) simp_all
  then show ?thesis by (simp add: startKick_def)
qed

section \<open>A small client with a live session\<close>

definition demoLive :: ChatClient where
  "demoLive = demoClient\<lparr>c_connected := True, c_users := newUserModel\<lparr>m_online := [''bob'']\<rparr>,
     c_crypto := newCryptoBox\<lparr>m_sessions := [''bob'' \<mapsto> newRatchetSession\<lparr>CKs := [1]\<rparr>]\<rparr>\<rparr>"

lemma demoLive_facts:
  "live demoLive ''bob''" "\<not> conversationBlocked demoLive ''bob''" "isOnline (c_users demoLive) ''bob''"
  "c_connected demoLive" "c_rekeyOutstanding demoLive = {}" "c_sentSinceRatchet demoLive = Map.empty"
  "c_sent demoLive = []" "c_pongOwed demoLive = {}"
  by (simp_all add: demoLive_def live_def conversationBlocked_def demoClient_def newClient_def isOnline_def)

lemma demo_values_law: "values_law demoWorld" by (simp add: values_law_def demoWorld_def)

lemma demo_hmac: "hmac_law (w_ext demoWorld)" by (simp add: demo_laws)

theorem heartbeat_pings_and_debts_witness:
  "\<exists>m. Msg m \<in> set (c_sent (sendOwedPongIfReady demoWorld 5 (demoLive\<lparr>c_pongOwed := {''bob''}\<rparr>) ''bob'')) \<and>
     mf_to m = ''bob'' \<and> mf_kind m = ''rekey-pong''"
proof -
  let ?c = "demoLive\<lparr>c_pongOwed := {''bob''}\<rparr>"
  let ?d = "sendOwedPongIfReady demoWorld 5 ?c ''bob''"
  have live: "live ?c ''bob''" using demoLive_facts(1) by (simp add: live_def)
  obtain c1 where "transmitRekey demoWorld 5 ?c ''bob'' True = (c1, True)"
    using transmit_live [OF demo_hmac live] by metis
  then have "''bob'' \<notin> c_pongOwed ?d"
    using live_session [OF live] demoLive_facts(4) by (simp add: sendOwedPongIfReady_def)
  moreover have "pcs_run demoWorld ?c ?d" by (rule pcs_run.step [OF pcs_run.start pcs_step.owed])
  from heartbeat_pings_and_debts [OF this] obtain fs where "c_sent ?d = c_sent ?c @ fs"
      "c_connected ?c \<longrightarrow> (\<forall>p \<in> c_pongOwed ?c - c_pongOwed ?d.
         \<exists>m. Msg m \<in> set fs \<and> mf_to m = p \<and> mf_kind m = ''rekey-pong'')"
    by blast
  ultimately show ?thesis using demoLive_facts(4) by auto
qed

theorem eighth_message_pings_witness:
  "c_rekeyPingSentAt (noteOutboundTo demoWorld 5 (demoLive\<lparr>c_sentSinceRatchet := [''bob'' \<mapsto> 7]\<rparr>) ''bob'') ''bob'' = Some 5"
proof -
  let ?c = "demoLive\<lparr>c_sentSinceRatchet := [''bob'' \<mapsto> 7]\<rparr>"
  have "live ?c ''bob''" "\<not> conversationBlocked ?c ''bob''" "isOnline (c_users ?c) ''bob''" "c_connected ?c"
    "''bob'' \<noteq> []" "''bob'' \<notin> c_rekeyOutstanding ?c"
    using demoLive_facts by (simp_all add: live_def conversationBlocked_def)
  from eighth_message_pings [OF demo_hmac this, of 5] show ?thesis by simp
qed

theorem pings_in_flight_bounded_witness:
  "\<exists>t n. c_rekeyPingSentAt (forceRekey demoWorld 5 (clearPcsState demoLive) ''bob'') ''bob'' = Some t \<and>
     c_rekeyPingResends (forceRekey demoWorld 5 (clearPcsState demoLive) ''bob'') ''bob'' = Some n \<and> 0 \<le> n \<and> n \<le> 5"
proof (rule pings_in_flight_bounded)
  let ?c = "clearPcsState demoLive"
  show "pcs_run demoWorld ?c (forceRekey demoWorld 5 ?c ''bob'')"
    by (rule pcs_run.step [OF pcs_run.start pcs_step.force])
  have c: "live ?c ''bob''" "\<not> conversationBlocked ?c ''bob''" "isOnline (c_users ?c) ''bob''" "c_connected ?c"
    using demoLive_facts by (simp_all add: live_def conversationBlocked_def clearPcsState_def)
  obtain c1 where "transmitRekey demoWorld 5 ?c ''bob'' False = (c1, True)"
    using transmit_live [OF demo_hmac c(1)] c(2,3) by metis
  then show "''bob'' \<in> c_rekeyOutstanding (forceRekey demoWorld 5 ?c ''bob'')"
    using c(4) live_session [OF c(1)]
    by (simp add: forceRekey_def markRekeyPingSent_def)
qed

definition demoWaiting :: ChatClient where
  "demoWaiting = demoLive\<lparr>c_rekeyOutstanding := {''bob''}, c_sentSinceRatchet := [''bob'' \<mapsto> 8],
     c_rekeyPingSentAt := [''bob'' \<mapsto> 1], c_rekeyPingResends := [''bob'' \<mapsto> 4]\<rparr>"

lemma demoWaiting_ok: "waiting demoWaiting ''bob'' 1" "waiting (demoWaiting\<lparr>c_users := u\<rparr>) ''bob'' 1"
  by (simp_all add: demoWaiting_def demoLive_def waiting_def demoClient_def newClient_def live_def conversationBlocked_def)
    (auto intro: exI [of _ 8])

theorem unanswered_pings_never_stop_witness:
  "length (filter (ping_to ''bob'') (c_sent (fold (kickRekey demoWorld) [9000, 18000, 27000] demoWaiting))) = 3"
proof -
  have "isOnline (c_users demoWaiting) ''bob''" "c_sent demoWaiting = []"
    using demoLive_facts by (simp_all add: demoWaiting_def)
  with unanswered_pings_never_stop [OF demo_hmac demo_values_law demoWaiting_ok(1), of "[9000, 18000, 27000]"]
  obtain fs where "c_sent (fold (kickRekey demoWorld) [9000, 18000, 27000] demoWaiting) = fs" "length fs = 3"
      "\<forall>f \<in> set fs. ping_to ''bob'' f"
    by auto
  then show ?thesis by simp
qed

theorem absent_peer_keeps_timer_witness:
  "c_kickActive (fold (kickRekey demoWorld) [9000, 18000, 900000] (demoWaiting\<lparr>c_users := newUserModel\<rparr>))"
proof -
  have "\<not> isOnline (c_users (demoWaiting\<lparr>c_users := newUserModel\<rparr>)) ''bob''"
    "valueOr 0 (c_rekeyPingResends (demoWaiting\<lparr>c_users := newUserModel\<rparr>)) ''bob'' < 5"
    by (simp_all add: isOnline_def newUserModel_def demoWaiting_def)
  from absent_peer_keeps_timer [OF demo_values_law demoWaiting_ok(2) this, of "[9000, 18000, 900000]"]
  show ?thesis by simp
qed

end
