(* ===== verification/Outbox.thy ===== *)
theory Outbox
  imports Heartbeat
begin

text \<open>
  Sending of \<open>ChatClient\<close> (\<^verbatim>\<open>client/src/chatclient.cpp\<close>): messages, edits and files, and the outbox that
  holds what cannot be sent yet, because the client is offline, the conversation is held by the
  verification gate or the session cannot send. A URL of a file is its local path.

  The lemmas show that nothing but control frames leaves for a peer whose conversation is blocked,
  that draining the outbox sends or keeps every queued text, in order, what a restart keeps of a queued
  message, and what draining does to an opener that waits and to the conversation on screen.
\<close>

section \<open>The outbox\<close>

definition deleteRowOf :: "PendingOut \<Rightarrow> ChatClient \<Rightarrow> ChatClient" where
  "deleteRowOf m c = (if 0 \<le> po_dbId m then c\<lparr>c_history := fst (deleteOutboxRow (c_history c) (po_dbId m))\<rparr> else c)"

definition requeue :: "PendingOut \<Rightarrow> ChatClient \<Rightarrow> ChatClient" where
  "requeue m c = c\<lparr>c_outbox := c_outbox c @ [m]\<rparr>"

definition queueOutbox :: "world \<Rightarrow> ChatClient \<Rightarrow> qstring \<Rightarrow> qstring \<Rightarrow> int \<Rightarrow> ChatClient \<times> qstring" where
  "queueOutbox W c peer plaintext ts =
     (let (c1, mid) = freshUuid W c;
          (c2, sealed) = boxSeal W c1 plaintext;
          (h, dbId) =
            (case sealed of None \<Rightarrow> (c_history c2, - 1)
             | Some (nonce, ct) \<Rightarrow>
                 (let h1 = fst (addTextRow (c_history c2) peer (c_nick c2) nonce ct ts True mid)
                  in if m_ready h1
                     then enqueueOutboxText h1 peer (nonce @ '':'' @ ct) ts (publicKeyHex (c_crypto c2)) []
                     else (h1, - 1)))
      in (requeue (newPendingOut\<lparr>po_dbId := dbId, po_kind := ''text'', po_peer := peer, po_plaintext := plaintext,
             po_mid := mid, po_ts := ts\<rparr>) (c2\<lparr>c_history := h\<rparr>), mid))"

definition queueOutboxFile :: "ChatClient \<Rightarrow> qstring \<Rightarrow> qstring \<Rightarrow> int \<Rightarrow> ChatClient" where
  "queueOutboxFile c peer srcPath ts =
     (let (h, dbId) = (if m_ready (c_history c)
                       then enqueueOutboxFile (c_history c) peer srcPath ts (publicKeyHex (c_crypto c))
                       else (c_history c, - 1))
      in requeue (newPendingOut\<lparr>po_dbId := dbId, po_kind := ''file'', po_peer := peer, po_srcPath := srcPath,
           po_ts := ts\<rparr>) (c\<lparr>c_history := h\<rparr>))"

definition queueHandshake :: "ChatClient \<Rightarrow> qstring \<Rightarrow> int \<Rightarrow> ChatClient" where
  "queueHandshake c peer ts =
     (let (h, dbId) = (if m_ready (c_history c)
                       then enqueueOutboxHandshake (c_history c) peer ts (publicKeyHex (c_crypto c))
                       else (c_history c, - 1))
      in requeue (newPendingOut\<lparr>po_dbId := dbId, po_kind := ''handshake'', po_peer := peer, po_ts := ts\<rparr>)
           (c\<lparr>c_history := h\<rparr>))"

definition queueVerifyAck :: "ChatClient \<Rightarrow> qstring \<Rightarrow> qstring \<Rightarrow> int \<Rightarrow> ChatClient" where
  "queueVerifyAck c peer identity ts =
     (let (h, dbId) = (if m_ready (c_history c)
                       then enqueueOutboxVerifyAck (c_history c) peer ts (publicKeyHex (c_crypto c)) identity
                       else (c_history c, - 1))
      in requeue (newPendingOut\<lparr>po_dbId := dbId, po_kind := ''verifyack'', po_peer := peer,
           po_peerIdentity := identity, po_ts := ts\<rparr>) (c\<lparr>c_history := h\<rparr>))"

text \<open>\<open>QString::indexOf(':')\<close> with \<open>left\<close> and \<open>mid\<close>: the parts around the first colon, unless it comes first or
  is missing.\<close>

definition splitColon :: "qstring \<Rightarrow> (qstring \<times> qstring) option" where
  "splitColon body =
     (let nonce = takeWhile (\<lambda>ch. ch \<noteq> CHR '':'') body
      in if nonce = [] \<or> nonce = body then None else Some (nonce, drop (Suc (length nonce)) body))"

definition restoreRow :: "world \<Rightarrow> OutboxRow \<Rightarrow> ChatClient \<Rightarrow> ChatClient" where
  "restoreRow W r c =
     (let po = newPendingOut\<lparr>po_dbId := int (o_id r), po_kind := o_kind r, po_peer := o_peer r, po_ts := o_ts r\<rparr>;
          mine = publicKeyHex (c_crypto c);
          dropped = c\<lparr>c_history := fst (deleteOutboxRow (c_history c) (int (o_id r)))\<rparr>
      in if o_kind r = ''text'' then
           (case splitColon (o_body r) of
              None \<Rightarrow> dropped
            | Some (nonce, ct) \<Rightarrow>
                (case localOpen (w_ext W) (c_crypto c) nonce ct of
                   Some (x # xs) \<Rightarrow> requeue (po\<lparr>po_plaintext := x # xs, po_mid := o_mid r\<rparr>) c
                 | _ \<Rightarrow> dropped))
         else if o_kind r = ''file'' then
           (if o_identity r \<noteq> [] \<and> o_identity r = mine then requeue (po\<lparr>po_srcPath := o_srcPath r\<rparr>) c else dropped)
         else if o_kind r = ''handshake'' then
           (if o_identity r = [] \<or> o_identity r = mine then requeue po c else dropped)
         else if o_kind r = ''verifyack'' then
           (if o_identity r = [] \<or> o_identity r = mine then requeue (po\<lparr>po_peerIdentity := o_body r\<rparr>) c else dropped)
         else c)"

definition restoreOutbox :: "world \<Rightarrow> ChatClient \<Rightarrow> ChatClient" where
  "restoreOutbox W c =
     (if \<not> m_ready (c_history c) then c else fold (restoreRow W) (loadOutbox (c_history c)) c)"

section \<open>Control frames\<close>

definition transmitVerifyAck :: "int \<Rightarrow> ChatClient \<Rightarrow> qstring \<Rightarrow> qstring \<Rightarrow> ChatClient \<times> bool" where
  "transmitVerifyAck now c peer identity =
     (if peer = [] \<or> \<not> c_connected c then (c, False)
      else (sendFrame c (VerifyAck (c_nick c) peer (publicKeyHex (c_crypto c)) identity now), True))"

definition sendOrQueueVerifyAck :: "int \<Rightarrow> ChatClient \<Rightarrow> qstring \<Rightarrow> ChatClient" where
  "sendOrQueueVerifyAck now c peer =
     (if peer = [] then c
      else
        (let identity = valueOr [] (c_peerKeys c) peer
         in if \<not> c_connected c then queueVerifyAck c peer identity now
            else (case transmitVerifyAck now c peer identity of
                    (c1, True) \<Rightarrow> c1
                  | (c1, False) \<Rightarrow> queueVerifyAck c1 peer identity now)))"

definition kHandshakeSentinel :: qstring where "kHandshakeSentinel = CHR 0x01 # ''__chate2ee_rebootstrap__''"

definition transmitHandshake :: "world \<Rightarrow> int \<Rightarrow> ChatClient \<Rightarrow> qstring \<Rightarrow> ChatClient \<times> bool" where
  "transmitHandshake W now c peer =
     (case boxEncrypt W c peer kHandshakeSentinel of
        (c1, EncOk w) \<Rightarrow>
          (persistSession W now (sendFrame c1 (Msg ((newMsgFrame c1 peer w now)
             \<lparr>mf_kind := ''handshake'', mf_ik := publicKeyHex (c_crypto c1)\<rparr>))) peer, True)
      | (c1, _) \<Rightarrow> (c1, False))"

definition sendOrQueueHandshake :: "world \<Rightarrow> int \<Rightarrow> ChatClient \<Rightarrow> qstring \<Rightarrow> ChatClient" where
  "sendOrQueueHandshake W now c peer =
     (if peer = [] then c
      else if \<not> c_connected c \<or> c_peerKeys c peer = None
      then queueHandshake (if c_peerKeys c peer = None then requestKeyFor c peer else c) peer now
      else (case transmitHandshake W now c peer of
              (c1, True) \<Rightarrow> c1
            | (c1, False) \<Rightarrow> queueHandshake c1 peer now))"

section \<open>Files\<close>

definition CHUNK_SIZE :: nat where "CHUNK_SIZE = 64 * 1024"
definition MAX_FILE_BYTES :: nat where "MAX_FILE_BYTES = 50 * 1024 * 1024"

record OutgoingFile =
  out_msgId :: qstring
  out_recipient :: qstring
  out_filename :: qstring
  out_mime :: qstring
  out_totalBytes :: int
  out_nextChunkIndex :: u32
  out_file :: bytes \<comment> \<open>what is still to be read\<close>
  out_crypto :: FileCrypto

definition chunkFrame :: "qstring \<Rightarrow> u32 \<Rightarrow> bytes \<Rightarrow> bytes" where
  "chunkFrame msgId idx ct = latin1 msgId @ be32 idx @ ct"

text \<open>The loop over the chunks; \<open>None\<close> when a chunk could not be encrypted.\<close>

function pumpLoop :: "external \<Rightarrow> ChatClient \<Rightarrow> OutgoingFile \<Rightarrow> ChatClient \<times> OutgoingFile option" where
  "pumpLoop E c out =
     (if out_file out = [] then (c, Some out)
      else
        (let chunk = take CHUNK_SIZE (out_file out);
             rest = drop CHUNK_SIZE (out_file out)
         in case encryptChunk E (out_crypto out) chunk (rest = []) of
              (fc, None) \<Rightarrow> (c, None)
            | (fc, Some ct) \<Rightarrow>
                pumpLoop E (sendFrame c (Binary (chunkFrame (out_msgId out) (out_nextChunkIndex out) ct)))
                  (out\<lparr>out_nextChunkIndex := out_nextChunkIndex out + 1, out_file := rest, out_crypto := fc\<rparr>)))"
  by pat_completeness auto
termination
  by (relation "measure (\<lambda>(E, c, out). length (out_file out))") (auto simp: CHUNK_SIZE_def)

declare pumpLoop.simps [simp del]

definition pumpOutgoingFile :: "world \<Rightarrow> int \<Rightarrow> ChatClient \<Rightarrow> OutgoingFile \<Rightarrow> ChatClient" where
  "pumpOutgoingFile W now c out =
     (case pumpLoop (w_ext W) c out of
        (c1, None) \<Rightarrow> c1
      | (c1, Some _) \<Rightarrow>
          (let c2 = sendFrame c1 (FileEnd (out_msgId out))
           in c2\<lparr>c_messages := fst (appendFileMessage (w_fmt W) now (c_messages c2) (c_nick c2) (out_msgId out)
                   (out_filename out) (out_mime out) (out_totalBytes out) [] True 0),
                 c_history := fst (addFileRow (c_history c2) (out_recipient out) (c_nick c2) (out_msgId out)
                   (out_filename out) (out_mime out) (out_totalBytes out) [] now True)\<rparr>))"

definition sendFile :: "world \<Rightarrow> int \<Rightarrow> ChatClient \<Rightarrow> qstring \<Rightarrow> ChatClient" where
  "sendFile W now c path =
     (if c_activePeer c = [] then c
      else if conversationBlocked c (c_activePeer c) then
        (if \<not> w_exists W path then c else queueOutboxFile c (c_activePeer c) path now)
      else if \<not> c_connected c then
        (if \<not> w_exists W path then c else queueOutboxFile c (c_activePeer c) path now)
      else if c_peerKeys c (c_activePeer c) = None then c
      else
        (case w_readFile W path of None \<Rightarrow> c
         | Some content \<Rightarrow>
             if content = [] \<or> MAX_FILE_BYTES < length content then c
             else
               (let peer = c_activePeer c;
                    (c1, msgId) = freshUuid W c;
                    c2 = c1\<lparr>c_sentFileSources := (c_sentFileSources c1)(msgId \<mapsto> path)\<rparr>;
                    fileKey = randomKey (w_rnd W (c_draws c2) 32);
                    (fc, ok) = initPush (w_ext W) (w_rnd W (c_draws c2 + 1) 24) newFileCrypto fileKey;
                    c3 = c2\<lparr>c_draws := c_draws c2 + 2\<rparr>
                in if fileKey = [] \<or> \<not> ok then c3
                   else
                     (case boxEncrypt W c3 peer (toHex fileKey) of
                        (c4, EncOk w) \<Rightarrow>
                          (let c5 = sendFrame c4 (FileInit \<lparr>fi_msgId = msgId, fi_from = c_nick c4, fi_to = peer,
                                 fi_filename = w_fileName W path, fi_mime = w_mime W path,
                                 fi_size = int (length content), fi_header = toHex (fc_header fc),
                                 fi_keyenc = Some w, fi_replayed = False\<rparr>);
                               c6 = noteOutboundTo W now (persistSession W now c5 peer) peer
                           in pumpOutgoingFile W now c6 \<lparr>out_msgId = msgId, out_recipient = peer,
                                out_filename = w_fileName W path, out_mime = w_mime W path,
                                out_totalBytes = int (length content), out_nextChunkIndex = 0,
                                out_file = content, out_crypto = fc\<rparr>)
                      | (c4, r) \<Rightarrow>
                          (let c5 = c4\<lparr>c_sentFileSources := (c_sentFileSources c4)(msgId := None)\<rparr>
                           in if r = EncNotReady then queueOutboxFile c5 peer path now else c5)))))"

section \<open>Draining the outbox\<close>

definition flushText :: "world \<Rightarrow> int \<Rightarrow> PendingOut \<Rightarrow> ChatClient \<Rightarrow> ChatClient" where
  "flushText W now m c =
     (let peer = po_peer m
      in case boxEncrypt W c peer (po_plaintext m) of
           (c1, EncNotReady) \<Rightarrow> requeue m c1
         | (c1, EncFailed) \<Rightarrow> deleteRowOf m c1
         | (c1, EncOk w) \<Rightarrow>
             (let (c2, mid) = (if po_mid m = [] then freshUuid W c1 else (c1, po_mid m));
                  c3 = sendFrame c2 (Msg ((newMsgFrame c2 peer w (po_ts m))\<lparr>mf_mid := mid\<rparr>))
              in deleteRowOf m (noteOutboundTo W now (persistSession W now c3 peer) peer)))"

definition flushItem :: "world \<Rightarrow> int \<Rightarrow> PendingOut \<Rightarrow> ChatClient \<Rightarrow> ChatClient" where
  "flushItem W now m c =
     (let peer = po_peer m
      in if \<not> c_connected c then requeue m c
         else if c_peerKeys c peer = None then requeue m (requestKeyFor c peer)
         else if (po_kind m = ''text'' \<or> po_kind m = ''file'') \<and> conversationBlocked c peer then requeue m c
         else if po_kind m = ''file'' then
           (if \<not> w_exists W (po_srcPath m) then deleteRowOf m c
            else
              (let c1 = sendFile W now (c\<lparr>c_activePeer := peer\<rparr>) (po_srcPath m)
               in deleteRowOf m (c1\<lparr>c_activePeer := c_activePeer c\<rparr>)))
         else if po_kind m = ''handshake'' then
           (case transmitHandshake W now c peer of
              (c1, False) \<Rightarrow> requeue m c1
            | (c1, True) \<Rightarrow> deleteRowOf m c1)
         else if po_kind m = ''verifyack'' then
           (if po_peerIdentity m = [] \<or> c_peerKeys c peer \<noteq> Some (po_peerIdentity m) then deleteRowOf m c
            else
              (case transmitVerifyAck now c peer (po_peerIdentity m) of
                 (c1, False) \<Rightarrow> requeue m c1
               | (c1, True) \<Rightarrow> deleteRowOf m c1))
         else flushText W now m c)"

definition flushOutbox :: "world \<Rightarrow> int \<Rightarrow> ChatClient \<Rightarrow> ChatClient" where
  "flushOutbox W now c =
     (if c_flushInProgress c \<or> c_outbox c = [] then c
      else (fold (flushItem W now) (c_outbox c) (c\<lparr>c_flushInProgress := True, c_outbox := []\<rparr>))
             \<lparr>c_flushInProgress := False\<rparr>)"

section \<open>Messages\<close>

definition queueAndShow :: "world \<Rightarrow> ChatClient \<Rightarrow> qstring \<Rightarrow> qstring \<Rightarrow> int \<Rightarrow> ChatClient" where
  "queueAndShow W c peer plaintext ts =
     (let (c1, mid) = queueOutbox W c peer plaintext ts
      in c1\<lparr>c_messages := fst (addMessage (w_fmt W) (c_messages c1) (c_nick c1) plaintext ts True mid)\<rparr>)"

text \<open>A text is kept sealed under the local key.\<close>

definition storeText ::
  "world \<Rightarrow> ChatClient \<Rightarrow> qstring \<Rightarrow> qstring \<Rightarrow> qstring \<Rightarrow> int \<Rightarrow> bool \<Rightarrow> qstring \<Rightarrow> ChatClient" where
  "storeText W c peer sender plaintext ts mine mid =
     (case boxSeal W c plaintext of
        (c1, None) \<Rightarrow> c1
      | (c1, Some (nonce, ct)) \<Rightarrow>
          c1\<lparr>c_history := fst (addTextRow (c_history c1) peer sender nonce ct ts mine mid)\<rparr>)"

text \<open>What \<open>sendMessage\<close> does once the text is encrypted.\<close>

definition deliverText :: "world \<Rightarrow> int \<Rightarrow> ChatClient \<Rightarrow> qstring \<Rightarrow> qstring \<Rightarrow> wire \<Rightarrow> ChatClient" where
  "deliverText W now c peer plaintext w =
     (let (c1, mid) = freshUuid W c;
          frame = (newMsgFrame c1 peer w now)\<lparr>mf_mid := mid, mf_x3dh := c_pendingX3dhHeader c1 peer\<rparr>;
          c2 = sendFrame (c1\<lparr>c_pendingX3dhHeader := (c_pendingX3dhHeader c1)(peer := None)\<rparr>) (Msg frame);
          c3 = sendTypingState c2 peer ''idle'';
          c4 = c3\<lparr>c_messages := fst (addMessage (w_fmt W) (c_messages c3) (c_nick c3) plaintext now True mid)\<rparr>;
          c5 = storeText W c4 peer (c_nick c4) plaintext now True mid
      in noteOutboundTo W now (persistSession W now c5 peer) peer)"

definition sendMessage :: "world \<Rightarrow> int \<Rightarrow> ChatClient \<Rightarrow> qstring \<Rightarrow> ChatClient" where
  "sendMessage W now c plaintext =
     (let peer = c_activePeer c
      in if peer = [] then c
         else if c_peerKeys c peer = None then requestKeyFor c peer
         else if conversationBlocked c peer then queueAndShow W c peer plaintext now
         else if \<not> c_connected c then queueAndShow W c peer plaintext now
         else
           (case boxEncrypt W c peer plaintext of
              (c1, EncNotReady) \<Rightarrow> queueAndShow W c1 peer plaintext now
            | (c1, EncFailed) \<Rightarrow> c1
            | (c1, EncOk w) \<Rightarrow> deliverText W now c1 peer plaintext w))"

text \<open>What \<open>editMessage\<close> does once the new text is encrypted.\<close>

definition deliverEdit :: "world \<Rightarrow> int \<Rightarrow> ChatClient \<Rightarrow> qstring \<Rightarrow> qstring \<Rightarrow> qstring \<Rightarrow> wire \<Rightarrow> ChatClient" where
  "deliverEdit W now c peer mid body w =
     (let c1 = sendFrame c (Msg ((newMsgFrame c peer w now)\<lparr>mf_mid := mid, mf_editOf := mid\<rparr>));
          c2 = c1\<lparr>c_messages := fst (fst (editTextByMid (w_fmt W) (c_messages c1) mid body))\<rparr>;
          c3 = (case boxSeal W c2 body of
                  (c3, None) \<Rightarrow> c3
                | (c3, Some (nonce, ct)) \<Rightarrow> c3\<lparr>c_history := fst (updateTextRow (c_history c3) mid nonce ct)\<rparr>)
      in persistSession W now c3 peer)"

definition editMessage :: "world \<Rightarrow> int \<Rightarrow> ChatClient \<Rightarrow> qstring \<Rightarrow> qstring \<Rightarrow> ChatClient" where
  "editMessage W now c mid newText =
     (let peer = c_activePeer c; body = w_trimmed W newText; row = indexOfMid (c_messages c) mid
      in if mid = [] \<or> peer = [] then c
         else if body = [] then c
         else if row < 0 then c
         else if \<not> isMineAt (c_messages c) row then c
         else if isFileAt (c_messages c) row then c
         else if row_deleted (c_messages c ! nat row) then c
         else if c_peerKeys c peer = None then requestKeyFor c peer
         else if conversationBlocked c peer then c
         else if \<not> c_connected c then c
         else
           (case boxEncrypt W c peer body of
              (c1, EncOk w) \<Rightarrow> deliverEdit W now c1 peer mid body w
            | (c1, _) \<Rightarrow> c1))"

definition resendMessage :: "world \<Rightarrow> int \<Rightarrow> ChatClient \<Rightarrow> qstring \<Rightarrow> ChatClient" where
  "resendMessage W now c mid =
     (let row = indexOfMid (c_messages c) mid
      in if mid = [] \<or> c_activePeer c = [] then c
         else if row < 0 then c
         else if \<not> isMineAt (c_messages c) row then c
         else if isFileAt (c_messages c) row then
           (case c_sentFileSources c mid of
              None \<Rightarrow> c
            | Some src \<Rightarrow> if src = [] then c else sendFile W now c src)
         else if textAt (c_messages c) row = [] then c
         else sendMessage W now c (textAt (c_messages c) row))"

section \<open>What sending changes\<close>

text \<open>The peer that a frame brings content of the user to.\<close>

fun content_to :: "net_frame \<Rightarrow> qstring option" where
  "content_to (Msg m) = (if mf_kind m = [] then Some (mf_to m) else None)"
| "content_to (FileInit i) = Some (fi_to i)"
| "content_to _ = None"

text \<open>A change that sends nothing, queues nothing and leaves keys, peers and the gate alone.\<close>

definition idle :: "ChatClient \<Rightarrow> ChatClient \<Rightarrow> bool" where
  "idle c c' \<longleftrightarrow> c_nick c' = c_nick c \<and> c_connected c' = c_connected c \<and> c_sent c' = c_sent c \<and> c_crypto c' = c_crypto c \<and>
     c_users c' = c_users c \<and> c_peerKeys c' = c_peerKeys c \<and> c_outbox c' = c_outbox c \<and>
     c_unverifiedKeyChange c' = c_unverifiedKeyChange c \<and> c_pendingBilateral c' = c_pendingBilateral c \<and>
     c_peerVerified c' = c_peerVerified c \<and> c_verifyAckResend c' = c_verifyAckResend c \<and>
     c_verifiedPeerIdentity c' = c_verifiedPeerIdentity c \<and>
     c_peerVerifiedForIdentity c' = c_peerVerifiedForIdentity c \<and> c_pendingX3dhHeader c' = c_pendingX3dhHeader c \<and>
     c_seenFrames c' = c_seenFrames c \<and> c_pendingFrames c' = c_pendingFrames c \<and> c_incoming c' = c_incoming c \<and>
     c_files c' = c_files c \<and> c_receivedFilePaths c' = c_receivedFilePaths c \<and> c_account c' = c_account c"

text \<open>A frame that brings no content and opens no session.\<close>

definition control_frame :: "net_frame \<Rightarrow> bool" where
  "control_frame f \<longleftrightarrow> content_to f = None \<and> (case f of Msg m \<Rightarrow> mf_x3dh m = None | _ \<Rightarrow> True)"

lemma control_frames [simp]:
  "control_frame (Msg m) \<longleftrightarrow> mf_kind m \<noteq> [] \<and> mf_x3dh m = None"
  "control_frame (GetKey p)" "control_frame (Binary b)" "control_frame (FileEnd i)" "control_frame (VerifyAck x1 x2 x3 x4 x5)"
  "control_frame (Typing x6 x7 x8)" "control_frame (VerifyResync x9 x10 x11 x12)"
  by (simp_all add: control_frame_def)

text \<open>Relations that the steps shared by all senders respect: changes of the above kind, encryption and
  frames without content. They then hold of the longer steps.\<close>

locale client_change = change_relation R for R :: "ChatClient \<Rightarrow> ChatClient \<Rightarrow> bool" +
  assumes idle: "idle c c' \<Longrightarrow> R c c'"
    and encrypt: "R c (fst (boxEncrypt W c peer pt))"
    and control: "control_frame f \<Longrightarrow> R c (sendFrame c f)"
begin

lemma updates:
  "R c (c\<lparr>c_messages := x1\<rparr>)" "R c (c\<lparr>c_history := x2\<rparr>)" "R c (c\<lparr>c_sentFileSources := x3\<rparr>)"
  "R c (c\<lparr>c_activePeer := x4\<rparr>)" "R c (c\<lparr>c_draws := x5\<rparr>)" "R c (c\<lparr>c_uuids := x6\<rparr>)"
  "R c (c\<lparr>c_sentSinceRatchet := x7\<rparr>)" "R c (c\<lparr>c_rekeyOutstanding := x8\<rparr>)" "R c (c\<lparr>c_rekeyPingSentAt := x9\<rparr>)"
  "R c (c\<lparr>c_rekeyPingResends := x10\<rparr>)" "R c (c\<lparr>c_kickActive := x11\<rparr>)" "R c (c\<lparr>c_rekeyKickTries := x12\<rparr>)"
  "R c (c\<lparr>c_flushInProgress := x13\<rparr>)" "R c (c\<lparr>c_typingPeer := x14\<rparr>)" "R c (c\<lparr>c_lastTypingStateSent := x15\<rparr>)"
  by (rule idle, simp add: idle_def)+

lemma persist: "R c (persistSession W now c peer)"
  by (rule idle) (simp add: idle_def persistSession_def)

lemma uuid: "R c (fst (freshUuid W c))"
  by (simp add: freshUuid_def updates)

lemma seal: "R c (fst (boxSeal W c pt))"
  by (simp add: boxSeal_def updates)

lemma deleted: "R c (deleteRowOf m c)"
  by (simp add: deleteRowOf_def updates refl)

lemma request: "R c (requestKeyFor c peer)"
  by (simp add: requestKeyFor_def control)

lemmas backs = updates [THEN trans [rotated]] encrypt [THEN trans [rotated]] persist [THEN trans [rotated]]
  uuid [THEN trans [rotated]] seal [THEN trans [rotated]] deleted [THEN trans [rotated]]
  request [THEN trans [rotated]] control [THEN trans [rotated]]

lemma transmit: "R c (fst (transmitRekey W now c peer isPong))"
proof -
  let ?s = "if isPong then kRekeyPongSentinel else kRekeyPingSentinel"
  obtain c1 r where enc: "boxEncrypt W c peer ?s = (c1, r)" by fastforce
  have c1: "R c c1" using encrypt [of c W peer ?s] enc by simp
  then have "R c (persistSession W now (sendFrame c1 (Msg ((newMsgFrame c1 peer w now)
      \<lparr>mf_kind := if isPong then ''rekey-pong'' else ''rekey-ping''\<rparr>))) peer)" for w
    by (intro backs) (simp_all add: newMsgFrame_def)
  with c1 refl [of c] show ?thesis unfolding transmitRekey_def enc by (cases r; cases isPong) simp_all
qed

lemma noted: "R c (noteOutboundTo W now c peer)"
proof -
  let ?c = "c\<lparr>c_sentSinceRatchet := (c_sentSinceRatchet c)(peer \<mapsto> valueOr 0 (c_sentSinceRatchet c) peer + 1)\<rparr>"
  obtain c1 ok where t: "transmitRekey W now ?c peer False = (c1, ok)" by fastforce
  have "R c c1" using transmit [of ?c W now peer False] t trans [OF updates(7)] by simp
  then have "R c (markRekeyPingSent now c1 peer)" "R c (startKick c1)"
    by (auto simp: markRekeyPingSent_def startKick_def intro!: backs)
  with t show ?thesis
    by (cases ok) (auto simp: noteOutboundTo_def Let_def intro: updates refl)
qed

lemma typing: "R c (sendTypingState c peer state)"
  by (auto simp: sendTypingState_def intro!: backs refl)

lemma store: "R c (storeText W c peer sender pt ts mine mid)"
  by (auto simp: storeText_def boxSeal_def split: option.split intro!: backs refl)

lemma handshake: "R c (fst (transmitHandshake W now c peer))"
proof -
  obtain c1 r where enc: "boxEncrypt W c peer kHandshakeSentinel = (c1, r)" by fastforce
  then have "R c c1" using encrypt [of c W peer kHandshakeSentinel] by simp
  then show ?thesis
    unfolding transmitHandshake_def enc
    by (cases r) (auto simp: newMsgFrame_def intro!: backs)
qed

lemma verifyack: "R c (fst (transmitVerifyAck now c peer identity))"
  by (auto simp: transmitVerifyAck_def intro!: control refl)

lemma pump_loop: "R c (fst (pumpLoop E c out))"
proof (induction E c out rule: pumpLoop.induct)
  case (1 E c out)
  have send: "R c (sendFrame c (Binary b))" for b by (rule control) simp
  let ?chunk = "take CHUNK_SIZE (out_file out)" and ?rest = "drop CHUNK_SIZE (out_file out)"
  obtain fc r where e: "encryptChunk E (out_crypto out) ?chunk (?rest = []) = (fc, r)" by fastforce
  show ?case
  proof (cases "out_file out = [] \<or> r = None")
    case True
    with e show ?thesis by (subst pumpLoop.simps) (auto simp: Let_def refl)
  next
    case False
    then obtain ct where ct: "out_file out \<noteq> []" "r = Some ct" by auto
    with e 1 [OF ct(1) HOL.refl HOL.refl e [symmetric] ct(2)] show ?thesis
      by (subst pumpLoop.simps) (simp add: Let_def trans [OF send])
  qed
qed

lemma pump: "R c (pumpOutgoingFile W now c out)"
proof -
  obtain c1 r where p: "pumpLoop (w_ext W) c out = (c1, r)" by fastforce
  then have "R c c1" using pump_loop [of c "w_ext W" out] by simp
  moreover from this have "R c (sendFrame c1 (FileEnd (out_msgId out)))"
    by (rule trans [OF _ control]) simp
  ultimately show ?thesis
    by (auto simp: pumpOutgoingFile_def p Let_def intro!: backs split: option.split)
qed

lemmas steps = backs noted [THEN trans [rotated]] typing [THEN trans [rotated]] store [THEN trans [rotated]]
  pump [THEN trans [rotated]]

end

text \<open>Only sessions advance or are added in the crypto box.\<close>

definition box_kept :: "CryptoBox \<Rightarrow> CryptoBox \<Rightarrow> bool" where
  "box_kept b b' \<longleftrightarrow> b'\<lparr>m_sessions := Map.empty\<rparr> = b\<lparr>m_sessions := Map.empty\<rparr> \<and>
     dom (m_sessions b) \<subseteq> dom (m_sessions b')"

lemma box_kept_trans: "box_kept a b \<Longrightarrow> box_kept b c \<Longrightarrow> box_kept a c"
  unfolding box_kept_def by (metis subset_trans)

lemma encryptFor_kept: "box_kept b (fst (encryptFor E rnd nonce b peer pt))"
  by (auto simp: encryptFor_def sessionFor_def box_kept_def Let_def case_prod_beta split: option.split)

text \<open>The kinds of entries that are ever queued.\<close>

definition kinds :: "qstring set" where "kinds = {''text'', ''file'', ''handshake'', ''verifyack''}"

definition content_ok :: "ChatClient \<Rightarrow> net_frame \<Rightarrow> bool" where
  "content_ok c f \<longleftrightarrow> (\<forall>p. content_to f = Some p \<longrightarrow> \<not> conversationBlocked c p)"

definition out_change :: "ChatClient \<Rightarrow> ChatClient \<Rightarrow> bool" where
  "out_change c c' \<longleftrightarrow> same_gate c c' \<and> c_peerKeys c' = c_peerKeys c \<and> box_kept (c_crypto c) (c_crypto c') \<and>
     (\<forall>m \<in> set (c_outbox c'). m \<in> set (c_outbox c) \<or> po_kind m \<in> kinds) \<and>
     (\<exists>fs. c_sent c' = c_sent c @ fs \<and> (\<forall>f \<in> set fs. content_ok c f))"

lemma out_send: "content_ok c f \<Longrightarrow> out_change c (sendFrame c f)"
  by (auto simp: out_change_def sendFrame_def same_gate_def box_kept_def)

interpretation out: client_change out_change
proof
  show "out_change c c" for c by (simp add: out_change_def same_gate_def box_kept_def)
  show "idle c c' \<Longrightarrow> out_change c c'" for c c' by (simp add: out_change_def same_gate_def box_kept_def idle_def)
  show "out_change c (fst (boxEncrypt W c peer pt))" for c W peer pt
    by (auto simp: out_change_def same_gate_def) (simp add: boxEncrypt_def encryptFor_kept case_prod_beta)
  show "control_frame f \<Longrightarrow> out_change c (sendFrame c f)" for f c
    by (rule out_send) (simp add: content_ok_def control_frame_def)
next
  fix a b c
  assume ab: "out_change a b" and bc: "out_change b c"
  then have gate: "same_gate a b" "same_gate b c" by (simp_all add: out_change_def)
  then have "content_ok b f = content_ok a f" for f
    by (simp add: same_gate_def content_ok_def conversationBlocked_def)
  moreover obtain fs gs where "c_sent b = c_sent a @ fs" "\<forall>f \<in> set fs. content_ok a f"
      "c_sent c = c_sent b @ gs" "\<forall>f \<in> set gs. content_ok b f"
    using ab bc by (auto simp: out_change_def)
  ultimately have "c_sent c = c_sent a @ (fs @ gs)" "\<forall>f \<in> set (fs @ gs). content_ok a f" by auto
  moreover have "same_gate a c" "c_peerKeys c = c_peerKeys a" "box_kept (c_crypto a) (c_crypto c)"
      "\<forall>m \<in> set (c_outbox c). m \<in> set (c_outbox a) \<or> po_kind m \<in> kinds"
    using ab bc box_kept_trans by (auto simp: out_change_def same_gate_def)
  ultimately show "out_change a c" unfolding out_change_def by blast
qed

lemma out_requeue: "po_kind m \<in> kinds \<Longrightarrow> out_change c (requeue m c)"
  by (auto simp: requeue_def out_change_def same_gate_def box_kept_def)

lemma out_opener: "out_change c (c\<lparr>c_pendingX3dhHeader := x\<rparr>)"
  by (auto simp: out_change_def same_gate_def box_kept_def)

lemma out_empty: "out_change c (c\<lparr>c_outbox := []\<rparr>)"
  by (auto simp: out_change_def same_gate_def box_kept_def)

lemmas out_steps = out.steps out_opener [THEN out.trans [rotated]] out_requeue [THEN out.trans [rotated]] out_send [THEN out.trans [rotated]]

lemma out_queue:
  "out_change c (queueOutboxFile c peer path ts)" "out_change c (queueHandshake c peer ts)"
  "out_change c (queueVerifyAck c peer identity ts)" "out_change c (fst (queueOutbox W c peer pt ts))"
  "out_change c (queueAndShow W c peer pt ts)"
  by (auto simp: queueOutboxFile_def queueHandshake_def queueVerifyAck_def queueOutbox_def queueAndShow_def
      case_prod_beta Let_def kinds_def newPendingOut_def intro!: out_steps out.refl)

lemmas out_queued = out_queue [THEN out.trans [rotated]]

lemma out_sendFile: "out_change c (sendFile W now c path)"
proof (cases "conversationBlocked c (c_activePeer c)")
  case True
  then show ?thesis by (auto simp: sendFile_def intro: out_queue out.refl)
next
  case False
  then show ?thesis
    unfolding sendFile_def Let_def case_prod_beta
    by (auto simp: freshUuid_def content_ok_def conversationBlocked_def split: encrypt_result.split option.split
      intro!: out.refl out_queue out_queued out_steps)
qed

lemma out_flushText:
  assumes "\<not> conversationBlocked c (po_peer m)" "po_kind m \<in> kinds"
  shows "out_change c (flushText W now m c)"
  using assms unfolding flushText_def Let_def case_prod_beta
  by (auto simp: content_ok_def newMsgFrame_def freshUuid_def conversationBlocked_def
      split: encrypt_result.split intro!: out_steps out.refl)

lemma out_flushItem:
  assumes "po_kind m \<in> kinds"
  shows "out_change c (flushItem W now m c)"
proof -
  let ?c = "sendFile W now (c\<lparr>c_activePeer := po_peer m\<rparr>) (po_srcPath m)"
  have "out_change c (deleteRowOf m (?c\<lparr>c_activePeer := c_activePeer c\<rparr>))"
    by (intro out_steps out.trans [OF out.updates(4) out_sendFile])
  moreover have "out_change c (requeue m (fst (transmitHandshake W now c (po_peer m))))"
    "out_change c (deleteRowOf m (fst (transmitHandshake W now c (po_peer m))))"
    "out_change c (requeue m (fst (transmitVerifyAck now c (po_peer m) (po_peerIdentity m))))"
    "out_change c (deleteRowOf m (fst (transmitVerifyAck now c (po_peer m) (po_peerIdentity m))))"
    "out_change c (requeue m c)" "out_change c (deleteRowOf m c)" "out_change c (requeue m (requestKeyFor c (po_peer m)))"
    by (intro out_steps out.handshake out.verifyack out.refl assms)+
  ultimately show ?thesis
    using assms out_flushText [OF _ assms, of c W now] unfolding flushItem_def Let_def case_prod_beta kinds_def
    by (simp split: bool.split) blast
qed

lemma out_flush:
  assumes "\<forall>m \<in> set (c_outbox c). po_kind m \<in> kinds"
  shows "out_change c (flushOutbox W now c)"
proof -
  let ?c = "c\<lparr>c_flushInProgress := True, c_outbox := []\<rparr>"
  have "out_change ?c (fold (flushItem W now) (c_outbox c) ?c)"
    using assms by (intro out.fold_change_set out_flushItem) auto
  moreover have "out_change c ?c" by (rule out.trans [OF out.updates(13) out_empty])
  ultimately have "out_change c (fold (flushItem W now) (c_outbox c) ?c)" by (metis out.trans)
  then have "out_change c (fold (flushItem W now) (c_outbox c) ?c\<lparr>c_flushInProgress := False\<rparr>)" by (rule out_steps)
  with out.refl [of c] show ?thesis by (simp add: flushOutbox_def)
qed

lemma out_deliverText:
  assumes "\<not> conversationBlocked c peer"
  shows "out_change c (deliverText W now c peer pt w)"
  using assms unfolding deliverText_def freshUuid_def Let_def prod.case
  by (intro out_steps out.refl)
    (simp add: content_ok_def newMsgFrame_def conversationBlocked_def)

lemma out_deliverEdit:
  assumes "\<not> conversationBlocked c peer"
  shows "out_change c (deliverEdit W now c peer mid body w)"
proof -
  have "content_ok c (Msg ((newMsgFrame c peer w now)\<lparr>mf_mid := mid, mf_editOf := mid\<rparr>))"
    using assms by (simp add: content_ok_def newMsgFrame_def)
  then show ?thesis
    by (auto simp: deliverEdit_def boxSeal_def Let_def split: option.split intro!: out_steps out.refl)
qed

lemma out_sendMessage: "out_change c (sendMessage W now c pt)"
proof -
  let ?p = "c_activePeer c"
  obtain c1 r where enc: "boxEncrypt W c ?p pt = (c1, r)" by fastforce
  have c1: "out_change c c1" using out.encrypt [of c W ?p pt] enc by simp
  have "\<not> conversationBlocked c ?p \<Longrightarrow> out_change c (deliverText W now c1 ?p pt w)" for w
    using c1 out.trans [OF c1 out_deliverText] by (auto simp: out_change_def same_gate_def conversationBlocked_def)
  moreover have "out_change c (queueAndShow W c ?p pt now)" "out_change c (queueAndShow W c1 ?p pt now)"
    "out_change c (requestKeyFor c ?p)"
    by (intro out_queued out_steps c1 out.refl)+
  ultimately show ?thesis
    using c1 out.refl [of c] by (cases r) (simp_all add: sendMessage_def enc Let_def)
qed

lemma out_editMessage: "out_change c (editMessage W now c mid body)"
proof -
  let ?p = "c_activePeer c" and ?b = "w_trimmed W body"
  obtain c1 r where enc: "boxEncrypt W c ?p ?b = (c1, r)" by fastforce
  have c1: "out_change c c1" using out.encrypt [of c W ?p ?b] enc by simp
  have "\<not> conversationBlocked c ?p \<Longrightarrow> out_change c (deliverEdit W now c1 ?p mid ?b w)" for w
    using c1 out.trans [OF c1 out_deliverEdit] by (auto simp: out_change_def same_gate_def conversationBlocked_def)
  with c1 out.refl [of c] out.request [of c ?p] show ?thesis
    by (cases r) (simp_all add: editMessage_def enc Let_def)
qed

lemma out_resend: "out_change c (resendMessage W now c mid)"
  by (auto simp: resendMessage_def Let_def out_sendMessage out_sendFile out.refl split: option.split)

lemma out_restore: "out_change c (restoreOutbox W c)"
proof -
  have "out_change c (restoreRow W r c)" for r c
    by (auto simp: restoreRow_def Let_def newPendingOut_def kinds_def split: option.split list.split
        intro!: out_requeue out.updates out.refl)
  then show ?thesis by (simp add: restoreOutbox_def out.refl out.fold_change)
qed

lemma out_acks: "out_change c (sendOrQueueVerifyAck now c peer)" "out_change c (sendOrQueueHandshake W now c peer)"
proof -
  have "out_change c (queueVerifyAck (fst (transmitVerifyAck now c peer i)) peer i now)" for i
    by (intro out_queued out.verifyack)
  then show "out_change c (sendOrQueueVerifyAck now c peer)"
    using out.verifyack [of c now peer]
    by (auto simp: sendOrQueueVerifyAck_def Let_def case_prod_beta out.refl out_queue split: bool.split)
  have "out_change c (queueHandshake (fst (transmitHandshake W now c peer)) peer now)"
    "out_change c (queueHandshake (requestKeyFor c peer) peer now)"
    by (intro out_queued out_steps out.handshake out.refl)+
  then show "out_change c (sendOrQueueHandshake W now c peer)"
    using out.handshake [of c W now peer]
    by (auto simp: sendOrQueueHandshake_def case_prod_beta out.refl out_queue split: bool.split)
qed

section \<open>The gate\<close>

text \<open>The calls that send or queue.\<close>

inductive out_step :: "world \<Rightarrow> ChatClient \<Rightarrow> ChatClient \<Rightarrow> bool" for W where
  message: "out_step W c (sendMessage W now c plaintext)"
| edit: "out_step W c (editMessage W now c mid newText)"
| sendfile: "out_step W c (sendFile W now c path)"
| resend: "out_step W c (resendMessage W now c mid)"
| flush: "out_step W c (flushOutbox W now c)"
| restore: "out_step W c (restoreOutbox W c)"
| verifyack: "out_step W c (sendOrQueueVerifyAck now c peer)"
| handshake: "out_step W c (sendOrQueueHandshake W now c peer)"
| switch: "out_step W c (c\<lparr>c_activePeer := peer\<rparr>)"

inductive out_run :: "world \<Rightarrow> ChatClient \<Rightarrow> ChatClient \<Rightarrow> bool" for W where
  start: "out_run W c c"
| step: "out_run W c c1 \<Longrightarrow> out_step W c1 c2 \<Longrightarrow> out_run W c c2"

lemma out_run_change:
  "out_run W c c' \<Longrightarrow> \<forall>m \<in> set (c_outbox c). po_kind m \<in> kinds \<Longrightarrow> out_change c c'"
proof (induction rule: out_run.induct)
  case (step c c1 c2)
  then have c1: "out_change c c1" by blast
  with step.prems have "\<forall>m \<in> set (c_outbox c1). po_kind m \<in> kinds" by (auto simp: out_change_def)
  with step.hyps(2) have "out_change c1 c2"
    by (cases rule: out_step.cases) (auto intro: out_sendMessage out_editMessage out_sendFile out_resend out_flush
        out_restore out_acks out.updates)
  with c1 show ?case by (rule out.trans)
qed (rule out.refl)

text \<open>C6 (safety). However messages, edits and files are sent, resent, queued, restored and drained, no frame
  that carries content of the user (a text, an edit, the start of a file) leaves for a peer whose
  conversation the verification gate blocks.\<close>

theorem blocked_peer_gets_no_content:
  assumes "out_run W c c'" "c_outbox c = []"
  shows "\<exists>fs. c_sent c' = c_sent c @ fs \<and>
    (\<forall>f \<in> set fs. \<forall>p. content_to f = Some p \<longrightarrow> \<not> conversationBlocked c p)"
  using out_run_change [OF assms(1)] assms(2) by (auto simp: out_change_def content_ok_def)

theorem blocked_peer_gets_no_content_witness:
  "Some ''bob'' \<notin> content_to ` set (c_sent (sendMessage demoWorld 5 (demoLive\<lparr>c_activePeer := ''bob'',
      c_peerKeys := [''bob'' \<mapsto> ''k''], c_pendingBilateral := {''bob''}\<rparr>) ''hi''))"
proof -
  let ?c = "demoLive\<lparr>c_activePeer := ''bob'', c_peerKeys := [''bob'' \<mapsto> ''k''], c_pendingBilateral := {''bob''}\<rparr>"
  have "out_run demoWorld ?c (sendMessage demoWorld 5 ?c ''hi'')"
    by (rule out_run.step [OF out_run.start out_step.message])
  moreover have "c_outbox ?c = []" "c_sent ?c = []" "conversationBlocked ?c ''bob''"
    by (simp_all add: demoLive_def demoClient_def newClient_def conversationBlocked_def)
  ultimately show ?thesis using blocked_peer_gets_no_content by fastforce
qed

section \<open>Draining loses nothing\<close>

definition texts :: "ChatClient \<Rightarrow> PendingOut list" where
  "texts c = filter (\<lambda>m. po_kind m = ''text'') (c_outbox c)"

text \<open>Addressee and identifier of the text messages that were sent.\<close>

fun text_id :: "net_frame \<Rightarrow> (qstring \<times> qstring) option" where
  "text_id (Msg f) = (if mf_kind f = [] then Some (mf_to f, mf_mid f) else None)"
| "text_id _ = None"

definition sentTexts :: "ChatClient \<Rightarrow> (qstring \<times> qstring) list" where
  "sentTexts c = List.map_filter text_id (c_sent c)"

text \<open>A call that neither queues nor sends a text.\<close>

definition no_text :: "ChatClient \<Rightarrow> ChatClient \<Rightarrow> bool" where
  "no_text c c' \<longleftrightarrow> texts c' = texts c \<and> sentTexts c' = sentTexts c"

interpretation nt: client_change no_text
proof
  show "no_text c (fst (boxEncrypt W c peer pt))" for c W peer pt by (simp add: no_text_def texts_def sentTexts_def)
  show "control_frame f \<Longrightarrow> no_text c (sendFrame c f)" for f c
    by (cases f) (auto simp: no_text_def control_frame_def texts_def sentTexts_def sendFrame_def List.map_filter_def split: if_splits)
qed (auto simp: no_text_def idle_def texts_def sentTexts_def)

lemma nt_requeue: "po_kind m \<noteq> ''text'' \<Longrightarrow> no_text c (requeue m c)"
  by (simp add: no_text_def texts_def sentTexts_def requeue_def)

lemma nt_file: "no_text c (queueOutboxFile c peer path ts)"
  by (auto simp: queueOutboxFile_def case_prod_beta Let_def newPendingOut_def
      intro!: nt.backs nt_requeue [THEN nt.trans [rotated]] nt.refl)

lemma nt_init: "no_text c (sendFrame c (FileInit i))"
  by (simp add: no_text_def texts_def sentTexts_def sendFrame_def List.map_filter_def)

lemma nt_sendFile: "no_text c (sendFile W now c path)"
  unfolding sendFile_def Let_def case_prod_beta
  by (auto simp: freshUuid_def split: encrypt_result.split option.split
      intro!: nt.refl nt_file nt_init [THEN nt.trans [rotated]] nt_file [THEN nt.trans [rotated]] nt.steps)

text \<open>A box that can encrypt to a peer: it has a session, or the keys to start one.\<close>

definition can_encrypt :: "CryptoBox \<Rightarrow> qstring \<Rightarrow> bool" where
  "can_encrypt b peer \<longleftrightarrow> m_sessions b peer \<noteq> None \<or> m_peerIdentity b peer \<noteq> None \<and> m_privateKey b \<noteq> []"

lemma can_encrypt_kept:
  assumes "box_kept b b'" "can_encrypt b peer"
  shows "can_encrypt b' peer"
proof -
  have eq: "b'\<lparr>m_sessions := Map.empty\<rparr> = b\<lparr>m_sessions := Map.empty\<rparr>" and "dom (m_sessions b) \<subseteq> dom (m_sessions b')"
    using assms(1) by (simp_all add: box_kept_def)
  moreover have "m_peerIdentity b' = m_peerIdentity b" "m_privateKey b' = m_privateKey b"
    using arg_cong [OF eq, of m_peerIdentity] arg_cong [OF eq, of m_privateKey] by simp_all
  ultimately show ?thesis using assms(2) by (auto simp: can_encrypt_def)
qed

lemma encrypt_not_failed: "can_encrypt (c_crypto c) peer \<Longrightarrow> snd (boxEncrypt W c peer pt) \<noteq> EncFailed"
  by (auto simp: can_encrypt_def boxEncrypt_def encryptFor_def sessionFor_def Let_def case_prod_beta split: option.split)

text \<open>What becomes of one entry.\<close>

lemma text_fate:
  assumes "po_kind m = ''text''" "po_mid m \<noteq> []" "can_encrypt (c_crypto c) (po_peer m)"
  shows "texts (flushItem W now m c) = texts c @ [m] \<and> sentTexts (flushItem W now m c) = sentTexts c \<or>
    texts (flushItem W now m c) = texts c \<and> sentTexts (flushItem W now m c) = sentTexts c @ [(po_peer m, po_mid m)]"
proof -
  let ?p = "po_peer m"
  obtain c1 r where enc: "boxEncrypt W c ?p (po_plaintext m) = (c1, r)" by fastforce
  have c1: "texts c1 = texts c" "sentTexts c1 = sentTexts c" "c_connected c1 = c_connected c"
    using nt.encrypt [of c W ?p "po_plaintext m"] boxEncrypt_frame(3) [of W c ?p "po_plaintext m"]
    by (simp_all add: enc no_text_def)
  have r: "r \<noteq> EncFailed" using encrypt_not_failed [OF assms(3), of W "po_plaintext m"] enc by simp
  have requeued: "texts (requeue m d) = texts d @ [m]" "sentTexts (requeue m d) = sentTexts d" for d
    using assms(1) by (simp_all add: requeue_def texts_def sentTexts_def)
  have request: "texts (requestKeyFor c ?p) = texts c" "sentTexts (requestKeyFor c ?p) = sentTexts c"
    using nt.request [of c ?p] by (simp_all add: no_text_def)
  have "texts (deleteRowOf m (noteOutboundTo W now (persistSession W now d ?p) ?p)) = texts d"
    "sentTexts (deleteRowOf m (noteOutboundTo W now (persistSession W now d ?p) ?p)) = sentTexts d" for d
    using nt.steps nt.refl [of d] by (simp_all add: no_text_def)
  then have "c_connected c \<Longrightarrow> texts (flushText W now m c) = texts c @ [m] \<and> sentTexts (flushText W now m c) = sentTexts c \<or>
      texts (flushText W now m c) = texts c \<and>
      sentTexts (flushText W now m c) = sentTexts c @ [(po_peer m, po_mid m)]"
    using r c1 assms(2) requeued
    by (cases r) (simp_all add: flushText_def enc Let_def sendFrame_def texts_def sentTexts_def newMsgFrame_def
        List.map_filter_def)
  with assms(1) requeued request show ?thesis by (simp add: flushItem_def Let_def)
qed

lemma other_fate:
  assumes "po_kind m \<in> kinds" "po_kind m \<noteq> ''text''"
  shows "no_text c (flushItem W now m c)"
proof -
  let ?c = "sendFile W now (c\<lparr>c_activePeer := po_peer m\<rparr>) (po_srcPath m)"
  have "no_text c (deleteRowOf m (?c\<lparr>c_activePeer := c_activePeer c\<rparr>))"
    by (intro nt.steps nt.trans [OF nt.updates(4) nt_sendFile])
  moreover have "no_text c (requeue m (fst (transmitHandshake W now c (po_peer m))))"
    "no_text c (deleteRowOf m (fst (transmitHandshake W now c (po_peer m))))"
    "no_text c (requeue m (fst (transmitVerifyAck now c (po_peer m) (po_peerIdentity m))))"
    "no_text c (deleteRowOf m (fst (transmitVerifyAck now c (po_peer m) (po_peerIdentity m))))"
    "no_text c (requeue m c)" "no_text c (deleteRowOf m c)" "no_text c (requeue m (requestKeyFor c (po_peer m)))"
    by (intro nt.steps nt_requeue [THEN nt.trans [rotated]] nt.handshake nt.verifyack nt.refl assms)+
  ultimately show ?thesis
    using assms unfolding flushItem_def Let_def case_prod_beta kinds_def by (simp split: bool.split) blast
qed

lemma flush_fates:
  assumes "\<forall>m \<in> set ms. po_kind m \<in> kinds \<and> (po_kind m = ''text'' \<longrightarrow> po_mid m \<noteq> [] \<and> can_encrypt (c_crypto c) (po_peer m))"
  shows "\<exists>gone kept. filter (\<lambda>m. po_kind m = ''text'') ms \<in> shuffles gone kept \<and>
    texts (fold (flushItem W now) ms c) = texts c @ kept \<and>
    sentTexts (fold (flushItem W now) ms c) = sentTexts c @ map (\<lambda>m. (po_peer m, po_mid m)) gone"
  using assms
proof (induction ms arbitrary: c)
  case (Cons m ms)
  let ?d = "flushItem W now m c"
  have "out_change c ?d" using Cons.prems by (intro out_flushItem) simp
  then have "can_encrypt (c_crypto c) p \<Longrightarrow> can_encrypt (c_crypto ?d) p" for p
    using can_encrypt_kept by (auto simp: out_change_def)
  with Cons.prems obtain gone kept where IH: "filter (\<lambda>m. po_kind m = ''text'') ms \<in> shuffles gone kept"
      "texts (fold (flushItem W now) ms ?d) = texts ?d @ kept"
      "sentTexts (fold (flushItem W now) ms ?d) = sentTexts ?d @ map (\<lambda>m. (po_peer m, po_mid m)) gone"
    using Cons.IH [of ?d] by auto
  show ?case
  proof (cases "po_kind m = ''text''")
    case True
    with Cons.prems text_fate [of m c W now] consider
        "texts ?d = texts c @ [m]" "sentTexts ?d = sentTexts c"
      | "texts ?d = texts c" "sentTexts ?d = sentTexts c @ [(po_peer m, po_mid m)]" by auto
    then show ?thesis
    proof cases
      case 1
      with IH True show ?thesis
        by (intro exI [of _ gone] exI [of _ "m # kept"]) (simp add: Cons_in_shuffles_rightI)
    next
      case 2
      with IH True show ?thesis
        by (intro exI [of _ "m # gone"] exI [of _ kept]) (simp add: Cons_in_shuffles_leftI)
    qed
  next
    case False
    with Cons.prems other_fate [of m c W now] IH show ?thesis by (auto simp: no_text_def)
  qed
qed (simp add: shuffles_commutes)

text \<open>C11 (safety). Draining the outbox loses no text and keeps the order: with keys for every addressee in the
  crypto box, the queued texts are an interleaving of those that were sent, under their own
  identifiers and in the order in which they were queued, and those that are still queued.\<close>

theorem flush_loses_no_text:
  assumes "\<not> c_flushInProgress c" "\<forall>m \<in> set (c_outbox c). po_kind m \<in> kinds"
    and "\<forall>m \<in> set (texts c). po_mid m \<noteq> [] \<and> can_encrypt (c_crypto c) (po_peer m)"
  shows "\<exists>gone kept. texts c \<in> shuffles gone kept \<and> texts (flushOutbox W now c) = kept \<and>
    sentTexts (flushOutbox W now c) = sentTexts c @ map (\<lambda>m. (po_peer m, po_mid m)) gone"
proof (cases "c_outbox c = []")
  case True
  then show ?thesis by (intro exI [of _ "[]"]) (simp add: flushOutbox_def texts_def)
next
  case False
  let ?c = "c\<lparr>c_flushInProgress := True, c_outbox := []\<rparr>"
  have "texts ?c = []" "sentTexts ?c = sentTexts c" by (simp_all add: texts_def sentTexts_def)
  moreover from assms have "\<forall>m \<in> set (c_outbox c). po_kind m \<in> kinds \<and>
      (po_kind m = ''text'' \<longrightarrow> po_mid m \<noteq> [] \<and> can_encrypt (c_crypto ?c) (po_peer m))"
    by (simp add: texts_def)
  from flush_fates [OF this, of W now] obtain gone kept where
      "texts c \<in> shuffles gone kept"
      "texts (fold (flushItem W now) (c_outbox c) ?c) = texts ?c @ kept"
      "sentTexts (fold (flushItem W now) (c_outbox c) ?c) = sentTexts ?c @ map (\<lambda>m. (po_peer m, po_mid m)) gone"
    by (auto simp: texts_def)
  moreover have "flushOutbox W now c = (fold (flushItem W now) (c_outbox c) ?c)\<lparr>c_flushInProgress := False\<rparr>"
    using False assms(1) by (simp add: flushOutbox_def)
  ultimately show ?thesis
    by (intro exI [of _ gone] exI [of _ kept]) (simp add: texts_def sentTexts_def)
qed

definition demoQueue :: ChatClient where
  "demoQueue = demoLive\<lparr>c_peerKeys := [''bob'' \<mapsto> ''k''], c_outbox :=
     [newPendingOut\<lparr>po_kind := ''text'', po_peer := ''bob'', po_plaintext := ''one'', po_mid := ''m1''\<rparr>,
      newPendingOut\<lparr>po_kind := ''text'', po_peer := ''bob'', po_plaintext := ''two'', po_mid := ''m2''\<rparr>]\<rparr>"

theorem flush_loses_no_text_witness:
  "\<exists>gone kept. texts demoQueue \<in> shuffles gone kept \<and> texts (flushOutbox demoWorld 5 demoQueue) = kept \<and>
     map snd (sentTexts (flushOutbox demoWorld 5 demoQueue)) = map po_mid gone"
proof -
  have "\<not> c_flushInProgress demoQueue" "sentTexts demoQueue = []"
    by (simp_all add: demoQueue_def demoLive_def demoClient_def newClient_def sentTexts_def List.map_filter_def)
  moreover have "\<forall>m \<in> set (c_outbox demoQueue). po_kind m \<in> kinds"
    "\<forall>m \<in> set (texts demoQueue). po_mid m \<noteq> [] \<and> can_encrypt (c_crypto demoQueue) (po_peer m)"
    by (simp_all add: demoQueue_def demoLive_def kinds_def texts_def can_encrypt_def)
  ultimately obtain gone kept where "texts demoQueue \<in> shuffles gone kept" "texts (flushOutbox demoWorld 5 demoQueue) = kept"
      "sentTexts (flushOutbox demoWorld 5 demoQueue) = map (\<lambda>m. (po_peer m, po_mid m)) gone"
    using flush_loses_no_text [of demoQueue demoWorld 5] by auto
  then show ?thesis by (intro exI [of _ gone] exI [of _ kept]) simp
qed

section \<open>A restart\<close>

lemma sealed_parts:
  assumes "localSeal E nonce b pt = Some (n, ct)" "nonce \<noteq> []"
  shows "n \<noteq> []" "CHR '':'' \<notin> set n"
proof -
  have "n = toHex nonce" using assms(1) by (auto simp: localSeal_def split: if_splits)
  moreover have "CHR '':'' \<notin> set (toHex xs)" for xs
  proof -
    have "length hexDigits = 16" by (simp add: hexDigits_def)
    then have "c \<in> set (toHex xs) \<Longrightarrow> c \<in> set hexDigits" for c
      using high_nibble_small low_nibble_small by (auto simp: toHex_def intro!: nth_mem)
    then show ?thesis by (auto simp: hexDigits_def)
  qed
  ultimately show "n \<noteq> []" "CHR '':'' \<notin> set n" using assms(2) by (auto simp: toHex_def neq_Nil_conv)
qed

lemma splitColon_join:
  assumes "n \<noteq> []" "CHR '':'' \<notin> set n"
  shows "splitColon (n @ '':'' @ ct) = Some (n, ct)"
proof -
  have "takeWhile (\<lambda>ch. ch \<noteq> CHR '':'') (n @ '':'' @ ct) = n"
    using assms(2) by (induction n) auto
  with assms(1) show ?thesis by (simp add: splitColon_def Let_def)
qed

lemma restoreRow_frame:
  "c_crypto (restoreRow W r c) = c_crypto c"
  "m_ready (c_history (restoreRow W r c)) = m_ready (c_history c)"
  "db_history (db (c_history (restoreRow W r c))) = db_history (db (c_history c))"
  by (simp_all add: restoreRow_def requeue_def deleteOutboxRow_def Let_def split: option.split list.split)

lemma restoreRows_frame:
  "c_crypto (fold (restoreRow W) rs c) = c_crypto c"
  "m_ready (c_history (fold (restoreRow W) rs c)) = m_ready (c_history c)"
  "db_history (db (c_history (fold (restoreRow W) rs c))) = db_history (db (c_history c))"
  by (induction rs arbitrary: c) (simp_all add: restoreRow_frame)

lemma loadOutbox_enqueued:
  assumes "m_ready h" "db_ok (db h)"
  shows "loadOutbox (fst (enqueueOutbox h r)) = loadOutbox h @ [r\<lparr>o_id := Suc (db_outboxSeq (db h))\<rparr>]"
proof -
  let ?rows = "db_outbox (db h) @ [r\<lparr>o_id := Suc (db_outboxSeq (db h))\<rparr>]"
  have old: "sorted_wrt (<) (map o_id (db_outbox (db h)))" "\<forall>x \<in> set (db_outbox (db h)). o_id x \<le> db_outboxSeq (db h)"
    using assms(2) by (simp_all add: db_ok_def)
  then have "sorted_wrt (<) (map o_id ?rows)" by (auto simp: sorted_wrt_append)
  with old(1) show ?thesis
    using assms(1) sorted_ids_filter [of o_id ?rows "\<lambda>_. True"]
      sorted_ids_filter [of o_id "db_outbox (db h)" "\<lambda>_. True"]
    by (simp add: loadOutbox_def enqueueOutbox_def Let_def)
qed

text \<open>A text that is queued comes back after a restart, last in the outbox, with its addressee,
  its words and its time, but without its identifier: the stored row does not carry it. The row of
  the local history keeps the identifier, so the message is later sent under another one.\<close>

theorem queued_text_after_restart:
  assumes laws: "aead_law (w_ext W)" "hex_law (w_ext W)" "text_law (w_ext W)"
    and c: "m_ready (c_history c)" "db_ok (db (c_history c))" "m_privateKey (c_crypto c) \<noteq> []"
      "w_rnd W (c_draws c) 24 \<noteq> []" "pt \<noteq> []"
    and queued: "queueOutbox W c peer pt ts = (c1, mid)" "mid \<noteq> []"
    and d: "c_history d = c_history c1" "c_crypto d = c_crypto c"
  shows "\<exists>po. c_outbox c1 = c_outbox c @ [po] \<and> po_mid po = mid \<and> po_plaintext po = pt \<and> po_peer po = peer \<and>
    c_outbox (restoreOutbox W d) \<noteq> [] \<and> last (c_outbox (restoreOutbox W d)) = po\<lparr>po_mid := []\<rparr> \<and>
    (\<exists>r \<in> set (db_history (db (c_history (restoreOutbox W d)))). h_peer r = peer \<and> h_msgId r = Some mid)"
proof -
  obtain n ct where seal: "localSeal (w_ext W) (w_rnd W (c_draws c) 24) (c_crypto c) pt = Some (n, ct)"
    using c(3) by (auto simp: localSeal_def)
  define h1 where "h1 = fst (addTextRow (c_history c) peer (c_nick c) n ct ts True mid)"
  define row where "row = \<lparr>o_id = 0, o_kind = ''text'', o_peer = peer, o_body = n @ '':'' @ ct, o_srcPath = [],
    o_identity = publicKeyHex (c_crypto c), o_mid = [], o_ts = ts\<rparr>"
  define rid where "rid = Suc (db_outboxSeq (db h1))"
  have mid: "mid = w_uuid W (c_uuids c)"
    using queued(1) by (simp add: queueOutbox_def freshUuid_def case_prod_beta Let_def)
  have h1: "m_ready h1" "db_ok (db h1)" "\<exists>r \<in> set (db_history (db h1)). h_peer r = peer \<and> h_msgId r = Some mid"
    using c(1,2) queued(2) by (simp_all add: h1_def addTextRow_def db_ok_insertHistory)
      (simp add: insertHistory_def emptyRow_def)
  define po where "po = newPendingOut\<lparr>po_dbId := int rid, po_kind := ''text'', po_peer := peer, po_plaintext := pt,
    po_mid := mid, po_ts := ts\<rparr>"
  have c1: "c_history c1 = fst (enqueueOutbox h1 row)" "c_outbox c1 = c_outbox c @ [po]"
    using queued(1) h1(1) seal mid
    by (auto simp: queueOutbox_def freshUuid_def boxSeal_def Let_def h1_def enqueueOutboxText_def row_def
        enqueueOutbox_def requeue_def po_def rid_def case_prod_beta)
  define e where "e = fold (restoreRow W) (loadOutbox h1) d"
  have e: "c_crypto e = c_crypto c" "db_history (db (c_history e)) = db_history (db h1)"
    using h1(1) by (simp_all add: e_def restoreRows_frame d c1 enqueueOutbox_def Let_def)
  have "restoreOutbox W d = restoreRow W (row\<lparr>o_id := rid\<rparr>) e"
    using h1(1) loadOutbox_enqueued [OF h1(1,2), of row]
    by (simp add: restoreOutbox_def d(1) c1(1) e_def rid_def enqueueOutbox_def Let_def)
  moreover obtain x xs where "pt = x # xs" using c(5) by (cases pt) auto
  ultimately have "restoreOutbox W d = requeue (po\<lparr>po_mid := []\<rparr>) e"
    using splitColon_join [OF sealed_parts [OF seal c(4)], of ct] seal_opens [OF laws seal]
    by (simp add: restoreRow_def row_def e(1) po_def newPendingOut_def)
  then show ?thesis
    using c1(2) e(2) h1(3) by (auto simp: requeue_def po_def newPendingOut_def)
qed

theorem queued_text_after_restart_witness:
  "po_mid (last (c_outbox (restoreOutbox demoWorld (demoClient\<lparr>c_history :=
     c_history (fst (queueOutbox demoWorld demoClient ''bob'' ''hi'' 3))\<rparr>)))) = []"
proof -
  let ?d = "demoClient\<lparr>c_history := c_history (fst (queueOutbox demoWorld demoClient ''bob'' ''hi'' 3))\<rparr>"
  have c: "m_ready (c_history demoClient)" "db_ok (db (c_history demoClient))" "m_privateKey (c_crypto demoClient) \<noteq> []"
    "w_rnd demoWorld (c_draws demoClient) 24 \<noteq> []"
    using demoStore_facts by (simp_all add: demoClient_def newClient_def demoPeerA_def demoWorld_def)
  obtain c1 mid where q: "queueOutbox demoWorld demoClient ''bob'' ''hi'' 3 = (c1, mid)" by fastforce
  then have "mid \<noteq> []" by (auto simp: queueOutbox_def freshUuid_def case_prod_beta Let_def demoWorld_def)
  have "aead_law (w_ext demoWorld)" "hex_law (w_ext demoWorld)" "text_law (w_ext demoWorld)"
    by (simp_all add: demo_laws demo_text_law)
  from queued_text_after_restart [OF this c _ q \<open>mid \<noteq> []\<close>, of ?d] obtain po where
    "last (c_outbox (restoreOutbox demoWorld ?d)) = po\<lparr>po_mid := []\<rparr>" by (auto simp: q)
  then show ?thesis by simp
qed

section \<open>The opener of a session\<close>

text \<open>A call that sends no opener and leaves those that wait.\<close>

definition no_opener :: "ChatClient \<Rightarrow> ChatClient \<Rightarrow> bool" where
  "no_opener c c' \<longleftrightarrow> c_pendingX3dhHeader c' = c_pendingX3dhHeader c \<and>
     (\<exists>fs. c_sent c' = c_sent c @ fs \<and> (\<forall>m. Msg m \<in> set fs \<longrightarrow> mf_x3dh m = None))"

lemma no_opener_send: "(\<And>m. f = Msg m \<Longrightarrow> mf_x3dh m = None) \<Longrightarrow> no_opener c (sendFrame c f)"
  by (auto simp: no_opener_def sendFrame_def)

text \<open>Relations that sending content and queueing respect too. They then hold of draining the outbox.\<close>

locale drain_change = client_change +
  assumes send: "(\<And>m. f = Msg m \<Longrightarrow> mf_x3dh m = None) \<Longrightarrow> R c (sendFrame c f)"
    and requeued: "R c (requeue m c)"
    and emptied: "R c (c\<lparr>c_outbox := []\<rparr>)"
begin

lemma queued_file: "R c (queueOutboxFile c peer path ts)"
  by (auto simp: queueOutboxFile_def case_prod_beta Let_def intro!: backs requeued [THEN trans [rotated]] refl)

lemma queued_control: "R c (queueHandshake c peer ts)" "R c (queueVerifyAck c peer identity ts)"
  by (auto simp: queueHandshake_def queueVerifyAck_def case_prod_beta Let_def
      intro!: backs requeued [THEN trans [rotated]] refl)

lemmas drains = steps requeued [THEN trans [rotated]] queued_file [THEN trans [rotated]]
  queued_control [THEN trans [rotated]] send [THEN trans [rotated]]

lemma file_sent: "R c (sendFile W now c path)"
  unfolding sendFile_def Let_def case_prod_beta
  by (auto simp: freshUuid_def split: encrypt_result.split option.split intro!: refl queued_file drains)

lemma text_drained: "R c (flushText W now m c)"
proof -
  obtain c1 r where enc: "boxEncrypt W c (po_peer m) (po_plaintext m) = (c1, r)" by fastforce
  then have "R c c1" using encrypt [of c W "po_peer m" "po_plaintext m"] by simp
  then show ?thesis
    by (cases r) (auto simp: flushText_def enc Let_def freshUuid_def newMsgFrame_def intro!: drains)
qed

lemma item_drained: "R c (flushItem W now m c)"
proof -
  let ?c = "sendFile W now (c\<lparr>c_activePeer := po_peer m\<rparr>) (po_srcPath m)"
  have "R c (deleteRowOf m (?c\<lparr>c_activePeer := c_activePeer c\<rparr>))"
    by (intro drains trans [OF updates(4) file_sent])
  moreover have "R c (requeue m (fst (transmitHandshake W now c (po_peer m))))"
    "R c (deleteRowOf m (fst (transmitHandshake W now c (po_peer m))))"
    "R c (requeue m (fst (transmitVerifyAck now c (po_peer m) (po_peerIdentity m))))"
    "R c (deleteRowOf m (fst (transmitVerifyAck now c (po_peer m) (po_peerIdentity m))))"
    "R c (requeue m c)" "R c (deleteRowOf m c)" "R c (requeue m (requestKeyFor c (po_peer m)))"
    by (intro drains handshake verifyack refl)+
  ultimately show ?thesis
    using text_drained [of c W now m] unfolding flushItem_def Let_def case_prod_beta by (simp split: bool.split)
qed

lemma drained: "R c (flushOutbox W now c)"
proof -
  let ?c = "c\<lparr>c_flushInProgress := True, c_outbox := []\<rparr>"
  have "R ?c (fold (flushItem W now) (c_outbox c) ?c)" by (rule fold_change [OF item_drained])
  moreover have "R c ?c" by (rule trans [OF updates(13) emptied])
  ultimately have "R c ((fold (flushItem W now) (c_outbox c) ?c)\<lparr>c_flushInProgress := False\<rparr>)"
    by (intro backs) (metis trans)
  with refl [of c] show ?thesis by (simp add: flushOutbox_def)
qed

lemma ack_sent: "R c (sendOrQueueVerifyAck now c peer)"
proof -
  have "R c (queueVerifyAck (fst (transmitVerifyAck now c peer i)) peer i now)" for i
    by (intro drains verifyack)
  then show ?thesis
    using verifyack [of c now peer]
    by (auto simp: sendOrQueueVerifyAck_def Let_def case_prod_beta refl queued_control split: bool.split)
qed

lemma handshake_sent: "R c (sendOrQueueHandshake W now c peer)"
proof -
  have "R c (queueHandshake (fst (transmitHandshake W now c peer)) peer now)"
    "R c (queueHandshake (requestKeyFor c peer) peer now)"
    by (intro drains handshake refl)+
  then show ?thesis
    using handshake [of c W now peer]
    by (auto simp: sendOrQueueHandshake_def case_prod_beta refl queued_control split: bool.split)
qed

end

interpretation op: drain_change no_opener
proof
  show "control_frame f \<Longrightarrow> no_opener c (sendFrame c f)" for f c by (rule no_opener_send) auto
  show "(\<And>m. f = Msg m \<Longrightarrow> mf_x3dh m = None) \<Longrightarrow> no_opener c (sendFrame c f)" for f c by (rule no_opener_send)
  show "no_opener a c" if "no_opener a b" "no_opener b c" for a b c
  proof -
    from that obtain fs gs where "c_sent b = c_sent a @ fs" "c_sent c = c_sent b @ gs"
        "\<forall>m. Msg m \<in> set (fs @ gs) \<longrightarrow> mf_x3dh m = None"
      by (auto simp: no_opener_def)
    with that show ?thesis by (auto simp: no_opener_def)
  qed
qed (auto simp: no_opener_def idle_def requeue_def)

text \<open>A message that is sent directly, and its frame.\<close>

lemma message_frame:
  assumes law: "hmac_law (w_ext W)" and c: "c_activePeer c = peer" "peer \<noteq> []" "\<not> conversationBlocked c peer" "c_connected c"
      "c_peerKeys c peer \<noteq> None" "live c peer"
  obtains c1 w f where "boxEncrypt W c peer pt = (c1, EncOk w)" "Msg f \<in> set (c_sent (sendMessage W now c pt))"
    "mf_from f = c_nick c" "mf_to f = peer" "mf_kind f = []" "mf_editOf f = []" "mf_wire f = w" "mf_ts f = now"
    "mf_x3dh f = c_pendingX3dhHeader c peer" "c_pendingX3dhHeader (sendMessage W now c pt) = (c_pendingX3dhHeader c)(peer := None)"
proof -
  obtain c1 w where enc: "boxEncrypt W c peer pt = (c1, EncOk w)" using boxEncrypt_live [OF law c(6)] by blast
  have "c1 = fst (boxEncrypt W c peer pt)" using enc by simp
  then have c1: "c_connected c1" "c_nick c1 = c_nick c" "c_pendingX3dhHeader c1 = c_pendingX3dhHeader c" using c(4) by simp_all
  let ?c2 = "fst (freshUuid W c1)"
  define f where "f = (newMsgFrame ?c2 peer w now)\<lparr>mf_mid := snd (freshUuid W c1), mf_x3dh := c_pendingX3dhHeader ?c2 peer\<rparr>"
  define c3 where "c3 = sendFrame (?c2\<lparr>c_pendingX3dhHeader := (c_pendingX3dhHeader ?c2)(peer := None)\<rparr>) (Msg f)"
  have f: "Msg f \<in> set (c_sent c3)" "mf_from f = c_nick c" "mf_to f = peer" "mf_kind f = []" "mf_editOf f = []" "mf_wire f = w"
      "mf_ts f = now" "mf_x3dh f = c_pendingX3dhHeader c peer" "c_pendingX3dhHeader c3 = (c_pendingX3dhHeader c)(peer := None)"
    using c1 by (simp_all add: c3_def freshUuid_def sendFrame_def f_def newMsgFrame_def)
  let ?t = "sendTypingState c3 peer ''idle''" and ?mid = "snd (freshUuid W c1)"
  let ?m = "?t\<lparr>c_messages := fst (addMessage (w_fmt W) (c_messages ?t) (c_nick ?t) pt now True ?mid)\<rparr>"
  have "sendMessage W now c pt =
      noteOutboundTo W now (persistSession W now (storeText W ?m peer (c_nick ?m) pt now True ?mid) peer) peer"
    using c enc by (auto simp: sendMessage_def deliverText_def Let_def case_prod_beta c3_def f_def freshUuid_def)
  moreover have "no_opener c3 \<dots>" by (intro op.steps op.refl)
  ultimately have "no_opener c3 (sendMessage W now c pt)" by simp
  then have "Msg f \<in> set (c_sent (sendMessage W now c pt))"
      "c_pendingX3dhHeader (sendMessage W now c pt) = (c_pendingX3dhHeader c)(peer := None)"
    using f(1,9) by (auto simp: no_opener_def)
  from that [OF enc this(1) f(2-8) this(2)] show thesis .
qed

text \<open>The opener of a session that was started from a prekey bundle goes out with the first
  message that is sent directly, and only once. A message that was queued does not take it along:
  draining the outbox sends every frame without an opener and leaves the opener waiting.\<close>

theorem opener_only_on_direct_send:
  assumes "hmac_law (w_ext W)" "live c peer" "\<not> conversationBlocked c peer" "c_connected c" "c_peerKeys c peer = Some k"
    "c_activePeer c = peer" "peer \<noteq> []" "c_pendingX3dhHeader c peer = Some hdr"
  shows "(\<exists>m. Msg m \<in> set (c_sent (sendMessage W now c pt)) \<and> mf_to m = peer \<and> mf_x3dh m = Some hdr) \<and>
    c_pendingX3dhHeader (sendMessage W now c pt) peer = None \<and>
    c_pendingX3dhHeader (flushOutbox W now c) peer = Some hdr \<and>
    (\<exists>fs. c_sent (flushOutbox W now c) = c_sent c @ fs \<and> (\<forall>m. Msg m \<in> set fs \<longrightarrow> mf_x3dh m = None))"
proof -
  have "c_peerKeys c peer \<noteq> None" using assms(5) by simp
  then obtain f where "Msg f \<in> set (c_sent (sendMessage W now c pt))" "mf_to f = peer" "mf_x3dh f = Some hdr"
      "c_pendingX3dhHeader (sendMessage W now c pt) peer = None"
    using message_frame [OF assms(1,6,7,3,4) _ assms(2), of pt now] assms(8) by (metis fun_upd_same)
  with op.drained [of c W now] assms(8) show ?thesis by (auto simp: no_opener_def)
qed

theorem opener_only_on_direct_send_witness:
  "c_pendingX3dhHeader (flushOutbox demoWorld 5 (demoQueue\<lparr>c_activePeer := ''bob'', c_pendingX3dhHeader :=
      [''bob'' \<mapsto> \<lparr>xh_ikA = [1], xh_ekA = [2], xh_opkId = 3, xh_spkUsed = [4]\<rparr>]\<rparr>)) ''bob'' \<noteq> None"
proof -
  let ?h = "\<lparr>xh_ikA = [1], xh_ekA = [2], xh_opkId = 3, xh_spkUsed = [4]\<rparr>"
  let ?c = "demoQueue\<lparr>c_activePeer := ''bob'', c_pendingX3dhHeader := [''bob'' \<mapsto> ?h]\<rparr>"
  have "live ?c ''bob''" "\<not> conversationBlocked ?c ''bob''" "c_connected ?c" "c_peerKeys ?c ''bob'' = Some ''k''"
    "c_activePeer ?c = ''bob''" "''bob'' \<noteq> []" "c_pendingX3dhHeader ?c ''bob'' = Some ?h"
    using demoLive_facts by (simp_all add: demoQueue_def live_def conversationBlocked_def)
  from opener_only_on_direct_send [OF demo_hmac this, of 5] show ?thesis by simp
qed

end
