(* ===== verification/Verification.thy ===== *)
theory Verification
  imports Outbox
begin

text \<open>
  The verification gate of \<open>ChatClient\<close> (\<^verbatim>\<open>client/src/chatclient.cpp\<close>): a new or changed identity key of a
  peer opens an episode, in which the conversation is blocked until the user has confirmed the safety
  number and the peer has told that it has done the same.

  The lemmas show that every call keeps the invariant of the gate, that an episode ends exactly when both sides have confirmed,
  in whichever order, that two clients open the conversation for each other, that a changed key always
  closes the gate, that stale confirmations change nothing, and that the warning is written once.
\<close>

section \<open>Lines in the conversation\<close>

definition systemLine :: "world \<Rightarrow> int \<Rightarrow> ChatClient \<Rightarrow> qstring \<Rightarrow> qstring \<Rightarrow> ChatClient" where
  "systemLine W now c peer line =
     (let c1 = (if peer = c_activePeer c
                then c\<lparr>c_messages := fst (addSystem (w_fmt W) now (c_messages c) line)\<rparr> else c)
      in if m_ready (c_history c1) then c1\<lparr>c_history := fst (addSystemRow (c_history c1) peer line now)\<rparr> else c1)"

definition warningLine :: "qstring \<Rightarrow> qstring" where
  "warningLine peer = [CHR 0xE2, CHR 0x9A, CHR 0xA0, CHR 0xEF, CHR 0xB8, CHR 0x8F] @ '' Security warning: '' @ peer @
     '''s safety number has CHANGED. This can happen if they reinstalled the app or switched device '' @
     ''-- but it can also mean someone is intercepting your messages. Verify the new safety number with '' @
     peer @ '' over a trusted channel before continuing.''"

definition waitingLine :: "qstring \<Rightarrow> qstring" where
  "waitingLine peer = ''You verified '' @ peer @ '''s safety number. You can send messages now; '' @
     ''they'll be delivered when '' @ peer @ '' is online. ('' @ peer @
     '' hasn't verified your safety number yet.)''"

definition bothLine :: "qstring \<Rightarrow> qstring" where
  "bothLine today = ''Safety number verified by both parties on '' @ today @ '' '' @
     [CHR 0xE2, CHR 0x80, CHR 0x94] @ '' you can now send messages.''"

definition nudgeLine :: "qstring \<Rightarrow> qstring" where
  "nudgeLine peer = peer @ '' verified your safety number. Verify '' @ peer @ '' to start exchanging messages.''"

section \<open>Opening an episode\<close>

definition kVerifyResyncMinIntervalMs :: int where "kVerifyResyncMinIntervalMs = 3000"

definition sendVerifyResync :: "int \<Rightarrow> ChatClient \<Rightarrow> qstring \<Rightarrow> ChatClient" where
  "sendVerifyResync now c peer =
     (if peer = [] \<or> \<not> c_connected c then c
      else
        (let lastMs = valueOr 0 (c_lastVerifyResyncMs c) peer
         in if lastMs \<noteq> 0 \<and> now - lastMs < kVerifyResyncMinIntervalMs then c
            else sendFrame (c\<lparr>c_lastVerifyResyncMs := (c_lastVerifyResyncMs c)(peer \<mapsto> now)\<rparr>)
                   (VerifyResync (c_nick c) peer (publicKeyHex (c_crypto c)) now)))"

definition flagKeyChange :: "world \<Rightarrow> int \<Rightarrow> ChatClient \<Rightarrow> qstring \<Rightarrow> ChatClient" where
  "flagKeyChange W now c peer =
     (let alreadyFlagged = (peer \<in> c_unverifiedKeyChange c);
          c1 = c\<lparr>c_unverifiedKeyChange := insert peer (c_unverifiedKeyChange c),
                 c_pendingBilateral := insert peer (c_pendingBilateral c)\<rparr>;
          c2 = (if valueOr [] (c_peerVerifiedForIdentity c1) peer \<noteq> publicKeyHex (c_crypto c1)
                then sendVerifyResync now (c1\<lparr>c_peerVerified := c_peerVerified c1 - {peer}\<rparr>) peer
                else c1)
      in if alreadyFlagged then c2 else systemLine W now c2 peer (warningLine peer))"

section \<open>Closing an episode\<close>

definition maybeResendVerifyAck :: "int \<Rightarrow> ChatClient \<Rightarrow> qstring \<Rightarrow> ChatClient" where
  "maybeResendVerifyAck now c peer =
     (if peer \<notin> c_verifyAckResend c then c
      else if peer \<notin> c_pendingBilateral c then c
      else if peer \<in> c_unverifiedKeyChange c then c
      else if peer \<in> c_peerVerified c then c
      else if c_peerKeys c peer = None then c
      else sendOrQueueVerifyAck now c peer)"

definition recordResolved :: "int \<Rightarrow> ChatClient \<Rightarrow> qstring \<Rightarrow> ChatClient" where
  "recordResolved now c peer =
     (let peerIdentity = valueOr [] (c_peerKeys c) peer;
          mine = publicKeyHex (c_crypto c);
          c1 = (if peerIdentity = [] then c
                else c\<lparr>c_verifiedPeerIdentity := (c_verifiedPeerIdentity c)(peer \<mapsto> peerIdentity),
                       c_history := (if m_ready (c_history c)
                                     then fst (recordVerifiedPeerIdentity (c_history c) peer peerIdentity now)
                                     else c_history c)\<rparr>)
      in c1\<lparr>c_peerVerifiedForIdentity := (c_peerVerifiedForIdentity c1)(peer \<mapsto> mine),
            c_history := (if m_ready (c_history c1)
                          then fst (recordPeerAttestedMyIdentity (c_history c1) peer mine now)
                          else c_history c1)\<rparr>)"

definition tryResolveBilateral :: "world \<Rightarrow> int \<Rightarrow> ChatClient \<Rightarrow> qstring \<Rightarrow> ChatClient" where
  "tryResolveBilateral W now c peer =
     (if peer \<notin> c_pendingBilateral c then c
      else if peer \<in> c_unverifiedKeyChange c then c
      else if peer \<notin> c_peerVerified c then c
      else
        (let c1 = c\<lparr>c_pendingBilateral := c_pendingBilateral c - {peer},
                    c_verifyAckResend := c_verifyAckResend c - {peer}\<rparr>;
             c2 = recordResolved now c1 peer;
             c3 = c2\<lparr>c_rekeyOutstanding := c_rekeyOutstanding c2 - {peer}\<rparr>;
             c4 = systemLine W now c3 peer (bothLine (w_today W now))
         in if c_outbox c4 \<noteq> [] \<and> c_connected c4 then flushOutbox W now c4 else c4))"

text \<open>A clean chain from the peer's current key, and the confirmation for the peer.\<close>

definition dropChain :: "ChatClient \<Rightarrow> qstring \<Rightarrow> ChatClient" where
  "dropChain c peer =
     resetPcsFor (c\<lparr>c_crypto := fst (dropSession (c_crypto c) peer),
       c_history := (if m_ready (c_history c) then fst (clearSession (c_history c) peer) else c_history c)\<rparr>) peer"

definition oweVerifyAck :: "ChatClient \<Rightarrow> qstring \<Rightarrow> ChatClient" where
  "oweVerifyAck c peer =
     c\<lparr>c_verifyAckResend := (if peer \<notin> c_peerVerified c then insert peer (c_verifyAckResend c)
                             else c_verifyAckResend c - {peer})\<rparr>"

definition acknowledgeKeyChange :: "world \<Rightarrow> int \<Rightarrow> ChatClient \<Rightarrow> qstring \<Rightarrow> ChatClient" where
  "acknowledgeKeyChange W now c peer =
     (if peer \<notin> c_unverifiedKeyChange c then tryResolveBilateral W now c peer
      else
        (let c1 = c\<lparr>c_unverifiedKeyChange := c_unverifiedKeyChange c - {peer}\<rparr>;
             c2 = (if peer \<notin> c_peerVerified c1 then systemLine W now c1 peer (waitingLine peer) else c1);
             c3 = sendOrQueueVerifyAck now (dropChain c2 peer) peer;
             c4 = oweVerifyAck c3 peer;
             c5 = (if amInitiatorFor (c_crypto c4) peer then sendOrQueueHandshake W now c4 peer else c4);
             c6 = (if c_connected c5 \<and> c_outbox c5 \<noteq> [] then flushOutbox W now c5 else c5)
         in tryResolveBilateral W now c6 peer))"

section \<open>Confirmations of the peer\<close>

definition receiveVerifyAck :: "world \<Rightarrow> int \<Rightarrow> ChatClient \<Rightarrow> qstring \<Rightarrow> qstring \<Rightarrow> qstring \<Rightarrow> qstring \<Rightarrow> int \<Rightarrow> ChatClient" where
  "receiveVerifyAck W now c from to senderIk verifiedIk ts =
     (if from = c_nick c \<or> to \<noteq> c_nick c then c
      else if c_peerKeys c from = None then
        requestKeyFor (c\<lparr>c_pendingFrames := (c_pendingFrames c)(from :=
           c_pendingFrames c from @ [VerifyAck from to senderIk verifiedIk ts])\<rparr>) from
      else if senderIk = [] \<or> c_peerKeys c from \<noteq> Some senderIk \<or> verifiedIk = [] \<or>
              verifiedIk \<noteq> publicKeyHex (c_crypto c) then c
      else
        (let wasNew = (from \<notin> c_peerVerified c);
             c1 = c\<lparr>c_peerVerified := insert from (c_peerVerified c),
                    c_peerVerifiedForIdentity := (c_peerVerifiedForIdentity c)(from \<mapsto> publicKeyHex (c_crypto c))\<rparr>;
             c2 = (if wasNew \<and> from \<in> c_pendingBilateral c1 \<and> from \<in> c_unverifiedKeyChange c1
                   then systemLine W now c1 from (nudgeLine from) else c1)
         in tryResolveBilateral W now c2 from))"

definition receiveVerifyResync :: "int \<Rightarrow> ChatClient \<Rightarrow> qstring \<Rightarrow> qstring \<Rightarrow> ChatClient" where
  "receiveVerifyResync now c from to =
     (if from = c_nick c \<or> to \<noteq> c_nick c then c
      else if c_peerKeys c from \<noteq> None \<and> from \<notin> c_unverifiedKeyChange c \<and> from \<notin> c_pendingBilateral c
      then sendOrQueueVerifyAck now c from
      else c)"

section \<open>Keys of the peers\<close>

definition forgetPeer :: "ChatClient \<Rightarrow> qstring \<Rightarrow> ChatClient" where
  "forgetPeer c peer =
     resetPcsFor (c\<lparr>c_crypto := fst (dropSession (c_crypto c) peer),
       c_peerVerifiedForIdentity := (c_peerVerifiedForIdentity c)(peer := None),
       c_verifiedPeerIdentity := (c_verifiedPeerIdentity c)(peer := None),
       c_history := (if m_ready (c_history c)
                     then fst (clearVerification (fst (clearSession (c_history c) peer)) peer)
                     else c_history c)\<rparr>) peer"

definition adoptKey :: "world \<Rightarrow> int \<Rightarrow> ChatClient \<Rightarrow> qstring \<Rightarrow> qstring \<Rightarrow> ChatClient" where
  "adoptKey W now c peer pub =
     (let priorIdentity = peerIdentityHex (c_crypto c) peer;
          hadRestoredSession = hasSessionFor (c_crypto c) peer;
          (b, keyChanged) = ensureSharedKey (w_ext W) (c_crypto c) peer pub;
          c1 = c\<lparr>c_peerKeys := (c_peerKeys c)(peer \<mapsto> pub), c_crypto := b\<rparr>;
          restoredSessionStale = (hadRestoredSession \<and> priorIdentity \<noteq> [] \<and> priorIdentity \<noteq> pub);
          havePersistedSession = (m_ready (c_history c1) \<and> loadSession (c_history c1) peer \<noteq> []);
          newPeer = (\<not> hadRestoredSession \<and> priorIdentity = [] \<and> \<not> havePersistedSession \<and>
                     peer \<notin> c_unverifiedKeyChange c1);
          alreadyVerified = (pub \<noteq> [] \<and> c_verifiedPeerIdentity c1 peer = Some pub);
          c2 = (if alreadyVerified \<and> \<not> keyChanged \<and> \<not> restoredSessionStale then c1
                else if keyChanged \<or> restoredSessionStale \<or> newPeer
                then flagKeyChange W now (if keyChanged \<or> restoredSessionStale then forgetPeer c1 peer else c1) peer
                else c1)
      in maybeResendVerifyAck now c2 peer)"

text \<open>A published key is converted once, where it enters the client.\<close>

definition learnKey :: "world \<Rightarrow> int \<Rightarrow> ChatClient \<Rightarrow> qstring \<Rightarrow> qstring \<Rightarrow> qstring \<Rightarrow> ChatClient \<times> bool" where
  "learnKey W now c peer published statedType =
     (let ikType = (if statedType = [] \<and> c_relayServesUntaggedEd c then ''ed25519'' else statedType);
          key = qFromHex (w_ext W) published
      in case agreementKeyFor (w_ext W) key ikType of
           None \<Rightarrow> (c, False)
         | Some agree \<Rightarrow>
             (adoptKey W now (c\<lparr>c_peerEdKeys := (c_peerEdKeys c)(peer := (if ikType = ''ed25519'' then Some key else None))\<rparr>)
                peer (toHex agree), True))"

section \<open>Calls that leave the gate alone\<close>

definition gate_of :: "ChatClient \<Rightarrow> qstring set \<times> qstring set \<times> qstring set \<times> (qstring \<rightharpoonup> qstring) \<times>
    (qstring \<rightharpoonup> qstring) \<times> (qstring \<rightharpoonup> qstring) \<times> qstring \<times> bool \<times> bytes" where
  "gate_of c = (c_unverifiedKeyChange c, c_pendingBilateral c, c_peerVerified c, c_peerVerifiedForIdentity c,
     c_verifiedPeerIdentity c, c_peerKeys c, c_nick c, c_connected c, m_publicKey (c_crypto c))"

definition gate_kept :: "ChatClient \<Rightarrow> ChatClient \<Rightarrow> bool" where
  "gate_kept c c' \<longleftrightarrow> gate_of c' = gate_of c"

lemma encryptFor_publicKey [simp]: "m_publicKey (fst (encryptFor E rnd nonce b peer pt)) = m_publicKey b"
  using encryptFor_kept [of b E rnd nonce peer pt] by (auto simp: box_kept_def dest: arg_cong [of _ _ m_publicKey])

interpretation gk: drain_change gate_kept
proof
  show "gate_kept c (fst (boxEncrypt W c peer pt))" for c W peer pt
    by (simp add: gate_kept_def gate_of_def) (simp add: boxEncrypt_def case_prod_beta)
qed (auto simp: gate_kept_def gate_of_def idle_def requeue_def)

lemma gk_line: "gate_kept c (systemLine W now c peer line)"
  by (auto simp: systemLine_def Let_def gate_kept_def gate_of_def)

lemma gk_resync: "gate_kept c (sendVerifyResync now c peer)"
  by (auto simp: sendVerifyResync_def Let_def gate_kept_def gate_of_def)

lemma gk_maybe: "gate_kept c (maybeResendVerifyAck now c peer)"
  by (simp add: maybeResendVerifyAck_def gk.refl gk.ack_sent)

lemmas gate_simps [simp] = gk_line [unfolded gate_kept_def] gk_resync [unfolded gate_kept_def]
  gk_maybe [unfolded gate_kept_def] gk.drained [unfolded gate_kept_def] gk.ack_sent [unfolded gate_kept_def]
  gk.handshake_sent [unfolded gate_kept_def]

lemma gateD:
  assumes "gate_of c' = gate_of c"
  shows "c_unverifiedKeyChange c' = c_unverifiedKeyChange c" "c_pendingBilateral c' = c_pendingBilateral c"
    "c_peerVerified c' = c_peerVerified c" "c_peerVerifiedForIdentity c' = c_peerVerifiedForIdentity c"
    "c_verifiedPeerIdentity c' = c_verifiedPeerIdentity c" "c_peerKeys c' = c_peerKeys c" "c_nick c' = c_nick c"
    "c_connected c' = c_connected c" "publicKeyHex (c_crypto c') = publicKeyHex (c_crypto c)"
  using assms by (simp_all add: gate_of_def publicKeyHex_def)

section \<open>What moves the gate\<close>

lemma flag_gate:
  "gate_of (flagKeyChange W now c peer) =
     gate_of (c\<lparr>c_unverifiedKeyChange := insert peer (c_unverifiedKeyChange c),
       c_pendingBilateral := insert peer (c_pendingBilateral c),
       c_peerVerified := (if valueOr [] (c_peerVerifiedForIdentity c) peer = publicKeyHex (c_crypto c)
                          then c_peerVerified c else c_peerVerified c - {peer})\<rparr>)"
  by (cases "peer \<in> c_unverifiedKeyChange c";
      cases "valueOr [] (c_peerVerifiedForIdentity c) peer = publicKeyHex (c_crypto c)";
      simp add: flagKeyChange_def Let_def; (simp add: gate_of_def)?)

definition resolved :: "ChatClient \<Rightarrow> qstring \<Rightarrow> ChatClient" where
  "resolved c peer = c\<lparr>c_pendingBilateral := c_pendingBilateral c - {peer},
     c_verifiedPeerIdentity := (case valueOr [] (c_peerKeys c) peer of [] \<Rightarrow> c_verifiedPeerIdentity c
        | k \<Rightarrow> (c_verifiedPeerIdentity c)(peer \<mapsto> k)),
     c_peerVerifiedForIdentity := (c_peerVerifiedForIdentity c)(peer \<mapsto> publicKeyHex (c_crypto c))\<rparr>"

definition both_confirmed :: "ChatClient \<Rightarrow> qstring \<Rightarrow> bool" where
  "both_confirmed c peer \<longleftrightarrow> peer \<in> c_pendingBilateral c \<and> peer \<notin> c_unverifiedKeyChange c \<and> peer \<in> c_peerVerified c"

lemma resolve_gate:
  "gate_of (tryResolveBilateral W now c peer) = gate_of (if both_confirmed c peer then resolved c peer else c)"
proof (cases "both_confirmed c peer")
  case True
  then have "gate_of (tryResolveBilateral W now c peer) =
      gate_of (recordResolved now (c\<lparr>c_pendingBilateral := c_pendingBilateral c - {peer},
         c_verifyAckResend := c_verifyAckResend c - {peer}\<rparr>) peer)"
    by (simp add: tryResolveBilateral_def both_confirmed_def Let_def)
      (simp add: gate_of_def)
  also have "\<dots> = gate_of (resolved c peer)"
    by (auto simp: recordResolved_def resolved_def gate_of_def Let_def split: list.split)
  finally show ?thesis using True by simp
qed (auto simp: tryResolveBilateral_def both_confirmed_def)

definition acked :: "ChatClient \<Rightarrow> qstring \<Rightarrow> ChatClient" where
  "acked c peer = c\<lparr>c_peerVerified := insert peer (c_peerVerified c),
     c_peerVerifiedForIdentity := (c_peerVerifiedForIdentity c)(peer \<mapsto> publicKeyHex (c_crypto c))\<rparr>"

lemma resolve_gate_cong:
  assumes "gate_of c' = gate_of c"
  shows "gate_of (tryResolveBilateral W now c' peer) = gate_of (tryResolveBilateral W now' c peer)"
proof -
  note f = gateD [OF assms]
  have "gate_of (resolved c' peer) = gate_of (resolved c peer)"
    using assms f by (simp add: resolved_def gate_of_def split: list.split)
  then show ?thesis using assms f(1-3) by (simp add: resolve_gate both_confirmed_def)
qed

lemma acknowledge_gate:
  assumes "peer \<in> c_unverifiedKeyChange c"
  shows "gate_of (acknowledgeKeyChange W now c peer) =
    gate_of (tryResolveBilateral W now (c\<lparr>c_unverifiedKeyChange := c_unverifiedKeyChange c - {peer}\<rparr>) peer)"
proof -
  let ?c1 = "c\<lparr>c_unverifiedKeyChange := c_unverifiedKeyChange c - {peer}\<rparr>"
  let ?c2 = "if peer \<notin> c_peerVerified ?c1 then systemLine W now ?c1 peer (waitingLine peer) else ?c1"
  let ?c4 = "oweVerifyAck (sendOrQueueVerifyAck now (dropChain ?c2 peer) peer) peer"
  have kept: "gate_of (oweVerifyAck d peer) = gate_of d" "gate_of (dropChain d peer) = gate_of d" for d
    by (simp_all add: oweVerifyAck_def dropChain_def resetPcsFor_def releasePing_def dropSession_def gate_of_def)
  have c4: "gate_of ?c4 = gate_of ?c1" by (simp add: kept)
  define c5 where "c5 = (if amInitiatorFor (c_crypto ?c4) peer then sendOrQueueHandshake W now ?c4 peer else ?c4)"
  define c6 where "c6 = (if c_connected c5 \<and> c_outbox c5 \<noteq> [] then flushOutbox W now c5 else c5)"
  have "gate_of c6 = gate_of c5" by (simp add: c6_def)
  also have "\<dots> = gate_of ?c4" unfolding c5_def by (simp only: gate_simps split: if_split) simp
  finally have "gate_of c6 = gate_of ?c1" using c4 by simp
  then have "gate_of (tryResolveBilateral W now c6 peer) = gate_of (tryResolveBilateral W now ?c1 peer)"
    by (rule resolve_gate_cong)
  moreover have "acknowledgeKeyChange W now c peer = tryResolveBilateral W now c6 peer"
    unfolding acknowledgeKeyChange_def Let_def c6_def c5_def by (rule if_not_P) (simp add: assms)
  ultimately show ?thesis by simp
qed

text \<open>A confirmation that is bound to the keys in force.\<close>

definition fresh_ack :: "ChatClient \<Rightarrow> qstring \<Rightarrow> qstring \<Rightarrow> qstring \<Rightarrow> qstring \<Rightarrow> bool" where
  "fresh_ack c from to senderIk verifiedIk \<longleftrightarrow> from \<noteq> c_nick c \<and> to = c_nick c \<and> senderIk \<noteq> [] \<and>
     c_peerKeys c from = Some senderIk \<and> verifiedIk \<noteq> [] \<and> verifiedIk = publicKeyHex (c_crypto c)"

lemma ack_gate:
  assumes "fresh_ack c from to senderIk verifiedIk"
  shows "gate_of (receiveVerifyAck W now c from to senderIk verifiedIk ts) =
    gate_of (tryResolveBilateral W now (acked c from) from)"
proof -
  let ?c2 = "if from \<notin> c_peerVerified c \<and> from \<in> c_pendingBilateral (acked c from) \<and>
      from \<in> c_unverifiedKeyChange (acked c from) then systemLine W now (acked c from) from (nudgeLine from)
    else acked c from"
  have "receiveVerifyAck W now c from to senderIk verifiedIk ts = tryResolveBilateral W now ?c2 from"
    using assms by (auto simp: receiveVerifyAck_def fresh_ack_def acked_def Let_def)
  moreover have "gate_of ?c2 = gate_of (acked c from)" by simp
  ultimately show ?thesis using resolve_gate_cong by metis
qed

section \<open>The invariant of the gate\<close>

text \<open>Whatever waits for the user also waits for both sides, and what waits for the peer only waits for
  a confirmation that has not arrived.\<close>

definition waits_for_peer :: "ChatClient \<Rightarrow> qstring \<Rightarrow> bool" where
  "waits_for_peer c p \<longleftrightarrow> (p \<in> c_pendingBilateral c \<longrightarrow> p \<notin> c_unverifiedKeyChange c \<longrightarrow> p \<notin> c_peerVerified c)"

definition gate_inv :: "ChatClient \<Rightarrow> bool" where
  "gate_inv c \<longleftrightarrow> c_unverifiedKeyChange c \<subseteq> c_pendingBilateral c \<and> (\<forall>p. waits_for_peer c p)"

lemma gate_inv_cong: "gate_of c' = gate_of c \<Longrightarrow> gate_inv c' = gate_inv c"
  by (simp add: gate_inv_def waits_for_peer_def gateD(1-3) [of c' c])

lemma flag_inv: "gate_inv c \<Longrightarrow> gate_inv (flagKeyChange W now c peer)"
  using gateD(1-3) [OF flag_gate [of W now c peer]] by (auto simp: gate_inv_def waits_for_peer_def)

text \<open>An attempt to close the episode of a peer repairs whatever is amiss with that peer alone.\<close>

lemma resolve_inv:
  assumes "c_unverifiedKeyChange c \<subseteq> c_pendingBilateral c" "\<forall>p. p \<noteq> peer \<longrightarrow> waits_for_peer c p"
  shows "gate_inv (tryResolveBilateral W now c peer)"
proof (cases "both_confirmed c peer")
  case True
  with gateD(1-3) [OF resolve_gate [of W now c peer]] assms show ?thesis
    by (auto simp: gate_inv_def waits_for_peer_def both_confirmed_def resolved_def)
next
  case False
  then have "waits_for_peer c peer" by (auto simp: both_confirmed_def waits_for_peer_def)
  with assms have "gate_inv c" by (metis gate_inv_def)
  with False show ?thesis using gate_inv_cong [OF resolve_gate [of W now c peer]] by simp
qed

lemma acknowledge_inv: "gate_inv c \<Longrightarrow> gate_inv (acknowledgeKeyChange W now c peer)"
proof (cases "peer \<in> c_unverifiedKeyChange c")
  case True
  assume "gate_inv c"
  then have "gate_inv (tryResolveBilateral W now (c\<lparr>c_unverifiedKeyChange := c_unverifiedKeyChange c - {peer}\<rparr>) peer)"
    by (intro resolve_inv) (auto simp: gate_inv_def waits_for_peer_def)
  then show ?thesis using gate_inv_cong [OF acknowledge_gate [OF True]] by blast
qed (simp add: acknowledgeKeyChange_def resolve_inv gate_inv_def [of c])

lemma stale_ack:
  "\<not> fresh_ack c from to senderIk verifiedIk \<Longrightarrow> c_peerKeys c from \<noteq> None \<Longrightarrow>
   receiveVerifyAck W now c from to senderIk verifiedIk ts = c"
  by (auto simp: receiveVerifyAck_def fresh_ack_def)

lemma receive_ack_inv: "gate_inv c \<Longrightarrow> gate_inv (receiveVerifyAck W now c from to senderIk verifiedIk ts)"
proof (cases "fresh_ack c from to senderIk verifiedIk")
  case True
  assume "gate_inv c"
  then have "gate_inv (tryResolveBilateral W now (acked c from) from)"
    by (intro resolve_inv) (simp_all add: gate_inv_def waits_for_peer_def acked_def)
  then show ?thesis using gate_inv_cong [OF ack_gate [OF True]] by blast
next
  case False
  assume "gate_inv c"
  then show ?thesis
    using stale_ack [OF False]
    by (cases "c_peerKeys c from = None")
      (auto simp: receiveVerifyAck_def requestKeyFor_def gate_inv_def waits_for_peer_def)
qed

lemma adopt_inv: "gate_inv c \<Longrightarrow> gate_inv (adoptKey W now c peer pub)"
proof -
  assume c: "gate_inv c"
  have "gate_inv (c\<lparr>c_peerKeys := (c_peerKeys c)(peer \<mapsto> pub), c_crypto := b\<rparr>)" for b
    using c by (simp add: gate_inv_def waits_for_peer_def)
  moreover have "gate_inv d \<Longrightarrow> gate_inv (forgetPeer d peer)" for d
    by (simp add: gate_inv_def waits_for_peer_def forgetPeer_def resetPcsFor_def releasePing_def)
  ultimately show ?thesis
    using gate_inv_cong [OF gk_maybe [unfolded gate_kept_def]] flag_inv
    by (auto simp: adoptKey_def Let_def case_prod_beta)
qed

lemma learn_inv: "gate_inv c \<Longrightarrow> gate_inv (fst (learnKey W now c peer published ikType))"
proof -
  assume "gate_inv c"
  then have "gate_inv (c\<lparr>c_peerEdKeys := m\<rparr>)" for m by (simp add: gate_inv_def waits_for_peer_def)
  then show ?thesis using \<open>gate_inv c\<close> by (auto simp: learnKey_def Let_def adopt_inv split: option.split)
qed

section \<open>An episode\<close>

lemma blocked_gate: "gate_of c' = gate_of c \<Longrightarrow> conversationBlocked c' p = conversationBlocked c p"
  by (simp add: conversationBlocked_def gateD(1,2) [of c' c])

lemma fresh_ack_gate: "gate_of c' = gate_of c \<Longrightarrow> fresh_ack c' from to sik vik = fresh_ack c from to sik vik"
  by (simp add: fresh_ack_def gateD [of c' c])

text \<open>The state in which an episode ends.\<close>

definition closed :: "ChatClient \<Rightarrow> qstring \<Rightarrow> ChatClient" where
  "closed c peer = resolved (acked (c\<lparr>c_unverifiedKeyChange := c_unverifiedKeyChange c - {peer}\<rparr>) peer) peer"

lemma closed_open:
  assumes "fresh_ack c peer to pik mine"
  shows "\<not> conversationBlocked (closed c peer) peer" "c_verifiedPeerIdentity (closed c peer) peer = Some pik"
  using assms by (auto simp: closed_def resolved_def acked_def conversationBlocked_def valueOr_def fresh_ack_def
      split: list.split)

lemma confirmed_gate:
  assumes "peer \<in> c_unverifiedKeyChange c" "peer \<notin> c_peerVerified c"
  shows "gate_of (acknowledgeKeyChange W now c peer) =
    gate_of (c\<lparr>c_unverifiedKeyChange := c_unverifiedKeyChange c - {peer}\<rparr>)"
  using acknowledge_gate [OF assms(1), of W now] assms(2) by (simp add: resolve_gate both_confirmed_def)

lemma acked_gate:
  assumes "peer \<in> c_unverifiedKeyChange c" "fresh_ack c peer to pik mine"
  shows "gate_of (receiveVerifyAck W now c peer to pik mine ts) = gate_of (acked c peer)"
  using ack_gate [OF assms(2), of W now ts] assms(1) by (simp add: resolve_gate both_confirmed_def acked_def)

lemma confirm_then_ack:
  assumes "peer \<in> c_unverifiedKeyChange c" "peer \<in> c_pendingBilateral c" "peer \<notin> c_peerVerified c"
    "fresh_ack c peer to pik mine"
  shows "gate_of (receiveVerifyAck W now' (acknowledgeKeyChange W now c peer) peer to pik mine ts) = gate_of (closed c peer)"
proof -
  let ?c1 = "c\<lparr>c_unverifiedKeyChange := c_unverifiedKeyChange c - {peer}\<rparr>"
  note g = confirmed_gate [OF assms(1,3), of W now]
  have "fresh_ack ?c1 peer to pik mine" using assms(4) by (auto simp: fresh_ack_def)
  with fresh_ack_gate [OF g] have ack: "fresh_ack (acknowledgeKeyChange W now c peer) peer to pik mine" by simp
  have "gate_of (acked (acknowledgeKeyChange W now c peer) peer) = gate_of (acked ?c1 peer)"
    using g gateD [OF g] by (simp add: acked_def gate_of_def)
  from ack_gate [OF ack, of W now' ts] resolve_gate_cong [OF this, of W now' peer now'] show ?thesis
    using assms(2) by (simp add: resolve_gate both_confirmed_def acked_def closed_def)
qed

lemma ack_then_confirm:
  assumes "peer \<in> c_unverifiedKeyChange c" "peer \<in> c_pendingBilateral c" "fresh_ack c peer to pik mine"
  shows "gate_of (acknowledgeKeyChange W now' (receiveVerifyAck W now c peer to pik mine ts) peer) = gate_of (closed c peer)"
proof -
  let ?d = "receiveVerifyAck W now c peer to pik mine ts"
  note g = acked_gate [OF assms(1,3), of W now ts]
  have flagged: "peer \<in> c_unverifiedKeyChange ?d" using assms(1) by (simp add: gateD(1) [OF g] acked_def)
  have "gate_of (?d\<lparr>c_unverifiedKeyChange := c_unverifiedKeyChange ?d - {peer}\<rparr>) =
      gate_of (acked (c\<lparr>c_unverifiedKeyChange := c_unverifiedKeyChange c - {peer}\<rparr>) peer)"
    using g gateD [OF g] by (simp add: acked_def gate_of_def)
  from acknowledge_gate [OF flagged, of W now'] resolve_gate_cong [OF this, of W now' peer now'] show ?thesis
    using assms(2) by (simp add: resolve_gate both_confirmed_def acked_def closed_def)
qed

text \<open>C25 (functional). An episode ends exactly when both sides have confirmed, in whichever order. After the
  user alone has confirmed, or the peer alone, the conversation is still blocked; after both it is
  open, and the key that was verified is on record.\<close>

theorem episode_needs_both:
  assumes "peer \<in> c_unverifiedKeyChange c" "peer \<in> c_pendingBilateral c" "peer \<notin> c_peerVerified c"
    and ack: "fresh_ack c peer to pik mine"
    and user: "c1 = acknowledgeKeyChange W now c peer" "c12 = receiveVerifyAck W now' c1 peer to pik mine ts"
    and other: "c2 = receiveVerifyAck W now c peer to pik mine ts" "c21 = acknowledgeKeyChange W now' c2 peer"
  shows "conversationBlocked c1 peer \<and> conversationBlocked c2 peer \<and>
    \<not> conversationBlocked c12 peer \<and> c_verifiedPeerIdentity c12 peer = Some pik \<and>
    \<not> conversationBlocked c21 peer \<and> c_verifiedPeerIdentity c21 peer = Some pik"
proof -
  have g: "gate_of c12 = gate_of (closed c peer)" "gate_of c21 = gate_of (closed c peer)"
    unfolding user other using confirm_then_ack [OF assms(1-4)] ack_then_confirm [OF assms(1,2,4)] by simp_all
  have "conversationBlocked c1 peer" "conversationBlocked c2 peer"
    using assms(2) blocked_gate [OF confirmed_gate [OF assms(1,3)]] blocked_gate [OF acked_gate [OF assms(1,4)]]
    by (simp_all add: user other conversationBlocked_def acked_def)
  then show ?thesis
    using closed_open [OF ack] blocked_gate [OF g(1)] blocked_gate [OF g(2)] gateD(5) [OF g(1)] gateD(5) [OF g(2)]
    by simp
qed

section \<open>Two clients\<close>

definition sent_grows :: "ChatClient \<Rightarrow> ChatClient \<Rightarrow> bool" where
  "sent_grows c c' \<longleftrightarrow> set (c_sent c) \<subseteq> set (c_sent c')"

interpretation sg: drain_change sent_grows
  by unfold_locales (auto simp: sent_grows_def idle_def sendFrame_def requeue_def)

lemma sg_line: "sent_grows c (systemLine W now c peer line)"
  by (simp add: systemLine_def Let_def sent_grows_def)

lemma sg_resolve: "sent_grows c (tryResolveBilateral W now c peer)"
proof -
  have "sent_grows c (recordResolved now (c\<lparr>c_pendingBilateral := x, c_verifyAckResend := y\<rparr>) peer)" for x y
    by (simp add: recordResolved_def sent_grows_def Let_def)
  then have "sent_grows c (systemLine W now ((recordResolved now (c\<lparr>c_pendingBilateral := x, c_verifyAckResend := y\<rparr>)
      peer)\<lparr>c_rekeyOutstanding := z\<rparr>) peer line)" for x y z line
    by (intro sg.trans [OF _ sg_line] sg.backs)
  then show ?thesis
    by (auto simp: tryResolveBilateral_def Let_def sg.refl intro!: sg.trans [OF _ sg.drained])
qed

lemma acknowledge_sends:
  assumes "peer \<in> c_unverifiedKeyChange c" "peer \<noteq> []" "c_connected c" "c_peerKeys c peer = Some k"
  shows "VerifyAck (c_nick c) peer (publicKeyHex (c_crypto c)) k now \<in> set (c_sent (acknowledgeKeyChange W now c peer))"
proof -
  let ?c1 = "c\<lparr>c_unverifiedKeyChange := c_unverifiedKeyChange c - {peer}\<rparr>"
  let ?c2 = "dropChain (if peer \<notin> c_peerVerified ?c1 then systemLine W now ?c1 peer (waitingLine peer) else ?c1) peer"
  let ?c3 = "sendOrQueueVerifyAck now ?c2 peer"
  have "gate_of ?c2 = gate_of ?c1"
    by (simp add: dropChain_def resetPcsFor_def releasePing_def dropSession_def systemLine_def Let_def gate_of_def)
  note g = gateD [OF this]
  have "VerifyAck (c_nick c) peer (publicKeyHex (c_crypto c)) k now \<in> set (c_sent ?c3)"
    using assms(2-4) g by (simp add: sendOrQueueVerifyAck_def transmitVerifyAck_def sendFrame_def valueOr_def Let_def)
  moreover have "sent_grows ?c3 (acknowledgeKeyChange W now c peer)"
  proof -
    define c5 where "c5 = (if amInitiatorFor (c_crypto (oweVerifyAck ?c3 peer)) peer
        then sendOrQueueHandshake W now (oweVerifyAck ?c3 peer) peer else oweVerifyAck ?c3 peer)"
    define c6 where "c6 = (if c_connected c5 \<and> c_outbox c5 \<noteq> [] then flushOutbox W now c5 else c5)"
    have "sent_grows ?c3 (oweVerifyAck ?c3 peer)" by (simp add: oweVerifyAck_def sent_grows_def)
    moreover have "sent_grows (oweVerifyAck ?c3 peer) c5" using sg.handshake_sent sg.refl by (simp add: c5_def)
    moreover have "sent_grows c5 c6" using sg.drained sg.refl by (simp add: c6_def)
    moreover have "sent_grows c6 (tryResolveBilateral W now c6 peer)" by (rule sg_resolve)
    moreover have "acknowledgeKeyChange W now c peer = tryResolveBilateral W now c6 peer"
      unfolding acknowledgeKeyChange_def Let_def c6_def c5_def by (rule if_not_P) (simp add: assms(1))
    ultimately show ?thesis by (simp add: sent_grows_def)
  qed
  ultimately show ?thesis by (auto simp: sent_grows_def)
qed

text \<open>C9 (liveness). Two clients that hold each other's current key and wait for verification open the
  conversation for each other: each user's confirmation puts a frame on the wire, and once both frames
  have arrived the gate is open on both sides.\<close>

theorem mutual_verification_opens:
  assumes "c_connected a" "c_connected b" "c_nick a \<noteq> c_nick b" "c_nick a \<noteq> []" "c_nick b \<noteq> []"
    and keys: "c_peerKeys a (c_nick b) = Some (publicKeyHex (c_crypto b))"
      "c_peerKeys b (c_nick a) = Some (publicKeyHex (c_crypto a))"
      "m_publicKey (c_crypto a) \<noteq> []" "m_publicKey (c_crypto b) \<noteq> []"
    and flagged: "c_nick b \<in> c_unverifiedKeyChange a" "c_nick b \<in> c_pendingBilateral a" "c_nick b \<notin> c_peerVerified a"
      "c_nick a \<in> c_unverifiedKeyChange b" "c_nick a \<in> c_pendingBilateral b" "c_nick a \<notin> c_peerVerified b"
    and a': "a' = acknowledgeKeyChange W now a (c_nick b)" and b': "b' = acknowledgeKeyChange W now b (c_nick a)"
  shows "VerifyAck (c_nick a) (c_nick b) (publicKeyHex (c_crypto a)) (publicKeyHex (c_crypto b)) now \<in> set (c_sent a') \<and>
    VerifyAck (c_nick b) (c_nick a) (publicKeyHex (c_crypto b)) (publicKeyHex (c_crypto a)) now \<in> set (c_sent b') \<and>
    \<not> conversationBlocked (receiveVerifyAck W later a' (c_nick b) (c_nick a)
        (publicKeyHex (c_crypto b)) (publicKeyHex (c_crypto a)) now) (c_nick b) \<and>
    \<not> conversationBlocked (receiveVerifyAck W later b' (c_nick a) (c_nick b)
        (publicKeyHex (c_crypto a)) (publicKeyHex (c_crypto b)) now) (c_nick a)"
proof -
  let ?A = "publicKeyHex (c_crypto a)" and ?B = "publicKeyHex (c_crypto b)"
  have ne: "?A \<noteq> []" "?B \<noteq> []" using keys(3,4) by (auto simp: publicKeyHex_def toHex_def neq_Nil_conv)
  have fresh: "fresh_ack a (c_nick b) (c_nick a) ?B ?A" "fresh_ack b (c_nick a) (c_nick b) ?A ?B"
    using assms(3) keys ne by (auto simp: fresh_ack_def)
  have "\<not> conversationBlocked (receiveVerifyAck W later a' (c_nick b) (c_nick a) ?B ?A now) (c_nick b)"
    unfolding a' using blocked_gate [OF confirm_then_ack [OF flagged(1-3) fresh(1)]] closed_open(1) [OF fresh(1)] by simp
  moreover have "\<not> conversationBlocked (receiveVerifyAck W later b' (c_nick a) (c_nick b) ?A ?B now) (c_nick a)"
    unfolding b' using blocked_gate [OF confirm_then_ack [OF flagged(4-6) fresh(2)]] closed_open(1) [OF fresh(2)] by simp
  moreover have "VerifyAck (c_nick a) (c_nick b) ?A ?B now \<in> set (c_sent a')"
    "VerifyAck (c_nick b) (c_nick a) ?B ?A now \<in> set (c_sent b')"
    unfolding a' b' using acknowledge_sends flagged(1,4) assms(1,2,4,5) keys(1,2) by blast+
  ultimately show ?thesis by blast
qed

section \<open>A changed key\<close>

lemma line_frame:
  "c_crypto (systemLine W now c peer line) = c_crypto c"
  "loadSession (c_history (systemLine W now c peer line)) q = loadSession (c_history c) q"
  by (simp_all add: systemLine_def addSystemRow_def insertHistory_def loadSession_def sessionRow_def Let_def)

lemma resync_frame:
  "c_crypto (sendVerifyResync now c peer) = c_crypto c" "c_history (sendVerifyResync now c peer) = c_history c"
  "c_messages (sendVerifyResync now c peer) = c_messages c"
  by (simp_all add: sendVerifyResync_def Let_def)

lemma flag_frame:
  "c_crypto (flagKeyChange W now c peer) = c_crypto c"
  "loadSession (c_history (flagKeyChange W now c peer)) q = loadSession (c_history c) q"
  by (simp_all add: flagKeyChange_def Let_def line_frame resync_frame)

lemma clearVerification_sessions:
  "sessionRow (fst (clearVerification h peer)) q = sessionRow h q" "m_ready (fst (clearVerification h peer)) = m_ready h"
  by (simp_all add: clearVerification_def sessionRow_def Let_def)

lemma loadSession_cleared: "loadSession (fst (clearVerification (fst (clearSession h peer)) peer)) peer = []"
proof (cases "m_ready h")
  case True
  then show ?thesis by (simp add: loadSession_def clearVerification_sessions sessionRow_cleared)
qed (simp add: loadSession_def clearVerification_def clearSession_def)

text \<open>C8 (safety). A key of a peer that differs from the one in use closes the gate, however it was learned
  from the server: the conversation is blocked, the old session is gone from memory and from the
  database, and neither the user's confirmation of the old key nor the peer's earlier confirmation
  counts any more.\<close>

theorem changed_key_closes_gate:
  assumes "hex_law (w_ext W)" "m_publicKey (c_crypto c) \<noteq> []"
    and new: "agreementKeyFor (w_ext W) (qFromHex (w_ext W) published)
        (if ikType = [] \<and> c_relayServesUntaggedEd c then ''ed25519'' else ikType) = Some agree" "length agree = 32"
    and old: "m_peerIdentity (c_crypto c) peer = Some key" "key \<noteq> agree"
    and c': "c' = fst (learnKey W now c peer published ikType)"
  shows "conversationBlocked c' peer \<and> m_sessions (c_crypto c') peer = None \<and>
    loadSession (c_history c') peer = [] \<and> c_verifiedPeerIdentity c' peer = None \<and> peer \<notin> c_peerVerified c' \<and>
    c_peerKeys c' peer = Some (toHex agree)"
proof -
  let ?m = "(c_peerEdKeys c)(peer := if (if ikType = [] \<and> c_relayServesUntaggedEd c then ''ed25519'' else ikType) = ''ed25519''
     then Some (qFromHex (w_ext W) published) else None)"
  let ?b = "(c_crypto c)\<lparr>m_peerIdentity := (m_peerIdentity (c_crypto c))(peer \<mapsto> agree),
     m_sessions := (m_sessions (c_crypto c))(peer := None)\<rparr>"
  define c1 where "c1 = c\<lparr>c_peerEdKeys := ?m, c_peerKeys := (c_peerKeys c)(peer \<mapsto> toHex agree), c_crypto := ?b\<rparr>"
  define c2 where "c2 = flagKeyChange W now (forgetPeer c1 peer) peer"
  have "ensureSharedKey (w_ext W) (c_crypto c) peer (toHex agree) = (?b, True)"
    using assms(1) new(2) old by (simp add: ensureSharedKey_def hex_law_def Let_def)
  then have "c' = maybeResendVerifyAck now c2 peer"
    using new(1) by (simp add: c' learnKey_def adoptKey_def c1_def c2_def Let_def)
  moreover have f: "c_unverifiedKeyChange (forgetPeer c1 peer) = c_unverifiedKeyChange c"
    "c_peerVerifiedForIdentity (forgetPeer c1 peer) peer = None" "c_verifiedPeerIdentity (forgetPeer c1 peer) peer = None"
    "c_peerKeys (forgetPeer c1 peer) peer = Some (toHex agree)" "m_sessions (c_crypto (forgetPeer c1 peer)) peer = None"
    "m_publicKey (c_crypto (forgetPeer c1 peer)) \<noteq> []" "loadSession (c_history (forgetPeer c1 peer)) peer = []"
    using assms(2) loadSession_cleared [of "c_history c" peer]
    by (simp_all add: forgetPeer_def resetPcsFor_def releasePing_def c1_def dropSession_def)
      (auto simp: loadSession_def)
  note g = gateD [OF flag_gate [of W now "forgetPeer c1 peer" peer], folded c2_def]
  have "peer \<in> c_unverifiedKeyChange c2" using g(1) by simp
  ultimately have "c' = c2" by (simp add: maybeResendVerifyAck_def)
  moreover have "publicKeyHex (c_crypto (forgetPeer c1 peer)) \<noteq> []"
    using f(6) by (auto simp: publicKeyHex_def toHex_def neq_Nil_conv)
  then have "peer \<notin> c_peerVerified c2" using g(3) f(2) by (simp add: valueOr_def)
  ultimately show ?thesis
    using g(1,5,6) f flag_frame [of W now "forgetPeer c1 peer" peer, folded c2_def]
    by (simp add: conversationBlocked_def)
qed

text \<open>A peer whose key keeps arriving causes one warning per episode: while the episode is open,
  flagging the peer again, any number of times, writes nothing to the conversation on screen or to
  the database.\<close>

theorem one_warning_per_episode:
  assumes "peer \<in> c_unverifiedKeyChange c"
  shows "c_messages (fold (\<lambda>now c. flagKeyChange W now c peer) nows c) = c_messages c \<and>
    c_history (fold (\<lambda>now c. flagKeyChange W now c peer) nows c) = c_history c"
  using assms
proof (induction nows arbitrary: c)
  case (Cons now nows)
  have "peer \<in> c_unverifiedKeyChange (flagKeyChange W now c peer)"
    using gateD(1) [OF flag_gate [of W now c peer]] by simp
  moreover have "c_messages (flagKeyChange W now c peer) = c_messages c" "c_history (flagKeyChange W now c peer) = c_history c"
    using Cons.prems by (simp_all add: flagKeyChange_def Let_def resync_frame)
  ultimately show ?case using Cons.IH by simp
qed simp

section \<open>Small clients\<close>

definition demoGate :: "qstring \<Rightarrow> bytes \<Rightarrow> qstring \<Rightarrow> bytes \<Rightarrow> ChatClient" where
  "demoGate nick pub peer peerPub = demoLive\<lparr>c_nick := nick, c_crypto := newCryptoBox\<lparr>m_publicKey := pub\<rparr>,
     c_peerKeys := [peer \<mapsto> toHex peerPub], c_unverifiedKeyChange := {peer}, c_pendingBilateral := {peer}\<rparr>"

lemma demoGate_facts:
  "c_nick (demoGate nick pub peer peerPub) = nick" "m_publicKey (c_crypto (demoGate nick pub peer peerPub)) = pub"
  "c_peerKeys (demoGate nick pub peer peerPub) = [peer \<mapsto> toHex peerPub]"
  "c_unverifiedKeyChange (demoGate nick pub peer peerPub) = {peer}"
  "c_pendingBilateral (demoGate nick pub peer peerPub) = {peer}" "c_peerVerified (demoGate nick pub peer peerPub) = {}"
  "c_connected (demoGate nick pub peer peerPub)" "publicKeyHex (c_crypto (demoGate nick pub peer peerPub)) = toHex pub"
  by (simp_all add: demoGate_def demoLive_def demoClient_def newClient_def publicKeyHex_def)

theorem episode_needs_both_witness:
  "conversationBlocked (acknowledgeKeyChange demoWorld 5 (demoGate ''alice'' [1] ''bob'' [2]) ''bob'') ''bob'' \<and>
   \<not> conversationBlocked (acknowledgeKeyChange demoWorld 6
       (receiveVerifyAck demoWorld 5 (demoGate ''alice'' [1] ''bob'' [2]) ''bob'' ''alice'' (toHex [2]) (toHex [1]) 4) ''bob'') ''bob''"
proof -
  let ?c = "demoGate ''alice'' [1] ''bob'' [2]"
  have "fresh_ack ?c ''bob'' ''alice'' (toHex [2]) (toHex [1])"
    by (simp add: fresh_ack_def demoGate_facts) (simp add: toHex_def)
  from episode_needs_both [OF _ _ _ this refl refl refl refl, of demoWorld 5 4 6]
  show ?thesis by (simp add: demoGate_facts)
qed

theorem mutual_verification_opens_witness:
  "\<not> conversationBlocked (receiveVerifyAck demoWorld 9 (acknowledgeKeyChange demoWorld 5
      (demoGate ''alice'' [1] ''bob'' [2]) ''bob'') ''bob'' ''alice'' (toHex [2]) (toHex [1]) 5) ''bob''"
  using mutual_verification_opens [where W = demoWorld and now = 5 and later = 9, OF _ _ _ _ _ _ _ _ _ _ _ _ _ _ _ refl refl,
      where a = "demoGate ''alice'' [1] ''bob'' [2]" and b = "demoGate ''bob'' [2] ''alice'' [1]"]
  by (simp add: demoGate_facts)

theorem changed_key_closes_gate_witness:
  "conversationBlocked (fst (learnKey demoWorld 5 (demoLive\<lparr>c_crypto := newCryptoBox\<lparr>m_publicKey := [1],
      m_peerIdentity := [''bob'' \<mapsto> replicate 32 1]\<rparr>\<rparr>) ''bob'' (toHex (replicate 32 2)) [])) ''bob''"
proof -
  let ?c = "demoLive\<lparr>c_crypto := newCryptoBox\<lparr>m_publicKey := [1], m_peerIdentity := [''bob'' \<mapsto> replicate 32 1]\<rparr>\<rparr>"
  have hex: "hex_law (w_ext demoWorld)" by (simp add: demo_laws)
  have "agreementKeyFor (w_ext demoWorld) (qFromHex (w_ext demoWorld) (toHex (replicate 32 2)))
      (if [] = [] \<and> c_relayServesUntaggedEd ?c then ''ed25519'' else []) = Some (replicate 32 2)"
    using hex by (simp add: hex_law_def agreementKeyFor_def demoLive_def demoClient_def newClient_def)
  from changed_key_closes_gate [OF hex _ this, of "''bob''" "replicate 32 1", OF _ _ _ _ refl, of 5] show ?thesis
    by simp
qed

theorem one_warning_per_episode_witness:
  "c_messages (fold (\<lambda>now c. flagKeyChange demoWorld now c ''bob'') [1, 2, 3] (demoGate ''alice'' [1] ''bob'' [2])) = []"
proof -
  have "c_messages (demoGate ''alice'' [1] ''bob'' [2]) = []"
    by (simp add: demoGate_def demoLive_def demoClient_def newClient_def)
  then show ?thesis
    using one_warning_per_episode [of "''bob''" "demoGate ''alice'' [1] ''bob'' [2]" demoWorld "[1, 2, 3]"]
    by (simp only: demoGate_facts) simp
qed

end
