(* ===== verification/Receive.thy ===== *)
theory Receive
  imports Verification
begin

text \<open>
  The receiving half of \<open>ChatClient\<close> (\<^verbatim>\<open>client/src/chatclient.cpp\<close>): messages, files, retractions, reactions
  and typing indicators that the relay forwards. The fields of a session opener are the bytes its
  hexadecimal text stands for. A file that is being received is written through a handle of its own,
  and the file system shows what was written; no two transfers share a path. Notifications of the
  operating system are left out.
\<close>

section \<open>Text\<close>

text \<open>The header of a first message: the session it opens, and the pool without the used prekey.\<close>

definition acceptOpener :: "world \<Rightarrow> int \<Rightarrow> ChatClient \<Rightarrow> qstring \<Rightarrow> X3dhHeader \<Rightarrow> ChatClient \<times> bool" where
  "acceptOpener W now c peer hdr =
     (case acceptX3dhSession (w_ext W) (c_crypto c) peer (xh_ikA hdr) (xh_ekA hdr) (xh_opkId hdr) (xh_spkUsed hdr) of
        (b, True) \<Rightarrow>
          (let c1 = persistSession W now (c\<lparr>c_crypto := b\<rparr>) peer
           in (if m_ready (c_history c1)
               then c1\<lparr>c_history := fst (savePrekeys (c_history c1) (serialisePrekeys b))\<rparr> else c1, True))
      | (b, False) \<Rightarrow> (c\<lparr>c_crypto := b\<rparr>, False))"

definition openerOf :: "world \<Rightarrow> int \<Rightarrow> ChatClient \<Rightarrow> qstring \<Rightarrow> msg_frame \<Rightarrow> ChatClient \<times> bool" where
  "openerOf W now c peer f =
     (case mf_x3dh f of
        Some hdr \<Rightarrow> (if mf_from f \<noteq> c_nick c \<and> \<not> hasSessionFor (c_crypto c) peer
                     then acceptOpener W now c peer hdr else (c, True))
      | None \<Rightarrow> (c, True))"

definition stashFrame :: "ChatClient \<Rightarrow> qstring \<Rightarrow> net_frame \<Rightarrow> ChatClient" where
  "stashFrame c peer f =
     requestKeyFor (c\<lparr>c_pendingFrames := (c_pendingFrames c)(peer := c_pendingFrames c peer @ [f])\<rparr>) peer"

text \<open>A handshake names the identity of its sender. The flag tells whether the frame is still to be opened.\<close>

definition handshakeKey :: "world \<Rightarrow> ChatClient \<Rightarrow> qstring \<Rightarrow> msg_frame \<Rightarrow> ChatClient \<times> bool" where
  "handshakeKey W c peer f =
     (let ik = mf_ik f
      in if mf_kind f \<noteq> ''handshake'' \<or> ik = [] \<or> ik = valueOr [] (c_peerKeys c) peer then (c, True)
         else if valueOr [] (c_rebootstrapAdopted c) peer \<noteq> ik then
           (stashFrame (c\<lparr>c_rebootstrapAdopted := (c_rebootstrapAdopted c)(peer \<mapsto> ik),
                          c_peerKeys := (c_peerKeys c)(peer \<mapsto> ik),
                          c_crypto := fst (ensureSharedKey (w_ext W) (c_crypto c) peer ik)\<rparr>) peer (Msg f), False)
         else if ik \<noteq> valueOr [] (c_peerKeys c) peer then (c, False)
         else (c\<lparr>c_crypto := fst (ensureSharedKey (w_ext W) (c_crypto c) peer ik)\<rparr>, True))"

definition showText :: "world \<Rightarrow> ChatClient \<Rightarrow> qstring \<Rightarrow> msg_frame \<Rightarrow> qstring \<Rightarrow> qstring \<Rightarrow> ChatClient" where
  "showText W c peer f plaintext mid =
     (let mine = (mf_from f = c_nick c)
      in if peer = c_activePeer c
         then c\<lparr>c_messages := fst (addMessage (w_fmt W) (c_messages c) (mf_from f) plaintext (mf_ts f) mine mid)\<rparr>
         else if \<not> mine then c\<lparr>c_users := fst (incrementUnread (w_order W) (c_users c) peer)\<rparr>
         else c)"

definition receiveEdit :: "world \<Rightarrow> int \<Rightarrow> ChatClient \<Rightarrow> qstring \<Rightarrow> msg_frame \<Rightarrow> qstring \<Rightarrow> ChatClient" where
  "receiveEdit W now c peer f plaintext =
     (let mine = (mf_from f = c_nick c); editOf = mf_editOf f;
          (c1, seal) = boxSeal W c plaintext;
          (h, updated) = (case seal of None \<Rightarrow> (c_history c1, False)
                          | Some (n, ct) \<Rightarrow> updateTextRow (c_history c1) editOf n ct);
          c2 = c1\<lparr>c_history := h\<rparr>;
          c3 = (if updated
                then c2\<lparr>c_messages := fst (fst (editTextByMid (w_fmt W) (c_messages c2) editOf plaintext))\<rparr>
                else showText W
                       (case seal of None \<Rightarrow> c2
                        | Some (n, ct) \<Rightarrow>
                            c2\<lparr>c_history := fst (addTextRow (c_history c2) peer (mf_from f) n ct (mf_ts f) mine editOf)\<rparr>)
                       peer f plaintext editOf)
      in persistSession W now c3 peer)"

definition receiveText :: "world \<Rightarrow> int \<Rightarrow> ChatClient \<Rightarrow> qstring \<Rightarrow> msg_frame \<Rightarrow> qstring \<Rightarrow> ChatClient" where
  "receiveText W now c peer f plaintext =
     (let mine = (mf_from f = c_nick c);
          c1 = (if \<not> mine then setPeerTyping c peer ''idle'' else c);
          c2 = storeText W c1 peer (mf_from f) plaintext (mf_ts f) mine (mf_mid f)
      in showText W (persistSession W now c2 peer) peer f plaintext (mf_mid f))"

definition receivePing :: "world \<Rightarrow> int \<Rightarrow> ChatClient \<Rightarrow> qstring \<Rightarrow> ChatClient" where
  "receivePing W now c peer =
     (let c1 = persistSession W now c peer;
          c2 = sendOwedPongIfReady W now (c1\<lparr>c_pongOwed := insert peer (c_pongOwed c1)\<rparr>) peer
      in if peer \<in> c_pongOwed c2 then startKick c2 else c2)"

text \<open>A frame that was opened. Frames of the client itself never get here.\<close>

definition openedFrame :: "world \<Rightarrow> int \<Rightarrow> ChatClient \<Rightarrow> qstring \<Rightarrow> msg_frame \<Rightarrow> qstring \<Rightarrow> ChatClient" where
  "openedFrame W now c peer f plaintext =
     (let c1 = noteInboundFrom (c\<lparr>c_seenFrames := insert (peer, w_dh (mf_wire f), w_n (mf_wire f)) (c_seenFrames c)\<rparr>) peer;
          c2 = (if mf_kind f \<noteq> ''rekey-ping'' then sendOwedPongIfReady W now c1 peer else c1);
          c3 = (if mf_kind f = ''handshake'' then persistSession W now c2 peer
                else if mf_kind f = ''rekey-ping'' then receivePing W now c2 peer
                else if mf_kind f = ''rekey-pong'' then persistSession W now c2 peer
                else if mf_editOf f \<noteq> [] then receiveEdit W now c2 peer f plaintext
                else receiveText W now c2 peer f plaintext)
      in if c_outbox c3 \<noteq> [] \<and> c_connected c3 then flushOutbox W now c3 else c3)"

definition openFrame :: "world \<Rightarrow> int \<Rightarrow> ChatClient \<Rightarrow> qstring \<Rightarrow> msg_frame \<Rightarrow> ChatClient" where
  "openFrame W now c peer f =
     (if (peer, w_dh (mf_wire f), w_n (mf_wire f)) \<in> c_seenFrames c then c
      else
        (case boxDecrypt W (c\<lparr>c_crypto := fst (ensureSharedKey (w_ext W) (c_crypto c) peer
                              (valueOr [] (c_peerKeys c) peer))\<rparr>) peer (mf_wire f) of
           (c1, Some (x # xs)) \<Rightarrow> openedFrame W now c1 peer f (x # xs)
         | (c1, _) \<Rightarrow> c1))"

definition receiveMsg :: "world \<Rightarrow> int \<Rightarrow> ChatClient \<Rightarrow> msg_frame \<Rightarrow> ChatClient" where
  "receiveMsg W now c f =
     (let peer = (if mf_from f = c_nick c then mf_to f else mf_from f)
      in case openerOf W now c peer f of
           (c1, False) \<Rightarrow> c1
         | (c1, True) \<Rightarrow>
             (if mf_from f = c_nick c1 then c1
              else if c_peerKeys c1 peer = None then stashFrame c1 peer (Msg f)
              else case handshakeKey W c1 peer f of
                     (c2, False) \<Rightarrow> c2
                   | (c2, True) \<Rightarrow> openFrame W now c2 peer f))"

section \<open>Files\<close>

definition receiveFileInit :: "world \<Rightarrow> int \<Rightarrow> ChatClient \<Rightarrow> file_init \<Rightarrow> ChatClient" where
  "receiveFileInit W now c i =
     (let from = fi_from i; msgId = fi_msgId i
      in if c_peerKeys c from = None then (if fi_replayed i then c else stashFrame c from (FileInit i))
         else case fi_keyenc i of None \<Rightarrow> c
           | Some w \<Rightarrow>
             if (from, w_dh w, w_n w) \<in> c_seenFrames c then c
             else
               (case boxDecrypt W (c\<lparr>c_crypto := fst (ensureSharedKey (w_ext W) (c_crypto c) from
                                     (valueOr [] (c_peerKeys c) from))\<rparr>) from w of
                  (c1, Some (x # xs)) \<Rightarrow>
                    (let c2 = c1\<lparr>c_seenFrames := insert (from, w_dh w, w_n w) (c_seenFrames c1)\<rparr>;
                         c3 = persistSession W now (if from \<noteq> c_nick c2 then noteInboundFrom c2 from else c2) from;
                         (fc, ok) = initPull (w_ext W) newFileCrypto (qFromHex (w_ext W) (x # xs))
                                      (qFromHex (w_ext W) (fi_header i));
                         path = w_appData W @ ''/'' @ msgId @ ''_'' @ fi_filename i
                     in if \<not> ok \<or> \<not> w_canWrite W path then c3
                        else c3\<lparr>c_files := (c_files c3)(path \<mapsto> []),
                               c_incoming := (c_incoming c3)(msgId \<mapsto>
                                 \<lparr>in_msgId = msgId, in_sender = from, in_filename = fi_filename i, in_mime = fi_mime i,
                                  in_expectedSize = fi_size i, in_receivedBytes = 0, in_nextChunkIndex = 0,
                                  in_file = [], in_localPath = path, in_crypto = fc,
                                  in_replayed = fi_replayed i\<rparr>)\<rparr>)
                | (c1, _) \<Rightarrow> c1))"

definition fileLine :: "qstring \<Rightarrow> qstring \<Rightarrow> qstring" where
  "fileLine sender filename =
     [CHR 0xF0, CHR 0x9F, CHR 0x93, CHR 0x8E] @ '' '' @ sender @ '' sent you a file: '' @ filename"

text \<open>The end of a transfer: the same steps after the last chunk and after the sender's closing frame.\<close>

definition finishIncoming :: "world \<Rightarrow> int \<Rightarrow> ChatClient \<Rightarrow> IncomingFile \<Rightarrow> ChatClient" where
  "finishIncoming W now c inc =
     (let msgId = in_msgId inc; sender = in_sender inc;
          c1 = c\<lparr>c_receivedFilePaths := (c_receivedFilePaths c)(msgId \<mapsto> in_localPath inc),
                 c_history := fst (addFileRow (recordReceivedFile (c_history c) msgId sender now) sender sender msgId
                   (in_filename inc) (in_mime inc) (in_receivedBytes inc) (in_localPath inc) now False)\<rparr>;
          c2 = (if sender = c_activePeer c1
                then c1\<lparr>c_messages := fst (appendFileMessage (w_fmt W) now (c_messages c1) sender msgId
                       (in_filename inc) (in_mime inc) (in_receivedBytes inc) (in_localPath inc) False 0)\<rparr>
                else c1\<lparr>c_users := fst (incrementUnread (w_order W) (c_users c1) sender),
                        c_history := fst (addSystemRow (c_history c1) sender (fileLine sender (in_filename inc)) now)\<rparr>)
      in c2\<lparr>c_incoming := (c_incoming c2)(msgId := None)\<rparr>)"

definition chunkIndex :: "bytes \<Rightarrow> u32" where
  "chunkIndex data = push_bit 24 (ucast (data ! 36)) OR push_bit 16 (ucast (data ! 37)) OR
     push_bit 8 (ucast (data ! 38)) OR ucast (data ! 39)"

definition onBinaryMessageReceived :: "world \<Rightarrow> int \<Rightarrow> ChatClient \<Rightarrow> bytes \<Rightarrow> ChatClient" where
  "onBinaryMessageReceived W now c data =
     (if length data < 40 then c
      else
        (let msgId = of_latin1 (take 36 data)
         in case c_incoming c msgId of None \<Rightarrow> c
            | Some inc \<Rightarrow>
                if sint (chunkIndex data) \<noteq> in_nextChunkIndex inc
                then c\<lparr>c_incoming := (c_incoming c)(msgId := None)\<rparr>
                else
                  (case decryptChunk (w_ext W) (in_crypto inc) (drop 40 data) of
                     (fc, None, _) \<Rightarrow> c\<lparr>c_incoming := (c_incoming c)(msgId := None)\<rparr>
                   | (fc, Some pt, isFinal) \<Rightarrow>
                       (let inc1 = inc\<lparr>in_nextChunkIndex := in_nextChunkIndex inc + 1, in_crypto := fc,
                              in_file := in_file inc @ pt,
                              in_receivedBytes := in_receivedBytes inc + int (length pt)\<rparr>;
                            c1 = c\<lparr>c_files := (c_files c)(in_localPath inc \<mapsto> in_file inc1),
                                   c_incoming := (c_incoming c)(msgId \<mapsto> inc1)\<rparr>
                        in if isFinal then finishIncoming W now c1 inc1 else c1))))"

definition receiveFileEnd :: "world \<Rightarrow> int \<Rightarrow> ChatClient \<Rightarrow> qstring \<Rightarrow> ChatClient" where
  "receiveFileEnd W now c msgId =
     (case c_incoming c msgId of None \<Rightarrow> c
      | Some inc \<Rightarrow> (finishIncoming W now c inc)\<lparr>c_incoming := (c_incoming c)(msgId := None)\<rparr>)"

section \<open>Retractions, reactions, typing\<close>

definition receiveDelete :: "world \<Rightarrow> ChatClient \<Rightarrow> qstring \<Rightarrow> ChatClient" where
  "receiveDelete W c mid =
     (if mid = [] then c
      else c\<lparr>c_messages := fst (fst (markDeletedByMid (w_fmt W) (c_messages c) mid)),
             c_history := fst (markDeleted (c_history c) mid)\<rparr>)"

definition receiveReaction :: "world \<Rightarrow> ChatClient \<Rightarrow> qstring \<Rightarrow> qstring \<Rightarrow> qstring \<Rightarrow> ChatClient" where
  "receiveReaction W c from mid kind =
     (if from = [] \<or> mid = [] then c
      else c\<lparr>c_history := fst (setReaction (c_history c) from mid ''peer'' kind),
             c_messages := fst (fst (applyReaction (w_fmt W) (c_messages c) mid False kind))\<rparr>)"

definition receiveTyping :: "ChatClient \<Rightarrow> qstring \<Rightarrow> qstring \<Rightarrow> ChatClient" where
  "receiveTyping c from state = (if from = [] then c else setPeerTyping c from state)"

section \<open>Frames forwarded by the relay\<close>

text \<open>Other frames of a client are requests to the relay; received, they match no branch.\<close>

fun receiveFrame :: "world \<Rightarrow> int \<Rightarrow> ChatClient \<Rightarrow> net_frame \<Rightarrow> ChatClient" where
  "receiveFrame W now c (Msg f) = receiveMsg W now c f"
| "receiveFrame W now c (VerifyAck from to senderIk verifiedIk ts) = receiveVerifyAck W now c from to senderIk verifiedIk ts"
| "receiveFrame W now c (VerifyResync from to _ _) = receiveVerifyResync now c from to"
| "receiveFrame W now c (FileInit i) = receiveFileInit W now c i"
| "receiveFrame W now c (Binary data) = onBinaryMessageReceived W now c data"
| "receiveFrame W now c (FileEnd msgId) = receiveFileEnd W now c msgId"
| "receiveFrame W now c (Delete _ _ mid _) = receiveDelete W c mid"
| "receiveFrame W now c (Reaction from _ mid kind _) = receiveReaction W c from mid kind"
| "receiveFrame W now c (Typing from _ state) = receiveTyping c from state"
| "receiveFrame W now c _ = c"

text \<open>The frames that were waiting for a key. The list is taken first, so that a frame which still cannot be
  opened waits for the next key.\<close>

definition replayPendingFrames :: "world \<Rightarrow> int \<Rightarrow> ChatClient \<Rightarrow> qstring \<Rightarrow> ChatClient" where
  "replayPendingFrames W now c nick =
     fold (\<lambda>f c. receiveFrame W now c f) (c_pendingFrames c nick)
       (c\<lparr>c_pendingFrames := (c_pendingFrames c)(nick := [])\<rparr>)"

section \<open>What receiving a message changes\<close>

text \<open>Relations that hold of every update that opening a frame makes. They then hold of opening it.\<close>

locale open_change = drain_change +
  assumes received: "R c (c\<lparr>c_crypto := x1\<rparr>)" "R c (c\<lparr>c_users := x2\<rparr>)" "R c (c\<lparr>c_pongOwed := x3\<rparr>)"
      "R c (c\<lparr>c_pendingFrames := x4\<rparr>)" "R c (c\<lparr>c_peerTyping := x6\<rparr>)"
      "R c (c\<lparr>c_seenFrames := insert k (c_seenFrames c)\<rparr>)"
begin

lemma decrypted: "R c (fst (boxDecrypt W c peer w))"
  by (auto simp: boxDecrypt_def case_prod_beta intro!: backs received)

lemma noted_inbound: "R c (noteInboundFrom c peer)"
  by (auto simp: noteInboundFrom_def releasePing_def intro!: backs refl)

lemma line: "R c (systemLine W now c peer txt)"
  by (auto simp: systemLine_def Let_def intro!: backs refl)

lemma pong: "R c (sendOwedPongIfReady W now c peer)"
  using transmit [of c W now peer True]
  by (auto simp: sendOwedPongIfReady_def case_prod_beta split: bool.split intro!: received(3) [THEN trans [rotated]] refl)

lemmas rx = drains received [THEN trans [rotated]] decrypted [THEN trans [rotated]]
  noted_inbound [THEN trans [rotated]] line [THEN trans [rotated]] pong [THEN trans [rotated]]
  drained [THEN trans [rotated]] ack_sent [THEN trans [rotated]] handshake_sent [THEN trans [rotated]]

lemma stashed: "R c (stashFrame c peer f)"
  by (auto simp: stashFrame_def intro!: rx refl)

lemma shown: "R c (showText W c peer f pt mid)"
  by (auto simp: showText_def Let_def intro!: rx refl)

lemma edited: "R c (receiveEdit W now c peer f pt)"
  unfolding receiveEdit_def Let_def case_prod_beta
  by (auto split: option.split intro!: rx shown [THEN trans [rotated]] refl)

lemma text_received: "R c (receiveText W now c peer f pt)"
  by (auto simp: receiveText_def Let_def setPeerTyping_def intro!: rx shown [THEN trans [rotated]] refl)

lemma pinged: "R c (receivePing W now c peer)"
  by (auto simp: receivePing_def Let_def startKick_def intro!: rx refl)

lemma opened: "R c (openedFrame W now c peer f pt)"
  unfolding openedFrame_def Let_def
  by (auto intro!: rx edited [THEN trans [rotated]] text_received [THEN trans [rotated]] pinged [THEN trans [rotated]] refl)

lemma frame_opened: "R c (openFrame W now c peer f)"
  unfolding openFrame_def case_prod_beta
  by (auto split: option.split list.split intro!: rx opened [THEN trans [rotated]] refl)

lemma opener: "R c (fst (openerOf W now c peer f))"
  unfolding openerOf_def acceptOpener_def case_prod_beta Let_def
  by (auto split: option.split bool.split intro!: rx refl)

lemma small:
  "R c (receiveDelete W c mid)" "R c (receiveReaction W c from mid kind)" "R c (receiveTyping c from state)"
  "R c (receiveVerifyResync now c from to)"
  by (auto simp: receiveDelete_def receiveReaction_def receiveTyping_def setPeerTyping_def receiveVerifyResync_def
      intro!: rx refl)

end

text \<open>Those that also hold of the keys a handshake brings hold of receiving a message.\<close>

locale handshake_change = open_change +
  assumes adopted: "R c (c\<lparr>c_rebootstrapAdopted := x5\<rparr>)" "R c (c\<lparr>c_peerKeys := (c_peerKeys c)(p \<mapsto> v)\<rparr>)"
begin

lemma handshake_key: "R c (fst (handshakeKey W c peer f))"
proof -
  have "R c (c\<lparr>c_rebootstrapAdopted := x, c_peerKeys := (c_peerKeys c)(peer \<mapsto> ik), c_crypto := b\<rparr>)" for x ik b
    using adopted(2) [of "c\<lparr>c_rebootstrapAdopted := x\<rparr>" peer ik] by (intro rx) (auto intro: trans [OF adopted(1)])
  then show ?thesis
    unfolding handshakeKey_def Let_def by (auto intro!: received stashed [THEN trans [rotated]] refl)
qed

lemma message: "R c (receiveMsg W now c f)"
proof -
  let ?peer = "if mf_from f = c_nick c then mf_to f else mf_from f"
  obtain c1 ok where o: "openerOf W now c ?peer f = (c1, ok)" by fastforce
  obtain c2 go where h: "handshakeKey W c1 ?peer f = (c2, go)" by fastforce
  have "R c c1" using opener [of c W now ?peer f] o by simp
  moreover from this have "R c c2" using handshake_key [of c1 W ?peer f] h trans by simp
  ultimately show ?thesis
    unfolding receiveMsg_def Let_def o h prod.case
    by (simp split: bool.split add: h)
      (auto intro!: frame_opened [THEN trans [rotated]] stashed [THEN trans [rotated]])
qed

end

text \<open>Those that also hold of what a confirmation changes hold of receiving one.\<close>

locale receive_change = handshake_change +
  assumes gated: "R c (c\<lparr>c_pendingBilateral := c_pendingBilateral c - {q}, c_verifyAckResend := y2\<rparr>)"
      "R c (c\<lparr>c_verifiedPeerIdentity := y3\<rparr>)" "R c (c\<lparr>c_peerVerifiedForIdentity := y4\<rparr>)" "R c (c\<lparr>c_peerVerified := y5\<rparr>)"
begin

lemmas rg = rx gated [THEN trans [rotated]] adopted [THEN trans [rotated]]

lemma resolve: "R c (tryResolveBilateral W now c peer)"
proof -
  have "R c (recordResolved now (c\<lparr>c_pendingBilateral := c_pendingBilateral c - {peer}, c_verifyAckResend := y\<rparr>) peer)" for y
    unfolding recordResolved_def Let_def by (auto intro!: rg gated)
  then show ?thesis
    unfolding tryResolveBilateral_def Let_def by (auto intro!: rx refl)
qed

lemma attested: "R c (receiveVerifyAck W now c from to senderIk verifiedIk ts)"
  unfolding receiveVerifyAck_def Let_def
  by (auto intro!: rg resolve [THEN trans [rotated]] refl)

end

text \<open>Those that hold of what a transfer changes hold of every frame of a transfer.\<close>

locale transfer_change = handshake_change +
  assumes transferred: "R c (c\<lparr>c_incoming := z1\<rparr>)" "R c (c\<lparr>c_files := z2\<rparr>)" "R c (c\<lparr>c_receivedFilePaths := z3\<rparr>)"
begin

lemmas rt = rx transferred [THEN trans [rotated]]

lemma transfer_init: "R c (receiveFileInit W now c i)"
  unfolding receiveFileInit_def Let_def case_prod_beta
  by (auto split: option.split list.split intro!: rt stashed refl)

lemma finished: "R c (finishIncoming W now c inc)"
  unfolding finishIncoming_def Let_def by (auto intro!: rt refl)

lemma transfer_chunk: "R c (onBinaryMessageReceived W now c data)"
  unfolding onBinaryMessageReceived_def Let_def case_prod_beta
  by (auto split: option.split intro!: rt finished [THEN trans [rotated]] refl)

lemma transfer_end: "R c (receiveFileEnd W now c msgId)"
  unfolding receiveFileEnd_def
  by (auto split: option.split intro!: rt finished [THEN trans [rotated]] refl)

lemmas frames = message transfer_init transfer_chunk transfer_end small refl

end

section \<open>No frame is opened twice\<close>

text \<open>Nothing that is received forgets a key, the frames that were opened, or who the client is.\<close>

definition memory_kept :: "ChatClient \<Rightarrow> ChatClient \<Rightarrow> bool" where
  "memory_kept c c' \<longleftrightarrow> c_nick c' = c_nick c \<and> dom (c_peerKeys c) \<subseteq> dom (c_peerKeys c') \<and> c_seenFrames c \<subseteq> c_seenFrames c'"

interpretation mk: receive_change memory_kept
proof
  show "memory_kept c (fst (boxEncrypt W c peer pt))" for c W peer pt
    by (simp add: memory_kept_def)
  show "memory_kept a c" if "memory_kept a b" "memory_kept b c" for a b c
    using that unfolding memory_kept_def by (metis subset_trans)
qed (auto simp: memory_kept_def idle_def requeue_def sendFrame_def)

interpretation mt: transfer_change memory_kept
  by unfold_locales (auto simp: memory_kept_def)

lemma mk_frame: "memory_kept c (receiveFrame W now c f)"
  by (cases f) (simp_all add: mt.frames mk.attested)

lemma mk_replay: "memory_kept c (replayPendingFrames W now c nick)"
  unfolding replayPendingFrames_def
  by (rule mk.trans [OF mk.received(4) mk.fold_change]) (rule mk_frame)

section \<open>Transfers and messages do not interfere\<close>

definition files_kept :: "ChatClient \<Rightarrow> ChatClient \<Rightarrow> bool" where
  "files_kept c c' \<longleftrightarrow> c_incoming c' = c_incoming c \<and> c_files c' = c_files c \<and> c_receivedFilePaths c' = c_receivedFilePaths c"

interpretation fk: receive_change files_kept
proof
  show "files_kept c (fst (boxEncrypt W c peer pt))" for c W peer pt
    by (simp add: files_kept_def boxEncrypt_def case_prod_beta)
qed (auto simp: files_kept_def idle_def requeue_def sendFrame_def)

section \<open>A text is delivered\<close>

text \<open>What the user of a client can see, and what its database keeps of the conversations.\<close>

definition screen :: "ChatClient \<Rightarrow> MessageModel \<times> UserModel \<times> qstring \<times> qstring \<times> HistoryRow list \<times> nat \<times> bool \<times> bytes \<times> PendingOut list" where
  "screen c = (c_messages c, c_users c, c_activePeer c, c_nick c, db_history (db (c_history c)), db_historySeq (db (c_history c)),
     m_ready (c_history c), m_privateKey (c_crypto c), c_outbox c)"

lemma encryptFor_privateKey [simp]: "m_privateKey (fst (encryptFor E rnd nonce b peer pt)) = m_privateKey b"
  using encryptFor_kept [of b E rnd nonce peer pt] by (auto simp: box_kept_def dest: arg_cong [of _ _ m_privateKey])

lemma screen_encrypt: "screen (fst (boxEncrypt W c peer pt)) = screen c"
  by (simp add: screen_def) (simp add: boxEncrypt_def case_prod_beta)

lemma screen_send: "screen (sendFrame c f) = screen c"
  by (simp add: screen_def sendFrame_def)

lemma screen_persist: "screen (persistSession W now c peer) = screen c"
  by (simp add: screen_def) (simp add: persistSession_def saveSession_def Let_def)

lemma screen_transmit: "screen (fst (transmitRekey W now c peer isPong)) = screen c"
proof -
  let ?s = "if isPong then kRekeyPongSentinel else kRekeyPingSentinel"
  obtain c1 r where "boxEncrypt W c peer ?s = (c1, r)" by fastforce
  with screen_encrypt [of W c peer ?s] show ?thesis
    by (cases r; cases isPong) (simp_all add: transmitRekey_def screen_persist screen_send)
qed

lemma screen_pong: "screen (sendOwedPongIfReady W now c peer) = screen c"
proof -
  have "screen (d\<lparr>c_pongOwed := x\<rparr>) = screen d" for d x by (simp add: screen_def)
  with screen_transmit [of W now c peer True] show ?thesis
    by (simp add: sendOwedPongIfReady_def case_prod_beta split: bool.split)
qed

lemma screen_noted: "screen (noteInboundFrom (c\<lparr>c_seenFrames := x\<rparr>) peer) = screen c"
  by (simp add: screen_def noteInboundFrom_def releasePing_def)

lemma decryptFrom_privateKey: "m_privateKey (fst (decryptFrom E rnd ratchetRnd b peer w)) = m_privateKey b"
  by (auto simp: decryptFrom_def sessionFor_def Let_def case_prod_beta split: option.split)

lemma screen_decrypt: "screen (fst (boxDecrypt W (c\<lparr>c_crypto := fst (ensureSharedKey E (c_crypto c) peer k)\<rparr>) peer w)) = screen c"
  by (simp add: screen_def boxDecrypt_def case_prod_beta decryptFrom_privateKey)
    (simp add: ensureSharedKey_def Let_def)

text \<open>A text of \<open>sender\<close> that has arrived: shown at the end of the open conversation or counted as unread,
  and kept in the database so that it can be read again.\<close>

definition arrived :: "world \<Rightarrow> ChatClient \<Rightarrow> ChatClient \<Rightarrow> qstring \<Rightarrow> qstring \<Rightarrow> int \<Rightarrow> qstring \<Rightarrow> bool" where
  "arrived W c c' sender pt ts mid \<longleftrightarrow>
     (if c_activePeer c = sender
      then c_messages c' = c_messages c @ [newMessage\<lparr>row_sender := sender, row_text := pt, row_ts := ts, row_mid := mid\<rparr>]
      else c_messages c' = c_messages c \<and> unreadOf (c_users c') sender = unreadOf (c_users c) sender + 1) \<and>
     (\<exists>r. db_history (db (c_history c')) = db_history (db (c_history c)) @ [r] \<and> h_peer r = sender \<and> h_sender r = sender \<and>
        h_kind r = ''text'' \<and> h_ts r = ts \<and> \<not> h_mine r \<and> h_msgId r = (if mid = [] then None else Some mid) \<and>
        localOpen (w_ext W) (c_crypto c') (h_nonce r) (h_ct r) = Some pt)"

lemma unread_incremented: "unreadOf (fst (incrementUnread T u peer)) peer = unreadOf u peer + 1"
  by (simp add: incrementUnread_def ensureUser_def insertUserSorted_def unreadOf_def Let_def case_prod_beta)

lemma receiveText_arrives:
  assumes laws: "aead_law (w_ext W)" "hex_law (w_ext W)" "text_law (w_ext W)"
    and c: "m_ready (c_history c)" "m_privateKey (c_crypto c) \<noteq> []" and f: "mf_from f \<noteq> c_nick c"
  shows "arrived W c (receiveText W now c (mf_from f) f pt) (mf_from f) pt (mf_ts f) (mf_mid f)"
    "c_outbox (receiveText W now c (mf_from f) f pt) = c_outbox c"
proof -
  let ?from = "mf_from f" and ?n = "w_rnd W (c_draws c) 24"
  define ct where "ct = toHex (xchacha_encrypt (w_ext W) (localKey (w_ext W) (c_crypto c)) ?n [] (toUtf8 (w_ext W) pt))"
  define c1 where "c1 = setPeerTyping c ?from ''idle''"
  define c2 where "c2 = storeText W c1 ?from ?from pt (mf_ts f) False (mf_mid f)"
  have c1: "c_messages c1 = c_messages c" "c_users c1 = c_users c" "c_activePeer c1 = c_activePeer c"
      "c_crypto c1 = c_crypto c" "c_history c1 = c_history c" "c_nick c1 = c_nick c" "c_draws c1 = c_draws c"
      "c_outbox c1 = c_outbox c"
    by (simp_all add: c1_def setPeerTyping_def)
  have opens: "localOpen (w_ext W) (c_crypto c) (toHex ?n) ct = Some pt"
    using laws c(2) by (simp add: ct_def localOpen_def localKey_def aead_law_def hex_law_def text_law_def)
  have seal: "boxSeal W c1 pt = (c1\<lparr>c_draws := c_draws c1 + 1\<rparr>, Some (toHex ?n, ct))"
    using c(2) by (simp add: boxSeal_def localSeal_def c1 ct_def)
  have c2: "c2 = c1\<lparr>c_draws := c_draws c1 + 1, c_history := setDb (c_history c) (insertHistory (db (c_history c))
      (emptyRow\<lparr>h_peer := ?from, h_kind := ''text'', h_sender := ?from, h_ts := mf_ts f, h_mine := False,
         h_nonce := toHex ?n, h_ct := ct, h_msgId := (if mf_mid f = [] then None else Some (mf_mid f))\<rparr>))\<rparr>"
    using c(1) by (simp add: c2_def storeText_def seal addTextRow_def c1)
  define c3 where "c3 = persistSession W now c2 ?from"
  have "screen c3 = screen c2" by (simp add: c3_def screen_persist)
  then have c3: "c_messages c3 = c_messages c" "c_users c3 = c_users c" "c_activePeer c3 = c_activePeer c"
      "c_nick c3 = c_nick c" "c_outbox c3 = c_outbox c" "db_history (db (c_history c3)) = db_history (db (c_history c2))"
    by (simp_all add: screen_def c2 c1)
  have key: "c_crypto c3 = c_crypto c" by (simp add: c3_def c2 c1)
  have rt: "receiveText W now c ?from f pt = showText W c3 ?from f pt (mf_mid f)"
    using f by (simp add: receiveText_def Let_def c3_def c2_def c1_def)
  show "c_outbox (receiveText W now c ?from f pt) = c_outbox c"
    unfolding rt by (simp add: showText_def Let_def c3)
  have kept: "db_history (db (c_history (showText W c3 ?from f pt (mf_mid f)))) = db_history (db (c_history c2))"
    "c_crypto (showText W c3 ?from f pt (mf_mid f)) = c_crypto c"
    by (simp_all add: showText_def Let_def c3 key)
  show "arrived W c (receiveText W now c ?from f pt) ?from pt (mf_ts f) (mf_mid f)"
    unfolding rt arrived_def kept using f opens
    by (simp add: showText_def Let_def c3 unread_incremented addMessage_def appendRow_def newMessage_def)
      (simp add: c2 insertHistory_def emptyRow_def)
qed

lemma arrived_screen: "screen c = screen d \<Longrightarrow> arrived W c e = arrived W d e"
  by (intro ext) (simp add: arrived_def screen_def)

text \<open>A frame that decrypts to a text.\<close>

lemma openFrame_arrives:
  assumes laws: "aead_law (w_ext W)" "hex_law (w_ext W)" "text_law (w_ext W)"
    and c: "m_ready (c_history c)" "m_privateKey (c_crypto c) \<noteq> []" "c_outbox c = []"
    and f: "mf_from f \<noteq> c_nick c" "mf_kind f = []" "mf_editOf f = []"
    and new: "(mf_from f, w_dh (mf_wire f), w_n (mf_wire f)) \<notin> c_seenFrames c"
    and dec: "snd (boxDecrypt W (c\<lparr>c_crypto := fst (ensureSharedKey (w_ext W) (c_crypto c) (mf_from f)
        (valueOr [] (c_peerKeys c) (mf_from f)))\<rparr>) (mf_from f) (mf_wire f)) = Some pt" "pt \<noteq> []"
  shows "arrived W c (openFrame W now c (mf_from f) f) (mf_from f) pt (mf_ts f) (mf_mid f)"
proof -
  let ?from = "mf_from f" and ?k = "valueOr [] (c_peerKeys c) (mf_from f)"
  obtain c1 where c1: "boxDecrypt W (c\<lparr>c_crypto := fst (ensureSharedKey (w_ext W) (c_crypto c) ?from ?k)\<rparr>) ?from (mf_wire f) =
      (c1, Some pt)"
    using dec(1) by (metis prod.collapse)
  define c2 where "c2 = sendOwedPongIfReady W now (noteInboundFrom (c1\<lparr>c_seenFrames :=
      insert (?from, w_dh (mf_wire f), w_n (mf_wire f)) (c_seenFrames c1)\<rparr>) ?from) ?from"
  have screen: "screen c2 = screen c"
    using screen_decrypt [where W = W and c = c and E = "w_ext W" and peer = ?from and k = ?k and w = "mf_wire f"] c1
    by (simp add: c2_def screen_pong screen_noted)
  then have c2: "m_ready (c_history c2)" "m_privateKey (c_crypto c2) \<noteq> []" "mf_from f \<noteq> c_nick c2" "c_outbox c2 = []"
    using c f(1) by (simp_all add: screen_def)
  have "openFrame W now c ?from f = openedFrame W now c1 ?from f pt"
    using new dec(2) by (cases pt) (simp_all add: openFrame_def c1)
  also have "\<dots> = receiveText W now c2 ?from f pt"
    using f(2,3) receiveText_arrives(2) [OF laws c2(1-3)] c2(4)
    by (simp add: openedFrame_def c2_def [symmetric] Let_def)
  finally show ?thesis using receiveText_arrives(1) [OF laws c2(1-3)] arrived_screen [OF screen] by simp
qed

section \<open>A file is delivered\<close>

lemma chunkFrame_parts:
  assumes "length msgId = 36"
  shows "of_latin1 (take 36 (chunkFrame msgId idx ct)) = msgId" "drop 40 (chunkFrame msgId idx ct) = ct"
    "\<not> length (chunkFrame msgId idx ct) < 40" "chunkIndex (chunkFrame msgId idx ct) = idx"
proof -
  have "length (latin1 msgId) = 36" using assms by simp
  then show "of_latin1 (take 36 (chunkFrame msgId idx ct)) = msgId" "drop 40 (chunkFrame msgId idx ct) = ct"
      "\<not> length (chunkFrame msgId idx ct) < 40"
    by (simp_all add: chunkFrame_def)
  have nth: "(latin1 msgId @ be32 idx @ ct) ! (36 + k) = be32 idx ! k" if "k < 4" for k
    using that \<open>length (latin1 msgId) = 36\<close> by (simp add: nth_append)
  show "chunkIndex (chunkFrame msgId idx ct) = idx"
    using nth [of 0] nth [of 1] nth [of 2] nth [of 3] by (simp add: chunkIndex_def chunkFrame_def be32_def join_bytes32)
qed

text \<open>The state of a transfer after \<open>content\<close> more bytes in \<open>k\<close> chunks.\<close>

definition grown :: "IncomingFile \<Rightarrow> FileCrypto \<Rightarrow> bytes \<Rightarrow> int \<Rightarrow> IncomingFile" where
  "grown inc fc content k = inc\<lparr>in_nextChunkIndex := in_nextChunkIndex inc + k, in_crypto := fc,
     in_file := in_file inc @ content, in_receivedBytes := in_receivedBytes inc + int (length content)\<rparr>"

definition written :: "ChatClient \<Rightarrow> IncomingFile \<Rightarrow> ChatClient" where
  "written d inc = d\<lparr>c_files := (c_files d)(in_localPath inc \<mapsto> in_file inc),
     c_incoming := (c_incoming d)(in_msgId inc \<mapsto> inc)\<rparr>"

lemma grown_grown: "grown (grown inc fc p k) fc' q l = grown inc fc' (p @ q) (k + l)"
  by (simp add: grown_def)

lemma written_again: "in_localPath inc' = in_localPath inc \<Longrightarrow> in_msgId inc' = in_msgId inc \<Longrightarrow> written (written d inc) inc' = written d inc'"
  by (simp add: written_def)

lemma chunk_received:
  assumes "c_incoming d (in_msgId inc) = Some inc" "length (in_msgId inc) = 36" "in_nextChunkIndex inc = uint idx" "uint idx < 2 ^ 31"
    and "decryptChunk (w_ext W) (in_crypto inc) ct = (fc, Some pt, isFinal)"
  shows "onBinaryMessageReceived W now d (chunkFrame (in_msgId inc) idx ct) =
    (if isFinal then finishIncoming W now (written d (grown inc fc pt 1)) (grown inc fc pt 1) else written d (grown inc fc pt 1))"
proof -
  have "- (2 ^ 31) \<le> uint idx" by (rule order_trans [OF _ uint_ge_0]) simp
  then have "sint idx = uint idx" using signed_take_bit_int_eq_self [OF _ assms(4)] by (simp add: sint_uint)
  with assms chunkFrame_parts [OF assms(2)] show ?thesis
    by (simp add: onBinaryMessageReceived_def written_def grown_def Let_def)
qed

text \<open>One chunk, from the sender's loop to the receiver's file.\<close>

lemma pump_step:
  assumes law: "stream_law (w_ext W) sync" and out: "out_file out \<noteq> []" "c_connected c" "out_msgId out = in_msgId inc"
    and sync: "sync (fc_state (out_crypto out)) (fc_state (in_crypto inc))" "fc_initialized (out_crypto out)" "fc_initialized (in_crypto inc)"
    and inc: "length (in_msgId inc) = 36" "c_incoming d (in_msgId inc) = Some inc" "in_nextChunkIndex inc = uint (out_nextChunkIndex out)"
    and small: "uint (out_nextChunkIndex out) \<le> 800"
    and chunk: "chunk = take CHUNK_SIZE (out_file out)" and rest: "rest = drop CHUNK_SIZE (out_file out)"
  obtains f s' r' where
    "pumpLoop (w_ext W) c out = pumpLoop (w_ext W) (c\<lparr>c_sent := c_sent c @ [Binary f]\<rparr>)
       (out\<lparr>out_nextChunkIndex := out_nextChunkIndex out + 1, out_file := rest, out_crypto := s'\<rparr>)"
    "receiveFrame W now d (Binary f) = (if rest = [] then finishIncoming W now (written d (grown inc r' chunk 1)) (grown inc r' chunk 1)
       else written d (grown inc r' chunk 1))"
    "sync (fc_state s') (fc_state r')" "fc_initialized s'" "fc_initialized r'"
proof -
  obtain s' ct r' where 1: "encryptChunk (w_ext W) (out_crypto out) chunk (rest = []) = (s', Some ct)"
      "decryptChunk (w_ext W) (in_crypto inc) ct = (r', Some chunk, rest = [])" "sync (fc_state s') (fc_state r')"
      "fc_initialized s'" "fc_initialized r'"
    using stream_push_pull [OF law sync] by metis
  let ?f = "chunkFrame (out_msgId out) (out_nextChunkIndex out) ct"
  have "pumpLoop (w_ext W) c out = pumpLoop (w_ext W) (c\<lparr>c_sent := c_sent c @ [Binary ?f]\<rparr>)
      (out\<lparr>out_nextChunkIndex := out_nextChunkIndex out + 1, out_file := rest, out_crypto := s'\<rparr>)"
    using out(1,2) 1(1) chunk rest by (subst pumpLoop.simps) (simp add: Let_def sendFrame_def)
  moreover have "receiveFrame W now d (Binary ?f) =
      (if rest = [] then finishIncoming W now (written d (grown inc r' chunk 1)) (grown inc r' chunk 1)
       else written d (grown inc r' chunk 1))"
    using chunk_received [OF inc(2,1,3) _ 1(2)] small out(3) by simp
  ultimately show thesis using that 1(3-5) by blast
qed

text \<open>The receiver after all the chunks, and after only some of them.\<close>

definition got_file :: "world \<Rightarrow> int \<Rightarrow> ChatClient \<Rightarrow> IncomingFile \<Rightarrow> bytes \<Rightarrow> bytes list \<Rightarrow> bool" where
  "got_file W now d inc content cts \<longleftrightarrow>
     length content \<le> length cts * CHUNK_SIZE \<and>
     (\<exists>fc k. fold (\<lambda>f d. receiveFrame W now d f) (map Binary cts) d =
        finishIncoming W now (written d (grown inc fc content k)) (grown inc fc content k)) \<and>
     (\<forall>j. 0 < j \<longrightarrow> j < length cts \<longrightarrow> j * CHUNK_SIZE < length content \<and>
        (\<exists>fc. fold (\<lambda>f d. receiveFrame W now d f) (map Binary (take j cts)) d =
           written d (grown inc fc (take (j * CHUNK_SIZE) content) (int j))))"

lemma got_file_Cons:
  assumes first: "receiveFrame W now d (Binary f) = written d (grown inc r' (take CHUNK_SIZE content) 1)"
    and rest: "drop CHUNK_SIZE content \<noteq> []"
    and got: "got_file W now (written d (grown inc r' (take CHUNK_SIZE content) 1)) (grown inc r' (take CHUNK_SIZE content) 1)
      (drop CHUNK_SIZE content) cts"
  shows "got_file W now d inc content (f # cts)"
proof -
  let ?chunk = "take CHUNK_SIZE content" and ?rest = "drop CHUNK_SIZE content" and ?recv = "\<lambda>f d. receiveFrame W now d f"
  let ?inc = "grown inc r' ?chunk 1"
  have again: "written (written d ?inc) (grown ?inc fc p k) = written d (grown inc fc (?chunk @ p) (1 + k))" for fc p k
    using written_again [of "grown ?inc fc p k" ?inc d] by (simp add: grown_grown) (simp add: grown_def)
  from got have all: "\<exists>fc k. fold ?recv (map Binary cts) (written d ?inc) =
      finishIncoming W now (written (written d ?inc) (grown ?inc fc ?rest k)) (grown ?inc fc ?rest k)"
    and some: "\<And>j. 0 < j \<Longrightarrow> j < length cts \<Longrightarrow> j * CHUNK_SIZE < length ?rest \<and>
      (\<exists>fc. fold ?recv (map Binary (take j cts)) (written d ?inc) =
         written (written d ?inc) (grown ?inc fc (take (j * CHUNK_SIZE) ?rest) (int j)))"
    by (simp_all add: got_file_def)
  have "\<exists>fc k. fold ?recv (map Binary (f # cts)) d = finishIncoming W now (written d (grown inc fc content k)) (grown inc fc content k)"
    using all first by (auto simp: again) (auto simp: grown_grown)
  moreover have "j * CHUNK_SIZE < length content \<and> (\<exists>fc. fold ?recv (map Binary (take j (f # cts))) d =
      written d (grown inc fc (take (j * CHUNK_SIZE) content) (int j)))" if j: "0 < j" "j < length (f # cts)" for j
  proof (cases "j = 1")
    case True
    with first rest show ?thesis by auto
  next
    case False
    with j obtain i where i: "j = Suc i" "0 < i" "i < length cts" by (cases j) auto
    have "?chunk @ take (i * CHUNK_SIZE) ?rest = take (j * CHUNK_SIZE) content" by (simp add: i take_add)
    with some [OF i(2,3)] first show ?thesis by (auto simp: i again)
  qed
  moreover have "length ?rest \<le> length cts * CHUNK_SIZE" using got by (simp add: got_file_def)
  then have "length content \<le> length (f # cts) * CHUNK_SIZE" by simp
  ultimately show ?thesis by (simp add: got_file_def)
qed

lemma pump_received:
  assumes law: "stream_law (w_ext W) sync"
  shows "out_file out \<noteq> [] \<Longrightarrow> c_connected c \<Longrightarrow> out_msgId out = in_msgId inc \<Longrightarrow>
    sync (fc_state (out_crypto out)) (fc_state (in_crypto inc)) \<Longrightarrow> fc_initialized (out_crypto out) \<Longrightarrow> fc_initialized (in_crypto inc) \<Longrightarrow>
    length (in_msgId inc) = 36 \<Longrightarrow> c_incoming d (in_msgId inc) = Some inc \<Longrightarrow>
    in_nextChunkIndex inc = uint (out_nextChunkIndex out) \<Longrightarrow>
    int CHUNK_SIZE * uint (out_nextChunkIndex out) + int (length (out_file out)) \<le> int MAX_FILE_BYTES \<Longrightarrow>
    \<exists>cts out'. pumpLoop (w_ext W) c out = (c\<lparr>c_sent := c_sent c @ map Binary cts\<rparr>, Some out') \<and>
      got_file W now d inc (out_file out) cts"
proof (induction "length (out_file out)" arbitrary: c out inc d rule: less_induct)
  case less
  let ?idx = "out_nextChunkIndex out" and ?chunk = "take CHUNK_SIZE (out_file out)" and ?rest = "drop CHUNK_SIZE (out_file out)"
  have small: "uint ?idx \<le> 800" using less.prems(10) by (simp add: CHUNK_SIZE_def MAX_FILE_BYTES_def)
  obtain f s' r' where step: "pumpLoop (w_ext W) c out = pumpLoop (w_ext W) (c\<lparr>c_sent := c_sent c @ [Binary f]\<rparr>)
        (out\<lparr>out_nextChunkIndex := ?idx + 1, out_file := ?rest, out_crypto := s'\<rparr>)"
      "receiveFrame W now d (Binary f) = (if ?rest = [] then finishIncoming W now (written d (grown inc r' ?chunk 1)) (grown inc r' ?chunk 1)
         else written d (grown inc r' ?chunk 1))"
      "sync (fc_state s') (fc_state r')" "fc_initialized s'" "fc_initialized r'"
    by (rule pump_step [OF law less.prems(1-9) small refl refl])
  let ?out = "out\<lparr>out_nextChunkIndex := ?idx + 1, out_file := ?rest, out_crypto := s'\<rparr>" and ?inc = "grown inc r' ?chunk 1"
  let ?c = "c\<lparr>c_sent := c_sent c @ [Binary f]\<rparr>"
  show ?case
  proof (cases "?rest = []")
    case True
    then have "?chunk = out_file out" by simp
    then have "got_file W now d inc (out_file out) [f]" using step(2) True by (auto simp: got_file_def)
    moreover have "pumpLoop (w_ext W) c out = (c\<lparr>c_sent := c_sent c @ map Binary [f]\<rparr>, Some ?out)"
      unfolding step(1) using True by (subst pumpLoop.simps) simp
    ultimately show ?thesis by blast
  next
    case False
    have idx: "uint (?idx + 1) = uint ?idx + 1"
      using small by (simp add: uint_word_arith_bintrs take_bit_int_eq_self)
    have shorter: "length (out_file ?out) < length (out_file out)" using less.prems(1) by (simp add: CHUNK_SIZE_def)
    have bound: "int CHUNK_SIZE * uint (?idx + 1) + int (length ?rest) \<le> int MAX_FILE_BYTES"
      unfolding idx using less.prems(10) False by (simp add: algebra_simps)
    have "c_incoming (written d ?inc) (in_msgId ?inc) = Some ?inc" by (simp add: written_def)
    from less.hyps [of ?out ?c ?inc "written d ?inc", OF shorter] False less.prems step(3-5) idx bound this
    obtain cts out' where "pumpLoop (w_ext W) ?c ?out = (?c\<lparr>c_sent := c_sent ?c @ map Binary cts\<rparr>, Some out')"
        "got_file W now (written d ?inc) ?inc ?rest cts"
      by (auto simp: grown_def)
    moreover from this(2) have "got_file W now d inc (out_file out) (f # cts)"
      by (rule got_file_Cons [rotated 2]) (use step(2) False in simp_all)
    ultimately show ?thesis using step(1) by (intro exI [of _ "f # cts"] exI [of _ out']) simp
  qed
qed

text \<open>The client \<open>d\<close> can open what \<open>c\<close> encrypts next for it, and has not opened it before.\<close>

definition in_step :: "world \<Rightarrow> ChatClient \<Rightarrow> qstring \<Rightarrow> ChatClient \<Rightarrow> bool" where
  "in_step W c peer d \<longleftrightarrow>
     (\<forall>rnd nonce pt b w. encryptFor (w_ext W) rnd nonce (c_crypto c) peer pt = (b, EncOk w) \<longrightarrow>
        (c_nick c, w_dh w, w_n w) \<notin> c_seenFrames d \<and>
        snd (decryptFrom (w_ext W) (w_rnd W (c_draws d) 32) (w_rnd W (c_draws d + 1) 32)
          (fst (ensureSharedKey (w_ext W) (c_crypto d) (c_nick c) (valueOr [] (c_peerKeys d) (c_nick c)))) (c_nick c) w) = Some pt)"

lemma in_stepD:
  assumes "in_step W c peer d" "boxEncrypt W e peer pt = (e1, EncOk w)" "c_crypto e = c_crypto c"
  shows "(c_nick c, w_dh w, w_n w) \<notin> c_seenFrames d"
    "snd (boxDecrypt W (d\<lparr>c_crypto := fst (ensureSharedKey (w_ext W) (c_crypto d) (c_nick c)
       (valueOr [] (c_peerKeys d) (c_nick c)))\<rparr>) (c_nick c) w) = Some pt"
proof -
  obtain b r where enc: "encryptFor (w_ext W) (w_rnd W (c_draws e) 32) (w_rnd W (c_draws e + 1) 24) (c_crypto c) peer pt = (b, r)"
    by fastforce
  moreover from this have "r = EncOk w" using assms(2,3) by (simp add: boxEncrypt_def)
  ultimately show "(c_nick c, w_dh w, w_n w) \<notin> c_seenFrames d"
    "snd (boxDecrypt W (d\<lparr>c_crypto := fst (ensureSharedKey (w_ext W) (c_crypto d) (c_nick c)
       (valueOr [] (c_peerKeys d) (c_nick c)))\<rparr>) (c_nick c) w) = Some pt"
    using assms(1) unfolding in_step_def by (simp_all add: boxDecrypt_def case_prod_beta)
qed

lemma init_received:
  assumes law: "hex_law (w_ext W)" "length key = 32" "length hdr = 24"
    and d: "c_peerKeys d (fi_from i) \<noteq> None" "w_canWrite W (w_appData W @ ''/'' @ fi_msgId i @ ''_'' @ fi_filename i)"
    and i: "fi_keyenc i = Some w" "(fi_from i, w_dh w, w_n w) \<notin> c_seenFrames d" "fi_header i = toHex hdr"
    and dec: "snd (boxDecrypt W (d\<lparr>c_crypto := fst (ensureSharedKey (w_ext W) (c_crypto d) (fi_from i)
        (valueOr [] (c_peerKeys d) (fi_from i)))\<rparr>) (fi_from i) w) = Some (toHex key)"
    and pull: "initPull (w_ext W) newFileCrypto key hdr = (fc, True)"
  obtains inc where "c_incoming (receiveFileInit W now d i) (fi_msgId i) = Some inc" "in_msgId inc = fi_msgId i"
    "in_nextChunkIndex inc = 0" "in_crypto inc = fc" "in_file inc = []" "in_receivedBytes inc = 0"
    "in_localPath inc = w_appData W @ ''/'' @ fi_msgId i @ ''_'' @ fi_filename i" "in_sender inc = fi_from i"
proof -
  obtain d1 where d1: "boxDecrypt W (d\<lparr>c_crypto := fst (ensureSharedKey (w_ext W) (c_crypto d) (fi_from i)
      (valueOr [] (c_peerKeys d) (fi_from i)))\<rparr>) (fi_from i) w = (d1, Some (toHex key))"
    using dec by (metis prod.collapse)
  obtain x xs where hex: "toHex key = x # xs" using law(2) by (cases key) (auto simp: toHex_def)
  moreover have "qFromHex (w_ext W) (x # xs) = key" "qFromHex (w_ext W) (toHex hdr) = hdr"
    using law(1) hex by (simp_all add: hex_law_def flip: hex)
  ultimately show thesis
    using that d i d1 pull by (simp add: receiveFileInit_def Let_def)
qed

lemma noted_messages: "\<exists>gs. c_sent (noteOutboundTo W now c peer) = c_sent c @ map Msg gs"
proof -
  let ?c = "c\<lparr>c_sentSinceRatchet := (c_sentSinceRatchet c)(peer \<mapsto> valueOr 0 (c_sentSinceRatchet c) peer + 1)\<rparr>"
  obtain c1 ok where t: "transmitRekey W now ?c peer False = (c1, ok)" by fastforce
  obtain f where "c_sent c1 = c_sent c @ (if ok \<and> c_connected c then [Msg f] else [])"
    by (rule transmitRekey_sends [of W now ?c peer False]) (simp add: t)
  then have "c_sent c1 = c_sent c @ map Msg (if ok \<and> c_connected c then [f] else [])" by simp
  then have "\<exists>gs. c_sent c1 = c_sent c @ map Msg gs" ..
  moreover have "c_sent c = c_sent c @ map Msg []" by simp
  ultimately show ?thesis
    by (cases ok) (auto simp: noteOutboundTo_def Let_def t markRekeyPingSent_def startKick_def simp del: append_Nil2)
qed

lemma noted_connected [simp]: "c_connected (noteOutboundTo W now c peer) = c_connected c"
  using out.noted [of c W now peer] by (simp add: out_change_def same_gate_def)

lemma fk_messages: "files_kept d (fold (\<lambda>f d. receiveFrame W now d f) (map Msg gs) d)"
  by (rule fk.fold_change_set) (auto simp: fk.message)

lemma finished_file:
  "c_files (finishIncoming W now d inc) = c_files d"
  "c_receivedFilePaths (finishIncoming W now d inc) = (c_receivedFilePaths d)(in_msgId inc \<mapsto> in_localPath inc)"
  "c_incoming (finishIncoming W now d inc) (in_msgId inc) = None"
  by (simp_all add: finishIncoming_def Let_def)

text \<open>A message in a conversation whose session exists, or that carries no opener, goes to the session.\<close>

lemma receiveMsg_opens:
  assumes "mf_from f \<noteq> c_nick d" "c_peerKeys d (mf_from f) \<noteq> None" "mf_kind f \<noteq> ''handshake''"
    and "mf_x3dh f = None \<or> hasSessionFor (c_crypto d) (mf_from f)"
  shows "receiveMsg W now d f = openFrame W now d (mf_from f) f"
proof -
  have "openerOf W now d (mf_from f) f = (d, True)" using assms(4) by (auto simp: openerOf_def split: option.split)
  moreover have "handshakeKey W d (mf_from f) f = (d, True)" using assms(3) by (simp add: handshakeKey_def Let_def)
  ultimately show ?thesis using assms(1,2) by (auto simp: receiveMsg_def)
qed

text \<open>C2 (functional). A message the user sends to a peer whose client can open the next frame arrives there: it is
  shown in the open conversation, or counted as unread, and the peer's database keeps it readable.\<close>

theorem message_delivered:
  assumes laws: "hmac_law (w_ext W)" "aead_law (w_ext W)" "hex_law (w_ext W)" "text_law (w_ext W)"
    and c: "c_activePeer c = peer" "peer \<noteq> []" "\<not> conversationBlocked c peer" "c_connected c" "c_peerKeys c peer \<noteq> None" "live c peer"
      "pt \<noteq> []"
    and d: "c_peerKeys d (c_nick c) \<noteq> None" "in_step W c peer d" "c_nick d = peer" "c_nick c \<noteq> peer" "m_ready (c_history d)"
      "m_privateKey (c_crypto d) \<noteq> []" "c_outbox d = []" "hasSessionFor (c_crypto d) (c_nick c)"
  shows "\<exists>f. Msg f \<in> set (c_sent (sendMessage W now c pt)) \<and> arrived W d (receiveMsg W later d f) (c_nick c) pt now (mf_mid f)"
proof -
  obtain c1 w f where f: "boxEncrypt W c peer pt = (c1, EncOk w)" "Msg f \<in> set (c_sent (sendMessage W now c pt))"
      "mf_from f = c_nick c" "mf_to f = peer" "mf_kind f = []" "mf_editOf f = []" "mf_wire f = w" "mf_ts f = now"
    using message_frame [OF laws(1) c(1-6)] by metis
  have "receiveMsg W later d f = openFrame W later d (mf_from f) f"
    by (rule receiveMsg_opens) (use d f(3,5) in auto)
  moreover have "arrived W d (openFrame W later d (mf_from f) f) (mf_from f) pt (mf_ts f) (mf_mid f)"
    by (rule openFrame_arrives [OF laws(2-4) d(5-7)]) (use f(3,5,6,7) d(3,4) c(7) in_stepD [OF d(2) f(1) refl] in simp_all)
  ultimately show ?thesis using f(2,3,8) by auto
qed

text \<open>The frames a client sends for a file: the announcement with the wrapped key, control messages, the chunks.\<close>

definition announced :: "world \<Rightarrow> ChatClient \<Rightarrow> qstring \<Rightarrow> bytes \<Rightarrow> FileCrypto \<Rightarrow> wire \<Rightarrow> file_init" where
  "announced W c path content fc w = \<lparr>fi_msgId = w_uuid W (c_uuids c), fi_from = c_nick c, fi_to = c_activePeer c,
     fi_filename = w_fileName W path, fi_mime = w_mime W path, fi_size = int (length content), fi_header = toHex (fc_header fc),
     fi_keyenc = Some w, fi_replayed = False\<rparr>"

definition outgoing :: "world \<Rightarrow> ChatClient \<Rightarrow> qstring \<Rightarrow> bytes \<Rightarrow> FileCrypto \<Rightarrow> OutgoingFile" where
  "outgoing W c path content fc = \<lparr>out_msgId = w_uuid W (c_uuids c), out_recipient = c_activePeer c,
     out_filename = w_fileName W path, out_mime = w_mime W path, out_totalBytes = int (length content),
     out_nextChunkIndex = 0, out_file = content, out_crypto = fc\<rparr>"

lemma file_frames:
  assumes law: "hmac_law (w_ext W)" and c: "c_activePeer c = peer" "peer \<noteq> []" "\<not> conversationBlocked c peer" "c_connected c"
      "c_peerKeys c peer \<noteq> None" "live c peer"
    and content: "w_readFile W path = Some content" "content \<noteq> []" "length content \<le> MAX_FILE_BYTES"
    and key: "w_rnd W (c_draws c) 32 \<noteq> []"
      "initPush (w_ext W) (w_rnd W (c_draws c + 1) 24) newFileCrypto (w_rnd W (c_draws c) 32) = (fc, True)"
  obtains e e1 w c6 gs where "boxEncrypt W e peer (toHex (w_rnd W (c_draws c) 32)) = (e1, EncOk w)" "c_crypto e = c_crypto c"
    "sendFile W now c path = pumpOutgoingFile W now c6 (outgoing W c path content fc)" "c_connected c6"
    "c_sent c6 = c_sent c @ FileInit (announced W c path content fc w) # map Msg gs"
proof -
  let ?id = "w_uuid W (c_uuids c)" and ?key = "w_rnd W (c_draws c) 32"
  define c3 where "c3 = c\<lparr>c_uuids := Suc (c_uuids c), c_sentFileSources := (c_sentFileSources c)(?id \<mapsto> path), c_draws := c_draws c + 2\<rparr>"
  have "live c3 peer" using c(6) by (simp add: live_def c3_def)
  then obtain c4 w where enc: "boxEncrypt W c3 peer (toHex ?key) = (c4, EncOk w)" by (rule boxEncrypt_live [OF law])
  have c3: "c_connected c3" "c_sent c3 = c_sent c" "c_nick c3 = c_nick c" "c_crypto c3 = c_crypto c"
    using c(4) by (simp_all add: c3_def)
  have "c4 = fst (boxEncrypt W c3 peer (toHex ?key))" using enc by simp
  then have c4: "c_connected c4" "c_sent c4 = c_sent c" "c_nick c4 = c_nick c" using c3 by simp_all
  let ?i = "announced W c path content fc w"
  define c6 where "c6 = noteOutboundTo W now (persistSession W now (sendFrame c4 (FileInit ?i)) peer) peer"
  obtain gs where gs: "c_sent c6 = c_sent c @ FileInit ?i # map Msg gs"
    using noted_messages [of W now "persistSession W now (sendFrame c4 (FileInit ?i)) peer" peer] c4
    by (auto simp: c6_def sendFrame_def)
  have "sendFile W now c path = pumpOutgoingFile W now c6 (outgoing W c path content fc)"
    using c content key enc c4(3)
    by (auto simp: sendFile_def freshUuid_def randomKey_def Let_def c3_def c6_def announced_def outgoing_def)
  moreover have "c_connected c6" using c4(1) by (simp add: c6_def sendFrame_def)
  ultimately show thesis using that enc c3(4) gs by blast
qed

text \<open>A transfer that the client counts as received.\<close>

definition holds_file :: "ChatClient \<Rightarrow> qstring \<Rightarrow> qstring \<Rightarrow> bytes \<Rightarrow> bool" where
  "holds_file d msgId path content \<longleftrightarrow> c_files d path = Some content \<and> c_receivedFilePaths d msgId = Some path \<and> c_incoming d msgId = None"

lemma finished_holds:
  assumes "in_msgId inc = msgId" "in_localPath inc = path"
  shows "holds_file (receiveFileEnd W now (finishIncoming W now (written d inc) inc) msgId) msgId path (in_file inc)"
    "holds_file (receiveFileEnd W now (written d inc) msgId) msgId path (in_file inc)"
  using finished_file [of W now "written d inc" inc] assms
  by (simp_all add: holds_file_def receiveFileEnd_def written_def)

lemma transfer_received:
  assumes law: "stream_law (w_ext W) sync" and con: "c_connected c6" "length (w_uuid W (c_uuids c)) = 36"
    and content: "content \<noteq> []" "length content \<le> MAX_FILE_BYTES"
    and fc: "fc_initialized fc" "fc_initialized (in_crypto inc)" "sync (fc_state fc) (fc_state (in_crypto inc))"
    and inc: "c_incoming d (w_uuid W (c_uuids c)) = Some inc" "in_msgId inc = w_uuid W (c_uuids c)" "in_nextChunkIndex inc = 0"
      "in_file inc = []" "in_localPath inc = target"
  obtains cts where
    "c_sent (pumpOutgoingFile W now c6 (outgoing W c path content fc)) = c_sent c6 @ map Binary cts @ [FileEnd (in_msgId inc)]"
    "holds_file (fold (\<lambda>f d. receiveFrame W later d f) (map Msg gs @ map Binary cts @ [FileEnd (in_msgId inc)]) d)
       (in_msgId inc) target content"
    "length content \<le> length cts * CHUNK_SIZE"
    "\<And>j. 0 < j \<Longrightarrow> j < length cts \<Longrightarrow> j * CHUNK_SIZE < length content \<and>
       holds_file (fold (\<lambda>f d. receiveFrame W later d f) (map Msg gs @ map Binary (take j cts) @ [FileEnd (in_msgId inc)]) d)
         (in_msgId inc) target (take (j * CHUNK_SIZE) content)"
proof -
  let ?recv = "\<lambda>f d. receiveFrame W later d f" and ?out = "outgoing W c path content fc"
  define d2 where "d2 = fold ?recv (map Msg gs) d"
  have d2: "c_incoming d2 (in_msgId inc) = Some inc"
    using fk_messages [of d W later gs] inc(1,2) by (simp add: files_kept_def d2_def)
  obtain cts out' where pumped: "pumpLoop (w_ext W) c6 ?out = (c6\<lparr>c_sent := c_sent c6 @ map Binary cts\<rparr>, Some out')"
      "got_file W later d2 inc content cts"
    using pump_received [OF law, of ?out c6 inc d2 later] content con fc inc d2 by (auto simp: outgoing_def)
  have fields: "in_msgId (grown inc fc' p k) = in_msgId inc" "in_localPath (grown inc fc' p k) = target"
      "in_file (grown inc fc' p k) = p" for fc' p k
    using inc(4,5) by (simp_all add: grown_def)
  note held = finished_holds [OF fields(1,2), unfolded fields]
  show thesis
  proof
    show "length content \<le> length cts * CHUNK_SIZE" using pumped(2) by (simp add: got_file_def)
    show "c_sent (pumpOutgoingFile W now c6 ?out) = c_sent c6 @ map Binary cts @ [FileEnd (in_msgId inc)]"
      using pumped(1) con(1) inc(2) by (simp add: pumpOutgoingFile_def sendFrame_def outgoing_def)
    show "holds_file (fold ?recv (map Msg gs @ map Binary cts @ [FileEnd (in_msgId inc)]) d) (in_msgId inc) target content"
      using pumped(2) held(1) by (auto simp: got_file_def d2_def [symmetric])
    show "j * CHUNK_SIZE < length content \<and> holds_file (fold ?recv (map Msg gs @ map Binary (take j cts) @ [FileEnd (in_msgId inc)]) d)
        (in_msgId inc) target (take (j * CHUNK_SIZE) content)" if "0 < j" "j < length cts" for j
    proof -
      from pumped(2) that obtain fc' where "j * CHUNK_SIZE < length content"
          "fold ?recv (map Binary (take j cts)) d2 = written d2 (grown inc fc' (take (j * CHUNK_SIZE) content) (int j))"
        by (auto simp: got_file_def)
      then show ?thesis using held(2) by (simp add: d2_def [symmetric])
    qed
  qed
qed

text \<open>A sender and a receiver that a file can be sent between.\<close>

definition can_transfer :: "world \<Rightarrow> ChatClient \<Rightarrow> qstring \<Rightarrow> bytes \<Rightarrow> ChatClient \<Rightarrow> bool" where
  "can_transfer W c path content d \<longleftrightarrow>
     c_activePeer c \<noteq> [] \<and> \<not> conversationBlocked c (c_activePeer c) \<and> c_connected c \<and> c_peerKeys c (c_activePeer c) \<noteq> None \<and>
     live c (c_activePeer c) \<and> w_readFile W path = Some content \<and> content \<noteq> [] \<and> length content \<le> MAX_FILE_BYTES \<and>
     c_peerKeys d (c_nick c) \<noteq> None \<and> in_step W c (c_activePeer c) d"

text \<open>Documented behaviour: as many random bytes as asked for, and identifiers of 36 characters.\<close>

definition draw_law :: "world \<Rightarrow> bool" where
  "draw_law W \<longleftrightarrow> (\<forall>i n. length (w_rnd W i n) = n) \<and> (\<forall>i. length (w_uuid W i) = 36)"

lemma file_transfer:
  assumes laws: "stream_law (w_ext W) sync" "hmac_law (w_ext W)" "hex_law (w_ext W)" "draw_law W"
    and ready: "can_transfer W c path content d" "\<And>p. w_canWrite W p"
    and target: "msgId = w_uuid W (c_uuids c)" "target = w_appData W @ ''/'' @ msgId @ ''_'' @ w_fileName W path"
  obtains i gs cts where
    "c_sent (sendFile W now c path) = c_sent c @ FileInit i # map Msg gs @ map Binary cts @ [FileEnd msgId]"
    "holds_file (fold (\<lambda>f d. receiveFrame W later d f) (FileInit i # map Msg gs @ map Binary cts @ [FileEnd msgId]) d)
       msgId target content"
    "length content \<le> length cts * CHUNK_SIZE"
    "\<And>j. 0 < j \<Longrightarrow> j < length cts \<Longrightarrow> j * CHUNK_SIZE < length content \<and>
       holds_file (fold (\<lambda>f d. receiveFrame W later d f) (FileInit i # map Msg gs @ map Binary (take j cts) @ [FileEnd msgId]) d)
         msgId target (take (j * CHUNK_SIZE) content)"
proof -
  let ?key = "w_rnd W (c_draws c) 32"
  have rnd: "length (w_rnd W i n) = n" "length msgId = 36" for i n using laws(4) target(1) by (simp_all add: draw_law_def)
  obtain st h st' where init: "stream_init_push (w_ext W) (w_rnd W (c_draws c + 1) 24) ?key = Some (st, h)" "length h = 24"
      "stream_init_pull (w_ext W) ?key h = Some st'" "sync st st'"
    using laws(1) rnd unfolding stream_law_def by blast
  define fc where "fc = newFileCrypto\<lparr>fc_state := st, fc_header := h, fc_initialized := True, fc_sawFinal := False\<rparr>"
  define rc where "rc = newFileCrypto\<lparr>fc_state := st', fc_initialized := True, fc_sawFinal := False\<rparr>"
  have push: "initPush (w_ext W) (w_rnd W (c_draws c + 1) 24) newFileCrypto ?key = (fc, True)"
    and pull: "initPull (w_ext W) newFileCrypto ?key h = (rc, True)"
    using init rnd by (simp_all add: initPush_def initPull_def fc_def rc_def KEY_BYTES_def HEADER_BYTES_def)
  have ne: "?key \<noteq> []" using rnd(1) [of "c_draws c" 32] by auto
  from ready(1) obtain e e1 w c6 gs where sent: "boxEncrypt W e (c_activePeer c) (toHex ?key) = (e1, EncOk w)" "c_crypto e = c_crypto c"
      "sendFile W now c path = pumpOutgoingFile W now c6 (outgoing W c path content fc)" "c_connected c6"
      "c_sent c6 = c_sent c @ FileInit (announced W c path content fc w) # map Msg gs"
    using file_frames [OF laws(2) refl _ _ _ _ _ _ _ _ ne push] unfolding can_transfer_def by metis
  let ?i = "announced W c path content fc w"
  have step: "in_step W c (c_activePeer c) d" using ready(1) by (simp add: can_transfer_def)
  obtain inc where inc: "c_incoming (receiveFileInit W later d ?i) msgId = Some inc" "in_msgId inc = msgId"
      "in_nextChunkIndex inc = 0" "in_file inc = []" "in_localPath inc = target" "in_crypto inc = rc"
    using init_received [of W ?key h d ?i w rc later] laws(3) rnd init(2) ready in_stepD [OF step sent(1,2)] pull
    by (auto simp: announced_def target fc_def can_transfer_def)
  show thesis
    by (rule transfer_received [OF laws(1) sent(4), of c content fc inc "receiveFileInit W later d ?i" target now path later gs])
      (use that sent(3,5) ready(1) init(4) inc rnd(2) target(1) in \<open>auto simp: can_transfer_def fc_def rc_def\<close>)
qed

text \<open>C10 (functional). A file of at most 50 MiB that is sent to a peer whose client can open the next message
  arrives: when that client receives the frames of the transfer in order, with whatever control
  messages come between them, the file it keeps for the transfer has the content of the file that was
  sent, and the transfer is over.\<close>

theorem file_delivered:
  assumes "stream_law (w_ext W) sync" "hmac_law (w_ext W)" "hex_law (w_ext W)" "draw_law W"
    and "can_transfer W c path content d" "\<And>p. w_canWrite W p"
    and "msgId = w_uuid W (c_uuids c)" "target = w_appData W @ ''/'' @ msgId @ ''_'' @ w_fileName W path"
  shows "\<exists>fs. c_sent (sendFile W now c path) = c_sent c @ fs \<and>
    holds_file (fold (\<lambda>f d. receiveFrame W later d f) fs d) msgId target content"
  by (rule file_transfer [OF assms, of now later]) (metis append_Cons)

text \<open>The end of a file is not checked: when the relay drops the chunks after the \<open>j\<close>-th and
  forwards the sender's closing frame, the receiving client counts the transfer as complete, with a
  file that lacks the rest.\<close>

theorem truncated_file_accepted:
  assumes "stream_law (w_ext W) sync" "hmac_law (w_ext W)" "hex_law (w_ext W)" "draw_law W"
    and "can_transfer W c path content d" "\<And>p. w_canWrite W p"
    and "msgId = w_uuid W (c_uuids c)" "target = w_appData W @ ''/'' @ msgId @ ''_'' @ w_fileName W path"
  shows "\<exists>i gs cts. c_sent (sendFile W now c path) = c_sent c @ FileInit i # map Msg gs @ map Binary cts @ [FileEnd msgId] \<and>
    length content \<le> length cts * CHUNK_SIZE \<and>
    (\<forall>j. 0 < j \<longrightarrow> j < length cts \<longrightarrow> j * CHUNK_SIZE < length content \<and>
       holds_file (fold (\<lambda>f d. receiveFrame W later d f) (FileInit i # map Msg gs @ map Binary (take j cts) @ [FileEnd msgId]) d)
         msgId target (take (j * CHUNK_SIZE) content))"
  by (rule file_transfer [OF assms, of now later]) metis

section \<open>An edit is not bound to the author\<close>

lemma receiveEdit_replaces:
  assumes laws: "aead_law (w_ext W)" "hex_law (w_ext W)" "text_law (w_ext W)"
    and c: "m_ready (c_history c)" "m_privateKey (c_crypto c) \<noteq> []"
    and r: "r \<in> set (db_history (db (c_history c)))" "editable (mf_editOf f) r" "mf_editOf f \<noteq> []"
  shows "\<exists>nonce ct. r\<lparr>h_nonce := nonce, h_ct := ct, h_edited := True\<rparr> \<in> set (db_history (db (c_history (receiveEdit W now c peer f pt)))) \<and>
    localOpen (w_ext W) (c_crypto (receiveEdit W now c peer f pt)) nonce ct = Some pt"
    "c_outbox (receiveEdit W now c peer f pt) = c_outbox c"
proof -
  let ?n = "w_rnd W (c_draws c) 24" and ?mid = "mf_editOf f"
  define ct where "ct = toHex (xchacha_encrypt (w_ext W) (localKey (w_ext W) (c_crypto c)) ?n [] (toUtf8 (w_ext W) pt))"
  define rows where "rows = map (\<lambda>r. if editable ?mid r then r\<lparr>h_nonce := toHex ?n, h_ct := ct, h_edited := True\<rparr> else r)
      (db_history (db (c_history c)))"
  define c3 where "c3 = c\<lparr>c_draws := c_draws c + 1, c_history := setDb (c_history c) ((db (c_history c))\<lparr>db_history := rows\<rparr>),
    c_messages := fst (fst (editTextByMid (w_fmt W) (c_messages c) ?mid pt))\<rparr>"
  have opens: "localOpen (w_ext W) (c_crypto c) (toHex ?n) ct = Some pt"
    using laws c(2) by (simp add: ct_def localOpen_def localKey_def aead_law_def hex_law_def text_law_def)
  have seal: "boxSeal W c pt = (c\<lparr>c_draws := c_draws c + 1\<rparr>, Some (toHex ?n, ct))"
    using c(2) by (simp add: boxSeal_def localSeal_def ct_def)
  have upd: "updateTextRow (c_history c) ?mid (toHex ?n) ct = (setDb (c_history c) ((db (c_history c))\<lparr>db_history := rows\<rparr>), True)"
    using c(1) r by (auto simp: updateTextRow_def rows_def Let_def filter_empty_conv)
  have edit: "receiveEdit W now c peer f pt = persistSession W now c3 peer"
    by (simp add: receiveEdit_def seal upd c3_def)
  have "screen (persistSession W now c3 peer) = screen c3" by (rule screen_persist)
  then have after: "db_history (db (c_history (persistSession W now c3 peer))) = rows"
      "c_outbox (persistSession W now c3 peer) = c_outbox c"
    by (simp_all add: screen_def c3_def)
  then show "c_outbox (receiveEdit W now c peer f pt) = c_outbox c" by (simp add: edit)
  have "r\<lparr>h_nonce := toHex ?n, h_ct := ct, h_edited := True\<rparr> \<in> set rows" using r by (force simp: rows_def)
  moreover have "c_crypto (persistSession W now c3 peer) = c_crypto c" by (simp add: c3_def)
  ultimately show "\<exists>nonce ct. r\<lparr>h_nonce := nonce, h_ct := ct, h_edited := True\<rparr> \<in>
      set (db_history (db (c_history (receiveEdit W now c peer f pt)))) \<and>
    localOpen (w_ext W) (c_crypto (receiveEdit W now c peer f pt)) nonce ct = Some pt"
    using after(1) opens unfolding edit by auto
qed

text \<open>An edit that a peer sends replaces the text of any message with the named identifier: the
  row keeps its author and its conversation, whoever these are, and from then on shows the text of
  the peer that sent the edit.\<close>

theorem edit_not_bound_to_author:
  assumes laws: "aead_law (w_ext W)" "hex_law (w_ext W)" "text_law (w_ext W)"
    and d: "m_ready (c_history d)" "m_privateKey (c_crypto d) \<noteq> []" "c_outbox d = []"
    and f: "mf_from f \<noteq> c_nick d" "c_peerKeys d (mf_from f) \<noteq> None" "mf_kind f = []" "mf_editOf f \<noteq> []" "mf_x3dh f = None"
      "(mf_from f, w_dh (mf_wire f), w_n (mf_wire f)) \<notin> c_seenFrames d"
    and dec: "snd (boxDecrypt W (d\<lparr>c_crypto := fst (ensureSharedKey (w_ext W) (c_crypto d) (mf_from f)
        (valueOr [] (c_peerKeys d) (mf_from f)))\<rparr>) (mf_from f) (mf_wire f)) = Some pt" "pt \<noteq> []"
    and r: "r \<in> set (db_history (db (c_history d)))" "h_msgId r = Some (mf_editOf f)" "h_kind r = ''text''" "\<not> h_deleted r"
  shows "\<exists>nonce ct. r\<lparr>h_nonce := nonce, h_ct := ct, h_edited := True\<rparr> \<in> set (db_history (db (c_history (receiveMsg W now d f)))) \<and>
    localOpen (w_ext W) (c_crypto (receiveMsg W now d f)) nonce ct = Some pt"
proof -
  let ?from = "mf_from f" and ?k = "valueOr [] (c_peerKeys d) (mf_from f)"
  obtain c1 where c1: "boxDecrypt W (d\<lparr>c_crypto := fst (ensureSharedKey (w_ext W) (c_crypto d) ?from ?k)\<rparr>) ?from (mf_wire f) =
      (c1, Some pt)"
    using dec(1) by (metis prod.collapse)
  define c2 where "c2 = sendOwedPongIfReady W now (noteInboundFrom (c1\<lparr>c_seenFrames :=
      insert (?from, w_dh (mf_wire f), w_n (mf_wire f)) (c_seenFrames c1)\<rparr>) ?from) ?from"
  have "screen c2 = screen d"
    using screen_decrypt [where W = W and c = d and E = "w_ext W" and peer = ?from and k = ?k and w = "mf_wire f"] c1
    by (simp add: c2_def screen_pong screen_noted)
  then have c2: "m_ready (c_history c2)" "m_privateKey (c_crypto c2) \<noteq> []" "r \<in> set (db_history (db (c_history c2)))" "c_outbox c2 = []"
    using d r(1) by (simp_all add: screen_def)
  note edit = receiveEdit_replaces [OF laws c2(1-3) _ f(4)]
  have "receiveMsg W now d f = openFrame W now d ?from f" by (rule receiveMsg_opens) (use f in simp_all)
  also have "\<dots> = openedFrame W now c1 ?from f pt" using f(6) dec(2) by (cases pt) (simp_all add: openFrame_def c1)
  also have "\<dots> = receiveEdit W now c2 ?from f pt"
    using f(3,4) edit(2) c2(4) r(2-4) by (simp add: openedFrame_def c2_def [symmetric] Let_def editable_def)
  finally show ?thesis using edit(1) r(2-4) by (simp add: editable_def)
qed

section \<open>Two clients at the start of a conversation\<close>

lemma start_in_step:
  assumes laws: "hmac_law (w_ext W)" "aead_law (w_ext W)" "dh_law (w_ext W)" "hash_order_law (w_ext W)" "hex_law (w_ext W)" "text_law (w_ext W)"
    and sess: "m_sessions (c_crypto c) peer = Some sA" "conversation_start (w_ext W) sA sB"
      "m_sessions (fst (ensureSharedKey (w_ext W) (c_crypto d) (c_nick c) (valueOr [] (c_peerKeys d) (c_nick c)))) (c_nick c) = Some sB"
    and rnd: "length (w_rnd W (c_draws d + 1) 32) = 32" "scalarmult_base (w_ext W) (w_rnd W (c_draws d + 1) 32) \<noteq> DHr_pub sA"
    and new: "\<And>k. (c_nick c, k) \<notin> c_seenFrames d"
  shows "in_step W c peer d"
  unfolding in_step_def
proof (intro allI impI conjI)
  fix rndA nonce pt b w
  assume enc: "encryptFor (w_ext W) rndA nonce (c_crypto c) peer pt = (b, EncOk w)"
  obtain s' f r' where "encryptFor (w_ext W) rndA nonce (c_crypto c) peer pt = (s', EncOk (frameToWire f))"
      "\<And>b rndB peerA. m_sessions b peerA = Some sB \<Longrightarrow> snd (decryptFrom (w_ext W) rndB (w_rnd W (c_draws d + 1) 32) b peerA (frameToWire f)) = Some pt"
    using crosses [OF laws sess(1,2) rnd, of nonce pt] by (metis snd_conv)
  with enc show "snd (decryptFrom (w_ext W) (w_rnd W (c_draws d) 32) (w_rnd W (c_draws d + 1) 32)
      (fst (ensureSharedKey (w_ext W) (c_crypto d) (c_nick c) (valueOr [] (c_peerKeys d) (c_nick c)))) (c_nick c) w) = Some pt"
    using sess(3) by simp
qed (use new in simp)

definition demoNet :: "bytes \<Rightarrow> world" where
  "demoNet content = demoWorld\<lparr>w_uuid := \<lambda>_. replicate 36 CHR ''u'', w_readFile := \<lambda>_. Some content\<rparr>"

definition demoTx :: ChatClient where
  "demoTx = (newClient (newCryptoBox\<lparr>m_sessions := [''bob'' \<mapsto> demoTurnS]\<rparr>) demoStore)\<lparr>c_nick := ''alice'', c_activePeer := ''bob'',
     c_connected := True, c_peerKeys := [''bob'' \<mapsto> toHex (replicate 32 1)]\<rparr>"

definition demoRx :: ChatClient where
  "demoRx = (newClient (demoPeerA\<lparr>m_sessions := [''alice'' \<mapsto> demoTurnR]\<rparr>) demoStore)\<lparr>c_nick := ''bob'',
     c_peerKeys := [''alice'' \<mapsto> toHex (replicate 32 1)]\<rparr>"

lemma demoNet_laws:
  "w_ext (demoNet content) = demo" "stream_law (w_ext (demoNet content)) (=)" "hmac_law (w_ext (demoNet content))"
  "aead_law (w_ext (demoNet content))" "hex_law (w_ext (demoNet content))" "text_law (w_ext (demoNet content))"
  "draw_law (demoNet content)" "w_canWrite (demoNet content) p" "w_readFile (demoNet content) q = Some content"
  using demo_laws demo_text_law demo_stream_law
  by (simp_all add: demoNet_def) (simp_all add: demoWorld_def draw_law_def)

lemma demo_pair:
  "c_nick demoTx = ''alice''" "c_activePeer demoTx = ''bob''" "c_connected demoTx" "c_peerKeys demoTx ''bob'' \<noteq> None"
  "live demoTx ''bob''" "\<not> conversationBlocked demoTx ''bob''" "c_nick demoRx = ''bob''" "c_peerKeys demoRx ''alice'' \<noteq> None"
  "m_ready (c_history demoRx)" "m_privateKey (c_crypto demoRx) \<noteq> []" "c_outbox demoRx = []" "hasSessionFor (c_crypto demoRx) ''alice''"
  "c_seenFrames demoRx = {}"
proof -
  have "CKs demoTurnS \<noteq> []" using kdfRk_lengths(2) [OF demo_laws(1)] by (auto simp: demoTurnS_def case_prod_beta) (metis list.size(3) prod.collapse zero_neq_numeral)
  then show "live demoTx ''bob''" by (simp add: live_def demoTx_def newClient_def)
qed (use demoStore_facts in \<open>simp_all add: demoTx_def demoRx_def newClient_def conversationBlocked_def hasSessionFor_def demoPeerA_def\<close>)

lemma demo_in_step: "in_step (demoNet content) demoTx ''bob'' demoRx"
proof (rule start_in_step [OF _ _ _ _ _ _ _ demo_conversation_start [folded demoNet_laws(1) [of content]]])
  have k: "length (qFromHex demo (toHex (replicate 32 1))) = 32" using demo_laws(7) by (simp add: hex_law_def)
  show "m_sessions (fst (ensureSharedKey (w_ext (demoNet content)) (c_crypto demoRx) (c_nick demoTx)
      (valueOr [] (c_peerKeys demoRx) (c_nick demoTx)))) (c_nick demoTx) = Some demoTurnR"
    using k by (simp add: demoNet_laws demoRx_def demoTx_def newClient_def ensureSharedKey_def demoPeerA_def newCryptoBox_def Let_def valueOr_def)
  have "w_rnd (demoNet content) (c_draws demoRx + 1) 32 = replicate 32 5"
    by (simp add: demoNet_def demoWorld_def demoRx_def newClient_def)
  then show "scalarmult_base (w_ext (demoNet content)) (w_rnd (demoNet content) (c_draws demoRx + 1) 32) \<noteq> DHr_pub demoTurnS"
    by (simp add: demoNet_laws demoTurnS_def demoTurnR_def case_prod_beta) (simp add: demo_def)
qed (use demo_laws demo_text_law demo_pair in \<open>simp_all add: demoNet_laws\<close>, simp_all add: demoTx_def newClient_def demoNet_def demoWorld_def)

theorem message_delivered_witness:
  "\<exists>f. Msg f \<in> set (c_sent (sendMessage (demoNet []) 5 demoTx ''hi'')) \<and>
     arrived (demoNet []) demoRx (receiveMsg (demoNet []) 9 demoRx f) ''alice'' ''hi'' 5 (mf_mid f)"
  using message_delivered [OF demoNet_laws(3-6), of demoTx "''bob''" "''hi''" demoRx "[]" 5 9] demo_pair demo_in_step by simp

theorem file_delivered_witness:
  "\<exists>fs. c_sent (sendFile (demoNet [1, 2, 3]) 5 demoTx ''a'') = c_sent demoTx @ fs \<and>
     holds_file (fold (\<lambda>f d. receiveFrame (demoNet [1, 2, 3]) 9 d f) fs demoRx) (w_uuid (demoNet [1, 2, 3]) 0)
       (w_appData (demoNet [1, 2, 3]) @ ''/'' @ w_uuid (demoNet [1, 2, 3]) 0 @ ''_'' @ w_fileName (demoNet [1, 2, 3]) ''a'') [1, 2, 3]"
proof -
  have "c_uuids demoTx = 0" by (simp add: demoTx_def newClient_def)
  moreover have "can_transfer (demoNet [1, 2, 3]) demoTx ''a'' [1, 2, 3] demoRx"
    using demo_pair demo_in_step by (simp add: can_transfer_def demoNet_laws MAX_FILE_BYTES_def)
  note file_delivered [OF demoNet_laws(2,3,5,7) this demoNet_laws(8) refl refl, of 5 9]
  ultimately show ?thesis by simp
qed

theorem truncated_file_accepted_witness:
  "\<exists>i gs cts. c_sent (sendFile (demoNet (replicate 70000 7)) 5 demoTx ''a'') =
       c_sent demoTx @ FileInit i # map Msg gs @ map Binary cts @ [FileEnd (w_uuid (demoNet (replicate 70000 7)) 0)] \<and>
     holds_file (fold (\<lambda>f d. receiveFrame (demoNet (replicate 70000 7)) 9 d f)
         (FileInit i # map Msg gs @ map Binary (take 1 cts) @ [FileEnd (w_uuid (demoNet (replicate 70000 7)) 0)]) demoRx)
       (w_uuid (demoNet (replicate 70000 7)) 0) (w_appData (demoNet (replicate 70000 7)) @ ''/'' @
         w_uuid (demoNet (replicate 70000 7)) 0 @ ''_'' @ w_fileName (demoNet (replicate 70000 7)) ''a'') (replicate 65536 7)"
proof -
  define content :: bytes where "content = replicate 70000 7"
  have "c_uuids demoTx = 0" by (simp add: demoTx_def newClient_def)
  moreover have "can_transfer (demoNet content) demoTx ''a'' content demoRx"
    using demo_pair demo_in_step by (simp add: can_transfer_def demoNet_laws MAX_FILE_BYTES_def content_def)
  note truncated_file_accepted [OF demoNet_laws(2,3,5,7) this demoNet_laws(8) refl refl, of 5 9]
  ultimately obtain i gs cts where t: "c_sent (sendFile (demoNet content) 5 demoTx ''a'') =
      c_sent demoTx @ FileInit i # map Msg gs @ map Binary cts @ [FileEnd (w_uuid (demoNet content) 0)]"
      "length content \<le> length cts * CHUNK_SIZE"
      "\<forall>j. 0 < j \<longrightarrow> j < length cts \<longrightarrow> j * CHUNK_SIZE < length content \<and>
       holds_file (fold (\<lambda>f d. receiveFrame (demoNet content) 9 d f) (FileInit i # map Msg gs @ map Binary (take j cts) @
         [FileEnd (w_uuid (demoNet content) 0)]) demoRx) (w_uuid (demoNet content) 0) (w_appData (demoNet content) @ ''/'' @
         w_uuid (demoNet content) 0 @ ''_'' @ w_fileName (demoNet content) ''a'') (take (j * CHUNK_SIZE) content)"
    by auto
  have "1 < length cts" using t(2) by (cases "length cts") (auto simp: content_def CHUNK_SIZE_def)
  moreover have "take CHUNK_SIZE content = replicate 65536 7" by (simp add: content_def CHUNK_SIZE_def)
  ultimately show ?thesis using t(1,3) unfolding content_def by (metis less_numeral_extra(1) mult_1)
qed

theorem edit_not_bound_to_author_witness:
  "\<exists>f r. mf_from f = ''alice'' \<and> h_sender r = ''carol'' \<and>
     r \<in> set (db_history (db (c_history (receiveMsg (demoNet []) 9
       (demoRx\<lparr>c_history := fst (addTextRow demoStore ''carol'' ''carol'' [] [] 1 False ''m1'')\<rparr>) f)))) \<and>
     localOpen (w_ext (demoNet [])) (c_crypto (receiveMsg (demoNet []) 9
       (demoRx\<lparr>c_history := fst (addTextRow demoStore ''carol'' ''carol'' [] [] 1 False ''m1'')\<rparr>) f)) (h_nonce r) (h_ct r) = Some ''forged''"
proof -
  let ?W = "demoNet []" and ?d = "demoRx\<lparr>c_history := fst (addTextRow demoStore ''carol'' ''carol'' [] [] 1 False ''m1'')\<rparr>"
  obtain c1 w where enc: "boxEncrypt ?W demoTx ''bob'' ''forged'' = (c1, EncOk w)"
    by (rule boxEncrypt_live [OF demoNet_laws(3) [of "[]"] demo_pair(5)])
  let ?f = "(newMsgFrame demoTx ''bob'' w 5)\<lparr>mf_editOf := ''m1''\<rparr>"
  have "in_step ?W demoTx ''bob'' ?d" using demo_in_step [of "[]"] by (simp add: in_step_def)
  note step = in_stepD [OF this enc refl]
  obtain r where r: "r \<in> set (db_history (db (c_history ?d)))" "h_msgId r = Some ''m1''" "h_kind r = ''text''" "\<not> h_deleted r" "h_sender r = ''carol''"
    using demoStore_facts by (auto simp: addTextRow_def insertHistory_def emptyRow_def)
  have f: "mf_from ?f = ''alice''" "mf_wire ?f = w" "mf_editOf ?f = ''m1''" "mf_kind ?f = []" "mf_x3dh ?f = None"
    using demo_pair(1) by (simp_all add: newMsgFrame_def)
  have "m_ready (c_history ?d)" using demoStore_facts by (simp add: addTextRow_def)
  then obtain nonce ct where "r\<lparr>h_nonce := nonce, h_ct := ct, h_edited := True\<rparr> \<in> set (db_history (db (c_history (receiveMsg ?W 9 ?d ?f))))"
      "localOpen (w_ext ?W) (c_crypto (receiveMsg ?W 9 ?d ?f)) nonce ct = Some ''forged''"
    using edit_not_bound_to_author [where W = ?W and d = ?d and f = ?f and pt = "''forged''" and r = r and now = 9]
      f r demo_pair step demoNet_laws by auto
  with f(1) r(5) show ?thesis
    by (intro exI [of _ ?f] exI [of _ "r\<lparr>h_nonce := nonce, h_ct := ct, h_edited := True\<rparr>"]) simp
qed

end
