(* ===== verification/AppLock.thy ===== *)
theory AppLock
  imports Client
begin

text \<open>
  The bridge to the credential services of Windows (\<^verbatim>\<open>client/src/applock.cpp\<close>): the wait for a Windows Hello
  prompt, the vault that keeps a login password under DPAPI, and the calls the client makes of them.
  The operating system is the parameter \<open>w_windows\<close>: which calls succeed, how an asynchronous operation
  moves from poll to poll, and what it yields. The threads the source starts end by posting at most one call to
  the client; the functions below return that call. The branches compiled for Android call into Java and
  are left out, except whether a device credential is there.

  The lemmas show that waiting for a prompt ends after a bounded number of polls whatever the platform
  does, that a prompt that was shown decides alone, and that the vault gives back the password of the
  account it was enrolled for, after a verified prompt only.
\<close>

section \<open>Waiting for the platform\<close>

definition AS_Completed :: int where "AS_Completed = 1"
definition AS_Canceled :: int where "AS_Canceled = 2"
definition AS_Error :: int where "AS_Error = 3"
definition UCV_Verified :: int where "UCV_Verified = 0"
definition UCV_Available :: int where "UCV_Available = 0"

text \<open>The loop polls every 25 milliseconds; \<open>n\<close> is the number of the poll.\<close>

function awaitLoop :: "async_op \<Rightarrow> int \<Rightarrow> int \<Rightarrow> nat \<Rightarrow> bool" where
  "awaitLoop op capMs waited n =
     (case ao_status op n of None \<Rightarrow> False
      | Some status \<Rightarrow>
          if status = AS_Completed then True
          else if status = AS_Error \<or> status = AS_Canceled then False
          else if waited \<ge> capMs then False
          else awaitLoop op capMs (waited + 25) (Suc n))"
  by pat_completeness auto

termination by (relation "measure (\<lambda>(_, capMs, waited, _). nat (capMs - waited))") auto

declare awaitLoop.simps [simp del]

definition awaitEnumResult :: "async_op \<Rightarrow> int \<Rightarrow> int" where
  "awaitEnumResult op capMs =
     (if \<not> ao_info op then - 1
      else if \<not> awaitLoop op capMs 0 0 then - 1
      else case ao_results op of None \<Rightarrow> - 1 | Some r \<Rightarrow> r)"

definition checkAvailabilityBlocking :: "world \<Rightarrow> bool" where
  "checkAvailabilityBlocking W =
     (if \<not> wi_string (w_windows W) then False
      else case wi_checkAvailability (w_windows W) of
             Some (Some op) \<Rightarrow> awaitEnumResult op 2000 = UCV_Available
           | _ \<Rightarrow> False)"

definition runHelloVerification :: "world \<Rightarrow> bool" where
  "runHelloVerification W =
     (if \<not> wi_string (w_windows W) then False
      else
        (let (verified0, interopShown) =
               (case wi_requestForWindow (w_windows W) of
                  Some (Some op) \<Rightarrow> (awaitEnumResult op 120000, True)
                | _ \<Rightarrow> (- 1, False));
             verified =
               (if interopShown then verified0
                else case wi_requestVerification (w_windows W) of
                       Some (Some op) \<Rightarrow> awaitEnumResult op 120000
                     | _ \<Rightarrow> verified0)
         in verified = UCV_Verified))"

definition biometricAvailable :: "world \<Rightarrow> ChatClient \<Rightarrow> ChatClient \<times> bool" where
  "biometricAvailable W c =
     (if w_android W then (c, w_canAuthenticate W)
      else if a_helloCached (c_account c) then (c, True)
      else if \<not> wi_combase (w_windows W) then (c, False)
      else if checkAvailabilityBlocking W then (c\<lparr>c_account := (c_account c)\<lparr>a_helloCached := True\<rparr>\<rparr>, True)
      else (c, False))"

text \<open>Whether \<^verbatim>\<open>onBiometricSucceeded\<close> is posted.\<close>

definition requestUnlock :: "world \<Rightarrow> bool" where
  "requestUnlock W = (if \<not> wi_combase (w_windows W) then False else runHelloVerification W)"

section \<open>The vault\<close>

definition dpapiWrap :: "world \<Rightarrow> bytes \<Rightarrow> bytes" where
  "dpapiWrap W plain =
     (if \<not> wi_crypt32 (w_windows W) then [] else case wi_protect (w_windows W) plain of None \<Rightarrow> [] | Some out \<Rightarrow> out)"

definition dpapiUnwrap :: "world \<Rightarrow> bytes \<Rightarrow> bytes" where
  "dpapiUnwrap W blob =
     (if \<not> wi_crypt32 (w_windows W) \<or> blob = [] then []
      else case wi_unprotect (w_windows W) blob of None \<Rightarrow> [] | Some out \<Rightarrow> out)"

definition vaultBlobKey :: "qstring \<Rightarrow> qstring" where
  "vaultBlobKey nick = ''biologin/'' @ nick @ ''/blob''"

definition vaultOnKey :: "qstring \<Rightarrow> qstring" where
  "vaultOnKey nick = ''biologin/'' @ nick @ ''/on''"

definition hasLoginEnrolled :: "ChatClient \<Rightarrow> qstring \<Rightarrow> bool" where
  "hasLoginEnrolled c nick \<longleftrightarrow>
     valueOr False (a_flags (c_account c)) (vaultOnKey nick) \<and> valueOr [] (a_blobs (c_account c)) (vaultBlobKey nick) \<noteq> []"

definition enrollLogin :: "world \<Rightarrow> ChatClient \<Rightarrow> qstring \<Rightarrow> qstring \<Rightarrow> ChatClient" where
  "enrollLogin W c nick password =
     (let wrapped = dpapiWrap W (toUtf8 (w_ext W) password)
      in if wrapped = [] then c
         else c\<lparr>c_account := (c_account c)
                \<lparr>a_blobs := (a_blobs (c_account c))(vaultBlobKey nick \<mapsto> wrapped),
                 a_flags := (a_flags (c_account c))(vaultOnKey nick \<mapsto> True)\<rparr>\<rparr>)"

text \<open>The arguments of the call to \<^verbatim>\<open>onBiometricLoginUnlocked\<close> that is posted, if one is.\<close>

definition loginWithBiometric :: "world \<Rightarrow> ChatClient \<Rightarrow> qstring \<Rightarrow> (qstring \<times> qstring) option" where
  "loginWithBiometric W c nick =
     (let wrapped = valueOr [] (a_blobs (c_account c)) (vaultBlobKey nick)
      in if wrapped = [] then None
         else if \<not> wi_combase (w_windows W) then None
         else if \<not> runHelloVerification W then None
         else (let pw = dpapiUnwrap W wrapped
               in if pw = [] then None else Some (nick, fromUtf8 (w_ext W) pw)))"

definition clearLogin :: "ChatClient \<Rightarrow> qstring \<Rightarrow> ChatClient" where
  "clearLogin c nick =
     c\<lparr>c_account := (c_account c)\<lparr>a_blobs := (a_blobs (c_account c))(vaultBlobKey nick := None),
       a_flags := (a_flags (c_account c))(vaultOnKey nick := None)\<rparr>\<rparr>"

section \<open>The wait is bounded\<close>

lemma next_poll:
  assumes "Suc n \<le> i" "int (i - Suc n) * 25 \<le> max 0 (capMs - (waited + 25)) + 24" "\<not> waited \<ge> (capMs :: int)"
  shows "int (i - n) * 25 \<le> max 0 (capMs - waited) + 24"
proof -
  have "int (i - n) = int (i - Suc n) + 1" using assms(1) by simp
  with assms(2,3) show ?thesis unfolding max_def by presburger
qed

lemma awaitLoop_polls:
  "(\<And>i. n \<le> i \<Longrightarrow> int (i - n) * 25 \<le> max 0 (capMs - waited) + 24 \<Longrightarrow> ao_status a i = ao_status b i) \<Longrightarrow>
   awaitLoop a capMs waited n = awaitLoop b capMs waited n"
proof (induction a capMs waited n rule: awaitLoop.induct)
  case (1 a capMs waited n)
  have now: "ao_status a n = ao_status b n" using "1.prems" [of n] by simp
  have later: "awaitLoop a capMs (waited + 25) (Suc n) = awaitLoop b capMs (waited + 25) (Suc n)"
    if "ao_status a n = Some s" "s \<noteq> AS_Completed" "\<not> (s = AS_Error \<or> s = AS_Canceled)" "\<not> waited \<ge> capMs" for s
  proof (rule "1.IH" [OF that])
    fix i assume i: "Suc n \<le> i" "int (i - Suc n) * 25 \<le> max 0 (capMs - (waited + 25)) + 24"
    then show "ao_status a i = ao_status b i"
      using that(4) next_poll [OF i] by (intro "1.prems") simp_all
  qed
  show ?case using now later by (subst (1 2) awaitLoop.simps) (auto split: option.split)
qed

lemma awaitLoop_completed:
  "awaitLoop op capMs waited n \<Longrightarrow> \<exists>i\<ge>n. ao_status op i = Some AS_Completed \<and> int (i - n) * 25 \<le> max 0 (capMs - waited) + 24"
proof (induction op capMs waited n rule: awaitLoop.induct)
  case (1 op capMs waited n)
  from "1.prems" obtain s where s: "ao_status op n = Some s" by (subst (asm) awaitLoop.simps) (auto split: option.splits)
  show ?case
  proof (cases "s = AS_Completed")
    case True
    with s show ?thesis by (intro exI [of _ n]) simp
  next
    case False
    with "1.prems" s have go: "\<not> (s = AS_Error \<or> s = AS_Canceled)" "\<not> waited \<ge> capMs" "awaitLoop op capMs (waited + 25) (Suc n)"
      by (subst (asm) awaitLoop.simps, simp split: if_splits)+
    from "1.IH" [OF s False go] obtain i where i: "Suc n \<le> i" "ao_status op i = Some AS_Completed"
        "int (i - Suc n) * 25 \<le> max 0 (capMs - (waited + 25)) + 24" by blast
    then show ?thesis using next_poll [OF i(1,3) go(2)] by (intro exI [of _ i]) simp
  qed
qed

text \<open>C29 (termination). Waiting for the user ends after two minutes: whatever the platform reports, the
  outcome of a wait depends on the first 4801 polls only, and a prompt counts as verified only when one of
  them found it completed. An operation that never completes is not verified.\<close>

theorem hello_wait_is_bounded:
  "((\<forall>i \<le> 4800. ao_status a i = ao_status b i) \<longrightarrow> awaitLoop a 120000 0 0 = awaitLoop b 120000 0 0) \<and>
   (awaitEnumResult a 120000 = UCV_Verified \<longrightarrow> (\<exists>i \<le> 4800. ao_status a i = Some AS_Completed))"
proof
  show "(\<forall>i \<le> 4800. ao_status a i = ao_status b i) \<longrightarrow> awaitLoop a 120000 0 0 = awaitLoop b 120000 0 0"
    by (intro impI awaitLoop_polls) simp
  show "awaitEnumResult a 120000 = UCV_Verified \<longrightarrow> (\<exists>i \<le> 4800. ao_status a i = Some AS_Completed)"
  proof
    assume "awaitEnumResult a 120000 = UCV_Verified"
    then have "awaitLoop a 120000 0 0" by (auto simp: awaitEnumResult_def UCV_Verified_def split: if_splits)
    from awaitLoop_completed [OF this] obtain i where "ao_status a i = Some AS_Completed" "int i * 25 \<le> 120024" by auto
    then show "\<exists>i \<le> 4800. ao_status a i = Some AS_Completed" by (intro exI [of _ i]) linarith
  qed
qed

definition demoPrompt :: async_op where
  "demoPrompt = \<lparr>ao_info = True, ao_status = (\<lambda>n. Some (if n < 3 then 0 else 1)), ao_results = Some 0\<rparr>"

lemma demoPrompt_verified: "awaitEnumResult demoPrompt 120000 = UCV_Verified"
proof -
  have "awaitLoop demoPrompt 120000 75 3" "awaitLoop demoPrompt 120000 50 2 = awaitLoop demoPrompt 120000 75 3"
    "awaitLoop demoPrompt 120000 25 1 = awaitLoop demoPrompt 120000 50 2" "awaitLoop demoPrompt 120000 0 0 = awaitLoop demoPrompt 120000 25 1"
    by (subst awaitLoop.simps, simp add: demoPrompt_def AS_Completed_def AS_Error_def AS_Canceled_def numeral_3_eq_3 numeral_2_eq_2)+
  then show ?thesis by (simp add: awaitEnumResult_def demoPrompt_def UCV_Verified_def)
qed

theorem hello_wait_is_bounded_witness: "\<exists>i. i \<le> 4800 \<and> ao_status demoPrompt i = Some AS_Completed"
  using hello_wait_is_bounded [of demoPrompt demoPrompt] demoPrompt_verified by blast

section \<open>The vault keeps one password for each account\<close>

lemma vault_keys_inj [simp]: "vaultBlobKey a = vaultBlobKey b \<longleftrightarrow> a = b" "vaultOnKey a = vaultOnKey b \<longleftrightarrow> a = b"
  by (simp_all add: vaultBlobKey_def vaultOnKey_def)

text \<open>What DPAPI promises: it gives back what it protected, and nothing becomes empty.\<close>

definition dpapi_law :: "world \<Rightarrow> bool" where
  "dpapi_law W \<longleftrightarrow> wi_crypt32 (w_windows W) \<and>
     (\<forall>p b. wi_protect (w_windows W) p = Some b \<longrightarrow> b \<noteq> [] \<and> wi_unprotect (w_windows W) b = Some p)"

lemma enrolled_login:
  assumes laws: "dpapi_law W" "text_law (w_ext W)" "wi_combase (w_windows W)"
    and pw: "toUtf8 (w_ext W) password \<noteq> []" "wi_protect (w_windows W) (toUtf8 (w_ext W) password) \<noteq> None"
  shows "hasLoginEnrolled (enrollLogin W c nick password) nick"
    "loginWithBiometric W (enrollLogin W c nick password) nick = (if runHelloVerification W then Some (nick, password) else None)"
proof -
  obtain b where b: "wi_protect (w_windows W) (toUtf8 (w_ext W) password) = Some b" "b \<noteq> []"
      "wi_unprotect (w_windows W) b = Some (toUtf8 (w_ext W) password)" "wi_crypt32 (w_windows W)"
    using laws(1) pw(2) by (auto simp: dpapi_law_def)
  moreover have "fromUtf8 (w_ext W) (toUtf8 (w_ext W) password) = password" using laws(2) by (simp add: text_law_def)
  ultimately show "hasLoginEnrolled (enrollLogin W c nick password) nick"
    "loginWithBiometric W (enrollLogin W c nick password) nick = (if runHelloVerification W then Some (nick, password) else None)"
    using laws(3) pw(1)
    by (simp_all add: enrollLogin_def dpapiWrap_def hasLoginEnrolled_def loginWithBiometric_def dpapiUnwrap_def valueOr_def Let_def)
qed

text \<open>The vault gives back the password it was enrolled with: after a verified prompt, for
  that account only, and until it is cleared. Without a verified prompt it gives nothing. Enrolling or
  clearing one account leaves the others as they were.\<close>

theorem vault_roundtrip:
  assumes laws: "dpapi_law W" "text_law (w_ext W)" "wi_combase (w_windows W)"
    and pw: "toUtf8 (w_ext W) password \<noteq> []" "wi_protect (w_windows W) (toUtf8 (w_ext W) password) \<noteq> None"
  shows "hasLoginEnrolled (enrollLogin W c nick password) nick \<and>
    loginWithBiometric W (enrollLogin W c nick password) nick = (if runHelloVerification W then Some (nick, password) else None) \<and>
    \<not> hasLoginEnrolled (clearLogin (enrollLogin W c nick password) nick) nick \<and>
    loginWithBiometric W (clearLogin (enrollLogin W c nick password) nick) nick = None \<and>
    (\<forall>other. other \<noteq> nick \<longrightarrow>
       loginWithBiometric W (enrollLogin W c nick password) other = loginWithBiometric W c other \<and>
       loginWithBiometric W (clearLogin c nick) other = loginWithBiometric W c other)"
  using enrolled_login [OF laws pw, of c nick]
  by (auto simp: enrollLogin_def hasLoginEnrolled_def loginWithBiometric_def clearLogin_def Let_def)

lemma demo_vault: "dpapi_law (demoWorld\<lparr>w_windows := (w_windows demoWorld)\<lparr>wi_protect := \<lambda>p. Some (1 # p), wi_unprotect := \<lambda>b. Some (tl b)\<rparr>\<rparr>)"
  by (simp add: dpapi_law_def demoWorld_def)

theorem vault_roundtrip_witness:
  "loginWithBiometric (demoWorld\<lparr>w_windows := (w_windows demoWorld)\<lparr>wi_protect := \<lambda>p. Some (1 # p), wi_unprotect := \<lambda>b. Some (tl b)\<rparr>\<rparr>)
     (enrollLogin (demoWorld\<lparr>w_windows := (w_windows demoWorld)\<lparr>wi_protect := \<lambda>p. Some (1 # p), wi_unprotect := \<lambda>b. Some (tl b)\<rparr>\<rparr>)
        demoClient ''alice'' ''pw'') ''alice'' = Some (''alice'', ''pw'')"
proof -
  let ?W = "demoWorld\<lparr>w_windows := (w_windows demoWorld)\<lparr>wi_protect := \<lambda>p. Some (1 # p), wi_unprotect := \<lambda>b. Some (tl b)\<rparr>\<rparr>"
  have "text_law (w_ext ?W)" "toUtf8 (w_ext ?W) ''pw'' \<noteq> []" using demo_text_law by (simp_all add: demoWorld_def) (simp add: demo_def latin1_def)
  moreover have "runHelloVerification ?W"
    using demoPrompt_verified by (simp add: runHelloVerification_def demoWorld_def demoPrompt_def)
  moreover have "wi_combase (w_windows ?W)" "wi_protect (w_windows ?W) (toUtf8 (w_ext ?W) ''pw'') \<noteq> None" by (simp_all add: demoWorld_def)
  ultimately show ?thesis using vault_roundtrip [OF demo_vault, of "''pw''" demoClient "''alice''"] by simp
qed

end
