(* ===== verification/Directory.thy ===== *)
theory Directory
  imports Receive AppLock
begin

text \<open>
  What \<open>ChatClient\<close> (\<^verbatim>\<open>client/src/chatclient.cpp\<close>) learns from the relay about other users: who is online,
  their identity keys, their prekey bundles, and the prekeys it publishes itself. The fields of a
  bundle are the bytes their hexadecimal text stands for; the entries of a directory come in the
  order in which the client visits them.
\<close>

section \<open>Prekeys\<close>

definition kPrekeyLowWaterMark :: nat where "kPrekeyLowWaterMark = 8"
definition kPrekeyBatchSize :: int where "kPrekeyBatchSize = 32"

definition restorePool :: "world \<Rightarrow> int \<Rightarrow> ChatClient \<Rightarrow> ChatClient" where
  "restorePool W now c =
     (if m_spkPriv (c_crypto c) = [] \<and> m_ready (c_history c) \<and> loadPrekeys (c_history c) \<noteq> []
      then c\<lparr>c_crypto := fst (restorePrekeys (w_ext W) now (c_crypto c) (loadPrekeys (c_history c)))\<rparr> else c)"

text \<open>One draw for the signed prekey and one for each one-time prekey.\<close>

definition boxPrekeys :: "world \<Rightarrow> int \<Rightarrow> ChatClient \<Rightarrow> ChatClient \<times> bool" where
  "boxPrekeys W now c =
     (let (b, ok) = generatePrekeys (w_ext W) (w_rnd W (c_draws c) 32) (\<lambda>i. w_rnd W (c_draws c + 1 + i) 32) now
                      (c_crypto c) kPrekeyBatchSize
      in (c\<lparr>c_crypto := b, c_draws := c_draws c + 33\<rparr>, ok))"

definition publishPrekeysIfNeeded :: "world \<Rightarrow> int \<Rightarrow> ChatClient \<Rightarrow> bool \<Rightarrow> ChatClient" where
  "publishPrekeysIfNeeded W now c force =
     (if \<not> c_connected c then c
      else if \<not> hasX3dhIdentity (c_crypto c) then c
      else
        (let c1 = restorePool W now c;
             needNew = (force \<or> m_spkPriv (c_crypto c1) = [] \<or> length (m_opkPriv (c_crypto c1)) \<le> kPrekeyLowWaterMark)
         in if \<not> needNew then c1
            else case boxPrekeys W now c1 of
                   (c2, False) \<Rightarrow> c2
                 | (c2, True) \<Rightarrow>
                     (let b = c_crypto c2;
                          c3 = (if m_ready (c_history c2)
                                then c2\<lparr>c_history := fst (savePrekeys (c_history c2) (serialisePrekeys b))\<rparr> else c2)
                      in sendFrame c3 (PublishPrekeys (signedPrekeyPublicHex b) (signedPrekeySignatureHex b)
                           (oneTimePrekeyPublicsHex (w_ext W) b) now))))"

definition receivePrekeysAck :: "world \<Rightarrow> int \<Rightarrow> ChatClient \<Rightarrow> int \<Rightarrow> ChatClient" where
  "receivePrekeysAck W now c remaining =
     (if remaining \<le> int kPrekeyLowWaterMark then publishPrekeysIfNeeded W now c True else c)"

definition requestBundle :: "ChatClient \<Rightarrow> qstring \<Rightarrow> ChatClient" where
  "requestBundle c peer =
     (if peer = [] \<or> peer = c_nick c then c
      else if \<not> c_connected c then c
      else sendFrame c (GetBundle peer))"

section \<open>Bundles\<close>

record served_bundle =
  sb_ik :: bytes
  sb_spk :: bytes
  sb_spkSig :: bytes
  sb_opk :: "bytes option"
  sb_opkId :: int

text \<open>Whether the identity in a bundle is the one the peer published.\<close>

definition bundleBound :: "world \<Rightarrow> ChatClient \<Rightarrow> qstring \<Rightarrow> bytes \<Rightarrow> bool" where
  "bundleBound W c who ident =
     (let knownEd = valueOr [] (c_peerEdKeys c) who
      in if knownEd \<noteq> [] then ident = knownEd
         else case c_peerKeys c who of
                Some key \<Rightarrow> (case agreementKeyFor (w_ext W) ident ''ed25519'' of None \<Rightarrow> False | Some derived \<Rightarrow> toHex derived = key)
              | None \<Rightarrow> True)"

definition receiveBundle :: "world \<Rightarrow> int \<Rightarrow> ChatClient \<Rightarrow> qstring \<Rightarrow> served_bundle option \<Rightarrow> ChatClient" where
  "receiveBundle W now c who served =
     (case served of None \<Rightarrow> c
      | Some sb \<Rightarrow>
          if \<not> bundleBound W c who (sb_ik sb) then c
          else if \<not> verifyBundle (w_ext W) (sb_ik sb) (sb_spk sb) (sb_spkSig sb) then c
          else
            (let opk = (case sb_opk sb of None \<Rightarrow> [] | Some k \<Rightarrow> k);
                 opkId = (case sb_opk sb of None \<Rightarrow> - 1 | Some _ \<Rightarrow> sb_opkId sb)
             in if sb_opk sb \<noteq> None \<and> length opk \<noteq> 32 then c
                else
                  (case beginX3dhSession (w_ext W) (w_rnd W (c_draws c) 32) (w_rnd W (c_draws c + 1) 32) (c_crypto c) who
                          (sb_ik sb) (sb_spk sb) (sb_spkSig sb) opk opkId of
                     (b, None) \<Rightarrow> c\<lparr>c_crypto := b, c_draws := c_draws c + 2\<rparr>
                   | (b, Some (ikA, ekA, usedOpk)) \<Rightarrow>
                       (let c1 = c\<lparr>c_crypto := b, c_draws := c_draws c + 2,
                              c_pendingX3dhHeader := (c_pendingX3dhHeader c)(who \<mapsto>
                                \<lparr>xh_ikA = ikA, xh_ekA = ekA, xh_opkId = usedOpk, xh_spkUsed = sb_spk sb\<rparr>)\<rparr>;
                            c2 = persistSession W now c1 who
                        in if c_connected c2 \<and> c_outbox c2 \<noteq> [] then flushOutbox W now c2 else c2))))"

section \<open>Keys\<close>

text \<open>A relay that states no key types shows by the client's own entry which kind it serves.\<close>

definition detectRelay :: "world \<Rightarrow> ChatClient \<Rightarrow> (qstring \<times> qstring) list \<Rightarrow> ChatClient" where
  "detectRelay W c entries =
     (case map_of entries (c_nick c) of
        None \<Rightarrow> c
      | Some mine \<Rightarrow>
          if c_nick c = [] then c
          else if edPublicKeyHex (c_crypto c) \<noteq> [] \<and> w_sameIgnoringCase W mine (edPublicKeyHex (c_crypto c))
          then c\<lparr>c_relayServesUntaggedEd := True\<rparr>
          else if publicKeyHex (c_crypto c) \<noteq> [] \<and> w_sameIgnoringCase W mine (publicKeyHex (c_crypto c))
          then c\<lparr>c_relayServesUntaggedEd := False\<rparr>
          else c)"

definition drainIfConnected :: "world \<Rightarrow> int \<Rightarrow> ChatClient \<Rightarrow> ChatClient" where
  "drainIfConnected W now c = (if c_connected c \<and> c_outbox c \<noteq> [] then flushOutbox W now c else c)"

text \<open>The directory arrives after a login the relay has confirmed: a vault the user asked for is written now.\<close>

definition enrollIfPending :: "world \<Rightarrow> ChatClient \<Rightarrow> ChatClient" where
  "enrollIfPending W c =
     (if a_bioEnrollPending (c_account c) \<and> a_bioEnrollPassword (c_account c) \<noteq> [] \<and> c_nick c \<noteq> []
      then (let c1 = enrollLogin W c (c_nick c) (a_bioEnrollPassword (c_account c))
            in c1\<lparr>c_account := (c_account c1)\<lparr>a_bioEnrollPending := False, a_bioEnrollPassword := []\<rparr>\<rparr>)
      else c)"

definition receiveKeys ::
  "world \<Rightarrow> int \<Rightarrow> ChatClient \<Rightarrow> (qstring \<times> qstring) list \<Rightarrow> (qstring \<rightharpoonup> qstring) option \<Rightarrow> ChatClient" where
  "receiveKeys W now c entries keyTypes =
     (let c1 = (if keyTypes = None then detectRelay W c entries else c);
          types = (case keyTypes of None \<Rightarrow> Map.empty | Some ts \<Rightarrow> ts);
          c1 = enrollIfPending W c1;
          c2 = fold (\<lambda>(peer, published) c. if c_nick c \<noteq> [] \<and> peer = c_nick c then c
                 else fst (learnKey W now c peer published (valueOr [] types peer))) entries c1;
          c3 = fold (\<lambda>(peer, _) c. replayPendingFrames W now c peer) entries c2
      in drainIfConnected W now c3)"

definition receiveKey :: "world \<Rightarrow> int \<Rightarrow> ChatClient \<Rightarrow> qstring \<Rightarrow> qstring \<Rightarrow> qstring \<Rightarrow> ChatClient" where
  "receiveKey W now c nick published statedType =
     (if published = [] then c
      else case learnKey W now c nick published statedType of
             (c1, False) \<Rightarrow> c1
           | (c1, True) \<Rightarrow> drainIfConnected W now (replayPendingFrames W now c1 nick))"

section \<open>Presence\<close>

definition receivePresence :: "world \<Rightarrow> ChatClient \<Rightarrow> qstring list \<Rightarrow> ChatClient" where
  "receivePresence W c names =
     (let c1 = c\<lparr>c_users := fst (setOnlineUsers (w_order W) (c_users c) names)\<rparr>
      in fold (\<lambda>p c. if p \<notin> set names then setPeerTyping c p ''idle'' else c) (w_values W (dom (c_peerTyping c1))) c1)"

section \<open>A handshake can replace a key\<close>

text \<open>Keys and gate, as far as they keep a conversation open or closed.\<close>

definition trust_of :: "ChatClient \<Rightarrow> (qstring \<rightharpoonup> qstring) \<times> qstring set \<times> qstring set" where
  "trust_of c = (c_peerKeys c, c_unverifiedKeyChange c, c_pendingBilateral c)"

definition trust_kept :: "ChatClient \<Rightarrow> ChatClient \<Rightarrow> bool" where
  "trust_kept c c' \<longleftrightarrow> trust_of c' = trust_of c"

interpretation tk: open_change trust_kept
proof
  show "trust_kept c (fst (boxEncrypt W c peer pt))" for c W peer pt
    by (simp add: trust_kept_def trust_of_def)
qed (auto simp: trust_kept_def trust_of_def idle_def requeue_def sendFrame_def)

lemma tk_drain: "trust_kept c (drainIfConnected W now c)"
  by (simp add: drainIfConnected_def tk.drained tk.refl)

definition stash_kept :: "ChatClient \<Rightarrow> ChatClient \<Rightarrow> bool" where
  "stash_kept c c' \<longleftrightarrow> c_pendingFrames c' = c_pendingFrames c \<and> c_nick c' = c_nick c"

interpretation sk: drain_change stash_kept
proof
  show "stash_kept c (fst (boxEncrypt W c peer pt))" for c W peer pt
    by (simp add: stash_kept_def)
qed (auto simp: stash_kept_def idle_def requeue_def sendFrame_def)

lemma hex_key: "hex_law E \<Longrightarrow> length key = 32 \<Longrightarrow> qFromHex E (toHex key) = key \<and> toHex key \<noteq> []"
proof -
  assume "hex_law E" "length key = 32"
  moreover from this(2) have "toHex key \<noteq> []" by (cases key) (auto simp: toHex_def)
  ultimately show ?thesis by (simp add: hex_law_def)
qed

text \<open>The key in force is stated again: nothing has changed, so nothing is flagged.\<close>

lemma same_key_unflagged:
  assumes law: "hex_law (w_ext W)" "length key = 32"
    and c: "c_peerKeys c peer = Some (toHex key)" "m_peerIdentity (c_crypto c) peer = Some key"
  shows "trust_kept c (adoptKey W now c peer (toHex key))" "stash_kept c (adoptKey W now c peer (toHex key))"
proof -
  let ?b = "(c_crypto c)\<lparr>m_peerIdentity := (m_peerIdentity (c_crypto c))(peer \<mapsto> key)\<rparr>"
  let ?c = "c\<lparr>c_peerKeys := (c_peerKeys c)(peer \<mapsto> toHex key), c_crypto := ?b\<rparr>"
  have key: "qFromHex (w_ext W) (toHex key) = key" "toHex key \<noteq> []" "peerIdentityHex (c_crypto c) peer = toHex key"
    using hex_key [OF law] c(2) by (simp_all add: peerIdentityHex_def)
  have same: "ensureSharedKey (w_ext W) (c_crypto c) peer (toHex key) = (?b, False)"
    using law(2) c(2) key(1) by (simp add: ensureSharedKey_def)
  have adopt: "adoptKey W now c peer (toHex key) = maybeResendVerifyAck now ?c peer"
    by (simp add: adoptKey_def Let_def same key(2,3))
  have "trust_kept c ?c" "stash_kept c ?c"
    using c(1) by (simp_all add: trust_kept_def trust_of_def stash_kept_def fun_upd_idem)
  moreover have "trust_kept ?c (maybeResendVerifyAck now ?c peer)" "stash_kept ?c (maybeResendVerifyAck now ?c peer)"
    by (simp_all add: maybeResendVerifyAck_def tk.ack_sent tk.refl sk.ack_sent sk.refl)
  ultimately show "trust_kept c (adoptKey W now c peer (toHex key))" "stash_kept c (adoptKey W now c peer (toHex key))"
    unfolding adopt using tk.trans sk.trans by blast+
qed

text \<open>Another key than the one in use is stated: the peer is flagged, and no frame that waits is touched.\<close>

lemma other_key_flagged:
  assumes law: "hex_law (w_ext W)" "length key = 32"
    and held: "m_peerIdentity (c_crypto c) peer = Some held" "held \<noteq> key"
  shows "peer \<in> c_unverifiedKeyChange (adoptKey W now c peer (toHex key))" "stash_kept c (adoptKey W now c peer (toHex key))"
proof -
  have changed: "snd (ensureSharedKey (w_ext W) (c_crypto c) peer (toHex key))"
    using law held hex_key [OF law] by (simp add: ensureSharedKey_def Let_def)
  obtain c1 where adopt: "adoptKey W now c peer (toHex key) = maybeResendVerifyAck now (flagKeyChange W now c1 peer) peer" "stash_kept c c1"
  proof
    let ?c = "c\<lparr>c_peerKeys := (c_peerKeys c)(peer \<mapsto> toHex key),
      c_crypto := fst (ensureSharedKey (w_ext W) (c_crypto c) peer (toHex key))\<rparr>"
    show "adoptKey W now c peer (toHex key) = maybeResendVerifyAck now (flagKeyChange W now (forgetPeer ?c peer) peer) peer"
      using changed by (simp add: adoptKey_def case_prod_beta Let_def)
    show "stash_kept c (forgetPeer ?c peer)"
      by (simp add: stash_kept_def forgetPeer_def resetPcsFor_def releasePing_def)
  qed
  have flag: "peer \<in> c_unverifiedKeyChange (flagKeyChange W now c1 peer)"
    using gateD(1) [OF flag_gate [of W now c1 peer]] by simp
  then show "peer \<in> c_unverifiedKeyChange (adoptKey W now c peer (toHex key))"
    unfolding adopt(1) using gateD(1) [OF gk_maybe [unfolded gate_kept_def]] by simp
  have "stash_kept c1 (flagKeyChange W now c1 peer)"
    by (auto simp: flagKeyChange_def sendVerifyResync_def systemLine_def sendFrame_def stash_kept_def Let_def)
  moreover have "stash_kept d (maybeResendVerifyAck now d peer)" for d
    by (simp add: maybeResendVerifyAck_def sk.ack_sent sk.refl)
  ultimately show "stash_kept c (adoptKey W now c peer (toHex key))"
    unfolding adopt(1) using adopt(2) sk.trans by blast
qed

lemma other_key_blocks:
  assumes law: "hex_law (w_ext W)" "length key = 32"
    and held: "m_peerIdentity (c_crypto c) peer = Some held" "held \<noteq> key" "c_pendingFrames c peer = []"
    and reply: "published \<noteq> []" "statedType \<noteq> []" "agreementKeyFor (w_ext W) (qFromHex (w_ext W) published) statedType = Some key"
  shows "conversationBlocked (receiveKey W now c peer published statedType) peer"
proof -
  let ?c = "c\<lparr>c_peerEdKeys := (c_peerEdKeys c)(peer := if statedType = ''ed25519'' then Some (qFromHex (w_ext W) published) else None)\<rparr>"
  define c1 where "c1 = adoptKey W now ?c peer (toHex key)"
  have c1: "peer \<in> c_unverifiedKeyChange c1" "c_pendingFrames c1 peer = []"
    using other_key_flagged [OF law, of ?c peer held now] held by (simp_all add: c1_def stash_kept_def)
  have "receiveKey W now c peer published statedType = drainIfConnected W now (c1\<lparr>c_pendingFrames := (c_pendingFrames c1)(peer := [])\<rparr>)"
    using reply c1(2) by (simp add: receiveKey_def learnKey_def c1_def replayPendingFrames_def Let_def)
  then show ?thesis
    using tk_drain [of "c1\<lparr>c_pendingFrames := (c_pendingFrames c1)(peer := [])\<rparr>" W now] c1(1)
    by (simp add: trust_kept_def trust_of_def conversationBlocked_def)
qed

text \<open>C39 (safety). A relay can replace the key of a peer without any warning. It forwards a handshake that
  names the new key, and answers the client's request for the peer's key with that key: the client
  then holds the new key, and the conversation is open if it was open before. The handshake is not
  authenticated at that point. The same answer without the handshake closes the gate, whenever the crypto
  box holds another key for the peer.\<close>

theorem handshake_swaps_key_silently:
  assumes law: "hex_law (w_ext W)" and new: "length key = 32"
    and c: "c_nick c \<noteq> peer" "c_peerKeys c peer = Some old" "old \<noteq> toHex key" "\<not> conversationBlocked c peer"
      "c_rebootstrapAdopted c peer \<noteq> Some (toHex key)" "c_pendingFrames c peer = []"
    and f: "mf_from f = peer" "mf_kind f = ''handshake''" "mf_ik f = toHex key" "mf_x3dh f = None"
    and reply: "published \<noteq> []" "statedType \<noteq> []" "agreementKeyFor (w_ext W) (qFromHex (w_ext W) published) statedType = Some key"
  shows "c_peerKeys (receiveKey W later (receiveMsg W now c f) peer published statedType) peer = Some (toHex key) \<and>
    \<not> conversationBlocked (receiveKey W later (receiveMsg W now c f) peer published statedType) peer \<and>
    (\<forall>held. m_peerIdentity (c_crypto c) peer = Some held \<longrightarrow> held \<noteq> key \<longrightarrow>
       conversationBlocked (receiveKey W later c peer published statedType) peer)"
proof -
  define b where "b = fst (ensureSharedKey (w_ext W) (c_crypto c) peer (toHex key))"
  define c1 where "c1 = receiveMsg W now c f"
  have key: "qFromHex (w_ext W) (toHex key) = key" "toHex key \<noteq> []" using hex_key [OF law new] by simp_all
  have b: "m_peerIdentity b peer = Some key" using key(1) new by (simp add: b_def ensureSharedKey_def Let_def)
  have "c1 = stashFrame (c\<lparr>c_rebootstrapAdopted := (c_rebootstrapAdopted c)(peer \<mapsto> toHex key),
      c_peerKeys := (c_peerKeys c)(peer \<mapsto> toHex key), c_crypto := b\<rparr>) peer (Msg f)"
    using c f key(2)
    by (auto simp: c1_def receiveMsg_def openerOf_def handshakeKey_def valueOr_def b_def Let_def split: option.split)
  then have c1: "c_peerKeys c1 peer = Some (toHex key)" "c_crypto c1 = b" "c_pendingFrames c1 peer = [Msg f]" "c_nick c1 \<noteq> peer"
      "\<not> conversationBlocked c1 peer"
    using c by (simp_all add: stashFrame_def requestKeyFor_def sendFrame_def conversationBlocked_def)
  let ?ed = "(c_peerEdKeys c1)(peer := if statedType = ''ed25519'' then Some (qFromHex (w_ext W) published) else None)"
  define c2 where "c2 = adoptKey W later (c1\<lparr>c_peerEdKeys := ?ed\<rparr>) peer (toHex key)"
  have learned: "learnKey W later c1 peer published statedType = (c2, True)"
    using reply(2,3) by (simp add: learnKey_def c2_def Let_def)
  have same: "trust_of c2 = trust_of c1" "c_pendingFrames c2 = c_pendingFrames c1" "c_nick c2 = c_nick c1"
    using same_key_unflagged [OF law new, of "c1\<lparr>c_peerEdKeys := ?ed\<rparr>" peer later] c1(1,2) b
    by (simp_all add: c2_def trust_kept_def trust_of_def stash_kept_def)
  define c3 where "c3 = c2\<lparr>c_pendingFrames := (c_pendingFrames c2)(peer := [])\<rparr>"
  have c3: "trust_of c3 = trust_of c1" "c_nick c3 \<noteq> peer" "c_peerKeys c3 peer = Some (toHex key)"
    using same c1 by (simp_all add: c3_def trust_of_def)
  have "receiveMsg W later c3 f = openFrame W later c3 peer f"
    using c3(2,3) f by (simp add: receiveMsg_def openerOf_def handshakeKey_def valueOr_def)
  then have "replayPendingFrames W later c2 peer = openFrame W later c3 peer f"
    using same(2) c1(3) by (simp add: replayPendingFrames_def c3_def)
  then have "receiveKey W later c1 peer published statedType = drainIfConnected W later (openFrame W later c3 peer f)"
    using reply(1) learned by (simp add: receiveKey_def)
  then have "trust_of (receiveKey W later c1 peer published statedType) = trust_of c1"
    using tk.frame_opened [of c3 W later peer f] tk_drain [of "openFrame W later c3 peer f" W later] c3(1) by (simp add: trust_kept_def)
  then have "c_peerKeys (receiveKey W later c1 peer published statedType) peer = Some (toHex key)"
    "\<not> conversationBlocked (receiveKey W later c1 peer published statedType) peer"
    using c1(1,5) by (simp_all add: trust_of_def conversationBlocked_def)
  then show ?thesis using other_key_blocks [OF law new _ _ c(6) reply] by (auto simp: c1_def)
qed

definition demoSwap :: ChatClient where
  "demoSwap = demoLive\<lparr>c_peerKeys := [''bob'' \<mapsto> toHex (replicate 32 1)],
     c_crypto := (c_crypto demoLive)\<lparr>m_peerIdentity := [''bob'' \<mapsto> replicate 32 1]\<rparr>\<rparr>"

theorem handshake_swaps_key_silently_witness:
  "\<exists>f. \<not> conversationBlocked (receiveKey demoWorld 9 (receiveMsg demoWorld 5 demoSwap f) ''bob'' (toHex (replicate 32 2)) ''x25519'') ''bob'' \<and>
     c_peerKeys (receiveKey demoWorld 9 (receiveMsg demoWorld 5 demoSwap f) ''bob'' (toHex (replicate 32 2)) ''x25519'') ''bob'' =
       Some (toHex (replicate 32 2)) \<and>
     conversationBlocked (receiveKey demoWorld 9 demoSwap ''bob'' (toHex (replicate 32 2)) ''x25519'') ''bob''"
proof -
  let ?f = "(newMsgFrame demoLive ''alice'' \<lparr>w_cipher = [], w_dh = [], w_pn = 0, w_n = 0, w_nonce = [], w_ct = []\<rparr> 5)
    \<lparr>mf_from := ''bob'', mf_kind := ''handshake'', mf_ik := toHex (replicate 32 2)\<rparr>"
  have hex: "hex_law (w_ext demoWorld)" by (simp add: demo_laws)
  note keys = hex_key [OF hex, of "replicate 32 1"] hex_key [OF hex, of "replicate 32 2"]
  have ne: "replicate 32 (1 :: byte) \<noteq> replicate 32 2" by simp
  then have "toHex (replicate 32 1) \<noteq> toHex (replicate 32 2)" using keys by (metis length_replicate)
  moreover have "agreementKeyFor (w_ext demoWorld) (qFromHex (w_ext demoWorld) (toHex (replicate 32 2))) ''x25519'' = Some (replicate 32 2)"
    using keys(2) by (simp add: agreementKeyFor_def)
  moreover have "c_nick demoSwap \<noteq> ''bob''" "\<not> conversationBlocked demoSwap ''bob''" "c_rebootstrapAdopted demoSwap ''bob'' \<noteq> Some (toHex (replicate 32 2))"
    "c_pendingFrames demoSwap ''bob'' = []" "c_peerKeys demoSwap ''bob'' = Some (toHex (replicate 32 1))"
    "m_peerIdentity (c_crypto demoSwap) ''bob'' = Some (replicate 32 1)"
    by (simp_all add: demoSwap_def demoLive_def demoClient_def newClient_def conversationBlocked_def)
  ultimately show ?thesis
    using handshake_swaps_key_silently [OF hex, of "replicate 32 2" demoSwap "''bob''" "toHex (replicate 32 1)" ?f "toHex (replicate 32 2)"
        "''x25519''" 9 5] keys(2) ne
    by (intro exI [of _ ?f]) (simp add: newMsgFrame_def)
qed

section \<open>Bundles\<close>

text \<open>C19 (safety). The client opens a session from a bundle only when the signed prekey verifies under the
  identity in the bundle and that identity is the one the peer published, as far as the client knows
  one: the very Ed25519 key, or one whose agreement key is the key in force.\<close>

theorem bundle_bound_to_directory:
  assumes "c_pendingX3dhHeader (receiveBundle W now c who (Some sb)) who \<noteq> c_pendingX3dhHeader c who"
  shows "verifyBundle (w_ext W) (sb_ik sb) (sb_spk sb) (sb_spkSig sb) \<and>
    (\<forall>ed. c_peerEdKeys c who = Some ed \<longrightarrow> ed \<noteq> [] \<longrightarrow> sb_ik sb = ed) \<and>
    (c_peerEdKeys c who = None \<longrightarrow> (\<forall>key. c_peerKeys c who = Some key \<longrightarrow>
      map_option toHex (agreementKeyFor (w_ext W) (sb_ik sb) ''ed25519'') = Some key))"
proof -
  have "bundleBound W c who (sb_ik sb)" "verifyBundle (w_ext W) (sb_ik sb) (sb_spk sb) (sb_spkSig sb)"
    using assms by (auto simp: receiveBundle_def split: if_splits)
  then show ?thesis by (auto simp: bundleBound_def valueOr_def Let_def split: if_splits option.splits)
qed

section \<open>Published prekeys\<close>

lemma savePrekeys_loaded: "m_ready h \<Longrightarrow> blob \<noteq> [] \<Longrightarrow> loadPrekeys (fst (savePrekeys h blob)) = blob"
  by (simp add: savePrekeys_def loadPrekeys_def)

lemma restorePool_current: "m_spkPriv (c_crypto c) \<noteq> [] \<or> loadPrekeys (c_history c) = [] \<Longrightarrow> restorePool W now c = c"
  by (auto simp: restorePool_def)

text \<open>What publishing does when new prekeys are needed.\<close>

lemma prekeys_generated:
  assumes laws: "identity_law (w_ext W)" "sign_law (w_ext W)" "dh_law (w_ext W)" "draw_law W"
    and id: "identity_ok (w_ext W) (c_crypto c)" "m_identityVersion (c_crypto c) = 2"
    and c: "c_connected c" "restorePool W now c = c"
    and room: "unat (m_nextOpkId (c_crypto c)) + 32 < 2 ^ 32"
    and old: "m_spkPriv (c_crypto c) = [] \<and> m_prevSpkPriv (c_crypto c) = [] \<and> m_prevSpkPub (c_crypto c) = [] \<or> prekeys_ok (w_ext W) (c_crypto c)"
    and need: "force \<or> m_spkPriv (c_crypto c) = []"
  obtains b where "publishPrekeysIfNeeded W now c force = sendFrame (c\<lparr>c_crypto := b, c_draws := c_draws c + 33,
      c_history := (if m_ready (c_history c) then fst (savePrekeys (c_history c) (serialisePrekeys b)) else c_history c)\<rparr>)
      (PublishPrekeys (signedPrekeyPublicHex b) (signedPrekeySignatureHex b) (oneTimePrekeyPublicsHex (w_ext W) b) now)"
    "prekeys_ok (w_ext W) b" "length (m_opkPriv b) = 32" "m_spkCreatedMs b = now" "m_spkPub b = scalarmult_base (w_ext W) (w_rnd W (c_draws c) 32)"
    "m_prevSpkPub b = (if m_spkPriv (c_crypto c) = [] then m_prevSpkPub (c_crypto c) else m_spkPub (c_crypto c))"
    "m_prevSpkPriv b = (if m_spkPriv (c_crypto c) = [] then m_prevSpkPriv (c_crypto c) else m_spkPriv (c_crypto c))"
    "m_prevSpkRetiredMs b = (if m_spkPriv (c_crypto c) = [] then m_prevSpkRetiredMs (c_crypto c) else now)"
    "\<forall>p \<in> set (m_opkPriv b). m_nextOpkId (c_crypto c) \<le> fst p"
proof -
  have len: "length (w_rnd W i 32) = 32" for i using laws(4) by (simp add: draw_law_def)
  have seed: "hasX3dhIdentity (c_crypto c)" using id by (auto simp: hasX3dhIdentity_def identity_ok_def)
  obtain b ok where gen: "generatePrekeys (w_ext W) (w_rnd W (c_draws c) 32) (\<lambda>i. w_rnd W (c_draws c + 1 + i) 32) now (c_crypto c) kPrekeyBatchSize = (b, ok)"
    by fastforce
  have batch: "unat (m_nextOpkId (c_crypto c)) + nat kPrekeyBatchSize < 2 ^ 32" using room by (simp add: kPrekeyBatchSize_def)
  have fresh: ok "prekeys_ok (w_ext W) b" "length (m_opkPriv b) = 32" "\<forall>p \<in> set (m_opkPriv b). m_nextOpkId (c_crypto c) \<le> fst p"
    using generatePrekeys_fresh [OF laws(1-3) id batch len len _ gen] old prekeys_okD(5,7) by (auto simp: kPrekeyBatchSize_def)
  note closed = gen [unfolded generatePrekeys_closed [OF laws(1,2) id batch]]
  have "publishPrekeysIfNeeded W now c force = sendFrame (c\<lparr>c_crypto := b, c_draws := c_draws c + 33,
      c_history := (if m_ready (c_history c) then fst (savePrekeys (c_history c) (serialisePrekeys b)) else c_history c)\<rparr>)
      (PublishPrekeys (signedPrekeyPublicHex b) (signedPrekeySignatureHex b) (oneTimePrekeyPublicsHex (w_ext W) b) now)"
    using c seed gen fresh(1) need by (auto simp: publishPrekeysIfNeeded_def boxPrekeys_def Let_def)
  then show thesis by (rule that) (use fresh closed in \<open>auto split: if_splits\<close>)
qed

text \<open>C22 (roundtrip). What the client publishes, it can still answer after a restart: the prekeys it sends to
  the relay are those a client started on the same database restores, the signed one with its
  signature and every one-time prekey under its number.\<close>

theorem published_prekeys_survive_restart:
  assumes laws: "identity_law (w_ext W)" "sign_law (w_ext W)" "dh_law (w_ext W)" "draw_law W"
    and id: "identity_ok (w_ext W) (c_crypto c)" "m_identityVersion (c_crypto c) = 2"
    and c: "c_connected c" "m_ready (c_history c)"
    and room: "unat (m_nextOpkId (c_crypto c)) + 32 < 2 ^ 32"
    and times: "i64_range now" "0 < now" "i64_range (m_prevSpkRetiredMs (c_crypto c))"
    and old: "m_spkPriv (c_crypto c) = [] \<and> m_prevSpkPriv (c_crypto c) = [] \<and> m_prevSpkPub (c_crypto c) = [] \<and> loadPrekeys (c_history c) = [] \<or>
        prekeys_ok (w_ext W) (c_crypto c)"
    and c': "c' = publishPrekeysIfNeeded W now c True"
    and d: "m_spkPriv (c_crypto d) = []" "c_history d = c_history c'" and b: "b = c_crypto (restorePool W later d)"
  shows "c_sent c' = c_sent c @ [PublishPrekeys (signedPrekeyPublicHex b) (signedPrekeySignatureHex b) (oneTimePrekeyPublicsHex (w_ext W) b) now] \<and>
    length (m_opkPriv b) = 32 \<and> m_spkPriv b = m_spkPriv (c_crypto c') \<and> m_opkPriv b = m_opkPriv (c_crypto c')"
proof -
  have pool: "restorePool W now c = c" using old prekeys_okD(6) by (intro restorePool_current) auto
  have old': "m_spkPriv (c_crypto c) = [] \<and> m_prevSpkPriv (c_crypto c) = [] \<and> m_prevSpkPub (c_crypto c) = [] \<or> prekeys_ok (w_ext W) (c_crypto c)"
    using old by blast
  obtain b1 where c1: "c' = sendFrame (c\<lparr>c_crypto := b1, c_draws := c_draws c + 33,
      c_history := (if m_ready (c_history c) then fst (savePrekeys (c_history c) (serialisePrekeys b1)) else c_history c)\<rparr>)
      (PublishPrekeys (signedPrekeyPublicHex b1) (signedPrekeySignatureHex b1) (oneTimePrekeyPublicsHex (w_ext W) b1) now)"
    and fresh: "prekeys_ok (w_ext W) b1" "length (m_opkPriv b1) = 32"
    and stamps: "m_spkCreatedMs b1 = now" "m_prevSpkRetiredMs b1 = (if m_spkPriv (c_crypto c) = [] then m_prevSpkRetiredMs (c_crypto c) else now)"
    by (rule prekeys_generated [OF laws id c(1) pool room old' disjI1 [OF TrueI]]) (rule that [unfolded c'])
  have "serialisePrekeys b1 \<noteq> []" using prekeys_okD(6) [OF fresh(1)] by (simp add: serialisePrekeys_def kPrekeyMagic_def)
  then have "loadPrekeys (c_history d) = serialisePrekeys b1" "m_ready (c_history d)" "serialisePrekeys b1 \<noteq> []"
    using c(2) c1 d(2) by (simp_all add: savePrekeys_loaded) (simp add: savePrekeys_def)
  then have "b = (c_crypto d)\<lparr>m_spkPriv := m_spkPriv b1, m_spkPub := m_spkPub b1, m_spkSig := m_spkSig b1,
       m_spkCreatedMs := m_spkCreatedMs b1, m_prevSpkPriv := m_prevSpkPriv b1, m_prevSpkPub := m_prevSpkPub b1, m_prevSpkRetiredMs := m_prevSpkRetiredMs b1,
       m_opkPriv := m_opkPriv b1, m_nextOpkId := m_nextOpkId b1\<rparr>"
    using prekeys_roundtrip [OF laws(1-3) fresh(1), of later "c_crypto d"] stamps times fresh(2) d(1) by (simp add: b restorePool_def)
  then show ?thesis
    using fresh(2) c(1) by (simp add: c1 sendFrame_def signedPrekeyPublicHex_def signedPrekeySignatureHex_def oneTimePrekeyPublicsHex_def)
qed

section \<open>Who is typing\<close>

text \<open>After a presence list nobody outside it is shown as typing, and what the others are
  doing is unchanged.\<close>

theorem nobody_offline_types:
  assumes law: "values_law W" and fin: "finite (dom (c_peerTyping c))" and names: "c_peerTyping c [] = None"
  shows "c_peerTyping (receivePresence W c names) = c_peerTyping c |` set names"
proof -
  have step: "c_peerTyping (fold (\<lambda>p c. if p \<notin> set names then setPeerTyping c p ''idle'' else c) ps e) =
      c_peerTyping e |` (- (set ps - set names - {[]}))" for ps e
    by (induction ps arbitrary: e) (auto simp: setPeerTyping_def restrict_map_def fun_eq_iff)
  have "set (w_values W (dom (c_peerTyping c))) = dom (c_peerTyping c)" using law fin by (simp add: values_law_def)
  then show ?thesis using names by (auto simp: receivePresence_def step restrict_map_def fun_eq_iff)
qed

section \<open>The first message of a conversation\<close>

text \<open>What opening a session from a bundle does to the client.\<close>

lemma bundle_opens:
  assumes hdr: "c_pendingX3dhHeader (receiveBundle W now c who (Some sb)) who = Some hdr" "c_pendingX3dhHeader c who = None"
    and idle: "c_outbox c = []"
    and opks: "otk = (case sb_opk sb of None \<Rightarrow> [] | Some k \<Rightarrow> k)" "otkId = (case sb_opk sb of None \<Rightarrow> - 1 | Some _ \<Rightarrow> sb_opkId sb)"
  obtains b where "beginX3dhSession (w_ext W) (w_rnd W (c_draws c) 32) (w_rnd W (c_draws c + 1) 32) (c_crypto c) who
      (sb_ik sb) (sb_spk sb) (sb_spkSig sb) otk otkId = (b, Some (xh_ikA hdr, xh_ekA hdr, xh_opkId hdr))"
    "xh_spkUsed hdr = sb_spk sb"
    "receiveBundle W now c who (Some sb) = persistSession W now (c\<lparr>c_crypto := b, c_draws := c_draws c + 2,
       c_pendingX3dhHeader := (c_pendingX3dhHeader c)(who \<mapsto> hdr)\<rparr>) who"
proof -
  obtain b r where call: "beginX3dhSession (w_ext W) (w_rnd W (c_draws c) 32) (w_rnd W (c_draws c + 1) 32) (c_crypto c) who
      (sb_ik sb) (sb_spk sb) (sb_spkSig sb) otk otkId = (b, r)" by fastforce
  have "bundleBound W c who (sb_ik sb)" "verifyBundle (w_ext W) (sb_ik sb) (sb_spk sb) (sb_spkSig sb)"
      "\<not> (sb_opk sb \<noteq> None \<and> length otk \<noteq> 32)"
    using hdr opks by (auto simp: receiveBundle_def Let_def split: if_splits)
  then have rb: "receiveBundle W now c who (Some sb) =
      (case r of None \<Rightarrow> c\<lparr>c_crypto := b, c_draws := c_draws c + 2\<rparr>
       | Some (ikA, ekA, usedOpk) \<Rightarrow> persistSession W now (c\<lparr>c_crypto := b, c_draws := c_draws c + 2,
           c_pendingX3dhHeader := (c_pendingX3dhHeader c)(who \<mapsto>
             \<lparr>xh_ikA = ikA, xh_ekA = ekA, xh_opkId = usedOpk, xh_spkUsed = sb_spk sb\<rparr>)\<rparr>) who)"
    using call idle by (auto simp: receiveBundle_def opks [symmetric] Let_def split: option.split)
  with hdr obtain ikA ekA usedOpk where "r = Some (ikA, ekA, usedOpk)"
      "hdr = \<lparr>xh_ikA = ikA, xh_ekA = ekA, xh_opkId = usedOpk, xh_spkUsed = sb_spk sb\<rparr>"
    by (cases r) auto
  with rb call show thesis using that by simp
qed

text \<open>What accepting the opener does to the receiver.\<close>

lemma opener_received:
  assumes acc: "acceptX3dhSession (w_ext W) (c_crypto d) peer (xh_ikA hdr) (xh_ekA hdr) (xh_opkId hdr) (xh_spkUsed hdr) = (b', True)"
    and kept: "m_privateKey b' = m_privateKey (c_crypto d)"
    and f: "mf_x3dh f = Some hdr" "mf_from f \<noteq> c_nick d" "\<not> hasSessionFor (c_crypto d) peer"
  obtains d1 where "openerOf W now d peer f = (d1, True)" "c_crypto d1 = b'" "screen d1 = screen d" "c_peerKeys d1 = c_peerKeys d"
    "c_seenFrames d1 = c_seenFrames d" "c_draws d1 = c_draws d" "c_nick d1 = c_nick d"
proof -
  let ?c1 = "persistSession W now (d\<lparr>c_crypto := b'\<rparr>) peer"
  let ?d1 = "if m_ready (c_history ?c1) then ?c1\<lparr>c_history := fst (savePrekeys (c_history ?c1) (serialisePrekeys b'))\<rparr> else ?c1"
  have "screen ?d1 = screen ?c1"
    by (simp add: screen_def savePrekeys_def createTable_def split: option.split)
  also have "\<dots> = screen d" using kept by (simp add: screen_persist) (simp add: screen_def)
  finally have "screen ?d1 = screen d" .
  moreover have "openerOf W now d peer f = (?d1, True)"
    using acc f by (simp add: openerOf_def acceptOpener_def Let_def)
  ultimately show thesis by (intro that [of ?d1]) simp_all
qed

text \<open>The sessions of the two clients once one has accepted the bundle of the other.\<close>

lemma bundle_session:
  assumes laws: "hmac_law (w_ext W)" "dh_law (w_ext W)" "identity_law (w_ext W)" "sign_law (w_ext W)" "draw_law W"
    and bob: "prekeys_ok (w_ext W) (c_crypto d)"
    and served: "offered_opk (w_ext W) (c_crypto d) i otkPriv otk" "sb = \<lparr>sb_ik = m_edPublicKey (c_crypto d), sb_spk = m_spkPub (c_crypto d),
        sb_spkSig = m_spkSig (c_crypto d), sb_opk = (if i < 0 then None else Some otk), sb_opkId = i\<rparr>"
    and alice: "length (m_identitySeed (c_crypto c)) = 32" "c_outbox c = []" "c_pendingX3dhHeader c (c_nick d) = None"
    and c1: "c1 = receiveBundle W now c (c_nick d) (Some sb)" "c_pendingX3dhHeader c1 (c_nick d) = Some hdr"
  obtains b b' sA sB where "c1 = persistSession W now (c\<lparr>c_crypto := b, c_draws := c_draws c + 2,
      c_pendingX3dhHeader := (c_pendingX3dhHeader c)(c_nick d \<mapsto> hdr)\<rparr>) (c_nick d)"
    "acceptX3dhSession (w_ext W) (c_crypto d) (c_nick c) (xh_ikA hdr) (xh_ekA hdr) (xh_opkId hdr) (xh_spkUsed hdr) = (b', True)"
    "m_sessions b (c_nick d) = Some sA" "m_sessions b' (c_nick c) = Some sB" "conversation_start (w_ext W) sA sB"
    "DHr_pub sA = m_spkPub (c_crypto d)" "m_peerIdentity b' = m_peerIdentity (c_crypto d)" "m_privateKey b' = m_privateKey (c_crypto d)"
proof -
  have otk: "(case sb_opk sb of None \<Rightarrow> [] | Some k \<Rightarrow> k) = otk" "(case sb_opk sb of None \<Rightarrow> - 1 | Some _ \<Rightarrow> sb_opkId sb) = i"
    using served by (auto simp: offered_opk_def split: if_splits)
  obtain b where b: "beginX3dhSession (w_ext W) (w_rnd W (c_draws c) 32) (w_rnd W (c_draws c + 1) 32) (c_crypto c) (c_nick d)
      (m_edPublicKey (c_crypto d)) (m_spkPub (c_crypto d)) (m_spkSig (c_crypto d)) otk i = (b, Some (xh_ikA hdr, xh_ekA hdr, xh_opkId hdr))"
      "xh_spkUsed hdr = m_spkPub (c_crypto d)"
      "c1 = persistSession W now (c\<lparr>c_crypto := b, c_draws := c_draws c + 2,
         c_pendingX3dhHeader := (c_pendingX3dhHeader c)(c_nick d \<mapsto> hdr)\<rparr>) (c_nick d)"
    using bundle_opens [OF c1(2) [unfolded c1(1)] alice(3,2) otk [symmetric]] served(2) c1(1) by auto
  have len: "length (w_rnd W n 32) = 32" for n using laws(5) by (simp add: draw_law_def)
  obtain b' sA sB where acc: "DHr_pub sA = m_spkPub (c_crypto d)" "m_peerIdentity b' = m_peerIdentity (c_crypto d)"
      "m_privateKey b' = m_privateKey (c_crypto d)"
      "acceptX3dhSession (w_ext W) (c_crypto d) (c_nick c) (xh_ikA hdr) (xh_ekA hdr) (xh_opkId hdr) (xh_spkUsed hdr) = (b', True)"
      "m_sessions b (c_nick d) = Some sA" "m_sessions b' (c_nick c) = Some sB" "conversation_start (w_ext W) sA sB"
    using opener_accepted [OF laws(1-4) alice(1) bob served(1) len b(1)] b(2) by metis
  with b(3) show thesis using that by blast
qed

text \<open>C5 (functional). The first message of a conversation reaches a peer that was never met: a client that
  accepts the peer's published bundle and sends a message attaches the opener, and the peer's client
  opens the session from it and shows the message. The name the sender gives itself decides where the
  message is shown; nothing relates the identity in the opener to the key published under that name.\<close>

theorem first_message_delivered:
  assumes laws: "hmac_law (w_ext W)" "aead_law (w_ext W)" "dh_law (w_ext W)" "hash_order_law (w_ext W)" "hex_law (w_ext W)"
      "text_law (w_ext W)" "identity_law (w_ext W)" "sign_law (w_ext W)" "draw_law W"
    and bob: "prekeys_ok (w_ext W) (c_crypto d)" "m_privateKey (c_crypto d) \<noteq> []" "m_ready (c_history d)" "c_outbox d = []"
      "\<not> hasSessionFor (c_crypto d) (c_nick c)" "c_peerKeys d (c_nick c) = Some key"
      "m_peerIdentity (c_crypto d) (c_nick c) \<in> {None, Some (qFromHex (w_ext W) key)}" "\<And>k. (c_nick c, k) \<notin> c_seenFrames d"
      "scalarmult_base (w_ext W) (w_rnd W (c_draws d + 1) 32) \<noteq> m_spkPub (c_crypto d)"
    and served: "offered_opk (w_ext W) (c_crypto d) i otkPriv otk" "sb = \<lparr>sb_ik = m_edPublicKey (c_crypto d), sb_spk = m_spkPub (c_crypto d),
        sb_spkSig = m_spkSig (c_crypto d), sb_opk = (if i < 0 then None else Some otk), sb_opkId = i\<rparr>"
    and alice: "length (m_identitySeed (c_crypto c)) = 32" "c_outbox c = []" "c_pendingX3dhHeader c (c_nick d) = None"
      "c_activePeer c = c_nick d" "c_nick d \<noteq> []" "\<not> conversationBlocked c (c_nick d)" "c_connected c" "c_peerKeys c (c_nick d) \<noteq> None"
      "c_nick c \<noteq> c_nick d" "pt \<noteq> []"
    and c1: "c1 = receiveBundle W now c (c_nick d) (Some sb)" "c_pendingX3dhHeader c1 (c_nick d) = Some hdr"
  shows "\<exists>f. Msg f \<in> set (c_sent (sendMessage W t c1 pt)) \<and> mf_x3dh f = Some hdr \<and>
    arrived W d (receiveMsg W later d f) (c_nick c) pt t (mf_mid f)"
proof -
  have len: "length (w_rnd W n 32) = 32" for n using laws(9) by (simp add: draw_law_def)
  obtain b b' sA sB where c1b: "c1 = persistSession W now (c\<lparr>c_crypto := b, c_draws := c_draws c + 2,
      c_pendingX3dhHeader := (c_pendingX3dhHeader c)(c_nick d \<mapsto> hdr)\<rparr>) (c_nick d)"
    and accept: "acceptX3dhSession (w_ext W) (c_crypto d) (c_nick c) (xh_ikA hdr) (xh_ekA hdr) (xh_opkId hdr) (xh_spkUsed hdr) = (b', True)"
    and sess: "m_sessions b (c_nick d) = Some sA" "m_sessions b' (c_nick c) = Some sB" "conversation_start (w_ext W) sA sB"
      "DHr_pub sA = m_spkPub (c_crypto d)"
    and kept: "m_peerIdentity b' = m_peerIdentity (c_crypto d)" "m_privateKey b' = m_privateKey (c_crypto d)"
    by (rule bundle_session [OF laws(1,3,7-9) bob(1) served alice(1-3) c1])
  have c1': "c_crypto c1 = b" "c_nick c1 = c_nick c" "c_activePeer c1 = c_nick d" "c_connected c1" "c_peerKeys c1 (c_nick d) \<noteq> None"
      "\<not> conversationBlocked c1 (c_nick d)"
    using alice c1b by (simp_all add: conversationBlocked_def)
  have "offers (w_ext W) sA sB" using sess(3) by (simp add: conversation_start_def)
  then have "CKs sA \<noteq> []"
    using offersD(5) kdfRk_lengths(2) [OF laws(1)] by (metis list.size(3) snd_conv zero_neq_numeral)
  then have live: "live c1 (c_nick d)" using sess(1) c1'(1) by (simp add: live_def)
  obtain c2 w f where f: "boxEncrypt W c1 (c_nick d) pt = (c2, EncOk w)" "Msg f \<in> set (c_sent (sendMessage W t c1 pt))"
      "mf_from f = c_nick c" "mf_kind f = []" "mf_editOf f = []" "mf_wire f = w" "mf_ts f = t" "mf_x3dh f = Some hdr"
    using message_frame [OF laws(1) c1'(3) alice(5) c1'(6,4,5) live, of pt t] c1'(2) c1(2) by metis
  obtain d1 where d1: "openerOf W later d (c_nick c) f = (d1, True)" "c_crypto d1 = b'" "screen d1 = screen d" "c_peerKeys d1 = c_peerKeys d"
      "c_seenFrames d1 = c_seenFrames d" "c_draws d1 = c_draws d" "c_nick d1 = c_nick d"
    by (rule opener_received [OF accept kept(2) f(8) _ bob(5)]) (use f(3) alice(9) in simp)
  have "m_sessions (fst (ensureSharedKey (w_ext W) b' (c_nick c) key)) (c_nick c) = Some sB"
    using kept(1) sess(2) bob(7) by (auto simp: ensureSharedKey_def Let_def)
  then have step: "in_step W c1 (c_nick d) d1"
    by (intro start_in_step [OF laws(1-6), where sA = sA and sB = sB])
      (use sess c1'(1,2) d1 bob(6,8,9) len in \<open>simp_all add: valueOr_def\<close>)
  have "m_ready (c_history d1)" "m_privateKey (c_crypto d1) \<noteq> []" "c_outbox d1 = []"
    using d1(3) bob(2-4) by (simp_all add: screen_def)
  then have "arrived W d1 (openFrame W later d1 (mf_from f) f) (mf_from f) pt (mf_ts f) (mf_mid f)"
    by (rule openFrame_arrives [OF laws(2,5,6)])
      (use f alice(9,10) d1(7) in_stepD [OF step f(1) refl] c1'(2) in simp_all)
  moreover have "receiveMsg W later d f = openFrame W later d1 (mf_from f) f"
    using f(3,4) alice(9) d1(1,4,7) bob(6) by (simp add: receiveMsg_def handshakeKey_def)
  ultimately show ?thesis using f(2,3,7,8) arrived_screen [OF d1(3)] by auto
qed

definition demoOpener :: ChatClient where
  "demoOpener = (newClient (demoSeedBox (replicate 32 4)) demoStore)\<lparr>c_nick := ''carol'', c_activePeer := ''bob'', c_connected := True,
     c_peerKeys := [''bob'' \<mapsto> publicKeyHex demoPrekeyBox], c_peerEdKeys := [''bob'' \<mapsto> m_edPublicKey demoPrekeyBox]\<rparr>"

definition demoKnown :: ChatClient where
  "demoKnown = (newClient demoPrekeyBox demoStore)\<lparr>c_nick := ''bob'', c_draws := 3, c_peerKeys := [''carol'' \<mapsto> toHex (replicate 32 1)]\<rparr>"

definition demoServed :: served_bundle where
  "demoServed = \<lparr>sb_ik = m_edPublicKey demoPrekeyBox, sb_spk = m_spkPub demoPrekeyBox, sb_spkSig = m_spkSig demoPrekeyBox,
     sb_opk = Some (scalarmult_base demo (replicate 32 8)), sb_opkId = 1\<rparr>"

lemma demo_bundle:
  obtains hdr where "c_pendingX3dhHeader (receiveBundle (demoNet []) 3 demoOpener ''bob'' (Some demoServed)) ''bob'' = Some hdr"
proof -
  note I = prekeys_okD [OF demoPrekeyBox_ok]
  have len: "length (scalarmult_base demo k) = 32" for k using demo_laws(2) by (simp add: dh_law_def)
  have "length (w_rnd (demoNet []) (c_draws demoOpener) 32) = 32" using demoNet_laws(7) by (simp add: draw_law_def)
  from demo_begin [OF this] obtain b ikA ekA used where
    "beginX3dhSession demo (w_rnd (demoNet []) (c_draws demoOpener) 32) (w_rnd (demoNet []) (c_draws demoOpener + 1) 32) (c_crypto demoOpener) ''bob''
      (m_edPublicKey demoPrekeyBox) (m_spkPub demoPrekeyBox) (m_spkSig demoPrekeyBox) (scalarmult_base demo (replicate 32 8)) 1 = (b, Some (ikA, ekA, used))"
    by (simp add: demoOpener_def newClient_def) blast
  moreover have verified: "verifyBundle demo (m_edPublicKey demoPrekeyBox) (m_spkPub demoPrekeyBox) (m_spkSig demoPrekeyBox)"
    using sign_verifies [OF demo_identity_law demo_laws(4) I(3), of "m_spkPub demoPrekeyBox"] identity_ok_ed [OF I(1,2)] I(7,8) len
    by (auto simp: verifyBundle_def verifyIdentitySignature_def verify_def split: if_splits)
  moreover have "bundleBound (demoNet []) demoOpener ''bob'' (m_edPublicKey demoPrekeyBox)"
    using verified by (auto simp: verifyBundle_def verifyIdentitySignature_def bundleBound_def demoOpener_def newClient_def valueOr_def Let_def)
  moreover have "c_outbox demoOpener = []" by (simp add: demoOpener_def newClient_def)
  ultimately show thesis
    using that len by (simp add: receiveBundle_def demoServed_def demoNet_laws(1) Let_def)
qed

theorem bundle_bound_to_directory_witness:
  "c_pendingX3dhHeader (receiveBundle (demoNet []) 3 demoOpener ''bob'' (Some demoServed)) ''bob'' \<noteq> c_pendingX3dhHeader demoOpener ''bob'' \<and>
   verifyBundle demo (sb_ik demoServed) (sb_spk demoServed) (sb_spkSig demoServed) \<and>
   Some (sb_ik demoServed) = c_peerEdKeys demoOpener ''bob''"
proof -
  have start: "c_pendingX3dhHeader demoOpener ''bob'' = None" "c_peerEdKeys demoOpener ''bob'' = Some (m_edPublicKey demoPrekeyBox)"
    by (simp_all add: demoOpener_def newClient_def)
  obtain hdr where hdr: "c_pendingX3dhHeader (receiveBundle (demoNet []) 3 demoOpener ''bob'' (Some demoServed)) ''bob'' = Some hdr"
    by (rule demo_bundle)
  with bundle_bound_to_directory [of "demoNet []" 3 demoOpener "''bob''" demoServed] start show ?thesis
    by (simp add: demoNet_laws(1) demoServed_def)
qed

theorem first_message_delivered_witness:
  "\<exists>f. Msg f \<in> set (c_sent (sendMessage (demoNet []) 5 (receiveBundle (demoNet []) 3 demoOpener ''bob'' (Some demoServed)) ''hi'')) \<and>
     arrived (demoNet []) demoKnown (receiveMsg (demoNet []) 9 demoKnown f) ''carol'' ''hi'' 5 (mf_mid f)"
proof -
  obtain hdr where hdr: "c_pendingX3dhHeader (receiveBundle (demoNet []) 3 demoOpener ''bob'' (Some demoServed)) ''bob'' = Some hdr"
    by (rule demo_bundle)
  have otk: "offered_opk demo demoPrekeyBox 1 (replicate 32 8) (scalarmult_base demo (replicate 32 8))"
    by (simp add: offered_opk_def demoPrekeyBox_eq upt_rec)
  have bob: "c_crypto demoKnown = demoPrekeyBox" "c_nick demoKnown = ''bob''" "m_ready (c_history demoKnown)" "c_outbox demoKnown = []"
      "c_peerKeys demoKnown ''carol'' = Some (toHex (replicate 32 1))" "c_seenFrames demoKnown = {}" "c_draws demoKnown = 3"
    using demoStore_facts by (simp_all add: demoKnown_def newClient_def)
  have "m_peerIdentity demoPrekeyBox ''carol'' = None" "\<not> hasSessionFor demoPrekeyBox ''carol''" "m_privateKey demoPrekeyBox \<noteq> []"
    using demoSeedBox_key by (auto simp: demoPrekeyBox_eq demoSeedBox_def generateIdentity_def X3DH_generateIdentity_def
        deriveAgreementKeysFromSeed_def newCryptoBox_def Let_def hasSessionFor_def split: option.splits)
  moreover have "scalarmult_base demo (w_rnd (demoNet []) (3 + 1) 32) \<noteq> m_spkPub demoPrekeyBox"
    by (simp add: demoPrekeyBox_eq demoNet_def demoWorld_def) (simp add: demo_def)
  moreover have "c_nick demoOpener = ''carol''" "c_activePeer demoOpener = ''bob''" "c_connected demoOpener" "c_outbox demoOpener = []"
      "c_pendingX3dhHeader demoOpener ''bob'' = None" "\<not> conversationBlocked demoOpener ''bob''" "c_peerKeys demoOpener ''bob'' \<noteq> None"
      "length (m_identitySeed (c_crypto demoOpener)) = 32"
    by (simp_all add: demoOpener_def newClient_def conversationBlocked_def demo_seed_box)
  ultimately show ?thesis
    using first_message_delivered [where W = "demoNet []" and d = demoKnown and c = demoOpener and sb = demoServed and i = 1
        and key = "toHex (replicate 32 1)" and otkPriv = "replicate 32 8" and otk = "scalarmult_base demo (replicate 32 8)"
        and now = 3 and t = 5 and later = 9 and pt = "''hi''" and hdr = hdr, OF _ _ _ _ _ _ _ _ _ _ _ _ _ _ _ _ _ _ _ _ _ _ _ _ _ _ _ _ _ _ refl]
      hdr otk bob demo_laws demo_identity_law demo_text_law demoNet_laws(7) demoPrekeyBox_ok
    by (auto simp: demoNet_laws(1) demoServed_def)
qed

theorem published_prekeys_survive_restart_witness:
  "c_sent (publishPrekeysIfNeeded (demoNet []) 7 demoOpener True) =
     [PublishPrekeys (signedPrekeyPublicHex (c_crypto (restorePool (demoNet []) 9 (newClient newCryptoBox (c_history (publishPrekeysIfNeeded (demoNet []) 7 demoOpener True))))))
        (signedPrekeySignatureHex (c_crypto (restorePool (demoNet []) 9 (newClient newCryptoBox (c_history (publishPrekeysIfNeeded (demoNet []) 7 demoOpener True))))))
        (oneTimePrekeyPublicsHex demo (c_crypto (restorePool (demoNet []) 9 (newClient newCryptoBox (c_history (publishPrekeysIfNeeded (demoNet []) 7 demoOpener True)))))) 7]"
proof -
  have "m_prevSpkRetiredMs (demoSeedBox (replicate 32 4)) = 0"
    by (simp add: demoSeedBox_def generateIdentity_def X3DH_generateIdentity_def deriveAgreementKeysFromSeed_def newCryptoBox_def Let_def
        split: option.splits)
  moreover have "loadPrekeys demoStore = []"
    by (simp add: demoStore_def openStore_def newHistoryStore_def closeIfOpen_def db_def setDb_def loadPrekeys_def migrate_def Let_def)
      (simp add: emptyDb_def)
  ultimately show ?thesis
    using published_prekeys_survive_restart [where W = "demoNet []" and c = demoOpener and now = 7 and later = 9
        and d = "newClient newCryptoBox (c_history (publishPrekeysIfNeeded (demoNet []) 7 demoOpener True))",
        OF _ _ _ demoNet_laws(7) _ _ _ _ _ _ _ _ _ refl _ _ refl] demoStore_facts
    by (simp add: demoNet_laws(1) demo_laws demo_identity_law demoOpener_def demo_seed_box i64_range_def newClient_def newCryptoBox_def)
qed

theorem nobody_offline_types_witness:
  "c_peerTyping (receivePresence demoWorld (demoClient\<lparr>c_peerTyping := [''bob'' \<mapsto> ''typing'', ''carol'' \<mapsto> ''typing'']\<rparr>) [''alice'', ''bob'']) =
     [''bob'' \<mapsto> ''typing'']"
  using nobody_offline_types [OF demo_values_law, of "demoClient\<lparr>c_peerTyping := [''bob'' \<mapsto> ''typing'', ''carol'' \<mapsto> ''typing'']\<rparr>"
      "[''alice'', ''bob'']"]
  by simp

end
