(* ===== verification/Transport.thy ===== *)
theory Transport
  imports Client
begin

unbundle bit_operations_syntax

text \<open>
  How the client opens its connection (\<^verbatim>\<open>client/src/chatclient.cpp\<close>): which hosts count as a relay of the local
  network, which certificates a connection trusts, and what the client tells the user of it. The TLS
  handshake itself, the parsing of addresses and of certificates belong to Qt and are parameters.

  The lemmas show that a connection over TLS always verifies its peer, that the certificate compiled in is
  trusted for hosts of the private address ranges only, and that the bit masks of the source describe exactly
  those ranges.
\<close>

definition isLabHost :: "world \<Rightarrow> qstring \<Rightarrow> bool" where
  "isLabHost W url =
     (let host = w_trimmed W (w_urlHost W url)
      in if host = [] then False
         else if w_sameIgnoringCase W host ''localhost'' then True
         else case w_address W host of
                None \<Rightarrow> False
              | Some addr \<Rightarrow>
                  if w_isLoopback W addr then True
                  else case addr of
                         IPv4 v4 \<Rightarrow>
                           if v4 AND 0xFF000000 = 0x0A000000 then True
                           else if v4 AND 0xFFF00000 = 0xAC100000 then True
                           else if v4 AND 0xFFFF0000 = 0xC0A80000 then True
                           else if v4 AND 0xFFFF0000 = 0xA9FE0000 then True
                           else False
                       | IPv6 v6 \<Rightarrow>
                           if v6 ! 0 AND 0xFE = 0xFC then True else w_isLinkLocal W addr)"

definition addMissing :: "bytes list \<Rightarrow> bytes list \<Rightarrow> bytes list" where
  "addMissing certs cached = fold (\<lambda>c cs. if c \<in> set cs then cs else cs @ [c]) certs cached"

definition labTrustAnchors :: "world \<Rightarrow> ChatClient \<Rightarrow> ChatClient \<times> bytes list" where
  "labTrustAnchors W c =
     (case a_labAnchors (c_account c) of
        Some cached \<Rightarrow> (c, cached)
      | None \<Rightarrow>
          (let base = (case w_embeddedCa W of None \<Rightarrow> [] | Some raw \<Rightarrow> w_certificates W raw);
               extra = w_trimmed W (valueOr [] (a_settings (c_account c)) ''tls/labCaPath'');
               cached = (if extra \<noteq> []
                         then (case w_readFile W extra of None \<Rightarrow> base | Some raw \<Rightarrow> addMissing (w_certificates W raw) base)
                         else base)
           in (c\<lparr>c_account := (c_account c)\<lparr>a_labAnchors := Some cached\<rparr>\<rparr>, cached)))"

definition sslConfigurationFor :: "world \<Rightarrow> ChatClient \<Rightarrow> qstring \<Rightarrow> ChatClient \<times> ssl_config" where
  "sslConfigurationFor W c url =
     (let cfg = \<lparr>ssl_verifyPeer = True, ssl_protocol = TlsV1_2OrLater, ssl_caCertificates = w_caCertificates W\<rparr>
      in if isLabHost W url then
           (let (c1, anchors) = labTrustAnchors W c
            in (c1, if anchors \<noteq> [] then cfg\<lparr>ssl_caCertificates := addMissing anchors (w_caCertificates W)\<rparr> else cfg))
         else (c, cfg))"

definition openSocketWithTls :: "world \<Rightarrow> ChatClient \<Rightarrow> ChatClient" where
  "openSocketWithTls W c =
     (let url = a_serverUrl (c_account c);
          (c1, cfg) = (if w_isWss W url then (case sslConfigurationFor W c url of (c1, cfg) \<Rightarrow> (c1, Some cfg)) else (c, None))
      in c1\<lparr>c_account := (c_account c1)\<lparr>a_dialled := a_dialled (c_account c1) @ [(url, cfg)]\<rparr>\<rparr>)"

definition describeTlsSession :: "world \<Rightarrow> ChatClient \<Rightarrow> ChatClient" where
  "describeTlsSession W c =
     (let url = a_serverUrl (c_account c);
          summary = (if \<not> w_isWss W url then ''Not encrypted (ws://) - development only''
                     else w_tlsSession W (if isLabHost W url then ''lab root CA (compiled in)'' else ''public CA (system trust store)''))
      in c\<lparr>c_account := (c_account c)\<lparr>a_tlsSummary := summary\<rparr>\<rparr>)"

definition onSslErrors :: "world \<Rightarrow> ChatClient \<Rightarrow> qstring list \<Rightarrow> ChatClient" where
  "onSslErrors W c errors =
     (let (c1, missing) = (if isLabHost W (a_serverUrl (c_account c)) then (case labTrustAnchors W c of (c1, as) \<Rightarrow> (c1, as = []))
                           else (c, False));
          msgs = (if missing
                  then errors @ [''no lab trust anchor is compiled in - run tools/make_demo_pki.py, '' @
                                 ''copy pki/ca.crt to client/pki/demo-ca.crt, and rebuild'']
                  else errors)
      in c1\<lparr>c_account := (c_account c1)\<lparr>a_tlsSummary := ''TLS verification FAILED: '' @ joinWith ''; '' msgs\<rparr>\<rparr>)"

section \<open>The private ranges\<close>

lemma range_of_multiple:
  fixes u b k :: int
  assumes "0 < k" "b mod k = 0"
  shows "u - u mod k = b \<longleftrightarrow> b \<le> u \<and> u \<le> b + (k - 1)"
proof -
  obtain q where b: "b = k * q" using assms(2) by auto
  have u: "u = k * (u div k) + u mod k" "0 \<le> u mod k" "u mod k < k" using assms(1) by simp_all
  show ?thesis
  proof
    assume "u - u mod k = b" then show "b \<le> u \<and> u \<le> b + (k - 1)" using u by linarith
  next
    assume "b \<le> u \<and> u \<le> b + (k - 1)"
    then have "u div k = q" using assms(1) b by (intro int_div_pos_eq [of _ _ _ "u - b"]) auto
    then show "u - u mod k = b" using u b by simp
  qed
qed

lemma masked_range:
  fixes v b :: u32
  assumes "m = NOT (mask n)" "uint b mod 2 ^ n = 0"
  shows "v AND m = b \<longleftrightarrow> b \<le> v \<and> uint v \<le> uint b + (2 ^ n - 1)"
proof -
  have "NOT v AND take_bit n v = 0" "v AND NOT (take_bit n v) = v AND m"
    using assms(1) by (auto simp: bit_eq_iff bit_simps)
  then have "v AND m = v - take_bit n v" by (simp add: disjunctive_diff_eq_and_not)
  moreover have "uint (v - take_bit n v) = uint v - uint v mod 2 ^ n"
  proof -
    have "uint (take_bit n v) = uint v mod 2 ^ n" by (subst unsigned_take_bit_eq) (simp only: take_bit_eq_mod)
    then show ?thesis using uint_sub_lem [of "take_bit n v" v] by (simp add: zmod_le_nonneg_dividend)
  qed
  ultimately show ?thesis
    using range_of_multiple [of "2 ^ n" "uint b" "uint v"] assms(2) by (simp add: word_uint_eq_iff word_le_def)
qed

lemma lab_masks:
  fixes v :: u32
  shows "v AND 0xFF000000 = 0x0A000000 \<longleftrightarrow> 0x0A000000 \<le> v \<and> v \<le> 0x0AFFFFFF"
    "v AND 0xFFF00000 = 0xAC100000 \<longleftrightarrow> 0xAC100000 \<le> v \<and> v \<le> 0xAC1FFFFF"
    "v AND 0xFFFF0000 = 0xC0A80000 \<longleftrightarrow> 0xC0A80000 \<le> v \<and> v \<le> 0xC0A8FFFF"
    "v AND 0xFFFF0000 = 0xA9FE0000 \<longleftrightarrow> 0xA9FE0000 \<le> v \<and> v \<le> 0xA9FEFFFF"
proof -
  have m: "0xFF000000 = NOT (mask 24 :: u32)" "0xFFF00000 = NOT (mask 20 :: u32)" "0xFFFF0000 = NOT (mask 16 :: u32)"
    by (simp_all add: mask_eq_exp_minus_1)
  show "v AND 0xFF000000 = 0x0A000000 \<longleftrightarrow> 0x0A000000 \<le> v \<and> v \<le> 0x0AFFFFFF"
    by (subst masked_range [OF m(1)]) (simp_all add: word_le_def)
  show "v AND 0xFFF00000 = 0xAC100000 \<longleftrightarrow> 0xAC100000 \<le> v \<and> v \<le> 0xAC1FFFFF"
    by (subst masked_range [OF m(2)]) (simp_all add: word_le_def)
  show "v AND 0xFFFF0000 = 0xC0A80000 \<longleftrightarrow> 0xC0A80000 \<le> v \<and> v \<le> 0xC0A8FFFF"
    by (subst masked_range [OF m(3)]) (simp_all add: word_le_def)
  show "v AND 0xFFFF0000 = 0xA9FE0000 \<longleftrightarrow> 0xA9FE0000 \<le> v \<and> v \<le> 0xA9FEFFFF"
    by (subst masked_range [OF m(3)]) (simp_all add: word_le_def)
qed

text \<open>C30 (equivalence). The masks of the source select exactly the private and link-local ranges of IPv4:
  10.0.0.0 to 10.255.255.255, 172.16.0.0 to 172.31.255.255, 192.168.0.0 to 192.168.255.255 and 169.254.0.0 to
  169.254.255.255. Every other address that is not a loopback address is treated as public.\<close>

theorem lab_hosts_are_private:
  assumes "w_trimmed W (w_urlHost W url) = host" "host \<noteq> []" "\<not> w_sameIgnoringCase W host ''localhost''"
    and "w_address W host = Some (IPv4 v)" "\<not> w_isLoopback W (IPv4 v)"
  shows "isLabHost W url \<longleftrightarrow> 0x0A000000 \<le> v \<and> v \<le> 0x0AFFFFFF \<or> 0xAC100000 \<le> v \<and> v \<le> 0xAC1FFFFF \<or>
    0xC0A80000 \<le> v \<and> v \<le> 0xC0A8FFFF \<or> 0xA9FE0000 \<le> v \<and> v \<le> 0xA9FEFFFF"
  using assms by (simp add: isLabHost_def lab_masks Let_def)

theorem lab_hosts_are_private_witness:
  "isLabHost (demoWorld\<lparr>w_address := \<lambda>_. Some (IPv4 0xAC1F0001)\<rparr>) ''172.31.0.1'' \<and>
   \<not> isLabHost (demoWorld\<lparr>w_address := \<lambda>_. Some (IPv4 0xAC200001)\<rparr>) ''172.32.0.1''"
proof -
  have "w_trimmed (demoWorld\<lparr>w_address := a\<rparr>) (w_urlHost (demoWorld\<lparr>w_address := a\<rparr>) u) = u"
    "w_sameIgnoringCase (demoWorld\<lparr>w_address := a\<rparr>) = (=)" "\<not> w_isLoopback (demoWorld\<lparr>w_address := a\<rparr>) x" for a u x
    by (simp_all add: demoWorld_def)
  then show ?thesis
    using lab_hosts_are_private [of "demoWorld\<lparr>w_address := \<lambda>_. Some (IPv4 0xAC1F0001)\<rparr>" "''172.31.0.1''" "''172.31.0.1''" "0xAC1F0001"]
      lab_hosts_are_private [of "demoWorld\<lparr>w_address := \<lambda>_. Some (IPv4 0xAC200001)\<rparr>" "''172.32.0.1''" "''172.32.0.1''" "0xAC200001"]
    by (simp add: word_le_def)
qed

lemma addMissing_set: "set (addMissing certs cs) = set certs \<union> set cs"
  by (induction certs arbitrary: cs) (auto simp: addMissing_def)

text \<open>C20 (safety). A connection over TLS always verifies its peer, uses at least TLS 1.2 and trusts the
  certificates of the system; it trusts other certificates, the anchor compiled in among them, only when
  the relay is on this machine or in the local network.\<close>

theorem connection_trust:
  assumes "w_isWss W (a_serverUrl (c_account c))"
  shows "\<exists>s. a_dialled (c_account (openSocketWithTls W c)) = a_dialled (c_account c) @ [(a_serverUrl (c_account c), Some s)] \<and>
    ssl_verifyPeer s \<and> ssl_protocol s = TlsV1_2OrLater \<and> set (w_caCertificates W) \<subseteq> set (ssl_caCertificates s) \<and>
    (isLabHost W (a_serverUrl (c_account c)) \<or> ssl_caCertificates s = w_caCertificates W)"
  using assms by (auto simp: openSocketWithTls_def sslConfigurationFor_def labTrustAnchors_def Let_def addMissing_set split: option.split)

theorem connection_trust_witness:
  "\<exists>s. a_dialled (c_account (openSocketWithTls (demoWorld\<lparr>w_caCertificates := [[7]]\<rparr>) demoClient)) = [([], Some s)] \<and>
     ssl_verifyPeer s \<and> ssl_caCertificates s = [[7]]"
  using connection_trust [of "demoWorld\<lparr>w_caCertificates := [[7]]\<rparr>" demoClient]
  by (auto simp: demoWorld_def demoClient_def newClient_def newAccount_def isLabHost_def)

end
