(* ===== verification/Account.thy ===== *)
theory Account
  imports Directory Transport
begin

text \<open>
  Accounts (\<^verbatim>\<open>client/src/chatclient.cpp\<close>): finding, creating and migrating the identity file, \<^verbatim>\<open>login\<close> and
  \<^verbatim>\<open>registerAccount\<close>. The identity files are entries of the client's file table; the settings are maps of
  the account record. An operation that refuses with a message to the user returns the refusal as \<open>Inl\<close>.

  The lemmas show that an account that was registered can be logged into with its password, and brings the same
  identity and the same verifier back; that a legacy identity is migrated into a file the next login does
  not find; and that a login restores what peers attested before it knows its own key.
\<close>

section \<open>Helpers\<close>

definition onAccount :: "(Account \<Rightarrow> Account) \<Rightarrow> ChatClient \<Rightarrow> ChatClient" where
  "onAccount f c = c\<lparr>c_account := f (c_account c)\<rparr>"

definition setSetting :: "qstring \<Rightarrow> qstring \<Rightarrow> ChatClient \<Rightarrow> ChatClient" where
  "setSetting k v c = onAccount (\<lambda>a. a\<lparr>a_settings := (a_settings a)(k \<mapsto> v)\<rparr>) c"

definition saltKey :: "qstring \<Rightarrow> qstring" where
  "saltKey nick = ''auth/verifierSalt/'' @ nick"

definition recoveryKey :: "qstring \<Rightarrow> qstring \<Rightarrow> qstring" where
  "recoveryKey nick what = ''recovery/'' @ nick @ ''/'' @ what"

text \<open>\<^verbatim>\<open>CryptoBox::deriveVerifier\<close> with the salt it draws.\<close>

definition boxDeriveVerifier :: "world \<Rightarrow> ChatClient \<Rightarrow> qstring \<Rightarrow> ChatClient \<times> (qstring \<times> qstring) option" where
  "boxDeriveVerifier W c password =
     (c\<lparr>c_draws := c_draws c + 1\<rparr>, deriveVerifier (w_ext W) password (w_rnd W (c_draws c) 16))"

section \<open>The identity file\<close>

datatype account_error =
    AccountExistsLocally
  | IdentityNotPersisted
  | WrongPassword
  | IdentityUnreadable
  | NoAccountHere
  | RegisterFailed

definition identityDirs :: "world \<Rightarrow> qstring list" where
  "identityDirs W =
     fold (\<lambda>d dirs. if d \<noteq> [] \<and> d \<notin> set dirs then dirs @ [d] else dirs)
       [w_appData W, w_appLocalData W, w_appConfig W, w_genericData W] []"

definition hasLocalIdentity :: "world \<Rightarrow> ChatClient \<Rightarrow> qstring \<Rightarrow> bool" where
  "hasLocalIdentity W c nickname =
     (let nick = w_trimmed W nickname
      in if nick = [] then False
         else list_ex (\<lambda>d. c_files c (d @ ''/'' @ nick @ ''.ekey'') \<noteq> None \<or> c_files c (d @ ''/'' @ nick @ ''.key'') \<noteq> None)
                (identityDirs W))"

text \<open>\<^verbatim>\<open>saveIdentityEncrypted\<close> with the salt and the nonce it draws, and the file it writes.\<close>

definition boxSaveEncrypted :: "world \<Rightarrow> ChatClient \<Rightarrow> qstring \<Rightarrow> qstring \<Rightarrow> ChatClient \<times> bool" where
  "boxSaveEncrypted W c path password =
     (let c1 = c\<lparr>c_draws := c_draws c + 2\<rparr>
      in case saveIdentityEncrypted (w_ext W) (c_crypto c) password (w_rnd W (c_draws c) 16) (w_rnd W (c_draws c + 1) 24) of
           None \<Rightarrow> (c1, False)
         | Some blob \<Rightarrow> if w_canWrite W path then (c1\<lparr>c_files := (c_files c1)(path \<mapsto> blob)\<rparr>, True) else (c1, False))"

text \<open>Whether a fresh box opens the file with the password and finds the identity in force.\<close>

definition probeIdentity :: "world \<Rightarrow> ChatClient \<Rightarrow> qstring \<Rightarrow> qstring \<Rightarrow> bool" where
  "probeIdentity W c path password =
     (case loadIdentityEncrypted (w_ext W) newCryptoBox (c_files c path) password of
        (probe, opened) \<Rightarrow> opened \<and> publicKeyHex probe = publicKeyHex (c_crypto c))"

fun saveVerified :: "world \<Rightarrow> qstring \<Rightarrow> qstring \<Rightarrow> qstring list \<Rightarrow> ChatClient \<Rightarrow> ChatClient \<times> bool" where
  "saveVerified W ekeyName password [] c = (c, False)"
| "saveVerified W ekeyName password (d # dirs) c =
     (case boxSaveEncrypted W c (d @ ''/'' @ ekeyName) password of
        (c1, False) \<Rightarrow> saveVerified W ekeyName password dirs c1
      | (c1, True) \<Rightarrow>
          if probeIdentity W c1 (d @ ''/'' @ ekeyName) password then (c1, True)
          else saveVerified W ekeyName password dirs c1)"

definition existingEnc :: "world \<Rightarrow> ChatClient \<Rightarrow> qstring \<Rightarrow> qstring option" where
  "existingEnc W c nick =
     find (\<lambda>p. c_files c p \<noteq> None \<and> isEncryptedIdentityFile (c_files c p)) (map (\<lambda>d. d @ ''/'' @ nick @ ''.ekey'') (identityDirs W))"

definition existingRaw :: "world \<Rightarrow> ChatClient \<Rightarrow> qstring \<Rightarrow> qstring option" where
  "existingRaw W c nick = find (\<lambda>p. c_files c p \<noteq> None) (map (\<lambda>d. d @ ''/'' @ nick @ ''.key'') (identityDirs W))"

definition createIdentity :: "world \<Rightarrow> ChatClient \<Rightarrow> qstring \<Rightarrow> qstring \<Rightarrow> ChatClient \<times> (account_error + unit)" where
  "createIdentity W c nick password =
     (let c1 = c\<lparr>c_crypto := generateIdentity (w_ext W) (w_rnd W (c_draws c) 32) (c_crypto c), c_draws := c_draws c + 1\<rparr>
      in case saveVerified W (nick @ ''.ekey'') password (identityDirs W) c1 of
           (c2, False) \<Rightarrow> (c2, Inl IdentityNotPersisted)
         | (c2, True) \<Rightarrow> (c2, Inr ()))"

definition migrateIdentity :: "world \<Rightarrow> ChatClient \<Rightarrow> qstring \<Rightarrow> qstring \<Rightarrow> qstring \<Rightarrow> ChatClient \<times> (account_error + unit)" where
  "migrateIdentity W c nick password rawPath =
     (case loadIdentity (w_ext W) (c_crypto c) (c_files c rawPath) of
        (b, False) \<Rightarrow> (c\<lparr>c_crypto := b\<rparr>, Inl IdentityUnreadable)
      | (b, True) \<Rightarrow>
          (let encPath = w_dirOf W rawPath @ ''/'' @ nick @ ''.ekey'';
               (c1, saved) = boxSaveEncrypted W (c\<lparr>c_crypto := b\<rparr>) encPath password
           in if saved \<and> probeIdentity W c1 encPath password then (c1\<lparr>c_files := (c_files c1)(rawPath := None)\<rparr>, Inr ())
              else (c1, Inr ())))"

definition establishIdentity ::
  "world \<Rightarrow> ChatClient \<Rightarrow> qstring \<Rightarrow> qstring \<Rightarrow> bool \<Rightarrow> ChatClient \<times> (account_error + unit)" where
  "establishIdentity W c nick password isRegister =
     (if isRegister then
        (if existingEnc W c nick \<noteq> None \<or> existingRaw W c nick \<noteq> None then (c, Inl AccountExistsLocally)
         else createIdentity W c nick password)
      else case existingEnc W c nick of
             Some path \<Rightarrow>
               (case loadIdentityEncrypted (w_ext W) (c_crypto c) (c_files c path) password of
                  (b, True) \<Rightarrow> (c\<lparr>c_crypto := b\<rparr>, Inr ())
                | (b, False) \<Rightarrow> (c\<lparr>c_crypto := b\<rparr>, Inl WrongPassword))
           | None \<Rightarrow>
               (case existingRaw W c nick of
                  Some path \<Rightarrow> migrateIdentity W c nick password path
                | None \<Rightarrow> (c, Inl NoAccountHere)))"

section \<open>Logging in and registering\<close>

definition historyDir :: "world \<Rightarrow> ChatClient \<Rightarrow> qstring" where
  "historyDir W c =
     (if a_historyBaseDir (c_account c) \<noteq> [] then a_historyBaseDir (c_account c)
      else case find (\<lambda>d. d \<noteq> []) [w_appData W, w_appLocalData W, w_appConfig W, w_genericData W] of None \<Rightarrow> [] | Some d \<Rightarrow> d)"

text \<open>What the database knows of verified peers, as the client holds it.\<close>

definition restoreVerification :: "ChatClient \<Rightarrow> ChatClient" where
  "restoreVerification c =
     (let attest = loadPeerAttestations (c_history c); mine = publicKeyHex (c_crypto c)
      in c\<lparr>c_verifiedPeerIdentity := loadVerifiedPeerIdentities (c_history c),
           c_peerVerifiedForIdentity := c_peerVerifiedForIdentity c ++ attest,
           c_peerVerified := c_peerVerified c \<union> {p. mine \<noteq> [] \<and> attest p = Some mine}\<rparr>)"

definition openUserHistory :: "world \<Rightarrow> ChatClient \<Rightarrow> ChatClient \<times> bool" where
  "openUserHistory W c =
     (case openStore (w_isLetterOrNumber W) (w_canWrite W) (c_history c) (historyDir W c) (c_nick c) of
        (h, opened) \<Rightarrow>
          (let c1 = c\<lparr>c_history := h\<rparr> in (if opened \<and> m_ready h then restoreVerification c1 else c1, opened)))"

definition rememberLogin :: "qstring \<Rightarrow> ChatClient \<Rightarrow> ChatClient" where
  "rememberLogin serverUrl c = setSetting ''login/lastServerUrl'' serverUrl (setSetting ''login/lastNickname'' (c_nick c) c)"

definition loginStart :: "world \<Rightarrow> ChatClient \<Rightarrow> qstring \<Rightarrow> bool \<Rightarrow> ChatClient" where
  "loginStart W c serverUrl registering =
     rememberLogin serverUrl (onAccount (\<lambda>a. a\<lparr>a_serverUrl := serverUrl, a_registering := registering\<rparr>)
       (c\<lparr>c_users := fst (setSelfName (w_order W) (c_users c) (c_nick c))\<rparr>))"

text \<open>What both entry points do once an identity is in force.\<close>

definition resumeAndConnect :: "world \<Rightarrow> ChatClient \<Rightarrow> ChatClient" where
  "resumeAndConnect W c =
     openSocketWithTls W (onAccount (\<lambda>a. a\<lparr>a_intentionalClose := False\<rparr>) (restoreOutbox W (restoreAllSessions W c)))"

definition loginHistory :: "world \<Rightarrow> int \<Rightarrow> ChatClient \<Rightarrow> ChatClient" where
  "loginHistory W now c =
     (if historyDir W c \<noteq> [] then
        (case openUserHistory W c of
           (c', True) \<Rightarrow> c'
         | (c', False) \<Rightarrow> c'\<lparr>c_messages := fst (addSystem (w_fmt W) now (c_messages c') (w_t W ''sys.historyOpenFailed''))\<rparr>)
      else c\<lparr>c_messages := fst (addSystem (w_fmt W) now (c_messages c) (w_t W ''sys.noStorage''))\<rparr>)"

definition login :: "world \<Rightarrow> int \<Rightarrow> ChatClient \<Rightarrow> qstring \<Rightarrow> qstring \<Rightarrow> qstring \<Rightarrow> ChatClient \<times> (account_error + unit)" where
  "login W now c serverUrl nickname password =
     (let c2 = loginHistory W now (loginStart W (c\<lparr>c_nick := w_trimmed W nickname\<rparr>) serverUrl False)
      in case establishIdentity W c2 (c_nick c2) password False of
           (c3, Inl e) \<Rightarrow> (c3, Inl e)
         | (c3, Inr _) \<Rightarrow>
             (resumeAndConnect W (onAccount (\<lambda>a. a\<lparr>a_password := password, a_verifierHex := [], a_saltHex := []\<rparr>) c3), Inr ()))"

definition birthdayFormats :: "qstring list" where
  "birthdayFormats = [''yyyy-MM-dd'', ''d.M.yyyy'', ''dd.MM.yyyy'', ''d/M/yyyy'', ''dd/MM/yyyy'', ''yyyy/MM/dd'', ''d-M-yyyy'']"

definition dateLess :: "int \<times> int \<times> int \<Rightarrow> int \<times> int \<times> int \<Rightarrow> bool" where
  "dateLess a b = (case (a, b) of ((y1, m1, d1), (y2, m2, d2)) \<Rightarrow> y1 < y2 \<or> y1 = y2 \<and> (m1 < m2 \<or> m1 = m2 \<and> d1 < d2))"

definition normalizeBirthday :: "world \<Rightarrow> int \<times> int \<times> int \<Rightarrow> qstring \<Rightarrow> qstring" where
  "normalizeBirthday W today birthday =
     (let text = w_trimmed W birthday
      in if text = [] then []
         else case find (\<lambda>f. w_date W f text \<noteq> None) birthdayFormats of
                None \<Rightarrow> []
              | Some f \<Rightarrow>
                  (case w_date W f text of None \<Rightarrow> []
                   | Some d \<Rightarrow> if dateLess today d \<or> fst d < 1900 then [] else w_isoDate W d))"

definition recordBirthday :: "world \<Rightarrow> int \<times> int \<times> int \<Rightarrow> ChatClient \<Rightarrow> qstring \<Rightarrow> ChatClient" where
  "recordBirthday W today c birthday =
     (let c0 = onAccount (\<lambda>a. a\<lparr>a_dobVerifierHex := []\<rparr>) c; isoDob = normalizeBirthday W today birthday
      in if isoDob = [] then c0
         else case boxDeriveVerifier W c0 isoDob of
                (c1, None) \<Rightarrow> c1
              | (c1, Some (v, s)) \<Rightarrow>
                  setSetting (recoveryKey (c_nick c1) ''dobSalt'') s (setSetting (recoveryKey (c_nick c1) ''dobVerifier'') v
                    (onAccount (\<lambda>a. a\<lparr>a_dobVerifierHex := v\<rparr>) c1)))"

definition registerAccount ::
  "world \<Rightarrow> int \<times> int \<times> int \<Rightarrow> ChatClient \<Rightarrow> qstring \<Rightarrow> qstring \<Rightarrow> qstring \<Rightarrow> qstring \<Rightarrow> ChatClient \<times> (account_error + unit)" where
  "registerAccount W today c serverUrl nickname password birthday =
     (let c1 = loginStart W (recordBirthday W today (c\<lparr>c_nick := w_trimmed W nickname\<rparr>) birthday) serverUrl True;
          c2 = (if historyDir W c1 \<noteq> [] then fst (openUserHistory W c1) else c1)
      in case establishIdentity W c2 (c_nick c2) password True of
           (c3, Inl e) \<Rightarrow> (c3, Inl e)
         | (c3, Inr _) \<Rightarrow>
             (case boxDeriveVerifier W (onAccount (\<lambda>a. a\<lparr>a_password := password\<rparr>) c3) password of
                (c4, None) \<Rightarrow> (c4, Inl RegisterFailed)
              | (c4, Some (v, s)) \<Rightarrow>
                  (resumeAndConnect W (setSetting (saltKey (c_nick c4)) s
                     (onAccount (\<lambda>a. a\<lparr>a_verifierHex := v, a_saltHex := s\<rparr>) c4)), Inr ())))"

section \<open>A registered account can be opened again\<close>

lemma onAccount_simps [simp]:
  "c_nick (onAccount f c) = c_nick c" "c_files (onAccount f c) = c_files c" "c_crypto (onAccount f c) = c_crypto c"
  "c_history (onAccount f c) = c_history c" "c_draws (onAccount f c) = c_draws c" "c_account (onAccount f c) = f (c_account c)"
  "c_peerVerified (onAccount f c) = c_peerVerified c" "c_connected (onAccount f c) = c_connected c" "c_sent (onAccount f c) = c_sent c"
  by (simp_all add: onAccount_def)

lemma setSetting_simps [simp]:
  "c_nick (setSetting k v c) = c_nick c" "c_files (setSetting k v c) = c_files c" "c_crypto (setSetting k v c) = c_crypto c"
  "c_history (setSetting k v c) = c_history c" "c_draws (setSetting k v c) = c_draws c" "c_peerVerified (setSetting k v c) = c_peerVerified c"
  "c_connected (setSetting k v c) = c_connected c" "c_sent (setSetting k v c) = c_sent c"
  "a_saltHex (c_account (setSetting k v c)) = a_saltHex (c_account c)" "a_verifierHex (c_account (setSetting k v c)) = a_verifierHex (c_account c)"
  "a_password (c_account (setSetting k v c)) = a_password (c_account c)"
  by (simp_all add: setSetting_def)

text \<open>What the steps before and after the identity leave alone: identity and prekeys of the box, the files.\<close>

definition account_kept :: "ChatClient \<Rightarrow> ChatClient \<Rightarrow> bool" where
  "account_kept c c' \<longleftrightarrow> same_identity (c_crypto c') (c_crypto c) \<and> c_files c' = c_files c \<and> c_nick c' = c_nick c \<and>
     m_spkPriv (c_crypto c') = m_spkPriv (c_crypto c) \<and> m_opkPriv (c_crypto c') = m_opkPriv (c_crypto c) \<and>
     m_spkCreatedMs (c_crypto c') = m_spkCreatedMs (c_crypto c) \<and> m_prevSpkPriv (c_crypto c') = m_prevSpkPriv (c_crypto c) \<and>
     c_connected c' = c_connected c \<and> c_sent c' = c_sent c"

interpretation ak: change_relation account_kept
  by unfold_locales (auto simp: account_kept_def same_identity_def)

lemma ak_changes:
  "account_kept c (c\<lparr>c_history := x1\<rparr>)" "account_kept c (c\<lparr>c_users := x2\<rparr>)" "account_kept c (c\<lparr>c_sentSinceRatchet := x3\<rparr>)"
  "account_kept c (c\<lparr>c_outbox := x4\<rparr>)" "account_kept c (onAccount f c)" "account_kept c (c\<lparr>c_messages := x5\<rparr>)"
  "account_kept c (c\<lparr>c_verifiedPeerIdentity := x6, c_peerVerifiedForIdentity := x7, c_peerVerified := x8\<rparr>)"
  "account_kept c (c\<lparr>c_draws := x9\<rparr>)" "account_kept c (setSetting k v c)"
  by (simp_all add: account_kept_def same_identity_def)

lemmas ak_back = ak_changes [THEN ak.trans [rotated]]

lemma ak_restoreSession: "account_kept c (restoreSession W c peer)"
proof -
  have "account_kept c (c\<lparr>c_crypto := fst (importPeer (w_ext W) (c_crypto c) h peer)\<rparr>)" for h
    by (auto simp: account_kept_def same_identity_def importPeer_def importSession_def setPeerIdentity_def Let_def split: option.split)
  moreover have "restoreSession W c peer = (c\<lparr>c_crypto := fst (importPeer (w_ext W) (c_crypto c) (c_history c) peer)\<rparr>)
      \<lparr>c_history := c_history (restoreSession W c peer), c_sentSinceRatchet := c_sentSinceRatchet (restoreSession W c peer),
       c_users := c_users (restoreSession W c peer)\<rparr>"
    by (simp add: restoreSession_def Let_def case_prod_beta)
  ultimately show ?thesis by (metis ak_back(1-3))
qed

lemma ak_restore: "account_kept c (restoreAllSessions W c)" "account_kept c (restoreOutbox W c)"
proof -
  show "account_kept c (restoreAllSessions W c)"
    by (simp add: restoreAllSessions_def ak.refl) (intro ak.fold_change ak_restoreSession impI)
  have "account_kept c (restoreRow W r c)" for r c
    by (auto simp: restoreRow_def requeue_def Let_def intro!: ak_changes ak.refl split: option.split list.split prod.split)
  then show "account_kept c (restoreOutbox W c)"
    by (simp add: restoreOutbox_def ak.refl) (intro ak.fold_change impI)
qed

lemma ak_socket: "account_kept c (openSocketWithTls W c)"
  by (auto simp: openSocketWithTls_def sslConfigurationFor_def labTrustAnchors_def account_kept_def same_identity_def Let_def
      split: option.split)

lemma ak_resume: "account_kept c (resumeAndConnect W c)"
  unfolding resumeAndConnect_def
  by (rule ak.trans [OF _ ak_socket], rule ak_back(5), rule ak.trans [OF ak_restore(1) ak_restore(2)])

lemma ak_start: "account_kept c (loginStart W c url reg)"
  unfolding loginStart_def rememberLogin_def by (intro ak_back ak.refl)

lemma ak_history: "account_kept c (fst (openUserHistory W c))"
  by (auto simp: openUserHistory_def restoreVerification_def Let_def intro!: ak_back ak.refl split: prod.split)

lemma ak_login: "account_kept c (loginHistory W now c)"
  using ak_history [of c W] by (auto simp: loginHistory_def intro!: ak_changes elim: ak_back(6) split: prod.split bool.split)

lemma ak_birthday: "account_kept c (recordBirthday W today c birthday)"
  by (auto simp: recordBirthday_def boxDeriveVerifier_def Let_def intro!: ak_back ak.refl split: option.split)

definition credentials_kept :: "ChatClient \<Rightarrow> ChatClient \<Rightarrow> bool" where
  "credentials_kept c c' \<longleftrightarrow> a_saltHex (c_account c') = a_saltHex (c_account c) \<and> a_verifierHex (c_account c') = a_verifierHex (c_account c) \<and>
     a_password (c_account c') = a_password (c_account c)"

interpretation ck: change_relation credentials_kept by unfold_locales (auto simp: credentials_kept_def)

lemma ck_resume: "credentials_kept c (resumeAndConnect W c)"
proof -
  have "credentials_kept c (restoreSession W c peer)" for c peer by (simp add: restoreSession_def credentials_kept_def Let_def case_prod_beta)
  then have all: "credentials_kept c (restoreAllSessions W c)"
    by (simp add: restoreAllSessions_def ck.refl) (intro ck.fold_change impI)
  have "credentials_kept c (restoreRow W r c)" for r c
    by (auto simp: restoreRow_def requeue_def credentials_kept_def Let_def split: option.split list.split prod.split)
  then have "credentials_kept c (restoreOutbox W c)" for c
    by (simp add: restoreOutbox_def ck.refl) (intro ck.fold_change impI)
  with all have "credentials_kept c (restoreOutbox W (restoreAllSessions W c))" using ck.trans by blast
  then show ?thesis
    by (auto simp: resumeAndConnect_def openSocketWithTls_def sslConfigurationFor_def labTrustAnchors_def credentials_kept_def Let_def
        split: option.split)
qed

text \<open>The identity file a client finds depends on the files alone.\<close>

lemma existing_cong: "c_files c = c_files d \<Longrightarrow> existingEnc W c nick = existingEnc W d nick \<and> existingRaw W c nick = existingRaw W d nick"
  by (simp add: existingEnc_def existingRaw_def)

text \<open>Writing the identity to the first directory, and finding it there.\<close>

lemma identity_written:
  assumes laws: "secretbox_law (w_ext W)" "pwhash_law (w_ext W)" "draw_law W"
    and id: "identity_ok (w_ext W) (c_crypto c)" "m_identityVersion (c_crypto c) = 2" "length (m_privateKey (c_crypto c)) = 32"
    and dirs: "identityDirs W = d # ds" "w_canWrite W (d @ ''/'' @ nick @ ''.ekey'')"
  obtains c1 where "saveVerified W (nick @ ''.ekey'') pw (identityDirs W) c = (c1, True)" "c_crypto c1 = c_crypto c" "c_nick c1 = c_nick c"
    "\<forall>e. c_files e = c_files c1 \<longrightarrow> (\<exists>e'. establishIdentity W e nick pw False = (e', Inr ()) \<and> same_identity (c_crypto e') (c_crypto c))"
proof -
  let ?p = "d @ ''/'' @ nick @ ''.ekey''"
  let ?salt = "w_rnd W (c_draws c) 16" and ?nonce = "w_rnd W (c_draws c + 1) 24"
  have len: "length ?salt = 16" "length ?nonce = 24" using laws(3) by (simp_all add: draw_law_def)
  note rt = wrapped_identity_roundtrip [OF laws(1,2) id(1) len id(3), where pw = pw]
  from rt obtain blob where blob: "saveIdentityEncrypted (w_ext W) (c_crypto c) pw ?salt ?nonce = Some blob" by blast
  have load: "\<exists>b'. loadIdentityEncrypted (w_ext W) b (Some blob) pw = (b', True) \<and> same_identity b' (c_crypto c)" for b
    using rt [where c = b] blob by auto
  let ?c1 = "c\<lparr>c_draws := c_draws c + 2, c_files := (c_files c)(?p \<mapsto> blob)\<rparr>"
  have "probeIdentity W ?c1 ?p pw"
    using load [of newCryptoBox] by (auto simp: probeIdentity_def same_identity_def publicKeyHex_def)
  moreover have "boxSaveEncrypted W c ?p pw = (?c1, True)" using blob dirs(2) by (simp add: boxSaveEncrypted_def Let_def)
  ultimately have saved: "saveVerified W (nick @ ''.ekey'') pw (identityDirs W) c = (?c1, True)" by (simp add: dirs(1))
  have "isEncryptedIdentityFile (Some blob)"
    using blob id(2) identity_ok_v2(1) [OF id(1,2)]
    by (auto simp: saveIdentityEncrypted_def isEncryptedIdentityFile_def nth_append Let_def split: option.splits if_splits)
  then have found: "existingEnc W e nick = Some ?p" if "c_files e = c_files ?c1" for e
    using that by (simp add: existingEnc_def dirs(1))
  have "\<exists>e'. establishIdentity W e nick pw False = (e', Inr ()) \<and> same_identity (c_crypto e') (c_crypto c)"
    if "c_files e = c_files ?c1" for e :: ChatClient
    using found [OF that] load [of "c_crypto e"] that by (auto simp: establishIdentity_def)
  then show thesis by (intro that [OF saved]) simp_all
qed

lemma generated_key:
  assumes "identity_law E" "dh_law E" "length rnd = 32"
  shows "length (m_privateKey (generateIdentity E rnd b)) = 32"
proof -
  obtain x where x: "length x = 32" "identityToX25519Private E rnd = x" "length (identityPublic E rnd) = 32"
      "identityToX25519Public E (identityPublic E rnd) = Some (scalarmult_base E x)"
    using identity_facts [OF assms] by metis
  then have "identityToX25519Private E rnd \<noteq> []" "identityPublic E rnd \<noteq> []" by auto
  with x show ?thesis
    by (auto simp: generateIdentity_def X3DH_generateIdentity_def identityPublic_def deriveAgreementKeysFromSeed_def Let_def split: option.splits)
qed

text \<open>A login on a client that sees an identity file opens it.\<close>

lemma login_found:
  assumes found: "\<forall>e. c_files e = fs \<longrightarrow> (\<exists>e'. establishIdentity W e (w_trimmed W nickname) pw False = (e', Inr ()) \<and> same_identity (c_crypto e') b)"
    and d: "c_files d = fs"
  obtains d1 where "login W now d url nickname pw = (d1, Inr ())" "same_identity (c_crypto d1) b"
proof -
  define d2 where "d2 = loginHistory W now (loginStart W (d\<lparr>c_nick := w_trimmed W nickname\<rparr>) url False)"
  have "account_kept (d\<lparr>c_nick := w_trimmed W nickname\<rparr>) d2"
    unfolding d2_def by (rule ak.trans [OF ak_start ak_login])
  then have d2: "c_files d2 = fs" "c_nick d2 = w_trimmed W nickname" using d by (simp_all add: account_kept_def)
  then obtain e where e: "establishIdentity W d2 (c_nick d2) pw False = (e, Inr ())" "same_identity (c_crypto e) b" using found by auto
  let ?d3 = "onAccount (\<lambda>a. a\<lparr>a_password := pw, a_verifierHex := [], a_saltHex := []\<rparr>) e"
  have "login W now d url nickname pw = (resumeAndConnect W ?d3, Inr ())"
    using e(1) by (simp add: login_def Let_def d2_def)
  moreover have "same_identity (c_crypto (resumeAndConnect W ?d3)) b"
    using ak_resume [of ?d3 W] e(2) by (simp add: account_kept_def same_identity_def)
  ultimately show thesis by (rule that)
qed

text \<open>Registering succeeds, and so does every login that sees the file it wrote.\<close>

lemma account_roundtrip:
  assumes laws: "identity_law (w_ext W)" "dh_law (w_ext W)" "secretbox_law (w_ext W)" "pwhash_law (w_ext W)" "hex_law (w_ext W)" "draw_law W"
    and dirs: "identityDirs W = dir # dirs" "w_canWrite W (dir @ ''/'' @ w_trimmed W nickname @ ''.ekey'')"
    and new: "existingEnc W c (w_trimmed W nickname) = None" "existingRaw W c (w_trimmed W nickname) = None"
  shows "\<exists>c1. registerAccount W today c url nickname pw birthday = (c1, Inr ()) \<and>
    deriveVerifierWithSalt (w_ext W) pw (a_saltHex (c_account c1)) = a_verifierHex (c_account c1) \<and>
    (\<forall>d. c_files d = c_files c1 \<longrightarrow>
      (\<exists>d1. login W now d url' nickname pw = (d1, Inr ()) \<and> same_identity (c_crypto d1) (c_crypto c1)))"
proof -
  let ?nick = "w_trimmed W nickname"
  define s where "s = loginStart W (recordBirthday W today (c\<lparr>c_nick := ?nick\<rparr>) birthday) url True"
  define s2 where "s2 = (if historyDir W s \<noteq> [] then fst (openUserHistory W s) else s)"
  have "account_kept (c\<lparr>c_nick := ?nick\<rparr>) s" unfolding s_def by (rule ak.trans [OF ak_birthday ak_start])
  then have s2: "account_kept (c\<lparr>c_nick := ?nick\<rparr>) s2" using ak_history [of s W] ak.trans by (auto simp: s2_def)
  then have files: "c_files s2 = c_files c" and nick: "c_nick s2 = ?nick" by (simp_all add: account_kept_def)
  define g where "g = s2\<lparr>c_crypto := generateIdentity (w_ext W) (w_rnd W (c_draws s2) 32) (c_crypto s2), c_draws := c_draws s2 + 1\<rparr>"
  have len: "length (w_rnd W i n) = n" for i n using laws(6) by (simp add: draw_law_def)
  have id: "identity_ok (w_ext W) (c_crypto g)" "m_identityVersion (c_crypto g) = 2" "length (m_privateKey (c_crypto g)) = 32"
    using generateIdentity_ok [OF laws(1,2) len] generated_key [OF laws(1,2) len] by (simp_all add: g_def)
  obtain c1 where c1: "saveVerified W (?nick @ ''.ekey'') pw (identityDirs W) g = (c1, True)" "c_crypto c1 = c_crypto g" "c_nick c1 = c_nick g"
      "\<forall>e. c_files e = c_files c1 \<longrightarrow> (\<exists>e'. establishIdentity W e ?nick pw False = (e', Inr ()) \<and> same_identity (c_crypto e') (c_crypto g))"
    by (rule identity_written [OF laws(3,4,6) id dirs, where pw = pw])
  have est: "establishIdentity W s2 (c_nick s2) pw True = (c1, Inr ())"
    using new existing_cong [OF files, of W ?nick] c1(1) [unfolded g_def] by (simp add: establishIdentity_def createIdentity_def nick)
  let ?salt = "w_rnd W (c_draws c1) 16"
  obtain v where v: "deriveVerifier (w_ext W) pw ?salt = Some (v, toHex ?salt)"
    using laws(4) len by (auto simp: deriveVerifier_def argon2id32_def pwhash_law_def) (metis option.simps(5))
  define r where "r = setSetting (saltKey (c_nick c1)) (toHex ?salt) (onAccount (\<lambda>a. a\<lparr>a_verifierHex := v, a_saltHex := toHex ?salt\<rparr>)
      ((onAccount (\<lambda>a. a\<lparr>a_password := pw\<rparr>) c1)\<lparr>c_draws := c_draws c1 + 1\<rparr>))"
  have reg: "registerAccount W today c url nickname pw birthday = (resumeAndConnect W r, Inr ())"
    using est v by (simp add: registerAccount_def s_def [symmetric] s2_def [symmetric] Let_def boxDeriveVerifier_def r_def)
  have kept: "c_files (resumeAndConnect W r) = c_files c1" "same_identity (c_crypto (resumeAndConnect W r)) (c_crypto g)"
    using ak_resume [of r W] c1(2) by (auto simp: account_kept_def r_def)
  have cred: "a_saltHex (c_account (resumeAndConnect W r)) = toHex ?salt" "a_verifierHex (c_account (resumeAndConnect W r)) = v"
    using ck_resume [of r W] by (simp_all add: credentials_kept_def r_def)
  have "\<exists>d1. login W now d url' nickname pw = (d1, Inr ()) \<and> same_identity (c_crypto d1) (c_crypto (resumeAndConnect W r))"
    if "c_files d = c_files (resumeAndConnect W r)" for d
    using login_found [OF c1(4) [folded kept(1)] that] kept(2) unfolding same_identity_def by metis
  moreover have "deriveVerifierWithSalt (w_ext W) pw (toHex ?salt) = v" by (rule verifier_roundtrip [OF laws(5) len v])
  ultimately show ?thesis using reg cred by auto
qed

text \<open>C13 (roundtrip). An account that is registered can be opened again. Registering a name that is not in use
  here succeeds, as far as the file can be written; from then on every login with that name and password on
  a client that sees the same files succeeds and brings the same identity back. The verifier derived
  under the salt that was sent to the relay is the one that was sent.\<close>

theorem registered_account_reopens:
  assumes laws: "identity_law (w_ext W)" "dh_law (w_ext W)" "secretbox_law (w_ext W)" "pwhash_law (w_ext W)" "hex_law (w_ext W)" "draw_law W"
    and dirs: "identityDirs W = dir # dirs" "w_canWrite W (dir @ ''/'' @ w_trimmed W nickname @ ''.ekey'')"
    and new: "existingEnc W c (w_trimmed W nickname) = None" "existingRaw W c (w_trimmed W nickname) = None"
  shows "\<exists>c1. registerAccount W today c url nickname pw birthday = (c1, Inr ()) \<and>
    deriveVerifierWithSalt (w_ext W) pw (a_saltHex (c_account c1)) = a_verifierHex (c_account c1) \<and>
    (\<forall>d. c_files d = c_files c1 \<longrightarrow>
      (\<exists>d1. login W now d url' nickname pw = (d1, Inr ()) \<and> same_identity (c_crypto d1) (c_crypto c1)))"
  using account_roundtrip [OF laws dirs new] .

theorem registered_account_reopens_witness:
  "\<exists>c1 d1. registerAccount (demoNet []) (2025, 1, 1) (newClient newCryptoBox demoStore) ''wss://r'' ''alice'' ''pw'' ''1999-05-03'' = (c1, Inr ()) \<and>
     login (demoNet []) 9 ((newClient newCryptoBox demoStore)\<lparr>c_files := c_files c1\<rparr>) ''wss://r'' ''alice'' ''pw'' = (d1, Inr ()) \<and>
     same_identity (c_crypto d1) (c_crypto c1)"
proof -
  let ?W = "demoNet []" and ?c = "newClient newCryptoBox demoStore"
  have dirs: "identityDirs ?W = ''/data'' # [''/local'', ''/config'', ''/share'']" "w_trimmed ?W = id"
    by (simp_all add: demoNet_def demoWorld_def identityDirs_def)
  have "existingEnc ?W ?c nick = None" "existingRaw ?W ?c nick = None" for nick
    by (simp_all add: existingEnc_def existingRaw_def newClient_def find_None_iff)
  moreover have "w_canWrite ?W p" for p by (simp add: demoNet_laws)
  ultimately obtain c1 where c1: "registerAccount ?W (2025, 1, 1) ?c ''wss://r'' ''alice'' ''pw'' ''1999-05-03'' = (c1, Inr ())"
      "\<forall>d. c_files d = c_files c1 \<longrightarrow>
        (\<exists>d1. login ?W 9 d ''wss://r'' ''alice'' ''pw'' = (d1, Inr ()) \<and> same_identity (c_crypto d1) (c_crypto c1))"
    using registered_account_reopens [where W = ?W and c = ?c and nickname = "''alice''" and pw = "''pw''" and today = "(2025, 1, 1)"
        and birthday = "''1999-05-03''" and url = "''wss://r''" and url' = "''wss://r''" and now = 9, OF _ _ _ _ _ demoNet_laws(7) dirs(1)]
    by (auto simp: demoNet_laws(1) demo_laws demo_identity_law dirs(2))
  moreover have "c_files (?c\<lparr>c_files := c_files c1\<rparr>) = c_files c1" by simp
  ultimately show ?thesis by blast
qed

section \<open>A legacy identity is migrated out of sight\<close>

lemma paths_differ [simp]: "d @ ''/'' @ nick @ ''.ekey'' \<noteq> e @ ''/'' @ nick' @ ''.key''"
proof
  assume "d @ ''/'' @ nick @ ''.ekey'' = e @ ''/'' @ nick' @ ''.key''"
  then have "(d @ ''/'' @ nick @ ''.'') @ ''ekey'' = (e @ ''/'' @ nick') @ ''.key''" by simp
  then show False by (subst (asm) append_eq_append_conv) simp_all
qed

text \<open>C40 (error). A legacy identity is lost by its migration. The login that migrates it succeeds and removes
  the plain file, but the wrapped file it leaves carries the legacy version, which the search for identity
  files does not recognise: the next login with the same password is refused as if there were no
  account, although the name counts as taken on this device, and registering the name again is
  allowed.\<close>

theorem migrated_identity_locked_out:
  assumes laws: "secretbox_law (w_ext W)" "pwhash_law (w_ext W)" "draw_law W"
    and raw: "c_files c (dir @ ''/'' @ nick @ ''.key'') = Some raw" "length raw = 32"
    and dirs: "dir \<in> set (identityDirs W)" "w_dirOf W (dir @ ''/'' @ nick @ ''.key'') = dir" "w_canWrite W (dir @ ''/'' @ nick @ ''.ekey'')"
    and only: "\<And>d. d \<in> set (identityDirs W) \<Longrightarrow> c_files c (d @ ''/'' @ nick @ ''.ekey'') = None"
      "\<And>d. d \<in> set (identityDirs W) \<Longrightarrow> d \<noteq> dir \<Longrightarrow> c_files c (d @ ''/'' @ nick @ ''.key'') = None"
    and nick: "w_trimmed W nick = nick" "nick \<noteq> []"
  shows "\<exists>c'. establishIdentity W c nick pw False = (c', Inr ()) \<and> c_files c' (dir @ ''/'' @ nick @ ''.key'') = None \<and>
    establishIdentity W c' nick pw False = (c', Inl NoAccountHere) \<and> hasLocalIdentity W c' nick \<and>
    snd (establishIdentity W c' nick pw' True) \<noteq> Inl AccountExistsLocally"
proof -
  let ?raw = "dir @ ''/'' @ nick @ ''.key''" and ?enc = "dir @ ''/'' @ nick @ ''.ekey''"
  have start: "existingEnc W c nick = None" using only(1) by (auto simp: existingEnc_def find_None_iff)
  have found: "existingRaw W c nick = Some ?raw"
  proof -
    have "c_files c (d @ ''/'' @ nick @ ''.key'') \<noteq> None \<longleftrightarrow> d = dir" if "d \<in> set (identityDirs W)" for d
      using only(2) [OF that] raw(1) by (cases "d = dir") auto
    then have "find (\<lambda>p. c_files c p \<noteq> None) (map (\<lambda>d. d @ ''/'' @ nick @ ''.key'') ds) = (if dir \<in> set ds then Some ?raw else None)"
      if "set ds \<subseteq> set (identityDirs W)" for ds using that by (induction ds) auto
    with dirs(1) show ?thesis by (simp add: existingRaw_def)
  qed
  define b where "b = (c_crypto c)\<lparr>m_privateKey := raw, m_publicKey := scalarmult_base (w_ext W) raw, m_identitySeed := [],
    m_edPublicKey := [], m_identityVersion := 1\<rparr>"
  have load: "loadIdentity (w_ext W) (c_crypto c) (c_files c ?raw) = (b, True)" using raw by (simp add: loadIdentity_def b_def)
  have id: "identity_ok (w_ext W) b" "length (m_privateKey b) = 32" using raw(2) by (simp_all add: b_def identity_ok_def)
  have len: "length (w_rnd W i n) = n" for i n using laws(3) by (simp add: draw_law_def)
  obtain blob b' where blob: "saveIdentityEncrypted (w_ext W) b pw (w_rnd W (c_draws c) 16) (w_rnd W (c_draws c + 1) 24) = Some blob"
      "loadIdentityEncrypted (w_ext W) newCryptoBox (Some blob) pw = (b', True)" "same_identity b' b"
    using wrapped_identity_roundtrip [OF laws(1,2) id(1) len len id(2)] by blast
  have hidden: "\<not> isEncryptedIdentityFile (Some blob)"
    using blob(1) by (auto simp: saveIdentityEncrypted_def b_def isEncryptedIdentityFile_def kWrapVersion_def kWrapVersionLegacy_def nth_append
        Let_def split: option.splits if_splits)
  define c' where "c' = c\<lparr>c_crypto := b, c_draws := c_draws c + 2, c_files := (c_files c)(?enc \<mapsto> blob, ?raw := None)\<rparr>"
  have "establishIdentity W c nick pw False = (c', Inr ())"
    using start found load blob dirs(2,3)
    by (simp add: establishIdentity_def migrateIdentity_def boxSaveEncrypted_def probeIdentity_def Let_def c'_def same_identity_def publicKeyHex_def)
  moreover have gone: "existingEnc W c' nick = None" "existingRaw W c' nick = None"
    using only hidden by (auto simp: existingEnc_def existingRaw_def find_None_iff c'_def paths_differ [symmetric])
  moreover have "hasLocalIdentity W c' nick"
    using dirs(1) nick by (auto simp: hasLocalIdentity_def list_ex_iff c'_def Let_def)
  moreover have "snd (establishIdentity W c' nick pw' True) \<noteq> Inl AccountExistsLocally"
    using gone by (auto simp: establishIdentity_def createIdentity_def Let_def split: prod.split bool.split)
  ultimately show ?thesis by (intro exI [of _ c']) (simp add: establishIdentity_def c'_def)
qed

theorem migrated_identity_locked_out_witness:
  "\<exists>c'. establishIdentity (demoNet []) (demoClient\<lparr>c_files := [''/data/alice.key'' \<mapsto> replicate 32 7]\<rparr>) ''alice'' ''pw'' False = (c', Inr ()) \<and>
     establishIdentity (demoNet []) c' ''alice'' ''pw'' False = (c', Inl NoAccountHere)"
proof -
  let ?W = "demoNet []" and ?c = "demoClient\<lparr>c_files := [''/data/alice.key'' \<mapsto> replicate 32 7]\<rparr>"
  have dirs: "identityDirs ?W = [''/data'', ''/local'', ''/config'', ''/share'']" "w_trimmed ?W = id" "w_dirOf ?W p = ''/data''" for p
    by (simp_all add: demoNet_def demoWorld_def identityDirs_def)
  show ?thesis
    using migrated_identity_locked_out [where W = ?W and c = ?c and dir = "''/data''" and nick = "''alice''" and pw = "''pw''"
        and raw = "replicate 32 7", OF _ _ demoNet_laws(7)] demo_laws
    by (auto simp: demoNet_laws dirs)
qed

section \<open>What a login remembers of its peers\<close>

definition verified_kept :: "ChatClient \<Rightarrow> ChatClient \<Rightarrow> bool" where
  "verified_kept c c' \<longleftrightarrow> c_peerVerified c' = c_peerVerified c"

interpretation vk: change_relation verified_kept by unfold_locales (auto simp: verified_kept_def)

lemma vk_resume: "verified_kept c (resumeAndConnect W c)"
proof -
  have "verified_kept c (restoreSession W c peer)" for c peer by (simp add: restoreSession_def verified_kept_def Let_def case_prod_beta)
  then have all: "verified_kept c (restoreAllSessions W c)" for c
    by (simp add: restoreAllSessions_def vk.refl) (intro vk.fold_change impI)
  have "verified_kept c (restoreRow W r c)" for r c
    by (auto simp: restoreRow_def requeue_def verified_kept_def Let_def split: option.split list.split prod.split)
  then have "verified_kept c (restoreOutbox W c)" for c
    by (simp add: restoreOutbox_def vk.refl) (intro vk.fold_change impI)
  with all have "verified_kept c (restoreOutbox W (restoreAllSessions W c))" using vk.trans by blast
  then show ?thesis
    by (auto simp: resumeAndConnect_def openSocketWithTls_def sslConfigurationFor_def labTrustAnchors_def verified_kept_def Let_def
        split: option.split)
qed

lemma vk_establish: "verified_kept c (fst (establishIdentity W c nick pw False))"
  by (auto simp: establishIdentity_def migrateIdentity_def boxSaveEncrypted_def verified_kept_def Let_def
      split: option.split prod.split bool.split)

text \<open>A login on a fresh client counts no peer as having verified this user, although the database
  holds what peers attested: the attestations are compared with the client's own key before that key is
  loaded, so none of them matches.\<close>

theorem login_misses_attestations:
  assumes fresh: "m_publicKey (c_crypto c) = []" "c_peerVerified c = {}"
  shows "c_peerVerified (fst (login W now c url nickname pw)) = {}"
proof -
  let ?s = "loginStart W (c\<lparr>c_nick := w_trimmed W nickname\<rparr>) url False"
  have s: "m_publicKey (c_crypto ?s) = []" "c_peerVerified ?s = {}"
    using fresh by (simp_all add: loginStart_def rememberLogin_def)
  then have "c_peerVerified (fst (openUserHistory W ?s)) = {}"
    by (simp add: openUserHistory_def restoreVerification_def publicKeyHex_def toHex_def Let_def split: prod.split)
  then have "c_peerVerified (loginHistory W now ?s) = {}"
    using s(2) by (auto simp: loginHistory_def split: prod.splits bool.split)
  with vk_establish [of "loginHistory W now ?s" W "c_nick (loginHistory W now ?s)" pw] vk_resume show ?thesis
    by (auto simp: login_def Let_def verified_kept_def split: prod.splits sum.split)
qed

theorem login_misses_attestations_witness:
  "\<exists>d. login (demoNet []) 9 ((newClient newCryptoBox demoStore)\<lparr>c_files := c_files
       (fst (registerAccount (demoNet []) (2025, 1, 1) (newClient newCryptoBox demoStore) ''wss://r'' ''alice'' ''pw'' []))\<rparr>) ''wss://r'' ''alice'' ''pw'' = d \<and>
     c_peerVerified (fst d) = {}"
  using login_misses_attestations [of "(newClient newCryptoBox demoStore)\<lparr>c_files := c_files
       (fst (registerAccount (demoNet []) (2025, 1, 1) (newClient newCryptoBox demoStore) ''wss://r'' ''alice'' ''pw'' []))\<rparr>" "demoNet []" 9 "''wss://r''" "''alice''" "''pw''"]
  by (simp add: newClient_def newCryptoBox_def)

end
