(* ===== verification/Connection.thy ===== *)
theory Connection
  imports Account
begin

text \<open>
  The life of a connection (\<^verbatim>\<open>client/src/chatclient.cpp\<close>): the password handshake, \<^verbatim>\<open>logout\<close>, the slots for a
  connection that opens and closes, and the dispatch of the frames the relay sends.

  The lemmas show when prekeys reach the relay, what rotating them on connect and switching users does to
  them, how long a client waits before it connects again, how it answers a refusal, and that a message that
  was opened is never opened again.
\<close>

section \<open>Logging out\<close>

definition logout :: "world \<Rightarrow> ChatClient \<Rightarrow> ChatClient" where
  "logout W c =
     (let c1 = onAccount (\<lambda>a. a\<lparr>a_intentionalClose := True, a_reconnectTimer := None\<rparr>) c;
          c2 = c1\<lparr>c_typingPeer := [], c_lastTypingStateSent := [], c_peerTyping := Map.empty,
                 c_messages := fst (msg_clear (w_fmt W) (c_messages c1)), c_activePeer := [], c_history := closeIfOpen (c_history c1),
                 c_crypto := resetForNewUser (c_crypto c1), c_peerKeys := Map.empty, c_peerEdKeys := Map.empty,
                 c_relayServesUntaggedEd := False, c_seenFrames := {}, c_pendingFrames := (\<lambda>_. []), c_outbox := [],
                 c_unverifiedKeyChange := {}\<rparr>;
          c3 = (clearPcsState c2)\<lparr>c_peerVerified := {}, c_pendingBilateral := {}, c_rebootstrapAdopted := Map.empty,
                 c_verifyAckResend := {}, c_peerVerifiedForIdentity := Map.empty, c_verifiedPeerIdentity := Map.empty,
                 c_lastVerifyResyncMs := Map.empty, c_incoming := Map.empty, c_receivedFilePaths := Map.empty,
                 c_flushInProgress := False, c_connected := False\<rparr>
      in onAccount (\<lambda>a. a\<lparr>a_password := [], a_verifierHex := [], a_saltHex := [], a_saltTimer := False,
           a_bioEnrollPending := False, a_bioEnrollPassword := [], a_sessionActive := False, a_locked := False\<rparr>) c3)"

section \<open>The password handshake\<close>

definition uploadPublicKey :: "ChatClient \<Rightarrow> ChatClient" where
  "uploadPublicKey c =
     (let a = c_account c; v2 = hasX3dhIdentity (c_crypto c);
          credential = (a_verifierHex a \<noteq> [] \<and> a_saltHex a \<noteq> []);
          hello = \<lparr>he_nick = c_nick c, he_pubkey = (if v2 then edPublicKeyHex (c_crypto c) else publicKeyHex (c_crypto c)),
                   he_ikType = (if v2 then ''ed25519'' else ''x25519''), he_haveFiles = receivedFileIds (c_history c),
                   he_pwVerifier = (if credential then a_verifierHex a else []), he_pwSalt = (if credential then a_saltHex a else []),
                   he_dobVerifier = (if credential \<and> a_registering a then a_dobVerifierHex a else [])\<rparr>
      in sendFrame (onAccount (\<lambda>a. a\<lparr>a_verifierHex := [], a_saltHex := [], a_registering := False\<rparr>) c) (Hello hello))"

definition completeHello :: "world \<Rightarrow> int \<Rightarrow> ChatClient \<Rightarrow> ChatClient" where
  "completeHello W now c =
     reestablishPcsForAll W now (flushOutbox W now (uploadPublicKey (onAccount (\<lambda>a. a\<lparr>a_saltTimer := False\<rparr>) c)))"

definition deriveVerifierLocally :: "world \<Rightarrow> ChatClient \<Rightarrow> ChatClient" where
  "deriveVerifierLocally W c =
     (let password = a_password (c_account c); storedSalt = valueOr [] (a_settings (c_account c)) (saltKey (c_nick c))
      in if password = [] then c
         else if storedSalt \<noteq> [] then
           onAccount (\<lambda>a. a\<lparr>a_verifierHex := deriveVerifierWithSalt (w_ext W) password storedSalt, a_saltHex := storedSalt\<rparr>) c
         else case boxDeriveVerifier W c password of
                (c1, None) \<Rightarrow> c1
              | (c1, Some (v, s)) \<Rightarrow>
                  setSetting (saltKey (c_nick c1)) s (onAccount (\<lambda>a. a\<lparr>a_verifierHex := v, a_saltHex := s\<rparr>) c1))"

definition beginAuthHandshake :: "world \<Rightarrow> int \<Rightarrow> ChatClient \<Rightarrow> ChatClient" where
  "beginAuthHandshake W now c =
     (if a_password (c_account c) \<noteq> []
      then onAccount (\<lambda>a. a\<lparr>a_saltTimer := True\<rparr>) (sendFrame c (AuthBegin (c_nick c)))
      else completeHello W now c)"

text \<open>The fallback timer, and the relay's answer: the salt it stores, if it stores one.\<close>

definition saltTimeout :: "world \<Rightarrow> int \<Rightarrow> ChatClient \<Rightarrow> ChatClient" where
  "saltTimeout W now c =
     (if a_password (c_account c) = [] then c else completeHello W now (deriveVerifierLocally W c))"

definition receiveAuthSalt :: "world \<Rightarrow> int \<Rightarrow> ChatClient \<Rightarrow> qstring option \<Rightarrow> ChatClient" where
  "receiveAuthSalt W now c salt =
     (if a_password (c_account c) = [] then c
      else completeHello W now
        (case salt of
           Some (x # xs) \<Rightarrow>
             setSetting (saltKey (c_nick c)) (x # xs)
               (onAccount (\<lambda>a. a\<lparr>a_verifierHex := deriveVerifierWithSalt (w_ext W) (a_password a) (x # xs), a_saltHex := x # xs\<rparr>) c)
         | _ \<Rightarrow> deriveVerifierLocally W c))"

section \<open>The connection opens and closes\<close>

definition kSpkMaxAgeMs :: int where "kSpkMaxAgeMs = 7 * 24 * 60 * 60 * 1000"
definition kSpkGraceMs :: int where "kSpkGraceMs = 2 * 24 * 60 * 60 * 1000"

definition rotatePrekeys :: "world \<Rightarrow> int \<Rightarrow> ChatClient \<Rightarrow> ChatClient" where
  "rotatePrekeys W now c =
     (if hasX3dhIdentity (c_crypto c) \<and> m_spkPriv (c_crypto c) \<noteq> [] then
        (let (b1, rotated) = rotateSignedPrekeyIfDue (w_ext W) (w_rnd W (c_draws c) 32) now (c_crypto c) kSpkMaxAgeMs now;
             (b2, dropped) = dropExpiredPreviousPrekey b1 kSpkGraceMs now;
             c1 = c\<lparr>c_crypto := b2, c_draws := c_draws c + 1\<rparr>
         in if rotated \<or> dropped then
              (let c2 = (if m_ready (c_history c1) then c1\<lparr>c_history := fst (savePrekeys (c_history c1) (serialisePrekeys b2))\<rparr> else c1)
               in if rotated then publishPrekeysIfNeeded W now c2 True else c2)
            else c1)
      else c)"

definition onConnected :: "world \<Rightarrow> int \<Rightarrow> ChatClient \<Rightarrow> ChatClient" where
  "onConnected W now c =
     (let c1 = describeTlsSession W (onAccount (\<lambda>a. a\<lparr>a_reconnectDelayMs := 1000\<rparr>) (c\<lparr>c_connected := True\<rparr>));
          c2 = onAccount (\<lambda>a. a\<lparr>a_sessionActive := True\<rparr>) c1;
          c3 = publishPrekeysIfNeeded W now (rotatePrekeys W now c2) False;
          c4 = onAccount (\<lambda>a. a\<lparr>a_rekeyTimer := True\<rparr>) c3;
          c5 = (if c_pongOwed c4 \<noteq> {} \<or> c_sentSinceRatchet c4 \<noteq> Map.empty then startKick c4 else c4)
      in beginAuthHandshake W now c5)"

definition kTlsFailed :: qstring where "kTlsFailed = ''TLS verification FAILED''"

definition onDisconnected :: "world \<Rightarrow> int \<Rightarrow> ChatClient \<Rightarrow> int \<Rightarrow> ChatClient" where
  "onDisconnected W now c code =
     (let c1 = onAccount (\<lambda>a. a\<lparr>a_tlsSummary := (if take (length kTlsFailed) (a_tlsSummary a) = kTlsFailed then a_tlsSummary a else []),
                              a_saltTimer := False\<rparr>) (c\<lparr>c_connected := False\<rparr>)
      in if code = 4000 \<or> code = 4001 \<or> code = 4002 then logout W c1
         else if \<not> a_intentionalClose (c_account c1) then
           onAccount (\<lambda>a. a\<lparr>a_reconnectTimer := Some (a_reconnectDelayMs a)\<rparr>)
             (c1\<lparr>c_messages := fst (addSystem (w_fmt W) now (c_messages c1) ''Connection lost. Reconnecting...'')\<rparr>)
         else c1)"

definition tryReconnect :: "world \<Rightarrow> ChatClient \<Rightarrow> ChatClient" where
  "tryReconnect W c =
     openSocketWithTls W (onAccount (\<lambda>a. a\<lparr>a_reconnectTimer := None, a_reconnectDelayMs := min (a_reconnectDelayMs a * 2) 30000\<rparr>) c)"

section \<open>Frames of the relay\<close>

datatype server_frame =
    AuthSalt "qstring option"
  | Presence "qstring list"
  | PrekeysAck int
  | BundleOf qstring "served_bundle option"
  | Keys "(qstring \<times> qstring) list" "(qstring \<rightharpoonup> qstring) option"
  | Key qstring qstring qstring \<comment> \<open>nick, published key, stated type\<close>
  | Relayed net_frame

fun handleServerFrame :: "world \<Rightarrow> int \<Rightarrow> ChatClient \<Rightarrow> server_frame \<Rightarrow> ChatClient" where
  "handleServerFrame W now c (AuthSalt salt) = receiveAuthSalt W now c salt"
| "handleServerFrame W now c (Presence names) = receivePresence W c names"
| "handleServerFrame W now c (PrekeysAck remaining) = receivePrekeysAck W now c remaining"
| "handleServerFrame W now c (BundleOf who served) = receiveBundle W now c who served"
| "handleServerFrame W now c (Keys entries keyTypes) = receiveKeys W now c entries keyTypes"
| "handleServerFrame W now c (Key nick published statedType) = receiveKey W now c nick published statedType"
| "handleServerFrame W now c (Relayed f) = receiveFrame W now c f"

section \<open>Prekeys when the connection opens\<close>

lemma prekey_steps_kept [simp]:
  "c_account (restorePool W now c) = c_account c" "c_nick (restorePool W now c) = c_nick c" "c_connected (restorePool W now c) = c_connected c"
  "c_account (fst (boxPrekeys W now c)) = c_account c" "c_nick (fst (boxPrekeys W now c)) = c_nick c"
  "c_connected (fst (boxPrekeys W now c)) = c_connected c"
  "c_account (sendFrame c f) = c_account c" "c_nick (sendFrame c f) = c_nick c" "c_connected (sendFrame c f) = c_connected c"
  by (simp_all add: restorePool_def boxPrekeys_def sendFrame_def case_prod_beta Let_def)

lemma publish_kept [simp]:
  "c_account (publishPrekeysIfNeeded W now c force) = c_account c" "c_nick (publishPrekeysIfNeeded W now c force) = c_nick c"
  "c_connected (publishPrekeysIfNeeded W now c force) = c_connected c"
  unfolding publishPrekeysIfNeeded_def Let_def case_prod_beta by (simp_all split: bool.split)

lemma rotate_kept [simp]:
  "c_account (rotatePrekeys W now c) = c_account c" "c_nick (rotatePrekeys W now c) = c_nick c" "c_connected (rotatePrekeys W now c) = c_connected c"
  by (auto simp: rotatePrekeys_def Let_def split: prod.split)

text \<open>The client as the prekeys find it, and the prekeys it then holds.\<close>

definition opened :: "world \<Rightarrow> ChatClient \<Rightarrow> ChatClient" where
  "opened W c = onAccount (\<lambda>a. a\<lparr>a_sessionActive := True\<rparr>)
     (describeTlsSession W (onAccount (\<lambda>a. a\<lparr>a_reconnectDelayMs := 1000\<rparr>) (c\<lparr>c_connected := True\<rparr>)))"

lemma opened_simps [simp]:
  "c_sent (opened W c) = c_sent c" "c_crypto (opened W c) = c_crypto c" "c_history (opened W c) = c_history c" "c_connected (opened W c)"
  "c_draws (opened W c) = c_draws c" "c_nick (opened W c) = c_nick c" "a_password (c_account (opened W c)) = a_password (c_account c)"
  by (simp_all add: opened_def describeTlsSession_def Let_def)

lemma connected_with_password:
  assumes "a_password (c_account c) \<noteq> []"
  shows "c_sent (onConnected W now c) = c_sent (publishPrekeysIfNeeded W now (rotatePrekeys W now (opened W c)) False) @ [AuthBegin (c_nick c)]"
    "c_crypto (onConnected W now c) = c_crypto (publishPrekeysIfNeeded W now (rotatePrekeys W now (opened W c)) False)"
  using assms
  by (auto simp: onConnected_def opened_def [symmetric] beginAuthHandshake_def sendFrame_def startKick_def Let_def)

text \<open>A pool that is neither empty nor old: nothing is sent.\<close>

lemma prekeys_current:
  assumes c: "m_spkPriv (c_crypto c) \<noteq> []" "kPrekeyLowWaterMark < length (m_opkPriv (c_crypto c))"
    and young: "0 \<le> now - m_spkCreatedMs (c_crypto c)" "now - m_spkCreatedMs (c_crypto c) < kSpkMaxAgeMs" "0 < m_spkCreatedMs (c_crypto c)"
    and prev: "m_prevSpkPriv (c_crypto c) = []"
  shows "c_sent (publishPrekeysIfNeeded W now (rotatePrekeys W now c) False) = c_sent c \<and>
    c_crypto (publishPrekeysIfNeeded W now (rotatePrekeys W now c) False) = c_crypto c"
proof -
  have rot: "rotateSignedPrekeyIfDue (w_ext W) r now (c_crypto c) kSpkMaxAgeMs now = (c_crypto c, False)" for r
    using young by (auto simp: rotateSignedPrekeyIfDue_def signedPrekeyAgeMs_def Let_def)
  have drop: "dropExpiredPreviousPrekey (c_crypto c) kSpkGraceMs now = (c_crypto c, False)" using prev by (simp add: dropExpiredPreviousPrekey_def)
  have "c_crypto (rotatePrekeys W now c) = c_crypto c" "c_sent (rotatePrekeys W now c) = c_sent c"
    using rot drop by (simp_all add: rotatePrekeys_def Let_def)
  then show ?thesis
    using c by (auto simp: publishPrekeysIfNeeded_def restorePool_def Let_def)
qed

text \<open>The prekeys of a new account are offered to the relay before the client has signed in, and
  never again. When its first connection opens, the client sends the prekeys it has made and then asks for
  its salt; the sign-in follows the answer. Later connections find the prekeys made and send none
  until they are a week old, so that a relay which accepts prekeys from signed-in clients only, as
  the one of this repository does, never gets them.\<close>

theorem prekeys_only_offered_before_login:
  assumes laws: "identity_law (w_ext W)" "sign_law (w_ext W)" "dh_law (w_ext W)" "draw_law W"
    and id: "identity_ok (w_ext W) (c_crypto c)" "m_identityVersion (c_crypto c) = 2"
    and new: "m_spkPriv (c_crypto c) = []" "m_prevSpkPriv (c_crypto c) = []" "m_prevSpkPub (c_crypto c) = []" "loadPrekeys (c_history c) = []"
    and c: "unat (m_nextOpkId (c_crypto c)) + 32 < 2 ^ 32" "a_password (c_account c) \<noteq> []" "0 < now"
    and d: "c_crypto d = c_crypto (onConnected W now c)" "a_password (c_account d) \<noteq> []" "now \<le> later" "later < now + kSpkMaxAgeMs"
  shows "\<exists>spk sig opks. c_sent (onConnected W now c) = c_sent c @ [PublishPrekeys spk sig opks now, AuthBegin (c_nick c)] \<and>
    c_sent (onConnected W later d) = c_sent d @ [AuthBegin (c_nick d)]"
proof -
  have rot: "rotatePrekeys W now (opened W c) = opened W c" using new(1) by (simp add: rotatePrekeys_def)
  have pool: "restorePool W now (opened W c) = opened W c" using new(4) by (intro restorePool_current) simp
  obtain b where b: "publishPrekeysIfNeeded W now (opened W c) False = sendFrame ((opened W c)\<lparr>c_crypto := b, c_draws := c_draws (opened W c) + 33,
      c_history := (if m_ready (c_history (opened W c)) then fst (savePrekeys (c_history (opened W c)) (serialisePrekeys b)) else c_history (opened W c))\<rparr>)
      (PublishPrekeys (signedPrekeyPublicHex b) (signedPrekeySignatureHex b) (oneTimePrekeyPublicsHex (w_ext W) b) now)"
      "prekeys_ok (w_ext W) b" "length (m_opkPriv b) = 32" "m_spkCreatedMs b = now"
      "m_prevSpkPriv b = (if m_spkPriv (c_crypto (opened W c)) = [] then m_prevSpkPriv (c_crypto (opened W c)) else m_spkPriv (c_crypto (opened W c)))"
    by (rule prekeys_generated [OF laws _ _ _ pool, of False]) (use id new c in simp_all)
  note conn = connected_with_password [OF c(2), of W now, unfolded rot b(1)]
  have "c_crypto d = b" using d(1) conn(2) by (simp add: sendFrame_def)
  then have "m_spkPriv (c_crypto (opened W d)) \<noteq> []" "kPrekeyLowWaterMark < length (m_opkPriv (c_crypto (opened W d)))"
      "m_spkCreatedMs (c_crypto (opened W d)) = now" "m_prevSpkPriv (c_crypto (opened W d)) = []"
    using prekeys_okD(6) [OF b(2)] b new by (simp_all add: kPrekeyLowWaterMark_def)
  then have "c_sent (publishPrekeysIfNeeded W later (rotatePrekeys W later (opened W d)) False) = c_sent d"
    using prekeys_current [of "opened W d" later W] c(3) d(3,4) by simp
  then show ?thesis using conn(1) connected_with_password(1) [OF d(2), of W later] by (auto simp: sendFrame_def)
qed

section \<open>Rotation when the connection opens\<close>

text \<open>C37 (safety). Rotating the signed prekey when a connection opens loses the replaced one at once. The rotation
  keeps it for the grace period, but the publication that follows makes yet another signed prekey and
  keeps the one just made, which no peer has ever seen. An opener built from the bundle the relay still
  serves is refused, whatever one-time prekey it uses, and none of the one-time prekeys handed out before
  is left.\<close>

theorem rotation_on_connect_loses_grace:
  assumes laws: "identity_law (w_ext W)" "sign_law (w_ext W)" "dh_law (w_ext W)" "draw_law W"
    and ok: "prekeys_ok (w_ext W) (c_crypto c)" and due: "kSpkMaxAgeMs \<le> now - m_spkCreatedMs (c_crypto c)" "0 < m_spkCreatedMs (c_crypto c)"
    and c: "unat (m_nextOpkId (c_crypto c)) + 32 < 2 ^ 32" "a_password (c_account c) \<noteq> []"
    and fresh: "scalarmult_base (w_ext W) (w_rnd W (c_draws c) 32) \<noteq> m_spkPub (c_crypto c)"
      "scalarmult_base (w_ext W) (w_rnd W (c_draws c + 1) 32) \<noteq> m_spkPub (c_crypto c)"
    and b: "b = c_crypto (onConnected W now c)"
  shows "chooseSpkPriv b (m_spkPub (c_crypto c)) = None \<and>
    snd (acceptX3dhSession (w_ext W) b peer ikA ekA i (m_spkPub (c_crypto c))) = False \<and>
    fst ` set (m_opkPriv b) \<inter> fst ` set (m_opkPriv (c_crypto c)) = {}"
proof -
  let ?E = "w_ext W" and ?b0 = "c_crypto c" and ?r1 = "w_rnd W (c_draws c) 32"
  define b1 where "b1 = ?b0\<lparr>m_prevSpkPriv := m_spkPriv ?b0, m_prevSpkPub := m_spkPub ?b0, m_prevSpkRetiredMs := now, m_spkPriv := ?r1,
    m_spkPub := scalarmult_base ?E ?r1, m_spkSig := sign ?E (m_identitySeed ?b0) (scalarmult_base ?E ?r1), m_spkCreatedMs := now\<rparr>"
  have len: "length (w_rnd W i n) = n" for i n using laws(4) by (simp add: draw_law_def)
  have "kSpkMaxAgeMs \<le> max 0 (signedPrekeyAgeMs ?b0 now)"
    using due prekeys_okD(6) [OF ok] by (simp add: signedPrekeyAgeMs_def)
  from rotate_due [OF laws(1,2) ok this] have rot: "rotateSignedPrekeyIfDue ?E ?r1 now ?b0 kSpkMaxAgeMs now = (b1, True)" by (simp add: b1_def)
  have "prekeys_ok ?E b1" using rotation_preserves_prekeys [OF laws(1,2) ok len rot] by blast
  note ok1 = this prekeys_okD(6) [OF this]
  have b1': "m_nextOpkId b1 = m_nextOpkId ?b0" "m_spkPub b1 = scalarmult_base ?E ?r1" by (simp_all add: b1_def)
  have drop: "dropExpiredPreviousPrekey b1 kSpkGraceMs now = (b1, False)" by (simp add: dropExpiredPreviousPrekey_def b1_def kSpkGraceMs_def)
  define c1 where "c1 = (opened W c)\<lparr>c_crypto := b1, c_draws := c_draws c + 1\<rparr>"
  define c2 where "c2 = (if m_ready (c_history c1) then c1\<lparr>c_history := fst (savePrekeys (c_history c1) (serialisePrekeys b1))\<rparr> else c1)"
  have "rotatePrekeys W now (opened W c) = publishPrekeysIfNeeded W now c2 True"
    using rot drop prekeys_okD(4,6) [OF ok] by (simp add: rotatePrekeys_def c2_def c1_def)
  moreover have c2: "c_crypto c2 = b1" "c_draws c2 = c_draws c + 1" "c_connected c2" by (simp_all add: c2_def c1_def)
  moreover have pool: "restorePool W now c2 = c2" using ok1(2) c2(1) by (intro restorePool_current) simp
  moreover obtain b2 where b2: "publishPrekeysIfNeeded W now c2 True = sendFrame (c2\<lparr>c_crypto := b2, c_draws := c_draws c2 + 33,
      c_history := (if m_ready (c_history c2) then fst (savePrekeys (c_history c2) (serialisePrekeys b2)) else c_history c2)\<rparr>)
      (PublishPrekeys (signedPrekeyPublicHex b2) (signedPrekeySignatureHex b2) (oneTimePrekeyPublicsHex ?E b2) now)"
      "prekeys_ok ?E b2" "length (m_opkPriv b2) = 32" "m_spkPub b2 = scalarmult_base ?E (w_rnd W (c_draws c2) 32)"
      "m_prevSpkPub b2 = (if m_spkPriv (c_crypto c2) = [] then m_prevSpkPub (c_crypto c2) else m_spkPub (c_crypto c2))"
      "\<forall>p \<in> set (m_opkPriv b2). m_nextOpkId (c_crypto c2) \<le> fst p"
    by (rule prekeys_generated [OF laws _ _ c2(3) pool, where force = True])
      (use ok1 b1' c2 c(1) prekeys_okD(1,2) [OF ok1(1)] in simp_all)
  define c3 where "c3 = publishPrekeysIfNeeded W now c2 True"
  have c3: "c_crypto c3 = b2" "c_connected c3" using b2(1) c2(3) by (simp_all add: c3_def sendFrame_def)
  have "c_crypto (publishPrekeysIfNeeded W now c3 False) = b2"
    using c3 prekeys_okD(4,6) [OF b2(2)] b2(3) by (simp add: publishPrekeysIfNeeded_def restorePool_def kPrekeyLowWaterMark_def)
  ultimately have bb: "b = b2" using connected_with_password(2) [OF c(2), of W now] by (simp add: b c3_def)
  have pub: "m_spkPub ?b0 \<noteq> []" using prekeys_okD(7) [OF ok] laws(3) by (metis dh_law_def list.size(3) zero_neq_numeral)
  have none: "chooseSpkPriv b (m_spkPub ?b0) = None"
    using pub fresh b2(4,5) c2 ok1(2) b1' by (auto simp: bb chooseSpkPriv_def)
  then have "snd (acceptX3dhSession ?E b peer ikA ekA i (m_spkPub ?b0)) = False"
    by (auto simp: acceptX3dhSession_def takeOneTimePrekey_def chooseSpkPriv_def Let_def split: option.split if_splits)
  moreover have "fst ` set (m_opkPriv b) \<inter> fst ` set (m_opkPriv ?b0) = {}"
    using b2(6) c2(1) b1'(1) prekeys_okD(12) [OF ok] by (fastforce simp: bb)
  ultimately show ?thesis using none by simp
qed

section \<open>Changing the user\<close>

text \<open>What a client keeps when its user logs out: everything else is as on a new client.\<close>

lemma logout_eq:
  "logout W c = (newClient (resetForNewUser (c_crypto c)) (closeIfOpen (c_history c)))
     \<lparr>c_nick := c_nick c, c_sent := c_sent c, c_draws := c_draws c, c_uuids := c_uuids c, c_users := c_users c,
      c_pendingX3dhHeader := c_pendingX3dhHeader c, c_sentFileSources := c_sentFileSources c, c_files := c_files c,
      c_account := (c_account c)\<lparr>a_password := [], a_verifierHex := [], a_saltHex := [], a_saltTimer := False, a_intentionalClose := True,
        a_reconnectTimer := None, a_rekeyTimer := False, a_sessionActive := False, a_locked := False, a_bioEnrollPending := False,
        a_bioEnrollPassword := []\<rparr>\<rparr>"
  by (simp add: logout_def newClient_def onAccount_def clearPcsState_def msg_clear_def Let_def)

lemma saveVerified_crypto: "c_crypto (fst (saveVerified W name pw dirs c)) = c_crypto c"
proof (induction dirs arbitrary: c)
  case (Cons d dirs)
  have "c_crypto (fst (boxSaveEncrypted W c p pw)) = c_crypto c" for p
    by (simp add: boxSaveEncrypted_def Let_def split: option.split)
  then show ?case using Cons by (auto split: prod.split bool.split) (metis fst_conv)+
qed simp

lemma created_crypto:
  assumes "establishIdentity W c nick pw True = (d, Inr u)"
  shows "c_crypto d = generateIdentity (w_ext W) (w_rnd W (c_draws c) 32) (c_crypto c)"
proof -
  let ?g = "c\<lparr>c_crypto := generateIdentity (w_ext W) (w_rnd W (c_draws c) 32) (c_crypto c), c_draws := c_draws c + 1\<rparr>"
  obtain e ok where e: "saveVerified W (nick @ ''.ekey'') pw (identityDirs W) ?g = (e, ok)" by fastforce
  with assms have "d = e" by (auto simp: establishIdentity_def createIdentity_def Let_def split: if_splits bool.splits)
  with saveVerified_crypto [of W "nick @ ''.ekey''" pw "identityDirs W" ?g] e show ?thesis by simp
qed

definition prekeys_of :: "CryptoBox \<Rightarrow> bytes \<times> (u32 \<times> bytes) list \<times> int \<times> bytes" where
  "prekeys_of b = (m_spkPriv b, m_opkPriv b, m_spkCreatedMs b, m_prevSpkPriv b)"

text \<open>Registering keeps the prekeys the client holds.\<close>

lemma register_keeps_prekeys:
  assumes "registerAccount W today c url nickname pw birthday = (d, Inr ())"
  shows "prekeys_of (c_crypto d) = prekeys_of (c_crypto c)" "a_password (c_account d) = pw"
proof -
  let ?s = "loginStart W (recordBirthday W today (c\<lparr>c_nick := w_trimmed W nickname\<rparr>) birthday) url True"
  define s2 where "s2 = (if historyDir W ?s \<noteq> [] then fst (openUserHistory W ?s) else ?s)"
  have "account_kept (c\<lparr>c_nick := w_trimmed W nickname\<rparr>) ?s" by (rule ak.trans [OF ak_birthday ak_start])
  then have "account_kept (c\<lparr>c_nick := w_trimmed W nickname\<rparr>) s2" using ak_history [of ?s W] ak.trans by (auto simp: s2_def)
  then have s2: "prekeys_of (c_crypto s2) = prekeys_of (c_crypto c)" by (simp add: account_kept_def prekeys_of_def)
  obtain c3 v salt where c3: "establishIdentity W s2 (c_nick s2) pw True = (c3, Inr ())"
      "d = resumeAndConnect W (setSetting (saltKey (c_nick c3)) salt (onAccount (\<lambda>a. a\<lparr>a_verifierHex := v, a_saltHex := salt\<rparr>)
         ((onAccount (\<lambda>a. a\<lparr>a_password := pw\<rparr>) c3)\<lparr>c_draws := c_draws c3 + 1\<rparr>)))"
    using assms unfolding registerAccount_def Let_def s2_def [symmetric]
    by (auto simp: boxDeriveVerifier_def split: prod.splits sum.splits option.splits)
  have "prekeys_of (c_crypto c3) = prekeys_of (generateIdentity (w_ext W) (w_rnd W (c_draws s2) 32) (c_crypto s2))"
    using created_crypto [OF c3(1)] by simp
  also have "\<dots> = prekeys_of (c_crypto s2)"
    by (auto simp: generateIdentity_def deriveAgreementKeysFromSeed_def prekeys_of_def Let_def split: option.split)
  finally show "prekeys_of (c_crypto d) = prekeys_of (c_crypto c)"
    using s2 ak_resume c3(2) by (auto simp: account_kept_def prekeys_of_def)
  show "a_password (c_account d) = pw" using ck_resume c3(2) by (simp add: credentials_kept_def)
qed

text \<open>C38 (safety). The prekeys of one user are inherited by the next. A client whose user logs out and on which
  another account is registered still holds the signed and the one-time prekeys of the first user; as
  the pool is full, it makes none for the new account and publishes none when it connects.\<close>

theorem user_switch_inherits_prekeys:
  assumes c: "m_spkPriv (c_crypto c) \<noteq> []" "kPrekeyLowWaterMark < length (m_opkPriv (c_crypto c))" "m_prevSpkPriv (c_crypto c) = []"
    and young: "0 < m_spkCreatedMs (c_crypto c)" "m_spkCreatedMs (c_crypto c) \<le> now" "now < m_spkCreatedMs (c_crypto c) + kSpkMaxAgeMs"
    and switch: "registerAccount W today (logout W c) url nickname pw birthday = (d, Inr ())" "pw \<noteq> []"
  shows "c_sent (onConnected W now d) = c_sent d @ [AuthBegin (c_nick d)] \<and>
    m_spkPriv (c_crypto (onConnected W now d)) = m_spkPriv (c_crypto c) \<and> m_opkPriv (c_crypto (onConnected W now d)) = m_opkPriv (c_crypto c)"
proof -
  have "prekeys_of (c_crypto d) = prekeys_of (c_crypto c)" and pw: "a_password (c_account d) \<noteq> []"
    using register_keeps_prekeys [OF switch(1)] switch(2) by (simp_all add: logout_eq newClient_def resetForNewUser_def prekeys_of_def)
  then have d: "m_spkPriv (c_crypto d) = m_spkPriv (c_crypto c)" "m_opkPriv (c_crypto d) = m_opkPriv (c_crypto c)"
      "m_spkCreatedMs (c_crypto d) = m_spkCreatedMs (c_crypto c)" "m_prevSpkPriv (c_crypto d) = []"
    using c(3) by (simp_all add: prekeys_of_def)
  have "c_sent (publishPrekeysIfNeeded W now (rotatePrekeys W now (opened W d)) False) = c_sent d \<and>
      c_crypto (publishPrekeysIfNeeded W now (rotatePrekeys W now (opened W d)) False) = c_crypto d"
    using prekeys_current [of "opened W d" now W] c d young by simp
  then show ?thesis using connected_with_password [OF pw, of W now] d by simp
qed

section \<open>Reconnecting\<close>

lemma socket_account [simp]:
  "a_reconnectDelayMs (c_account (openSocketWithTls W c)) = a_reconnectDelayMs (c_account c)"
  "a_intentionalClose (c_account (openSocketWithTls W c)) = a_intentionalClose (c_account c)"
  "a_password (c_account (openSocketWithTls W c)) = a_password (c_account c)"
  "a_registering (c_account (openSocketWithTls W c)) = a_registering (c_account c)"
  "length (a_dialled (c_account (openSocketWithTls W c))) = Suc (length (a_dialled (c_account c)))"
  by (auto simp: openSocketWithTls_def sslConfigurationFor_def labTrustAnchors_def Let_def split: option.split)

definition refusal :: "int \<Rightarrow> bool" where "refusal code \<longleftrightarrow> code = 4000 \<or> code = 4001 \<or> code = 4002"

definition retry :: "world \<Rightarrow> int \<Rightarrow> int \<Rightarrow> ChatClient \<Rightarrow> ChatClient" where
  "retry W now code c = tryReconnect W (onDisconnected W now c code)"

lemma retry_account:
  assumes "\<not> a_intentionalClose (c_account c)" "\<not> refusal code"
  shows "\<not> a_intentionalClose (c_account (retry W now code c))"
    "a_reconnectDelayMs (c_account (retry W now code c)) = min (a_reconnectDelayMs (c_account c) * 2) 30000"
    "length (a_dialled (c_account (retry W now code c))) = Suc (length (a_dialled (c_account c)))"
  using assms by (simp_all add: retry_def tryReconnect_def onDisconnected_def refusal_def Let_def)

text \<open>The delay before a reconnection doubles with every attempt that fails, from one second up
  to thirty: after \<open>n\<close> failures it is the smaller of \<open>1000 * 2 ^ n\<close> and 30000 milliseconds. The client has
  then dialled \<open>n\<close> times, and it keeps trying.\<close>

theorem reconnect_backoff:
  assumes c: "a_reconnectDelayMs (c_account c) = 1000" "\<not> a_intentionalClose (c_account c)" and code: "\<not> refusal code"
    and d: "d = (retry W now code ^^ n) c"
  shows "a_reconnectTimer (c_account (onDisconnected W now d code)) = Some (min (1000 * 2 ^ n) 30000) \<and>
    length (a_dialled (c_account d)) = length (a_dialled (c_account c)) + n"
proof -
  have "\<not> a_intentionalClose (c_account d) \<and> a_reconnectDelayMs (c_account d) = min (1000 * 2 ^ n) 30000 \<and>
      length (a_dialled (c_account d)) = length (a_dialled (c_account c)) + n"
    unfolding d using c retry_account [OF _ code] by (induction n) (auto simp: min_def)
  then show ?thesis using code by (auto simp: onDisconnected_def refusal_def Let_def)
qed

theorem reconnect_backoff_witness:
  "a_reconnectTimer (c_account (onDisconnected demoWorld 5 ((retry demoWorld 5 1006 ^^ 4) demoClient) 1006)) = Some 16000 \<and>
   a_reconnectTimer (c_account (onDisconnected demoWorld 5 ((retry demoWorld 5 1006 ^^ 9) demoClient) 1006)) = Some 30000"
proof -
  have "a_reconnectDelayMs (c_account demoClient) = 1000" "\<not> a_intentionalClose (c_account demoClient)" "\<not> refusal 1006"
    by (simp_all add: demoClient_def newClient_def newAccount_def refusal_def)
  from reconnect_backoff [OF this refl, of demoWorld 5 4] reconnect_backoff [OF this refl, of demoWorld 5 9] show ?thesis by simp
qed

section \<open>A refused sign-in\<close>

lemma hello_sent:
  assumes "c_connected c"
  shows "\<exists>h. c_sent (uploadPublicKey c) = c_sent c @ [Hello h] \<and> (\<not> a_registering (c_account c) \<longrightarrow> he_dobVerifier h = [])"
  using assms unfolding uploadPublicKey_def Let_def by (simp add: sendFrame_def)

lemma hello_goes_first:
  assumes "c_connected c"
  obtains h rest where "c_sent (completeHello W now c) = c_sent c @ Hello h # rest" "\<not> a_registering (c_account c) \<Longrightarrow> he_dobVerifier h = []"
proof -
  let ?u = "uploadPublicKey (onAccount (\<lambda>a. a\<lparr>a_saltTimer := False\<rparr>) c)"
  obtain h where h: "c_sent ?u = c_sent c @ [Hello h]" "\<not> a_registering (c_account c) \<longrightarrow> he_dobVerifier h = []"
    using hello_sent [of "onAccount (\<lambda>a. a\<lparr>a_saltTimer := False\<rparr>) c"] assms by auto
  moreover obtain fs where "c_sent (flushOutbox W now ?u) = c_sent ?u @ fs" using op.drained [of ?u W now] by (auto simp: no_opener_def)
  moreover obtain gs where "c_sent (completeHello W now c) = c_sent (flushOutbox W now ?u) @ gs"
    using timer_changes(2) [of "flushOutbox W now ?u" W now] by (auto simp: completeHello_def pcs_change_def)
  ultimately show thesis using that by simp
qed

lemma derive_locally_kept [simp]:
  "a_registering (c_account (deriveVerifierLocally W c)) = a_registering (c_account c)" "c_connected (deriveVerifierLocally W c) = c_connected c"
  "c_nick (deriveVerifierLocally W c) = c_nick c" "c_sent (deriveVerifierLocally W c) = c_sent c"
  by (auto simp: deriveVerifierLocally_def boxDeriveVerifier_def setSetting_def Let_def split: option.split)

lemma connected_account:
  assumes "a_password (c_account c) \<noteq> []"
  shows "c_connected (onConnected W now c)" "a_password (c_account (onConnected W now c)) = a_password (c_account c)"
    "a_registering (c_account (onConnected W now c)) = a_registering (c_account c)"
  using assms by (auto simp: onConnected_def beginAuthHandshake_def describeTlsSession_def startKick_def Let_def)

text \<open>A sign-in refused for a wrong password, a taken name or another device ends the session: the
  client forgets the password and does not dial again. A sign-in refused because a new account states no
  birthday (code 4003 of the relay) is retried instead, although nothing has changed: the client arms its
  reconnection and, once connected, signs in again without a birthday, since only the first sign-in
  of a registration carries one.\<close>

theorem refused_without_birthday_retries:
  assumes c: "\<not> a_intentionalClose (c_account c)" "a_password (c_account c) \<noteq> []"
    and e: "e = onConnected W t2 (retry W t1 4003 (uploadPublicKey c))"
  shows "(refusal code \<longrightarrow> a_password (c_account (onDisconnected W t1 (uploadPublicKey c) code)) = [] \<and>
      a_reconnectTimer (c_account (onDisconnected W t1 (uploadPublicKey c) code)) = None) \<and>
    a_reconnectTimer (c_account (onDisconnected W t1 (uploadPublicKey c) 4003)) \<noteq> None \<and>
    (\<exists>h rest. c_sent (receiveAuthSalt W t3 e None) = c_sent e @ Hello h # rest \<and> he_dobVerifier h = [])"
proof -
  let ?u = "uploadPublicKey c"
  have u: "\<not> a_intentionalClose (c_account ?u)" "a_password (c_account ?u) \<noteq> []" "\<not> a_registering (c_account ?u)"
    using c by (simp_all add: uploadPublicKey_def Let_def)
  have r: "a_password (c_account (retry W t1 4003 ?u)) \<noteq> []" "\<not> a_registering (c_account (retry W t1 4003 ?u))"
    using u by (simp_all add: retry_def tryReconnect_def onDisconnected_def Let_def)
  note e' = connected_account [OF r(1), of W t2, folded e]
  obtain h rest where "c_sent (receiveAuthSalt W t3 e None) = c_sent e @ Hello h # rest" "he_dobVerifier h = []"
    using hello_goes_first [of "deriveVerifierLocally W e" W t3] e' r by (auto simp: receiveAuthSalt_def)
  moreover have "a_reconnectTimer (c_account (onDisconnected W t1 ?u 4003)) \<noteq> None"
    using u(1) by (simp add: onDisconnected_def Let_def)
  moreover have "a_password (c_account (onDisconnected W t1 ?u code)) = [] \<and> a_reconnectTimer (c_account (onDisconnected W t1 ?u code)) = None"
    if "refusal code" using that by (auto simp: refusal_def onDisconnected_def logout_eq Let_def)
  ultimately show ?thesis by blast
qed

section \<open>A frame is opened at most once\<close>

lemma key_steps [simp]:
  "c_nick (sendVerifyResync now c p) = c_nick c" "c_seenFrames (sendVerifyResync now c p) = c_seenFrames c" "c_peerKeys (sendVerifyResync now c p) = c_peerKeys c"
  "c_nick (systemLine W now c p l) = c_nick c" "c_seenFrames (systemLine W now c p l) = c_seenFrames c" "c_peerKeys (systemLine W now c p l) = c_peerKeys c"
  "c_nick (resetPcsFor c p) = c_nick c" "c_seenFrames (resetPcsFor c p) = c_seenFrames c" "c_peerKeys (resetPcsFor c p) = c_peerKeys c"
  by (auto simp: sendVerifyResync_def systemLine_def resetPcsFor_def releasePing_def Let_def)

lemma mk_flag: "memory_kept c (flagKeyChange W now c peer)"
  by (auto simp: flagKeyChange_def memory_kept_def Let_def)

lemma mk_learn: "memory_kept c (fst (learnKey W now c peer published statedType))"
proof -
  have forget: "memory_kept c (forgetPeer c peer)" for c by (auto simp: forgetPeer_def memory_kept_def)
  have flagged: "memory_kept c (flagKeyChange W now d peer)" if "memory_kept c d" for c d
    by (rule mk.trans [OF that mk_flag])
  have forgot: "memory_kept c (flagKeyChange W now (forgetPeer d peer) peer)" if "memory_kept c d" for c d
    by (rule flagged [OF mk.trans [OF that forget]])
  have resend: "memory_kept c (maybeResendVerifyAck now c peer)" for c
    by (simp add: maybeResendVerifyAck_def mk.ack_sent mk.refl)
  have "memory_kept c (c\<lparr>c_peerKeys := (c_peerKeys c)(peer \<mapsto> pub), c_crypto := b\<rparr>)" for c pub b by (auto simp: memory_kept_def)
  then have "memory_kept c (adoptKey W now c peer pub)" for c pub
    unfolding adoptKey_def Let_def case_prod_beta by (intro mk.trans [OF _ resend]) (auto intro!: flagged forgot)
  then have "memory_kept (c\<lparr>c_peerEdKeys := x\<rparr>) (adoptKey W now (c\<lparr>c_peerEdKeys := x\<rparr>) peer pub)" for x pub .
  moreover have "memory_kept c (c\<lparr>c_peerEdKeys := x\<rparr>)" for x by (simp add: memory_kept_def)
  ultimately have "memory_kept c (adoptKey W now (c\<lparr>c_peerEdKeys := x\<rparr>) peer pub)" for x pub using mk.trans by blast
  then show ?thesis by (auto simp: learnKey_def Let_def mk.refl split: option.split)
qed

lemma mk_drain: "memory_kept c (drainIfConnected W now c)"
  by (simp add: drainIfConnected_def mk.drained mk.refl)

lemma mk_keys: "memory_kept c (receiveKeys W now c entries keyTypes)" "memory_kept c (receiveKey W now c nick published statedType)"
proof -
  have "memory_kept c (detectRelay W c entries)" "memory_kept c (enrollIfPending W c)" for c
    by (auto simp: detectRelay_def enrollIfPending_def enrollLogin_def memory_kept_def Let_def split: option.split)
  then have start: "memory_kept c (enrollIfPending W (if keyTypes = None then detectRelay W c entries else c))"
    by (cases "keyTypes = None") (auto intro: mk.trans)
  have "memory_kept c ((\<lambda>(peer, published) c. if c_nick c \<noteq> [] \<and> peer = c_nick c then c
      else fst (learnKey W now c peer published (valueOr [] types peer))) x c)" for c types x
    by (auto simp: mk.refl mk_learn split: prod.split)
  note learned = mk.fold_change [OF this]
  have "memory_kept c ((\<lambda>(peer, _) c. replayPendingFrames W now c peer) x c)" for c and x :: "qstring \<times> qstring"
    by (auto simp: mk_replay split: prod.split)
  note replayed = mk.fold_change [OF this]
  show "memory_kept c (receiveKeys W now c entries keyTypes)"
    unfolding receiveKeys_def Let_def by (rule mk.trans [OF mk.trans [OF mk.trans [OF start learned] replayed] mk_drain])
  show "memory_kept c (receiveKey W now c nick published statedType)"
    using mk_learn [of c W now nick published statedType] mk.trans [OF _ mk.trans [OF mk_replay mk_drain]]
    by (auto simp: receiveKey_def mk.refl split: prod.split bool.split)
qed

lemma mk_bundle: "memory_kept c (receiveBundle W now c who served)"
proof -
  have "memory_kept c (c\<lparr>c_crypto := x1, c_draws := x2, c_pendingX3dhHeader := x3\<rparr>)" for x1 x2 x3 by (simp add: memory_kept_def)
  then have "memory_kept c (persistSession W now (c\<lparr>c_crypto := x1, c_draws := x2, c_pendingX3dhHeader := x3\<rparr>) who)" for x1 x2 x3
    using mk.persist mk.trans by blast
  moreover have "memory_kept c (c\<lparr>c_crypto := x1, c_draws := x2\<rparr>)" for x1 x2 by (simp add: memory_kept_def)
  ultimately show ?thesis
    unfolding receiveBundle_def Let_def by (auto intro: mk.refl mk.trans [OF _ mk.drained] split: option.split prod.split)
qed

lemma mk_publish: "memory_kept c (publishPrekeysIfNeeded W now c force)"
proof -
  have pool: "memory_kept c (restorePool W now c)" by (simp add: restorePool_def memory_kept_def)
  have "memory_kept c (fst (boxPrekeys W now c))" for c by (simp add: boxPrekeys_def memory_kept_def Let_def case_prod_beta)
  with pool have box: "memory_kept c (fst (boxPrekeys W now (restorePool W now c)))" using mk.trans by blast
  have sent: "memory_kept c (sendFrame (d\<lparr>c_history := h\<rparr>) f)" "memory_kept c (sendFrame d f)" if "memory_kept c d" for d h f
    using that by (simp_all add: memory_kept_def sendFrame_def)
  from box pool show ?thesis
    unfolding publishPrekeysIfNeeded_def Let_def case_prod_beta by (auto intro: mk.refl sent split: bool.split)
qed

lemma mk_presence: "memory_kept c (receivePresence W c names)"
proof -
  have "memory_kept c (if p \<notin> set names then setPeerTyping c p ''idle'' else c)" for p c by (simp add: setPeerTyping_def memory_kept_def)
  then show ?thesis
    unfolding receivePresence_def Let_def by (rule mk.trans [OF mk.received(2) mk.fold_change])
qed

lemma mk_hello: "memory_kept c (completeHello W now c)"
proof -
  have "memory_kept c (uploadPublicKey (onAccount f c))" for f by (simp add: uploadPublicKey_def Let_def memory_kept_def sendFrame_def onAccount_def)
  then have "memory_kept c (flushOutbox W now (uploadPublicKey (onAccount f c)))" for f using mk.drained mk.trans by blast
  moreover have "memory_kept c (healPeer W now p c)" for p c
  proof -
    have "memory_kept d (d\<lparr>c_healPending := x\<rparr>)" "memory_kept d ((markRekeyPingSent now d p)\<lparr>c_healPending := x\<rparr>)" for d x
      by (simp_all add: memory_kept_def markRekeyPingSent_def)
    then show ?thesis
      using mk.transmit [of c W now p False]
      by (auto simp: healPeer_def Let_def mk.refl intro: mk.trans split: prod.splits bool.split)
  qed
  then have "memory_kept c (reestablishPcsForAll W now c)" for c
    using mk.fold_change [of "healPeer W now" c "w_values W (dom (c_peerKeys c))"]
    by (auto simp: reestablishPcsForAll_def startKick_def memory_kept_def Let_def)
  ultimately show ?thesis unfolding completeHello_def using mk.trans by blast
qed

lemma mk_server: "memory_kept c (handleServerFrame W now c f)"
proof (cases f)
  case (AuthSalt salt)
  have "memory_kept c (deriveVerifierLocally W c)"
    by (auto simp: deriveVerifierLocally_def boxDeriveVerifier_def setSetting_def onAccount_def memory_kept_def Let_def split: option.split)
  moreover have "memory_kept c (setSetting k v (onAccount g c))" for k v g by (simp add: setSetting_def onAccount_def memory_kept_def)
  ultimately show ?thesis
    using AuthSalt by (auto simp: receiveAuthSalt_def intro!: mk.refl mk.trans [OF _ mk_hello] split: option.split list.split)
next
  case (PrekeysAck n)
  then show ?thesis by (simp add: receivePrekeysAck_def mk_publish mk.refl)
qed (simp_all add: mk_presence mk_bundle mk_keys mk_frame)


section \<open>Small instances\<close>

definition demoAccount :: Account where
  "demoAccount = newAccount\<lparr>a_password := ''pw''\<rparr>"

lemma demoAccount_facts [simp]: "a_password demoAccount = ''pw''" "\<not> a_intentionalClose demoAccount"
  by (simp_all add: demoAccount_def newAccount_def)

lemma demo_kept [simp]:
  "c_crypto (demoOpener\<lparr>c_account := a\<rparr>) = demoSeedBox (replicate 32 4)" "c_sent (demoOpener\<lparr>c_account := a\<rparr>) = []"
  "c_history (demoOpener\<lparr>c_account := a\<rparr>) = demoStore" "c_nick (demoOpener\<lparr>c_account := a\<rparr>) = ''carol''"
  by (simp_all add: demoOpener_def newClient_def)

lemma demoStore_prekeys: "loadPrekeys demoStore = []"
  by (simp add: demoStore_def openStore_def newHistoryStore_def closeIfOpen_def db_def setDb_def loadPrekeys_def migrate_def Let_def)
    (simp add: emptyDb_def)

theorem prekeys_only_offered_before_login_witness:
  "\<exists>spk sig opks. c_sent (onConnected (demoNet []) 7 (demoOpener\<lparr>c_account := demoAccount\<rparr>)) = [PublishPrekeys spk sig opks 7, AuthBegin ''carol''] \<and>
     c_sent (onConnected (demoNet []) 9 ((onConnected (demoNet []) 7 (demoOpener\<lparr>c_account := demoAccount\<rparr>))\<lparr>c_sent := []\<rparr>)) =
       [AuthBegin (c_nick (onConnected (demoNet []) 7 (demoOpener\<lparr>c_account := demoAccount\<rparr>)))]"
proof -
  let ?c = "demoOpener\<lparr>c_account := demoAccount\<rparr>" and ?W = "demoNet []"
  have pw: "a_password (c_account ((onConnected ?W 7 ?c)\<lparr>c_sent := []\<rparr>)) \<noteq> []" using connected_account(2) [of ?c ?W 7] by simp
  show ?thesis
    using prekeys_only_offered_before_login [where W = ?W and c = ?c and now = 7 and later = 9 and d = "(onConnected ?W 7 ?c)\<lparr>c_sent := []\<rparr>",
        OF _ _ _ demoNet_laws(7)] pw
    by (simp add: demoNet_laws(1) demo_laws demo_identity_law demo_seed_box demoStore_prekeys kSpkMaxAgeMs_def)
qed

definition demoAged :: ChatClient where
  "demoAged = demoKnown\<lparr>c_account := demoAccount\<rparr>"

theorem rotation_on_connect_loses_grace_witness:
  "chooseSpkPriv (c_crypto (onConnected (demoNet []) 604801000 demoAged)) (m_spkPub demoPrekeyBox) = None"
proof -
  have c: "c_crypto demoAged = demoPrekeyBox" "c_draws demoAged = 3" "c_account demoAged = demoAccount"
    by (simp_all add: demoAged_def demoKnown_def newClient_def)
  have rnd: "w_rnd (demoNet []) i 32 = replicate 32 (of_nat (i + 4))" for i by (simp add: demoNet_def demoWorld_def)
  have "scalarmult_base demo (replicate 32 7) \<noteq> scalarmult_base demo (replicate 32 5)" "scalarmult_base demo (replicate 32 8) \<noteq> scalarmult_base demo (replicate 32 5)"
    by (simp_all add: demo_def)
  moreover have "m_spkPub demoPrekeyBox = scalarmult_base demo (replicate 32 5)" "m_nextOpkId demoPrekeyBox = 3" "m_spkCreatedMs demoPrekeyBox = 1000"
    by (simp_all add: demoPrekeyBox_eq)
  ultimately show ?thesis
    using rotation_on_connect_loses_grace [where W = "demoNet []" and c = demoAged and now = 604801000, OF _ _ _ demoNet_laws(7) _ _ _ _ _ _ _ refl]
      demoPrekeyBox_ok
    by (simp add: demoNet_laws(1) demo_laws demo_identity_law c rnd kSpkMaxAgeMs_def)
qed

theorem refused_without_birthday_retries_witness:
  "\<exists>h rest. c_sent (receiveAuthSalt demoWorld 9 (onConnected demoWorld 7 (retry demoWorld 5 4003 (uploadPublicKey (demoClient\<lparr>c_account := demoAccount\<rparr>)))) None) =
     c_sent (onConnected demoWorld 7 (retry demoWorld 5 4003 (uploadPublicKey (demoClient\<lparr>c_account := demoAccount\<rparr>)))) @ Hello h # rest \<and>
     he_dobVerifier h = []"
  using refused_without_birthday_retries [of "demoClient\<lparr>c_account := demoAccount\<rparr>" _ demoWorld 7 5, OF _ _ refl] by simp

lemma opened_is_seen: "(peer, w_dh (mf_wire f), w_n (mf_wire f)) \<in> c_seenFrames (openedFrame W now c peer f pt)"
proof -
  let ?c = "c\<lparr>c_seenFrames := insert (peer, w_dh (mf_wire f), w_n (mf_wire f)) (c_seenFrames c)\<rparr>"
  have "openedFrame W now c peer f pt = openedFrame W now ?c peer f pt" by (simp add: openedFrame_def)
  with mk.opened [of ?c W now peer f pt] show ?thesis by (auto simp: memory_kept_def)
qed


theorem user_switch_inherits_prekeys_witness:
  "\<exists>c d. m_spkPriv (c_crypto c) \<noteq> [] \<and> registerAccount (demoNet []) (2025, 1, 1) (logout (demoNet []) c) ''wss://r'' ''dave'' ''pw'' [] = (d, Inr ()) \<and>
     c_sent (onConnected (demoNet []) 9 d) = c_sent d @ [AuthBegin (c_nick d)] \<and>
     m_spkPriv (c_crypto (onConnected (demoNet []) 9 d)) = m_spkPriv (c_crypto c)"
proof -
  let ?W = "demoNet []"
  obtain b where b: "publishPrekeysIfNeeded ?W 7 demoOpener True = sendFrame (demoOpener\<lparr>c_crypto := b, c_draws := c_draws demoOpener + 33,
      c_history := (if m_ready (c_history demoOpener) then fst (savePrekeys (c_history demoOpener) (serialisePrekeys b)) else c_history demoOpener)\<rparr>)
      (PublishPrekeys (signedPrekeyPublicHex b) (signedPrekeySignatureHex b) (oneTimePrekeyPublicsHex (w_ext ?W) b) 7)"
      "prekeys_ok (w_ext ?W) b" "length (m_opkPriv b) = 32" "m_spkCreatedMs b = 7"
      "m_prevSpkPriv b = (if m_spkPriv (c_crypto demoOpener) = [] then m_prevSpkPriv (c_crypto demoOpener) else m_spkPriv (c_crypto demoOpener))"
    by (rule prekeys_generated [OF _ _ _ demoNet_laws(7) _ _ _ restorePool_current, where force = True and c = demoOpener and now = 7])
      (use demo_laws demo_identity_law demo_seed_box demoStore_prekeys in \<open>simp_all add: demoNet_laws(1) demoOpener_def newClient_def\<close>)
  let ?c = "demoOpener\<lparr>c_crypto := b\<rparr>"
  have dirs: "identityDirs ?W = ''/data'' # [''/local'', ''/config'', ''/share'']" "w_trimmed ?W = id"
    by (simp_all add: demoNet_def demoWorld_def identityDirs_def)
  have "existingEnc ?W (logout ?W ?c) nick = None" "existingRaw ?W (logout ?W ?c) nick = None" for nick
    by (simp_all add: existingEnc_def existingRaw_def logout_eq demoOpener_def newClient_def find_None_iff)
  then obtain d where d: "registerAccount ?W (2025, 1, 1) (logout ?W ?c) ''wss://r'' ''dave'' ''pw'' [] = (d, Inr ())"
    using account_roundtrip [where W = ?W and c = "logout ?W ?c" and nickname = "''dave''" and pw = "''pw''" and today = "(2025, 1, 1)"
        and birthday = "[]" and url = "''wss://r''" and url' = "[]" and now = 0, OF _ _ _ _ _ demoNet_laws(7) dirs(1)]
    by (auto simp: demoNet_laws demo_laws demo_identity_law dirs(2))
  have "m_spkPriv b \<noteq> []" using prekeys_okD(6) [OF b(2)] .
  moreover have "m_prevSpkPriv b = []" using b(5) by (simp add: demoOpener_def newClient_def demo_seed_box)
  ultimately show ?thesis
    using user_switch_inherits_prekeys [of ?c 9 ?W "(2025, 1, 1)" "''wss://r''" "''dave''" "''pw''" "[]" d] d b(3,4)
    by (intro exI [of _ ?c] exI [of _ d]) (simp add: kPrekeyLowWaterMark_def kSpkMaxAgeMs_def)
qed

end
