(* ===== verification/Lock.thy ===== *)
theory Lock
  imports Connection
begin

unbundle bit_operations_syntax

text \<open>
  The application lock, password recovery and login through the vault, and the settings of the user
  interface (\<^verbatim>\<open>client/src/chatclient.cpp\<close>). The calls into the platform are those of theory \<open>AppLock\<close>; a call
  that the platform posts back is the result of the operation that asked for it.

  The lemmas show when the client can be locked at all, that a PIN opens what it locked, what clearing the PIN
  leaves behind, how many dates of birth can be guessed, that recovery brings the enrolled password back, and
  that a dismissed recovery stays armed.
\<close>

section \<open>Settings\<close>

definition settingText :: "ChatClient \<Rightarrow> qstring \<Rightarrow> qstring" where
  "settingText c k = valueOr [] (a_settings (c_account c)) k"

definition removeSetting :: "qstring \<Rightarrow> ChatClient \<Rightarrow> ChatClient" where
  "removeSetting k c = onAccount (\<lambda>a. a\<lparr>a_settings := (a_settings a)(k := None)\<rparr>) c"

definition setFlag :: "qstring \<Rightarrow> bool \<Rightarrow> ChatClient \<Rightarrow> ChatClient" where
  "setFlag k v c = onAccount (\<lambda>a. a\<lparr>a_flags := (a_flags a)(k \<mapsto> v)\<rparr>) c"

definition setNumber :: "qstring \<Rightarrow> int option \<Rightarrow> ChatClient \<Rightarrow> ChatClient" where
  "setNumber k v c = onAccount (\<lambda>a. a\<lparr>a_numbers := (a_numbers a)(k := v)\<rparr>) c"

definition lastNickname :: "ChatClient \<Rightarrow> qstring" where "lastNickname c = settingText c ''login/lastNickname''"
definition lastServerUrl :: "ChatClient \<Rightarrow> qstring" where "lastServerUrl c = settingText c ''login/lastServerUrl''"

section \<open>The lock\<close>

datatype lock_error = PinRequired | PinSetFailed | NoDeviceCredential | ResetNoAccount | ResetWrongPassword

definition hasPin :: "ChatClient \<Rightarrow> bool" where
  "hasPin c \<longleftrightarrow> settingText c ''lock/pinVerifier'' \<noteq> [] \<and> settingText c ''lock/pinSalt'' \<noteq> []"

definition lockEnabled :: "ChatClient \<Rightarrow> bool" where
  "lockEnabled c = valueOr False (a_flags (c_account c)) ''lock/enabled''"

definition usesOsCredential :: "world \<Rightarrow> bool" where "usesOsCredential W = w_android W"

definition unlocked :: "ChatClient \<Rightarrow> ChatClient" where
  "unlocked c = onAccount (\<lambda>a. a\<lparr>a_locked := False\<rparr>) c"

definition removePin :: "ChatClient \<Rightarrow> ChatClient" where
  "removePin c = removeSetting ''lock/pinSalt'' (removeSetting ''lock/pinVerifier'' c)"

definition storePin :: "world \<Rightarrow> ChatClient \<Rightarrow> qstring \<Rightarrow> ChatClient \<times> (lock_error + unit)" where
  "storePin W c pin =
     (case boxDeriveVerifier W c pin of
        (c1, None) \<Rightarrow> (c1, Inl PinSetFailed)
      | (c1, Some (v, s)) \<Rightarrow> (setSetting ''lock/pinSalt'' s (setSetting ''lock/pinVerifier'' v c1), Inr ()))"

definition setPin :: "world \<Rightarrow> ChatClient \<Rightarrow> qstring \<Rightarrow> ChatClient \<times> (lock_error + unit)" where
  "setPin W c pin = (if pin = [] then (unlocked (removePin c), Inr ()) else storePin W c pin)"

definition clearPin :: "world \<Rightarrow> ChatClient \<Rightarrow> ChatClient" where "clearPin W c = fst (setPin W c [])"

definition setLockEnabled :: "world \<Rightarrow> ChatClient \<Rightarrow> bool \<Rightarrow> qstring \<Rightarrow> ChatClient \<times> (lock_error + unit)" where
  "setLockEnabled W c enabled pin =
     (if \<not> enabled then (unlocked (removePin (setFlag ''lock/enabled'' False c)), Inr ())
      else if w_android W then
        (case biometricAvailable W c of
           (c1, False) \<Rightarrow> (c1, Inl NoDeviceCredential)
         | (c1, True) \<Rightarrow> (removePin (setFlag ''lock/enabled'' True c1), Inr ()))
      else if pin = [] then (c, Inl PinRequired)
      else case storePin W c pin of
             (c1, Inl e) \<Rightarrow> (c1, Inl e)
           | (c1, Inr _) \<Rightarrow> (setFlag ''lock/enabled'' True c1, Inr ()))"

definition resetLockWithPassword :: "world \<Rightarrow> ChatClient \<Rightarrow> qstring \<Rightarrow> ChatClient \<times> (lock_error + unit)" where
  "resetLockWithPassword W c password =
     (let nick = (if c_nick c = [] then lastNickname c else c_nick c)
      in if nick = [] then (c, Inl ResetNoAccount)
         else case existingEnc W c nick of
                None \<Rightarrow> (c, Inl ResetNoAccount)
              | Some encPath \<Rightarrow>
                  if \<not> snd (loadIdentityEncrypted (w_ext W) newCryptoBox (c_files c encPath) password) then (c, Inl ResetWrongPassword)
                  else (unlocked (removePin (setFlag ''lock/enabled'' False c)), Inr ()))"

definition verifyPin :: "world \<Rightarrow> int \<Rightarrow> ChatClient \<Rightarrow> qstring \<Rightarrow> ChatClient \<times> bool" where
  "verifyPin W now c pin =
     (let storedV = settingText c ''lock/pinVerifier''; storedS = settingText c ''lock/pinSalt''
      in if storedV = [] \<or> storedS = [] then (c, False)
         else
           (let candidate = deriveVerifierWithSalt (w_ext W) pin storedS;
                ok = (candidate \<noteq> [] \<and> length candidate = length storedV \<and> latin1 candidate = latin1 storedV)
            in if ok \<and> a_locked (c_account c) then (reestablishPcsForAll W now (unlocked c), ok) else (c, ok)))"

definition lockNow :: "ChatClient \<Rightarrow> ChatClient" where
  "lockNow c =
     (if \<not> lockEnabled c then c
      else if \<not> a_sessionActive (c_account c) then c
      else onAccount (\<lambda>a. a\<lparr>a_locked := True\<rparr>) c)"

text \<open>Whether the platform posts \<^verbatim>\<open>onBiometricSucceeded\<close>.\<close>

definition requestBiometricUnlock :: "world \<Rightarrow> ChatClient \<Rightarrow> bool" where
  "requestBiometricUnlock W c = (if \<not> a_locked (c_account c) \<or> \<not> lockEnabled c then False else requestUnlock W)"

definition onBiometricSucceeded :: "world \<Rightarrow> int \<Rightarrow> ChatClient \<Rightarrow> ChatClient" where
  "onBiometricSucceeded W now c = (if a_locked (c_account c) then reestablishPcsForAll W now (unlocked c) else c)"

datatype app_state = ApplicationSuspended | ApplicationInactive | ApplicationActive | ApplicationHidden

definition onApplicationStateChanged :: "world \<Rightarrow> int \<Rightarrow> ChatClient \<Rightarrow> app_state \<Rightarrow> ChatClient" where
  "onApplicationStateChanged W now c state =
     (if w_android W then
        (case state of
           ApplicationSuspended \<Rightarrow> lockNow (persistAllSessions W now c)
         | ApplicationInactive \<Rightarrow> lockNow (persistAllSessions W now c)
         | ApplicationActive \<Rightarrow> restoreAllSessions W c
         | ApplicationHidden \<Rightarrow> c)
      else c)"

section \<open>Password recovery\<close>

text \<open>The comparison looks at every character.\<close>

definition sameBytes :: "bytes \<Rightarrow> bytes \<Rightarrow> bool" where
  "sameBytes a b \<longleftrightarrow> fold (\<lambda>(x, y) diff. diff OR (x XOR y)) (zip a b) 0 = 0"

definition storeBirthdayVerifier :: "world \<Rightarrow> ChatClient \<Rightarrow> qstring \<Rightarrow> qstring \<Rightarrow> ChatClient" where
  "storeBirthdayVerifier W c nick isoDate =
     (case boxDeriveVerifier W c isoDate of
        (c1, None) \<Rightarrow> c1
      | (c1, Some (v, s)) \<Rightarrow> setSetting (recoveryKey nick ''dobSalt'') s (setSetting (recoveryKey nick ''dobVerifier'') v c1))"

definition checkBirthday :: "world \<Rightarrow> ChatClient \<Rightarrow> qstring \<Rightarrow> qstring \<Rightarrow> bool" where
  "checkBirthday W c nick isoDate =
     (let storedV = settingText c (recoveryKey nick ''dobVerifier''); storedS = settingText c (recoveryKey nick ''dobSalt'')
      in if storedV = [] \<or> storedS = [] then False
         else
           (let candidate = deriveVerifierWithSalt (w_ext W) isoDate storedS
            in if candidate = [] \<or> length candidate \<noteq> length storedV then False
               else sameBytes (latin1 candidate) (latin1 storedV)))"

definition passwordRecoveryAvailable :: "world \<Rightarrow> ChatClient \<Rightarrow> qstring \<Rightarrow> bool" where
  "passwordRecoveryAvailable W c nickname =
     (let n = w_trimmed W nickname
      in if n = [] then False
         else if \<not> hasLoginEnrolled c n then False
         else settingText c (recoveryKey n ''dobVerifier'') \<noteq> [])"

text \<open>How a request for recovery ends: refused with a message, or with the platform's prompt and the call it
  posts, if it posts one.\<close>

datatype recovery =
    NoUserName
  | NotADate
  | LockedFor int \<comment> \<open>minutes\<close>
  | NotEnrolled
  | TooManyAttempts
  | NoMatch
  | Prompted "(qstring \<times> qstring) option"

definition recoverPassword ::
  "world \<Rightarrow> int \<Rightarrow> int \<times> int \<times> int \<Rightarrow> ChatClient \<Rightarrow> qstring \<Rightarrow> qstring \<Rightarrow> qstring \<Rightarrow> ChatClient \<times> recovery" where
  "recoverPassword W nowSecs today c serverUrl nickname birthday =
     (let n = w_trimmed W nickname; iso = normalizeBirthday W today birthday;
          failKey = recoveryKey n ''failures''; untilKey = recoveryKey n ''lockedUntil'';
          lockedUntil = valueOr 0 (a_numbers (c_account c)) untilKey
      in if n = [] then (c, NoUserName)
         else if iso = [] then (c, NotADate)
         else if nowSecs < lockedUntil then (c, LockedFor ((lockedUntil - nowSecs + 59) div 60))
         else if \<not> hasLoginEnrolled c n then (c, NotEnrolled)
         else if \<not> checkBirthday W c n iso then
           (let failures = valueOr 0 (a_numbers (c_account c)) failKey + 1
            in if failures \<ge> 5 then (setNumber failKey (Some 0) (setNumber untilKey (Some (nowSecs + 15 * 60)) c), TooManyAttempts)
               else (setNumber failKey (Some failures) c, NoMatch))
         else
           (let c1 = setNumber untilKey None (setNumber failKey (Some 0) c);
                url = (if w_trimmed W serverUrl = [] then lastServerUrl c1 else w_trimmed W serverUrl);
                c2 = onAccount (\<lambda>a. a\<lparr>a_revealOnly := True, a_bioLoginServerUrl := url\<rparr>) c1
            in (c2, Prompted (loginWithBiometric W c2 n))))"

section \<open>Login through the vault\<close>

definition biometricLogin :: "world \<Rightarrow> ChatClient \<Rightarrow> qstring \<Rightarrow> qstring \<Rightarrow> ChatClient \<times> (qstring \<times> qstring) option" where
  "biometricLogin W c serverUrl nick =
     (let n = w_trimmed W nick
      in if n = [] \<or> w_trimmed W serverUrl = [] then (c, None)
         else if \<not> hasLoginEnrolled c n then (c, None)
         else (let c1 = onAccount (\<lambda>a. a\<lparr>a_bioLoginServerUrl := w_trimmed W serverUrl\<rparr>) c in (c1, loginWithBiometric W c1 n)))"

definition requestBiometricLoginEnroll :: "ChatClient \<Rightarrow> qstring \<Rightarrow> ChatClient" where
  "requestBiometricLoginEnroll c password =
     onAccount (\<lambda>a. a\<lparr>a_bioEnrollPassword := password, a_bioEnrollPending := (password \<noteq> [])\<rparr>) c"

definition disableBiometricLogin :: "world \<Rightarrow> ChatClient \<Rightarrow> qstring \<Rightarrow> ChatClient" where
  "disableBiometricLogin W c nick = clearLogin c (w_trimmed W nick)"

datatype vault_outcome = NothingReleased | Ignored | Revealed qstring | LoginTried "account_error + unit"

definition onBiometricLoginUnlocked :: "world \<Rightarrow> int \<Rightarrow> ChatClient \<Rightarrow> qstring \<Rightarrow> qstring \<Rightarrow> ChatClient \<times> vault_outcome" where
  "onBiometricLoginUnlocked W now c nick password =
     (let revealOnly = a_revealOnly (c_account c); c0 = onAccount (\<lambda>a. a\<lparr>a_revealOnly := False\<rparr>) c
      in if password = [] then (if revealOnly then (c0, NothingReleased) else (c, Ignored))
         else if revealOnly then (c0, Revealed password)
         else
           (let url = (if a_bioLoginServerUrl (c_account c) = [] then lastServerUrl c else a_bioLoginServerUrl (c_account c));
                n = (if w_trimmed W nick = [] then c_nick c else w_trimmed W nick)
            in if url = [] \<or> n = [] then (c, Ignored)
               else case login W now c url n password of (c1, r) \<Rightarrow> (c1, LoginTried r)))"

section \<open>Appearance\<close>

definition kThemePresetCount :: int where "kThemePresetCount = 6"

text \<open>FNV-1a over the bytes of the name.\<close>

definition fnv1a :: "bytes \<Rightarrow> u32" where
  "fnv1a bs = fold (\<lambda>b h. (h XOR ucast b) * 16777619) bs 2166136261"

definition themeIndex :: "world \<Rightarrow> ChatClient \<Rightarrow> int" where
  "themeIndex W c =
     (if c_nick c = [] then 0
      else
        (let hashed = int (unat (fnv1a (toUtf8 (w_ext W) (c_nick c)) mod 6))
         in case a_numbers (c_account c) (''theme/'' @ c_nick c) of
              None \<Rightarrow> hashed
            | Some v \<Rightarrow> if v \<ge> 0 \<and> v < kThemePresetCount then v else hashed))"

definition setThemeIndex :: "ChatClient \<Rightarrow> int \<Rightarrow> ChatClient" where
  "setThemeIndex c index =
     (if index < 0 then c else if c_nick c \<noteq> [] then setNumber (''theme/'' @ c_nick c) (Some index) c else c)"

definition darkMode :: "ChatClient \<Rightarrow> bool" where
  "darkMode c = valueOr True (a_flags (c_account c)) ''ui/darkMode''"

definition setDarkMode :: "ChatClient \<Rightarrow> bool \<Rightarrow> ChatClient" where
  "setDarkMode c dark = (if dark = darkMode c then c else setFlag ''ui/darkMode'' dark c)"

definition myFingerprint :: "world \<Rightarrow> ChatClient \<Rightarrow> qstring" where
  "myFingerprint W c = safetyNumber (w_ext W) (publicKeyHex (c_crypto c)) (publicKeyHex (c_crypto c))"


section \<open>The state of the lock\<close>

lemmas lock_defs = setSetting_def removeSetting_def setFlag_def setNumber_def removePin_def unlocked_def onAccount_def settingText_def
  boxDeriveVerifier_def

lemma lock_fields [simp]:
  "c_account (unlocked c) = (c_account c)\<lparr>a_locked := False\<rparr>"
  "c_account (removePin c) = (c_account c)\<lparr>a_settings := (a_settings (c_account c))(''lock/pinVerifier'' := None, ''lock/pinSalt'' := None)\<rparr>"
  "c_account (setFlag k v c) = (c_account c)\<lparr>a_flags := (a_flags (c_account c))(k \<mapsto> v)\<rparr>"
  "c_account (setNumber k n c) = (c_account c)\<lparr>a_numbers := (a_numbers (c_account c))(k := n)\<rparr>"
  "c_account (setSetting k t c) = (c_account c)\<lparr>a_settings := (a_settings (c_account c))(k \<mapsto> t)\<rparr>"
  "c_account (fst (boxDeriveVerifier W c pin)) = c_account c"
  by (simp_all add: lock_defs fun_upd_twist)

text \<open>Sending and the heartbeat leave the account alone.\<close>

definition account_same :: "ChatClient \<Rightarrow> ChatClient \<Rightarrow> bool" where
  "account_same c c' \<longleftrightarrow> c_account c' = c_account c"

interpretation as: client_change account_same
  by unfold_locales (auto simp: account_same_def idle_def boxEncrypt_def sendFrame_def case_prod_beta Let_def split: prod.split)

lemma account_reestablish [simp]: "c_account (reestablishPcsForAll W now c) = c_account c"
proof -
  have "account_same c (healPeer W now p c)" for p c
    using as.transmit [of c W now p False]
    by (auto simp: healPeer_def Let_def account_same_def markRekeyPingSent_def split: prod.splits bool.split)
  from as.fold_change [of "healPeer W now", OF this] show ?thesis
    by (auto simp: reestablishPcsForAll_def account_same_def startKick_def Let_def)
qed

lemma account_sessions [simp]:
  "c_account (persistAllSessions W now c) = c_account c" "c_account (restoreAllSessions W c) = c_account c"
proof -
  have "account_same c (persistAllSessions W now c)"
    unfolding persistAllSessions_def by (auto simp: Let_def as.refl intro!: as.fold_change as.updates)
  then show "c_account (persistAllSessions W now c) = c_account c" by (simp add: account_same_def)
  have "account_same c (restoreSession W c p)" for c p by (simp add: restoreSession_def account_same_def Let_def case_prod_beta)
  then have "account_same c (fold (\<lambda>p c. restoreSession W c p) ps c)" for ps by (rule as.fold_change)
  then show "c_account (restoreAllSessions W c) = c_account c" by (simp add: restoreAllSessions_def account_same_def)
qed


text \<open>Runs of the calls that touch the lock.\<close>

inductive lock_step :: "world \<Rightarrow> ChatClient \<Rightarrow> ChatClient \<Rightarrow> bool" for W where
  pin: "lock_step W c (fst (setPin W c pin))"
| enable: "lock_step W c (fst (setLockEnabled W c enabled pin))"
| reset: "lock_step W c (fst (resetLockWithPassword W c password))"
| verify: "lock_step W c (fst (verifyPin W now c pin))"
| lock: "lock_step W c (lockNow c)"
| credential: "requestBiometricUnlock W c \<Longrightarrow> lock_step W c (onBiometricSucceeded W now c)"
| app: "lock_step W c (onApplicationStateChanged W now c state)"
| leave: "lock_step W c (logout W c)"

inductive lock_run :: "world \<Rightarrow> ChatClient \<Rightarrow> ChatClient \<Rightarrow> bool" for W where
  start: "lock_run W c c"
| step: "lock_run W c c1 \<Longrightarrow> lock_step W c1 c2 \<Longrightarrow> lock_run W c c2"

definition lock_inv :: "ChatClient \<Rightarrow> bool" where
  "lock_inv c \<longleftrightarrow> (a_locked (c_account c) \<longrightarrow> lockEnabled c \<and> a_sessionActive (c_account c))"

lemma storePin_account:
  "\<exists>s. c_account (fst (storePin W c pin)) = (c_account c)\<lparr>a_settings := s\<rparr>"
  by (auto simp: storePin_def split: prod.splits option.splits dest!: arg_cong [where f = "\<lambda>x. c_account (fst x)"]
      intro: exI [of _ "a_settings (c_account c)"])

lemma biometricAvailable_account:
  "\<exists>h. c_account (fst (biometricAvailable W c)) = (c_account c)\<lparr>a_helloCached := h\<rparr>"
  by (auto simp: biometricAvailable_def intro: exI [of _ "a_helloCached (c_account c)"])

lemma lock_step_inv: "lock_step W c c' \<Longrightarrow> lock_inv c \<Longrightarrow> lock_inv c'"
proof (induction rule: lock_step.induct)
  case (pin c pin)
  with storePin_account [of W c pin] show ?case by (auto simp: setPin_def lock_inv_def lockEnabled_def)
next
  case (enable c enabled pin)
  with storePin_account [of W c pin] biometricAvailable_account [of W c] show ?case
    by (auto simp: setLockEnabled_def lock_inv_def lockEnabled_def valueOr_def
        dest!: arg_cong [where f = "\<lambda>x. c_account (fst x)"] split: prod.split bool.split sum.split)
next
  case (verify c now pin)
  then show ?case by (simp add: verifyPin_def lock_inv_def lockEnabled_def Let_def)
next
  case (reset c password)
  then show ?case by (auto simp: resetLockWithPassword_def lock_inv_def lockEnabled_def Let_def split: option.split)
qed (auto simp: lock_inv_def lockEnabled_def lockNow_def onBiometricSucceeded_def onApplicationStateChanged_def logout_def Let_def
    onAccount_def clearPcsState_def split: app_state.split)

text \<open>C28 (invariant). In any run of the calls that touch the lock, the client is locked only while the lock is turned
  on and a session is active: turning the lock off, resetting it with the password and logging out all leave
  it open.\<close>

theorem locked_only_when_enabled:
  assumes "lock_run W c c'" "\<not> a_locked (c_account c)"
  shows "a_locked (c_account c') \<longrightarrow> lockEnabled c' \<and> a_sessionActive (c_account c')"
proof -
  have "lock_inv c" using assms(2) by (simp add: lock_inv_def)
  with assms(1) have "lock_inv c'" by (induction rule: lock_run.induct) (auto dest: lock_step_inv)
  then show ?thesis by (simp add: lock_inv_def)
qed


section \<open>The PIN\<close>

lemma toHex_nonempty: "b \<noteq> [] \<Longrightarrow> toHex b \<noteq> []"
  by (cases b) (simp_all add: toHex_def)

lemma derived_verifier:
  assumes "pwhash_law E" "hex_law E" "length salt = 16"
  shows "\<exists>v s. deriveVerifier E t salt = Some (v, s) \<and> v \<noteq> [] \<and> s \<noteq> [] \<and> deriveVerifierWithSalt E t s = v"
proof -
  obtain h where h: "argon2id32 E kVerifyCtx (toUtf8 E t) salt = Some h" "length h = 32"
    using assms(1,3) by (auto simp: pwhash_law_def argon2id32_def)
  then have "take 32 h \<noteq> []" "salt \<noteq> []" using assms(3) by auto
  with h have d: "deriveVerifier E t salt = Some (toHex (take 32 h), toHex salt)" "toHex (take 32 h) \<noteq> []" "toHex salt \<noteq> []"
    by (simp_all add: deriveVerifier_def toHex_nonempty)
  with verifier_roundtrip [OF assms(2,3) d(1)] show ?thesis by blast
qed


lemma pin_stored:
  assumes laws: "pwhash_law (w_ext W)" "hex_law (w_ext W)" "draw_law W"
  obtains c1 v s where "storePin W c pin = (c1, Inr ())" "v \<noteq> []" "s \<noteq> []" "deriveVerifierWithSalt (w_ext W) pin s = v"
    "c_account c1 = (c_account c)\<lparr>a_settings := (a_settings (c_account c))(''lock/pinVerifier'' \<mapsto> v, ''lock/pinSalt'' \<mapsto> s)\<rparr>"
proof -
  have "length (w_rnd W (c_draws c) 16) = 16" using laws(3) by (simp add: draw_law_def)
  from derived_verifier [OF laws(1,2) this, of pin] obtain v s where
    "deriveVerifier (w_ext W) pin (w_rnd W (c_draws c) 16) = Some (v, s)" "v \<noteq> []" "s \<noteq> []" "deriveVerifierWithSalt (w_ext W) pin s = v" by blast
  then show thesis
    by (intro that [of "setSetting ''lock/pinSalt'' s (setSetting ''lock/pinVerifier'' v (c\<lparr>c_draws := c_draws c + 1\<rparr>))" v s])
      (simp_all add: storePin_def boxDeriveVerifier_def)
qed

lemma verifyPin_locked:
  assumes "a_settings (c_account c) ''lock/pinVerifier'' = Some v" "a_settings (c_account c) ''lock/pinSalt'' = Some s" "v \<noteq> []" "s \<noteq> []"
    "a_locked (c_account c)"
  shows "snd (verifyPin W now c pin) \<longleftrightarrow> (let d = deriveVerifierWithSalt (w_ext W) pin s in length d = length v \<and> latin1 d = latin1 v)"
    "a_locked (c_account (fst (verifyPin W now c pin))) \<longleftrightarrow> \<not> snd (verifyPin W now c pin)"
  using assms by (auto simp: verifyPin_def settingText_def valueOr_def Let_def)

text \<open>On the desktop the lock can be turned on with any non-empty PIN. Once a session is active, locking
  then locks, the same PIN opens, and a PIN whose verifier differs does not: the client stays locked and
  its account as it was.\<close>

theorem pin_opens_what_it_locked:
  assumes laws: "pwhash_law (w_ext W)" "hex_law (w_ext W)" "draw_law W"
    and desktop: "\<not> w_android W" "pin \<noteq> []" "a_sessionActive (c_account c)"
  shows "\<exists>c1. setLockEnabled W c True pin = (c1, Inr ()) \<and> a_locked (c_account (lockNow c1)) \<and>
    snd (verifyPin W now (lockNow c1) pin) \<and> \<not> a_locked (c_account (fst (verifyPin W now (lockNow c1) pin))) \<and>
    (\<forall>other. latin1 (deriveVerifierWithSalt (w_ext W) other (settingText c1 ''lock/pinSalt'')) \<noteq> latin1 (settingText c1 ''lock/pinVerifier'') \<longrightarrow>
       \<not> snd (verifyPin W now (lockNow c1) other) \<and> a_locked (c_account (fst (verifyPin W now (lockNow c1) other))))"
proof -
  obtain d v s where d: "storePin W c pin = (d, Inr ())" "v \<noteq> []" "s \<noteq> []" "deriveVerifierWithSalt (w_ext W) pin s = v"
    "c_account d = (c_account c)\<lparr>a_settings := (a_settings (c_account c))(''lock/pinVerifier'' \<mapsto> v, ''lock/pinSalt'' \<mapsto> s)\<rparr>"
    by (rule pin_stored [OF laws])
  define c1 where "c1 = setFlag ''lock/enabled'' True d"
  have set: "setLockEnabled W c True pin = (c1, Inr ())" using desktop d(1) by (simp add: setLockEnabled_def c1_def)
  have stored: "settingText c1 ''lock/pinSalt'' = s" "settingText c1 ''lock/pinVerifier'' = v"
    by (simp_all add: settingText_def c1_def d(5) valueOr_def)
  have "lockEnabled c1" "a_sessionActive (c_account c1)" using desktop(3) by (simp_all add: c1_def d(5) lockEnabled_def valueOr_def)
  then have locked: "c_account (lockNow c1) = (c_account c1)\<lparr>a_locked := True\<rparr>" by (simp add: lockNow_def)
  note opens = verifyPin_locked [of "lockNow c1" v s W now, unfolded locked]
  have keys: "a_settings (c_account c1) ''lock/pinVerifier'' = Some v" "a_settings (c_account c1) ''lock/pinSalt'' = Some s"
    by (simp_all add: c1_def d(5))
  show ?thesis using opens d(2-4) keys locked set stored by (auto simp: Let_def)
qed


definition demoOnline :: ChatClient where
  "demoOnline = onAccount (\<lambda>a. a\<lparr>a_sessionActive := True\<rparr>) demoClient"

lemma demoNet_desktop [simp]: "\<not> w_android (demoNet [])"
  by (simp add: demoNet_def demoWorld_def)

theorem pin_opens_what_it_locked_witness:
  "\<exists>c1. setLockEnabled (demoNet []) demoOnline True ''1234'' = (c1, Inr ()) \<and> a_locked (c_account (lockNow c1)) \<and>
     snd (verifyPin (demoNet []) 5 (lockNow c1) ''1234'')"
proof -
  have "pwhash_law (w_ext (demoNet []))" "hex_law (w_ext (demoNet []))" using demo_laws by (simp_all add: demoNet_laws(1))
  moreover have "a_sessionActive (c_account demoOnline)" by (simp add: demoOnline_def)
  ultimately show ?thesis
    using pin_opens_what_it_locked [OF _ _ demoNet_laws(7) demoNet_desktop, of "''1234''" demoOnline 5] by auto
qed

theorem locked_only_when_enabled_witness:
  "\<exists>c'. lock_run (demoNet []) demoOnline c' \<and> a_locked (c_account c') \<and> lockEnabled c' \<and> a_sessionActive (c_account c')"
proof -
  have laws: "pwhash_law (w_ext (demoNet []))" "hex_law (w_ext (demoNet []))" using demo_laws by (simp_all add: demoNet_laws(1))
  let ?c1 = "fst (setLockEnabled (demoNet []) demoOnline True ''1234'')"
  obtain d v s where "storePin (demoNet []) demoOnline ''1234'' = (d, Inr ())"
      "c_account d = (c_account demoOnline)\<lparr>a_settings := (a_settings (c_account demoOnline))(''lock/pinVerifier'' \<mapsto> v, ''lock/pinSalt'' \<mapsto> s)\<rparr>"
    by (rule pin_stored [OF laws demoNet_laws(7), of demoOnline "''1234''"])
  then have locked: "a_locked (c_account (lockNow ?c1))"
    by (simp add: setLockEnabled_def lockNow_def lockEnabled_def valueOr_def demoOnline_def)
  have run: "lock_run (demoNet []) demoOnline (lockNow ?c1)"
    by (rule lock_run.step [OF lock_run.step [OF lock_run.start lock_step.enable] lock_step.lock])
  have "\<not> a_locked (c_account demoOnline)" by (simp add: demoOnline_def demoClient_def newClient_def newAccount_def)
  from locked_only_when_enabled [OF run this] run locked show ?thesis by blast
qed

text \<open>Clearing the PIN does not turn the lock off: the client still locks, and from then on no PIN opens
  it, since there is none to compare with.\<close>

theorem cleared_pin_locks_out:
  assumes "lockEnabled c" "a_sessionActive (c_account c)"
  shows "\<not> hasPin (clearPin W c) \<and> lockEnabled (clearPin W c) \<and> a_locked (c_account (lockNow (clearPin W c))) \<and>
    (\<forall>now pin. verifyPin W now (lockNow (clearPin W c)) pin = (lockNow (clearPin W c), False))"
  using assms
  by (simp add: clearPin_def setPin_def hasPin_def lockEnabled_def lockNow_def verifyPin_def settingText_def valueOr_def)

theorem cleared_pin_locks_out_witness:
  "a_locked (c_account (lockNow (clearPin (demoNet []) (setFlag ''lock/enabled'' True demoOnline)))) \<and>
   verifyPin (demoNet []) 5 (lockNow (clearPin (demoNet []) (setFlag ''lock/enabled'' True demoOnline))) ''1234'' =
     (lockNow (clearPin (demoNet []) (setFlag ''lock/enabled'' True demoOnline)), False)"
  using cleared_pin_locks_out [of "setFlag ''lock/enabled'' True demoOnline" "demoNet []"]
  by (simp add: lockEnabled_def valueOr_def demoOnline_def)

section \<open>Guessing the date of birth\<close>

text \<open>The answers to a series of attempts for one account, each with its time in seconds; a time has its date.\<close>

fun recoveryTries :: "world \<Rightarrow> (int \<Rightarrow> int \<times> int \<times> int) \<Rightarrow> qstring \<Rightarrow> qstring \<Rightarrow> ChatClient \<Rightarrow> (int \<times> qstring) list \<Rightarrow> recovery list" where
  "recoveryTries W today url nickname c [] = []"
| "recoveryTries W today url nickname c ((t, birthday) # tries) =
     (case recoverPassword W t (today t) c url nickname birthday of
        (c1, r) \<Rightarrow> r # recoveryTries W today url nickname c1 tries)"

definition tested :: "recovery \<Rightarrow> bool" where
  "tested r \<longleftrightarrow> r = NoMatch \<or> r = TooManyAttempts"

definition prompted :: "recovery \<Rightarrow> bool" where
  "prompted r \<longleftrightarrow> (\<exists>call. r = Prompted call)"

lemma recovery_keys [simp]: "recoveryKey n ''failures'' \<noteq> recoveryKey n ''lockedUntil''" "recoveryKey n ''lockedUntil'' \<noteq> recoveryKey n ''failures''"
  by (simp_all add: recoveryKey_def)

lemma locked_recovery:
  "t < valueOr 0 (a_numbers (c_account c)) (recoveryKey (w_trimmed W nickname) ''lockedUntil'') \<Longrightarrow>
   recoverPassword W t today c url nickname b = (c, r) \<Longrightarrow> \<not> tested r"
  by (auto simp: recoverPassword_def tested_def Let_def split: if_splits)

text \<open>What one attempt can do: nothing is tested and the client stays as it is, a wrong date is counted, the
  fifth one locks, or the date matches.\<close>

lemma recovery_cases:
  assumes "recoverPassword W t today c url nickname b = (c1, r)"
  defines "n \<equiv> w_trimmed W nickname"
  defines "failures \<equiv> valueOr 0 (a_numbers (c_account c)) (recoveryKey n ''failures'')"
  obtains (unread) "c1 = c" "\<not> tested r"
    | (wrong) "failures + 1 < 5" "r = NoMatch" "c1 = setNumber (recoveryKey n ''failures'') (Some (failures + 1)) c"
    | (fifth) "failures + 1 \<ge> 5" "r = TooManyAttempts"
        "c1 = setNumber (recoveryKey n ''failures'') (Some 0) (setNumber (recoveryKey n ''lockedUntil'') (Some (t + 900)) c)"
    | (matched) "prompted r" "\<not> t < valueOr 0 (a_numbers (c_account c)) (recoveryKey n ''lockedUntil'')"
        "a_numbers (c_account c1) = (a_numbers (c_account c))(recoveryKey n ''failures'' := Some 0, recoveryKey n ''lockedUntil'' := None)"
proof -
  let ?refused = "n = [] \<or> normalizeBirthday W today b = [] \<or> t < valueOr 0 (a_numbers (c_account c)) (recoveryKey n ''lockedUntil'') \<or>
    \<not> hasLoginEnrolled c n"
  let ?match = "checkBirthday W c n (normalizeBirthday W today b)"
  note call = assms(1) [unfolded recoverPassword_def Let_def, folded n_def, folded failures_def]
  consider "?refused" | "\<not> ?refused" "\<not> ?match" "failures + 1 < 5" | "\<not> ?refused" "\<not> ?match" "failures + 1 \<ge> 5" | "\<not> ?refused" "?match"
    by linarith
  then show thesis
  proof cases
    case 1
    with call show thesis by (intro unread) (auto simp: tested_def split: if_splits)
  next
    case 2
    with call show thesis by (intro wrong) auto
  next
    case 3
    with call show thesis by (intro fifth) auto
  next
    case 4
    with call show thesis by (intro matched) (auto simp: prompted_def)
  qed
qed

lemma tests_bounded:
  fixes t0 :: int and W c nickname
  defines "failures \<equiv> \<lambda>c. valueOr 0 (a_numbers (c_account c)) (recoveryKey (w_trimmed W nickname) ''failures'')"
  defines "until \<equiv> \<lambda>c. valueOr 0 (a_numbers (c_account c)) (recoveryKey (w_trimmed W nickname) ''lockedUntil'')"
  assumes "\<forall>(t, b) \<in> set tries. t0 \<le> t \<and> t < t0 + 900" "0 \<le> failures c"
  shows "int (length (filter tested (recoveryTries W today url nickname c tries))) \<le>
    (if t0 + 900 \<le> until c then 0
     else max 1 (5 - failures c) + 4 * int (length (filter prompted (recoveryTries W today url nickname c tries))))"
  using assms(3,4)
proof (induction tries arbitrary: c)
  case (Cons x tries)
  obtain t b where x: "x = (t, b)" by fastforce
  obtain c1 r where call: "recoverPassword W t (today t) c url nickname b = (c1, r)" by fastforce
  have t: "t0 \<le> t" "t < t0 + 900" using Cons.prems(1) x by auto
  note IH = Cons.IH [of c1, unfolded failures_def until_def]
  have rest: "\<forall>(t, b) \<in> set tries. t0 \<le> t \<and> t < t0 + 900" using Cons.prems(1) by auto
  have open_now: "\<not> t0 + 900 \<le> until c" if "tested r"
    using that call t by (auto simp: recoverPassword_def tested_def until_def Let_def split: if_splits)
  from call show ?case
  proof (cases rule: recovery_cases)
    case unread
    with IH [OF rest] Cons.prems(2) show ?thesis by (auto simp: x call failures_def until_def)
  next
    case wrong
    with IH [OF rest] Cons.prems(2) open_now show ?thesis
      by (auto simp: x call failures_def until_def tested_def prompted_def valueOr_def split: if_splits)
  next
    case fifth
    with IH [OF rest] t(1) open_now show ?thesis
      by (auto simp: x call failures_def until_def tested_def prompted_def valueOr_def split: if_splits)
  next
    case matched
    with IH [OF rest] t show ?thesis
      by (auto simp: x call failures_def until_def tested_def prompted_def valueOr_def split: if_splits)
  qed
qed (simp add: max_def)

text \<open>C26 (bounds). Guessing a date of birth is slowed down: in any series of recovery attempts for one account within
  15 minutes, whatever their order and times, at most five wrong dates are compared with the stored one as
  long as the right date is not given. The right date resets the count, and each time it is given it
  makes room for at most four more wrong ones. The count of failures stored before the series is taken not to be
  negative.\<close>

theorem recovery_guesses_bounded:
  fixes t0 :: int
  assumes "\<forall>(t, b) \<in> set tries. t0 \<le> t \<and> t < t0 + 15 * 60"
    and "0 \<le> valueOr 0 (a_numbers (c_account c)) (recoveryKey (w_trimmed W nickname) ''failures'')"
  shows "length (filter tested (recoveryTries W today url nickname c tries)) \<le>
    5 + 4 * length (filter prompted (recoveryTries W today url nickname c tries))"
  using tests_bounded [of tries t0 c W nickname today url] assms by (simp split: if_splits)

definition demoVaultNet :: world where
  "demoVaultNet = (demoNet [])\<lparr>w_windows := (w_windows demoWorld)\<lparr>wi_protect := \<lambda>p. Some (1 # p), wi_unprotect := \<lambda>b. Some (tl b)\<rparr>\<rparr>"

text \<open>Seven attempts at an account that is enrolled, with a date of birth stored under another verifier.\<close>

definition demoEnrolled :: ChatClient where
  "demoEnrolled = setSetting (recoveryKey ''alice'' ''dobSalt'') (toHex [0]) (setSetting (recoveryKey ''alice'' ''dobVerifier'') ''ff''
     (enrollLogin demoVaultNet demoClient ''alice'' ''pw''))"

lemma demoVaultNet_simps [simp]: "w_ext demoVaultNet = demo" "w_trimmed demoVaultNet = id" "w_windows demoVaultNet =
    (w_windows demoWorld)\<lparr>wi_protect := \<lambda>p. Some (1 # p), wi_unprotect := \<lambda>b. Some (tl b)\<rparr>"
  by (simp_all add: demoVaultNet_def demoNet_def demoWorld_def)

lemma numbers_only [simp]:
  "hasLoginEnrolled (setNumber k v c) n = hasLoginEnrolled c n" "checkBirthday W (setNumber k v c) n d = checkBirthday W c n d"
  "lastServerUrl (setNumber k v c) = lastServerUrl c"
  by (simp_all add: hasLoginEnrolled_def checkBirthday_def settingText_def lastServerUrl_def)

lemma demoEnrolled_guess:
  assumes "hasLoginEnrolled c ''alice''" "\<not> checkBirthday demoVaultNet c ''alice'' ''1999-05-03''"
  shows "recoverPassword demoVaultNet t (2025, 1, 1) c [] ''alice'' ''1999-05-03'' =
    (if t < valueOr 0 (a_numbers (c_account c)) (recoveryKey ''alice'' ''lockedUntil'')
     then (c, LockedFor ((valueOr 0 (a_numbers (c_account c)) (recoveryKey ''alice'' ''lockedUntil'') - t + 59) div 60))
     else if valueOr 0 (a_numbers (c_account c)) (recoveryKey ''alice'' ''failures'') + 1 \<ge> 5
     then (setNumber (recoveryKey ''alice'' ''failures'') (Some 0) (setNumber (recoveryKey ''alice'' ''lockedUntil'') (Some (t + 15 * 60)) c), TooManyAttempts)
     else (setNumber (recoveryKey ''alice'' ''failures'') (Some (valueOr 0 (a_numbers (c_account c)) (recoveryKey ''alice'' ''failures'') + 1)) c, NoMatch))"
proof -
  have "normalizeBirthday demoVaultNet (2025, 1, 1) ''1999-05-03'' = ''1999-05-03''"
    by (simp add: normalizeBirthday_def demoVaultNet_def demoNet_def demoWorld_def birthdayFormats_def dateLess_def)
  then show ?thesis using assms by (simp add: recoverPassword_def Let_def)
qed


lemma demoEnrolled_tries:
  "recoveryTries demoVaultNet (\<lambda>_. (2025, 1, 1)) [] ''alice'' demoEnrolled (map (\<lambda>t. (t, ''1999-05-03'')) [0, 1, 2, 3, 4, 5, 899]) =
     [NoMatch, NoMatch, NoMatch, NoMatch, TooManyAttempts, LockedFor 15, LockedFor 1]"
proof -
  have "hasLoginEnrolled demoEnrolled ''alice''"
    by (simp add: demoEnrolled_def hasLoginEnrolled_def enrollLogin_def dpapiWrap_def Let_def demoWorld_def valueOr_def setSetting_def onAccount_def)
  moreover have "\<not> checkBirthday demoVaultNet demoEnrolled ''alice'' ''1999-05-03''"
    by (simp add: demoEnrolled_def checkBirthday_def settingText_def valueOr_def recoveryKey_def deriveVerifierWithSalt_def Let_def
        demo_laws(7) [unfolded hex_law_def])
  moreover have "a_numbers (c_account demoEnrolled) k = None" for k
    by (simp add: demoEnrolled_def enrollLogin_def Let_def demoClient_def newClient_def newAccount_def)
  ultimately show ?thesis by (simp add: demoEnrolled_guess valueOr_def)
qed

theorem recovery_guesses_bounded_witness:
  "length (filter tested (recoveryTries demoVaultNet (\<lambda>_. (2025, 1, 1)) [] ''alice'' demoEnrolled
     (map (\<lambda>t. (t, ''1999-05-03'')) [0, 1, 2, 3, 4, 5, 899]))) \<le> 5 \<and>
   recoveryTries demoVaultNet (\<lambda>_. (2025, 1, 1)) [] ''alice'' demoEnrolled (map (\<lambda>t. (t, ''1999-05-03'')) [0, 1, 2, 3, 4, 5, 899]) =
     [NoMatch, NoMatch, NoMatch, NoMatch, TooManyAttempts, LockedFor 15, LockedFor 1]"
proof -
  have "a_numbers (c_account demoEnrolled) k = None" for k
    by (simp add: demoEnrolled_def enrollLogin_def Let_def demoClient_def newClient_def newAccount_def)
  then have "length (filter tested (recoveryTries demoVaultNet (\<lambda>_. (2025, 1, 1)) [] ''alice'' demoEnrolled
     (map (\<lambda>t. (t, ''1999-05-03'')) [0, 1, 2, 3, 4, 5, 899]))) \<le> 5"
    using recovery_guesses_bounded [of "map (\<lambda>t. (t, ''1999-05-03'')) [0, 1, 2, 3, 4, 5, 899]" 0 demoEnrolled demoVaultNet "''alice''"
        "\<lambda>_. (2025, 1, 1)" "[]"]
    unfolding demoEnrolled_tries by (simp add: prompted_def valueOr_def)
  then show ?thesis using demoEnrolled_tries by blast
qed

section \<open>Recovering a password\<close>

lemma sameBytes_refl [simp]: "sameBytes a a"
proof -
  have "fold (\<lambda>(x, y) diff. diff OR (x XOR y)) (zip a a) 0 = 0" by (induction a) simp_all
  then show ?thesis by (simp add: sameBytes_def)
qed

lemma fold_or_zero:
  "fold (\<lambda>(x, y) diff. diff OR (x XOR y)) (zip a b) (d :: 8 word) = 0 \<longleftrightarrow> d = 0 \<and> (\<forall>(x, y) \<in> set (zip a b). x = y)"
proof (induction a b arbitrary: d rule: list_induct2')
  case (4 x xs y ys)
  have "d OR (x XOR y) = 0 \<longleftrightarrow> d = 0 \<and> x = y"
    by (auto simp: bit_eq_iff bit_simps)
  with 4 show ?case by auto
qed simp_all


lemma sameBytes_iff: "length a = length b \<Longrightarrow> sameBytes a b \<longleftrightarrow> a = b"
  unfolding sameBytes_def fold_or_zero by (auto simp: set_zip list_eq_iff_nth_eq)

lemma birthday_stored:
  assumes laws: "pwhash_law (w_ext W)" "hex_law (w_ext W)" "draw_law W"
  shows "checkBirthday W (storeBirthdayVerifier W c n d) n d"
proof -
  have "length (w_rnd W (c_draws c) 16) = 16" using laws(3) by (simp add: draw_law_def)
  from derived_verifier [OF laws(1,2) this, of d] obtain v s where
    v: "deriveVerifier (w_ext W) d (w_rnd W (c_draws c) 16) = Some (v, s)" "v \<noteq> []" "s \<noteq> []" "deriveVerifierWithSalt (w_ext W) d s = v" by blast
  then show ?thesis
    by (simp add: storeBirthdayVerifier_def boxDeriveVerifier_def checkBirthday_def settingText_def valueOr_def recoveryKey_def)
qed

lemma birthday_world: "w_ext V = w_ext W \<Longrightarrow> checkBirthday V c n d = checkBirthday W c n d"
  by (simp add: checkBirthday_def)

text \<open>The vault depends on the blobs and flags of the settings only.\<close>

lemma vault_reads:
  assumes "a_blobs (c_account c) = a_blobs (c_account d)"
  shows "loginWithBiometric W c n = loginWithBiometric W d n"
  using assms by (simp add: loginWithBiometric_def)

lemma enroll_settings [simp]:
  "a_settings (c_account (enrollLogin W c n pw)) = a_settings (c_account c)" "a_numbers (c_account (enrollLogin W c n pw)) = a_numbers (c_account c)"
  "checkBirthday W (enrollLogin W c n pw) k d = checkBirthday W c k d"
  by (simp_all add: enrollLogin_def Let_def checkBirthday_def settingText_def)

text \<open>C27 (functional). A forgotten password can be brought back: on an account enrolled in the vault with a stored date
  of birth, the same date, in any accepted notation, makes the platform prompt; a verified prompt then shows the
  password that was enrolled, without logging in. A date whose verifier differs reaches no prompt.\<close>

theorem recovery_reveals_password:
  assumes laws: "pwhash_law (w_ext W)" "hex_law (w_ext W)" "draw_law W" "dpapi_law W" "text_law (w_ext W)" "wi_combase (w_windows W)"
    and pw: "toUtf8 (w_ext W) password \<noteq> []" "wi_protect (w_windows W) (toUtf8 (w_ext W) password) \<noteq> None" "password \<noteq> []"
    and account: "w_trimmed W nickname = n" "n \<noteq> []" "normalizeBirthday W today birthday = d" "d \<noteq> []"
    and c: "c = enrollLogin W (storeBirthdayVerifier W c0 n d) n password"
    and unlocked: "valueOr 0 (a_numbers (c_account c)) (recoveryKey n ''lockedUntil'') \<le> secs"
  shows "\<exists>c1. recoverPassword W secs today c url nickname birthday =
      (c1, Prompted (if runHelloVerification W then Some (n, password) else None)) \<and>
    (\<exists>c2. onBiometricLoginUnlocked W now c1 n password = (c2, Revealed password) \<and> \<not> a_revealOnly (c_account c2) \<and>
       a_sessionActive (c_account c2) = a_sessionActive (c_account c)) \<and>
    (\<forall>other. normalizeBirthday W today other \<noteq> [] \<longrightarrow> \<not> checkBirthday W c n (normalizeBirthday W today other) \<longrightarrow>
       \<not> prompted (snd (recoverPassword W secs today c url nickname other)))"
proof -
  have check: "checkBirthday W c n d" using birthday_stored [OF laws(1-3), of c0 n d] c by simp
  note vault = enrolled_login [OF laws(4-6) pw(1,2), of "storeBirthdayVerifier W c0 n d" n, folded c]
  define c1 where "c1 = onAccount (\<lambda>a. a\<lparr>a_revealOnly := True, a_bioLoginServerUrl := if w_trimmed W url = [] then lastServerUrl c else w_trimmed W url\<rparr>)
      (setNumber (recoveryKey n ''lockedUntil'') None (setNumber (recoveryKey n ''failures'') (Some 0) c))"
  have "loginWithBiometric W (onAccount (\<lambda>a. a\<lparr>a_revealOnly := True, a_bioLoginServerUrl := u\<rparr>)
      (setNumber (recoveryKey n ''lockedUntil'') None (setNumber (recoveryKey n ''failures'') (Some 0) c))) n = loginWithBiometric W c n" for u
    by (rule vault_reads) simp
  then have "recoverPassword W secs today c url nickname birthday = (c1, Prompted (if runHelloVerification W then Some (n, password) else None))"
    using account unlocked check vault by (simp add: recoverPassword_def Let_def c1_def)
  moreover have "\<exists>c2. onBiometricLoginUnlocked W now c1 n password = (c2, Revealed password) \<and> \<not> a_revealOnly (c_account c2) \<and>
       a_sessionActive (c_account c2) = a_sessionActive (c_account c)"
    using pw(3) by (simp add: onBiometricLoginUnlocked_def Let_def c1_def)
  moreover have "\<not> prompted (snd (recoverPassword W secs today c url nickname other))"
    if "normalizeBirthday W today other \<noteq> []" "\<not> checkBirthday W c n (normalizeBirthday W today other)" for other
    using that account vault by (simp add: recoverPassword_def Let_def prompted_def)
  ultimately show ?thesis by blast
qed


lemma demoVaultNet_laws: "dpapi_law demoVaultNet" "draw_law demoVaultNet" "runHelloVerification demoVaultNet" "wi_combase (w_windows demoVaultNet)"
proof -
  show "dpapi_law demoVaultNet" "wi_combase (w_windows demoVaultNet)" by (simp_all add: dpapi_law_def demoWorld_def)
  show "draw_law demoVaultNet" using demoNet_laws(7) [of "[]"] by (simp add: draw_law_def demoVaultNet_def)
  show "runHelloVerification demoVaultNet" using demoPrompt_verified by (simp add: runHelloVerification_def demoWorld_def demoPrompt_def)
qed

theorem recovery_reveals_password_witness:
  "\<exists>c1 c2. recoverPassword demoVaultNet 5 (2025, 1, 1) (enrollLogin demoVaultNet (storeBirthdayVerifier demoVaultNet demoClient ''alice'' ''1999-05-03'') ''alice'' ''pw'')
       [] ''alice'' ''1999-05-03'' = (c1, Prompted (Some (''alice'', ''pw''))) \<and>
     onBiometricLoginUnlocked demoVaultNet 5 c1 ''alice'' ''pw'' = (c2, Revealed ''pw'')"
proof -
  let ?c = "enrollLogin demoVaultNet (storeBirthdayVerifier demoVaultNet demoClient ''alice'' ''1999-05-03'') ''alice'' ''pw''"
  have d: "normalizeBirthday demoVaultNet (2025, 1, 1) ''1999-05-03'' = ''1999-05-03''"
    by (simp add: normalizeBirthday_def demoVaultNet_def demoNet_def demoWorld_def birthdayFormats_def dateLess_def)
  have n: "valueOr 0 (a_numbers (c_account ?c)) (recoveryKey ''alice'' ''lockedUntil'') \<le> 5"
    by (auto simp: storeBirthdayVerifier_def boxDeriveVerifier_def demoClient_def newClient_def newAccount_def valueOr_def split: option.split)
  have pw: "toUtf8 (w_ext demoVaultNet) ''pw'' \<noteq> []" by (simp, simp add: demo_def latin1_def)
  have w: "wi_protect (w_windows demoVaultNet) (toUtf8 (w_ext demoVaultNet) ''pw'') \<noteq> None" by simp
  have laws: "pwhash_law (w_ext demoVaultNet)" "hex_law (w_ext demoVaultNet)" "text_law (w_ext demoVaultNet)"
    using demo_laws demo_text_law by simp_all
  from recovery_reveals_password [OF laws(1,2) demoVaultNet_laws(2,1) laws(3) demoVaultNet_laws(4) pw w _ _ _ d _ refl n, of "''alice''" "[]" 5]
  show ?thesis using demoVaultNet_laws(3) by auto
qed

text \<open>A recovery whose prompt is dismissed stays armed: the platform posts no call that would end it,
  and the next login through the vault shows the stored password on the screen instead of logging in.\<close>

theorem dismissed_recovery_stays_armed:
  assumes "recoverPassword W secs today c url nickname birthday = (c1, Prompted None)"
    and "biometricLogin W' c1 url' nick = (c2, Some (n, password))" "password \<noteq> []"
  shows "\<exists>c3. onBiometricLoginUnlocked W' now c2 n password = (c3, Revealed password)"
proof -
  have "a_revealOnly (c_account c1)" using assms(1) by (auto simp: recoverPassword_def Let_def split: if_splits)
  then have "a_revealOnly (c_account c2)" using assms(2) by (auto simp: biometricLogin_def Let_def split: if_splits)
  with assms(3) show ?thesis by (simp add: onBiometricLoginUnlocked_def Let_def)
qed

text \<open>The platform refuses the first prompt and verifies the second.\<close>

theorem dismissed_recovery_stays_armed_witness:
  "\<exists>c1 c2 c3. recoverPassword (demoVaultNet\<lparr>w_windows := (w_windows demoVaultNet)\<lparr>wi_string := False\<rparr>\<rparr>) 5 (2025, 1, 1)
       (enrollLogin demoVaultNet (storeBirthdayVerifier demoVaultNet demoClient ''alice'' ''1999-05-03'') ''alice'' ''pw'')
       [] ''alice'' ''1999-05-03'' = (c1, Prompted None) \<and>
     biometricLogin demoVaultNet c1 ''wss://r'' ''alice'' = (c2, Some (''alice'', ''pw'')) \<and>
     onBiometricLoginUnlocked demoVaultNet 5 c2 ''alice'' ''pw'' = (c3, Revealed ''pw'')"
proof -
  let ?W = "demoVaultNet\<lparr>w_windows := (w_windows demoVaultNet)\<lparr>wi_string := False\<rparr>\<rparr>"
  let ?c = "enrollLogin demoVaultNet (storeBirthdayVerifier demoVaultNet demoClient ''alice'' ''1999-05-03'') ''alice'' ''pw''"
  have d: "normalizeBirthday ?W (2025, 1, 1) ''1999-05-03'' = ''1999-05-03''"
    by (simp add: normalizeBirthday_def demoVaultNet_def demoNet_def demoWorld_def birthdayFormats_def dateLess_def)
  have n: "valueOr 0 (a_numbers (c_account ?c)) (recoveryKey ''alice'' ''lockedUntil'') = 0"
    by (auto simp: storeBirthdayVerifier_def boxDeriveVerifier_def demoClient_def newClient_def newAccount_def valueOr_def split: option.split)
  have pw: "toUtf8 (w_ext demoVaultNet) ''pw'' \<noteq> []" by (simp, simp add: demo_def latin1_def)
  have w: "wi_protect (w_windows demoVaultNet) (toUtf8 (w_ext demoVaultNet) ''pw'') \<noteq> None" by simp
  have laws: "pwhash_law (w_ext demoVaultNet)" "hex_law (w_ext demoVaultNet)" "text_law (w_ext demoVaultNet)"
    using demo_laws demo_text_law by simp_all
  have "checkBirthday demoVaultNet ?c ''alice'' ''1999-05-03''" using birthday_stored [OF laws(1,2) demoVaultNet_laws(2)] by simp
  moreover have "checkBirthday ?W ?c ''alice'' ''1999-05-03'' = checkBirthday demoVaultNet ?c ''alice'' ''1999-05-03''" by (rule birthday_world) simp
  ultimately have check: "checkBirthday ?W ?c ''alice'' ''1999-05-03''" by simp
  note vault = enrolled_login [OF demoVaultNet_laws(1) laws(3) demoVaultNet_laws(4) pw w, of "storeBirthdayVerifier demoVaultNet demoClient ''alice'' ''1999-05-03''" "''alice''"]
  define c1 where "c1 = fst (recoverPassword ?W 5 (2025, 1, 1) ?c [] ''alice'' ''1999-05-03'')"
  have blocked: "loginWithBiometric ?W c ''alice'' = None" for c by (simp add: loginWithBiometric_def runHelloVerification_def Let_def)
  have r: "recoverPassword ?W 5 (2025, 1, 1) ?c [] ''alice'' ''1999-05-03'' = (c1, Prompted None)"
    unfolding c1_def using d n check vault blocked by (simp add: recoverPassword_def Let_def)
  have "a_blobs (c_account c1) = a_blobs (c_account ?c)" "a_flags (c_account c1) = a_flags (c_account ?c)"
    unfolding c1_def using d n check vault by (simp_all add: recoverPassword_def Let_def)
  then have "hasLoginEnrolled c1 ''alice''" "loginWithBiometric demoVaultNet (onAccount (\<lambda>a. a\<lparr>a_bioLoginServerUrl := u\<rparr>) c1) ''alice'' = Some (''alice'', ''pw'')" for u
    using vault demoVaultNet_laws(3) vault_reads [of "onAccount (\<lambda>a. a\<lparr>a_bioLoginServerUrl := u\<rparr>) c1" ?c demoVaultNet "''alice''"]
    by (simp_all add: hasLoginEnrolled_def)
  then obtain c2 where l: "biometricLogin demoVaultNet c1 ''wss://r'' ''alice'' = (c2, Some (''alice'', ''pw''))"
    by (simp add: biometricLogin_def Let_def)
  from dismissed_recovery_stays_armed [OF r l, of 5] r l show ?thesis by blast
qed


section \<open>Appearance is always valid\<close>

text \<open>The theme of a client is always one of the presets, whatever number the settings hold; a preset that
  was chosen is the one that is read back, and another account keeps its own.\<close>

theorem theme_index_valid:
  "themeIndex W c \<in> {0..<kThemePresetCount} \<and>
   (\<forall>i \<in> {0..<kThemePresetCount}. c_nick c \<noteq> [] \<longrightarrow> themeIndex W (setThemeIndex c i) = i) \<and>
   (\<forall>nick i. nick \<noteq> c_nick c \<longrightarrow> themeIndex W (setThemeIndex c i\<lparr>c_nick := nick\<rparr>) = themeIndex W (c\<lparr>c_nick := nick\<rparr>))"
proof (intro conjI ballI allI impI)
  have "uint (h mod 6) < 6" for h :: u32 by (simp add: uint_mod)
  then show "themeIndex W c \<in> {0..<kThemePresetCount}"
    by (auto simp: themeIndex_def kThemePresetCount_def Let_def split: option.split)
qed (auto simp: themeIndex_def setThemeIndex_def setNumber_def onAccount_def Let_def)


theorem theme_index_valid_witness:
  "themeIndex (demoNet []) (setThemeIndex demoClient 4) = 4"
  using theme_index_valid [of "demoNet []" demoClient] by (simp add: kThemePresetCount_def demoClient_def)

end
