(* ===== verification/Export.thy ===== *)
theory Export
  imports Receive
begin

text \<open>
  Saving a received file and exporting a conversation as text or as PDF (\<^verbatim>\<open>client/src/chatclient.cpp\<close>).
  Destinations are written like the other files of the client; a write to a file that could be opened
  succeeds. Printing a document is the parameter \<open>w_pdf\<close>, and \<open>None\<close> where no usable file comes of it.

  The lemmas show that texts cannot add markup to a document, that a text export does not keep messages
  apart, that deleted messages are not exported, and what saving a file does to the files on disk.
\<close>

section \<open>Saving a received file\<close>

datatype save_error = NoLongerAvailable | CopyFailed | InvalidLocation | LocationRefused

definition saveReceivedFile :: "world \<Rightarrow> ChatClient \<Rightarrow> qstring \<Rightarrow> qstring \<Rightarrow> ChatClient \<times> (save_error + unit)" where
  "saveReceivedFile W c msgId dest =
     (case c_receivedFilePaths c msgId of
        None \<Rightarrow> (c, Inl NoLongerAvailable)
      | Some tempPath \<Rightarrow>
          (let destPath = w_localFile W dest
           in if destPath \<noteq> [] then
                (let c1 = (if c_files c destPath \<noteq> None then c\<lparr>c_files := (c_files c)(destPath := None)\<rparr> else c)
                 in case c_files c1 tempPath of
                      None \<Rightarrow> (c1, Inl CopyFailed)
                    | Some content \<Rightarrow>
                        if w_canWrite W destPath then (c1\<lparr>c_files := (c_files c1)(destPath \<mapsto> content)\<rparr>, Inr ())
                        else (c1, Inl CopyFailed))
              else if dest = [] then (c, Inl InvalidLocation)
              else case c_files c tempPath of
                     None \<Rightarrow> (c, Inl NoLongerAvailable)
                   | Some content \<Rightarrow>
                       if w_canWrite W dest then (c\<lparr>c_files := (c_files c)(dest \<mapsto> content)\<rparr>, Inr ())
                       else (c, Inl LocationRefused)))"

section \<open>Rendering\<close>

definition humanReadableSize :: "world \<Rightarrow> int \<Rightarrow> qstring" where
  "humanReadableSize W bytes =
     (if bytes < 1024 then w_dec W bytes @ '' B''
      else if bytes < 1024 * 1024 then w_oneDecimal W bytes 1024 @ '' KB''
      else if bytes < 1024 * 1024 * 1024 then w_oneDecimal W bytes (1024 * 1024) @ '' MB''
      else w_oneDecimal W bytes (1024 * 1024 * 1024) @ '' GB'')"

definition htmlEscapeChar :: "char \<Rightarrow> qstring" where
  "htmlEscapeChar ch =
     (if ch = CHR ''&'' then ''&amp;''
      else if ch = CHR ''<'' then ''&lt;''
      else if ch = CHR ''>'' then ''&gt;''
      else if ch = CHR 0x22 then ''&quot;''
      else if ch = CHR 0x27 then ''&#39;''
      else [ch])"

definition htmlEscape :: "qstring \<Rightarrow> qstring" where
  "htmlEscape s = concat (map htmlEscapeChar s)"

record Line =
  ln_ts :: qstring
  ln_who :: qstring
  ln_body :: qstring
  ln_system :: bool
  ln_deleted :: bool

definition exportLine :: "world \<Rightarrow> CryptoBox \<Rightarrow> qstring \<Rightarrow> qstring \<Rightarrow> StoredRow \<Rightarrow> Line" where
  "exportLine W b me peer r =
     (if sr_system r then
        \<lparr>ln_ts = w_stamp W (sr_ts r), ln_who = w_t W ''export.systemLabel'', ln_body = sr_systemText r,
         ln_system = True, ln_deleted = False\<rparr>
      else
        \<lparr>ln_ts = w_stamp W (sr_ts r),
         ln_who = (if sr_mine r then me else if sr_sender r = [] then peer else sr_sender r),
         ln_body =
           (if sr_deleted r then w_t W ''msg.deleted''
            else if sr_isFile r then w_arg W (w_t W ''export.sentFile'') [sr_filename r, humanReadableSize W (sr_size r)]
            else case localOpen (w_ext W) b (sr_nonceHex r) (sr_ctHex r) of
                   Some (x # xs) \<Rightarrow> x # xs
                 | _ \<Rightarrow> w_cannotDecrypt W),
         ln_system = False, ln_deleted = sr_deleted r\<rparr>)"

definition span :: "qstring \<Rightarrow> qstring \<Rightarrow> qstring" where
  "span style body = ''<span style='' @ [CHR 0x22] @ style @ [CHR 0x22] @ ''>'' @ body @ ''</span>''"

definition lineHtml :: "qstring \<Rightarrow> Line \<Rightarrow> qstring" where
  "lineHtml me ln =
     (let stamp = span (''font-size:10pt;color:#9aa0a6;font-family:'' @ [CHR 0x27] @ ''Consolas'' @ [CHR 0x27] @ '',monospace;'')
            (''['' @ htmlEscape (ln_ts ln) @ '']'');
          para = ''<p style='' @ [CHR 0x22] @ ''font-size:13pt;margin:5pt 0;'' @ [CHR 0x22] @ ''>''
      in if ln_system ln then
           para @ stamp @ '' <i style='' @ [CHR 0x22] @ ''color:#9aa0a6;font-weight:bold;'' @ [CHR 0x22] @ ''>'' @
             htmlEscape (ln_body ln) @ ''</i></p>''
         else
           (let whoColor = (if ln_who ln = me then ''#0b7c72'' else ''#3b3b7a'');
                who = span (''font-size:13pt;color:'' @ whoColor @ '';font-weight:bold;'') (htmlEscape (ln_who ln) @ '':'');
                body = (if ln_deleted ln
                        then span ''font-size:14pt;color:#9aa0a6;font-style:italic;'' (htmlEscape (ln_body ln))
                        else span ''font-size:14pt;color:#111418;font-weight:bold;'' (htmlEscape (ln_body ln)))
            in para @ stamp @ '' '' @ who @ '' '' @ body @ ''</p>''))"

definition exportHtml :: "world \<Rightarrow> qstring \<Rightarrow> qstring \<Rightarrow> qstring \<Rightarrow> Line list \<Rightarrow> qstring" where
  "exportHtml W me peer nowStamp lines =
     ''<html><head></head><body style='' @ [CHR 0x22] @ ''font-family:'' @ [CHR 0x27] @ ''Segoe UI'' @ [CHR 0x27] @
       '',Helvetica,Arial,sans-serif;'' @ [CHR 0x22] @ ''>'' @
     ''<h1 style='' @ [CHR 0x22] @ ''font-size:23pt;font-weight:bold;color:#0b7c72;margin:0 0 2pt 0;'' @ [CHR 0x22] @ ''>'' @
       htmlEscape (w_arg W (w_t W ''export.headerTitle'') [peer]) @ ''</h1>'' @
     ''<p style='' @ [CHR 0x22] @ ''font-size:11pt;color:#6b7280;margin:0 0 8pt 0;'' @ [CHR 0x22] @ ''>'' @
       htmlEscape (w_arg W (w_t W ''export.headerParticipants'') [me, peer]) @ ''<br/>'' @
       htmlEscape (w_arg W (w_t W ''export.headerExported'') [nowStamp]) @ ''</p><hr/>'' @
     concat (map (lineHtml me) lines) @ ''</body></html>''"

definition lineText :: "world \<Rightarrow> Line \<Rightarrow> qstring" where
  "lineText W ln =
     (if ln_system ln then ''['' @ ln_ts ln @ ''] '' @ ln_who ln @ '' '' @ ln_body ln @ w_newline W
      else ''['' @ ln_ts ln @ ''] '' @ ln_who ln @ '': '' @ ln_body ln @ w_newline W)"

definition headerText :: "world \<Rightarrow> qstring \<Rightarrow> qstring \<Rightarrow> qstring \<Rightarrow> qstring" where
  "headerText W me peer nowStamp =
     (let rule = replicate 60 (CHR ''=''); thin = replicate 60 (CHR ''-''); NL = w_newline W
      in rule @ NL @ ''  '' @ w_arg W (w_t W ''export.headerTitle'') [peer] @ NL @ rule @ NL @
         ''  '' @ w_arg W (w_t W ''export.headerParticipants'') [me, peer] @ NL @
         ''  '' @ w_arg W (w_t W ''export.headerExported'') [nowStamp] @ NL @ thin @ NL @ NL)"

definition exportText :: "world \<Rightarrow> qstring \<Rightarrow> qstring \<Rightarrow> qstring \<Rightarrow> Line list \<Rightarrow> qstring" where
  "exportText W me peer nowStamp lines = headerText W me peer nowStamp @ concat (map (lineText W) lines)"

section \<open>Exporting\<close>

text \<open>The address is a path on the desktop and a document of the storage framework on Android.\<close>

definition writeToChosenDestination :: "world \<Rightarrow> ChatClient \<Rightarrow> qstring \<Rightarrow> bytes \<Rightarrow> ChatClient \<times> bool" where
  "writeToChosenDestination W c destUrl bytes =
     (let localPath = w_localFile W destUrl
      in if localPath \<noteq> [] then
           (if w_canWrite W localPath then (c\<lparr>c_files := (c_files c)(localPath \<mapsto> bytes)\<rparr>, True) else (c, False))
         else if destUrl = [] then (c, False)
         else if w_canWrite W destUrl then (c\<lparr>c_files := (c_files c)(destUrl \<mapsto> bytes)\<rparr>, True)
         else (c, False))"

datatype export_error = NothingToExport | NoDestination | PdfNotWritten | ExportFailed

definition exportConversation ::
  "world \<Rightarrow> int \<Rightarrow> ChatClient \<Rightarrow> qstring \<Rightarrow> qstring \<Rightarrow> qstring \<Rightarrow> ChatClient \<times> (export_error + unit)" where
  "exportConversation W now c peer format destUrl =
     (let rows = rowsForPeer (c_history c) peer 100000;
          me = (if c_nick c = [] then ''me'' else c_nick c);
          lines = map (exportLine W (c_crypto c) me peer) rows
      in if peer = [] then (c, Inl NothingToExport)
         else if rows = [] then (c, Inl NothingToExport)
         else if destUrl = [] then (c, Inl NoDestination)
         else if w_lower W (w_trimmed W format) = ''pdf'' then
           (case w_pdf W (exportHtml W me peer (w_stamp W now) lines) of
              None \<Rightarrow> (c, Inl PdfNotWritten)
            | Some pdfBytes \<Rightarrow>
                (case writeToChosenDestination W c destUrl pdfBytes of
                   (c1, False) \<Rightarrow> (c1, Inl ExportFailed)
                 | (c1, True) \<Rightarrow> (c1, Inr ())))
         else
           (case writeToChosenDestination W c destUrl (toUtf8 (w_ext W) (exportText W me peer (w_stamp W now) lines)) of
              (c1, False) \<Rightarrow> (c1, Inl ExportFailed)
            | (c1, True) \<Rightarrow> (c1, Inr ())))"

section \<open>Shortcuts into a conversation\<close>

definition openConversationFromNotification :: "world \<Rightarrow> int \<Rightarrow> ChatClient \<Rightarrow> qstring \<Rightarrow> ChatClient" where
  "openConversationFromNotification W now c peer =
     (if peer = [] then c
      else setActivePeer W now (c\<lparr>c_users := fst (ensureUser (w_order W) (c_users c) peer)\<rparr>) peer)"


section \<open>Markup comes from the layout only\<close>

text \<open>A reader of the five entities.\<close>

fun unescape :: "nat \<Rightarrow> qstring \<Rightarrow> qstring" where
  "unescape 0 s = []"
| "unescape (Suc k) [] = []"
| "unescape (Suc k) (ch # s) =
     (if ch \<noteq> CHR ''&'' then ch # unescape k s
      else if take 4 s = ''amp;'' then CHR ''&'' # unescape k (drop 4 s)
      else if take 3 s = ''lt;'' then CHR ''<'' # unescape k (drop 3 s)
      else if take 3 s = ''gt;'' then CHR ''>'' # unescape k (drop 3 s)
      else if take 5 s = ''quot;'' then CHR 0x22 # unescape k (drop 5 s)
      else if take 4 s = ''#39;'' then CHR 0x27 # unescape k (drop 4 s)
      else ch # unescape k s)"

definition tags :: "qstring \<Rightarrow> nat" where
  "tags s = length (filter (\<lambda>ch. ch = CHR ''<'') s)"

lemma tags_append [simp]: "tags [] = 0" "tags (s @ t) = tags s + tags t" "tags (ch # s) = (if ch = CHR ''<'' then 1 else 0) + tags s"
  by (simp_all add: tags_def)

lemma escapeChar_unescape: "unescape (Suc k) (htmlEscapeChar ch @ s) = ch # unescape k s"
  by (simp add: htmlEscapeChar_def)

lemma unescape_escape: "length s < k \<Longrightarrow> unescape k (htmlEscape s) = s"
proof (induction s arbitrary: k)
  case (Cons ch s)
  then obtain j where j: "k = Suc j" "length s < j" by (cases k) auto
  from Cons.IH [OF j(2)] show ?case
    unfolding j(1) htmlEscape_def list.map concat.simps escapeChar_unescape by simp
qed (auto simp: htmlEscape_def gr0_conv_Suc)

lemma htmlEscape_set: "set (htmlEscape s) \<inter> {CHR ''<'', CHR ''>'', CHR 0x22, CHR 0x27} = {}"
  by (induction s) (auto simp: htmlEscape_def htmlEscapeChar_def split: if_splits)

lemma htmlEscape_tags [simp]: "tags (htmlEscape s) = 0"
  using htmlEscape_set [of s] by (auto simp: tags_def filter_empty_conv)

lemma span_tags [simp]: "tags (span style body) = 2 + tags style + tags body"
  by (simp add: span_def)

lemma lineHtml_tags: "tags (lineHtml me ln) = (if ln_system ln then 6 else 8)"
  by (simp add: lineHtml_def Let_def)

lemma tags_concat: "tags (concat (map f xs)) = sum_list (map (\<lambda>x. tags (f x)) xs)"
  by (induction xs) simp_all

text \<open>What users write cannot add markup to an exported document: names, messages and file names are
  escaped, so that the number of tags depends on the layout alone, whatever the texts are. Escaping loses
  nothing: a reader of the five entities gets every text back.\<close>

theorem export_markup_fixed:
  "tags (exportHtml W me peer stamp lines) = 12 + sum_list (map (\<lambda>ln. if ln_system ln then 6 else 8) lines) \<and>
   set (htmlEscape s) \<inter> {CHR ''<'', CHR ''>'', CHR 0x22, CHR 0x27} = {} \<and> unescape (Suc (length s)) (htmlEscape s) = s"
proof (intro conjI)
  show "tags (exportHtml W me peer stamp lines) = 12 + sum_list (map (\<lambda>ln. if ln_system ln then 6 else 8) lines)"
    by (simp add: exportHtml_def tags_concat lineHtml_tags)
qed (simp_all add: htmlEscape_set unescape_escape del: unescape.simps)

section \<open>A transcript does not show who wrote a line\<close>

text \<open>A text export does not keep messages apart: a message whose text contains a line end followed by a
  time stamp and a name exports to the very transcript of two messages, the second under that name.\<close>

theorem transcript_line_forged:
  assumes "\<not> ln_system first" "\<not> ln_system second"
    and "body = ln_body first @ w_newline W @ ''['' @ ln_ts second @ ''] '' @ ln_who second @ '': '' @ ln_body second"
  shows "exportText W me peer stamp (before @ [first\<lparr>ln_body := body\<rparr>] @ later) = exportText W me peer stamp (before @ [first, second] @ later)"
  using assms by (simp add: exportText_def lineText_def)

theorem transcript_line_forged_witness:
  "exportText demoWorld ''alice'' ''bob'' ''now''
     [\<lparr>ln_ts = ''10:00'', ln_who = ''bob'', ln_body = ''hi'' @ [CHR 0x0A] @ ''[10:01] alice: I agree'', ln_system = False, ln_deleted = False\<rparr>] =
   exportText demoWorld ''alice'' ''bob'' ''now''
     [\<lparr>ln_ts = ''10:00'', ln_who = ''bob'', ln_body = ''hi'', ln_system = False, ln_deleted = False\<rparr>,
      \<lparr>ln_ts = ''10:01'', ln_who = ''alice'', ln_body = ''I agree'', ln_system = False, ln_deleted = False\<rparr>]"
  using transcript_line_forged [of "\<lparr>ln_ts = ''10:00'', ln_who = ''bob'', ln_body = ''hi'', ln_system = False, ln_deleted = False\<rparr>"
      "\<lparr>ln_ts = ''10:01'', ln_who = ''alice'', ln_body = ''I agree'', ln_system = False, ln_deleted = False\<rparr>"
      "''hi'' @ [CHR 0x0A] @ ''[10:01] alice: I agree''" demoWorld "''alice''" "''bob''" "''now''" "[]" "[]"]
  by (simp add: demoWorld_def)

section \<open>Saving keeps the content\<close>

text \<open>A received file can be saved to any path that can be written, and arrives there byte for byte while
  every other file stays as it is. The exception is the path the client itself received it to: the
  file is removed before it is copied, saving fails, and the received file is gone.\<close>

theorem save_onto_itself_loses_file:
  assumes "c_receivedFilePaths c msgId = Some path" "c_files c path = Some content" "path \<noteq> []"
  shows "(\<forall>dest. w_localFile W dest \<noteq> [] \<longrightarrow> w_localFile W dest \<noteq> path \<longrightarrow> w_canWrite W (w_localFile W dest) \<longrightarrow>
      saveReceivedFile W c msgId dest = (c\<lparr>c_files := (c_files c)(w_localFile W dest \<mapsto> content)\<rparr>, Inr ())) \<and>
    (\<forall>dest. w_localFile W dest = path \<longrightarrow> saveReceivedFile W c msgId dest = (c\<lparr>c_files := (c_files c)(path := None)\<rparr>, Inl CopyFailed))"
  using assms by (auto simp: saveReceivedFile_def Let_def)

theorem save_onto_itself_loses_file_witness:
  "saveReceivedFile demoWorld (demoRx\<lparr>c_receivedFilePaths := [''m'' \<mapsto> ''/data/m_a''], c_files := [''/data/m_a'' \<mapsto> [1, 2]]\<rparr>) ''m'' ''/data/m_a'' =
     (demoRx\<lparr>c_receivedFilePaths := [''m'' \<mapsto> ''/data/m_a''], c_files := Map.empty\<rparr>, Inl CopyFailed)"
  using save_onto_itself_loses_file [of "demoRx\<lparr>c_receivedFilePaths := [''m'' \<mapsto> ''/data/m_a''], c_files := [''/data/m_a'' \<mapsto> [1, 2]]\<rparr>"
      "''m''" "''/data/m_a''" "[1, 2]" demoWorld]
  by (simp add: demoWorld_def)


section \<open>A deleted message is not exported\<close>

text \<open>The same database with other texts in the rows of one message.\<close>

definition reword :: "qstring \<Rightarrow> qstring \<times> qstring \<Rightarrow> HistoryStore \<Rightarrow> HistoryStore" where
  "reword mid t h = setDb h ((db h)\<lparr>db_history :=
     map (\<lambda>r. if h_msgId r = Some mid then r\<lparr>h_nonce := fst t, h_ct := snd t\<rparr> else r) (db_history (db h))\<rparr>)"

lemma sort_key_map: "(\<And>r. h_id (f r) = h_id r) \<Longrightarrow> sort_key h_id (map f rs) = map f (sort_key h_id rs)"
proof (induction rs)
  case (Cons r rs)
  have "insort_key h_id (f r) (map f xs) = map f (insort_key h_id r xs)" for xs by (induction xs) (simp_all add: Cons.prems)
  with Cons show ?case by (simp del: sort_key_simps add: sort_key_simps)
qed simp

definition erased :: "qstring \<Rightarrow> qstring \<times> qstring \<Rightarrow> HistoryRow \<Rightarrow> HistoryRow" where
  "erased mid t r = (if h_msgId r = Some mid then r\<lparr>h_nonce := fst t, h_ct := snd t, h_deleted := True\<rparr> else r)"

lemma erased_line: "exportLine W b me peer (readRow peer (erased mid t r)) = exportLine W b me peer (readRow peer (erased mid t' r))"
  by (simp add: erased_def readRow_def exportLine_def Let_def)

lemma erased_rows:
  assumes "m_ready h" "mid \<noteq> []"
  obtains rs where "\<And>t. rowsForPeer (fst (markDeleted (reword mid t h) mid)) peer limit = map (\<lambda>r. readRow peer (erased mid t r)) rs"
proof -
  let ?rs = "sort_key h_id (filter (\<lambda>r. h_peer r = peer) (db_history (db h)))"
  have "rowsForPeer (fst (markDeleted (reword mid t h) mid)) peer limit = map (\<lambda>r. readRow peer (erased mid t r)) (if limit < 0 then ?rs else take (nat limit) ?rs)" for t
  proof -
    let ?h = "fst (markDeleted (reword mid t h) mid)"
    have "db_history (db ?h) = map (erased mid t) (db_history (db h))" "m_ready ?h"
      using assms by (simp_all add: markDeleted_def reword_def Let_def erased_def)
    then have "filter (\<lambda>r. h_peer r = peer) (db_history (db ?h)) = map (erased mid t) (filter (\<lambda>r. h_peer r = peer) (db_history (db h)))" "m_ready ?h"
      by (simp_all add: filter_map comp_def) (simp add: erased_def if_distrib cong: if_cong)
    moreover have "sort_key h_id (map (erased mid t) rs) = map (erased mid t) (sort_key h_id rs)" for rs
      by (rule sort_key_map) (simp add: erased_def)
    ultimately show ?thesis by (simp add: rowsForPeer_def take_map)
  qed
  then show thesis by (rule that)
qed

text \<open>C36 (safety). An export shows nothing of a deleted message: once the rows of a message are marked deleted, the exported
  file, in either format, is the same whatever their text was.\<close>

theorem deleted_text_not_exported:
  assumes "m_ready (c_history c)" "mid \<noteq> []"
  shows "c_files (fst (exportConversation W now (c\<lparr>c_history := fst (markDeleted (reword mid t (c_history c)) mid)\<rparr>) peer format dest)) =
      c_files (fst (exportConversation W now (c\<lparr>c_history := fst (markDeleted (reword mid t' (c_history c)) mid)\<rparr>) peer format dest)) \<and>
    snd (exportConversation W now (c\<lparr>c_history := fst (markDeleted (reword mid t (c_history c)) mid)\<rparr>) peer format dest) =
      snd (exportConversation W now (c\<lparr>c_history := fst (markDeleted (reword mid t' (c_history c)) mid)\<rparr>) peer format dest)"
proof -
  obtain rs where rs: "\<And>t. rowsForPeer (fst (markDeleted (reword mid t (c_history c)) mid)) peer 100000 = map (\<lambda>r. readRow peer (erased mid t r)) rs"
    using erased_rows [OF assms] by metis
  have lines: "map (exportLine W b me peer) (map (\<lambda>r. readRow peer (erased mid t r)) rs) = map (exportLine W b me peer) (map (\<lambda>r. readRow peer (erased mid t' r)) rs)" for b me
    by (simp add: erased_line [of W b me peer mid t _ t'])
  show ?thesis
    by (simp add: exportConversation_def Let_def rs lines del: map_map)
      (simp add: writeToChosenDestination_def Let_def split: option.split)
qed


definition demoChat :: ChatClient where
  "demoChat = demoClient\<lparr>c_history := fst (addTextRow demoStore ''bob'' ''alice'' ''00'' ''00'' 7 True ''m1'')\<rparr>"

theorem deleted_text_not_exported_witness:
  "c_files (fst (exportConversation demoWorld 9 (demoChat\<lparr>c_history := fst (markDeleted (reword ''m1'' (''aa'', ''bb'') (c_history demoChat)) ''m1'')\<rparr>)
       ''bob'' ''txt'' ''/tmp/x'')) =
   c_files (fst (exportConversation demoWorld 9 (demoChat\<lparr>c_history := fst (markDeleted (reword ''m1'' (''cc'', ''dd'') (c_history demoChat)) ''m1'')\<rparr>)
       ''bob'' ''txt'' ''/tmp/x''))"
proof -
  have "m_ready (c_history demoChat)" by (simp add: demoChat_def addTextRow_def insertHistory_def Let_def demoStore_facts(1))
  from deleted_text_not_exported [OF this, of "''m1''"] show ?thesis by simp
qed

end
