(* ===== verification/Runs.thy ===== *)
theory Runs
  imports Lock Export
begin

text \<open>
  Whole runs of \<open>ChatClient\<close>: every entry point of the class, called by the user interface, by a timer, by the
  socket or by the platform, is a step. Two kinds of steps have a condition. A frame arrives only on an open
  connection; a login, a registration and the answer of the vault belong to the login page, which the user
  interface shows while no session is active: \<^verbatim>\<open>onConnected\<close> sets \<open>a_sessionActive\<close> where it emits \<^verbatim>\<open>loggedIn\<close>, and \<^verbatim>\<open>logout\<close> clears it where it emits
  \<^verbatim>\<open>loggedOut\<close>, the signals on which \<^verbatim>\<open>client/qml/Main.qml\<close> changes the page.

  The lemmas show the invariant of the verification gate over all runs.
\<close>

definition openHistory :: "ChatClient \<Rightarrow> qstring \<Rightarrow> ChatClient" where
  "openHistory c baseDir = onAccount (\<lambda>a. a\<lparr>a_historyBaseDir := baseDir\<rparr>) c"

section \<open>Steps that do not touch the gate\<close>

text \<open>The sets of the gate, the connection and the session stay as they are.\<close>

definition calm :: "ChatClient \<Rightarrow> ChatClient \<Rightarrow> bool" where
  "calm c c' \<longleftrightarrow> c_unverifiedKeyChange c' = c_unverifiedKeyChange c \<and> c_pendingBilateral c' = c_pendingBilateral c \<and>
     c_peerVerified c' = c_peerVerified c \<and> c_connected c' = c_connected c \<and>
     a_sessionActive (c_account c') = a_sessionActive (c_account c)"

interpretation cm: transfer_change calm
proof
  show "calm c (fst (boxEncrypt W c peer pt))" for c W peer pt
    by (simp add: calm_def boxEncrypt_def case_prod_beta)
qed (auto simp: calm_def idle_def requeue_def sendFrame_def)

lemma calm_changes:
  "calm c (sendFrame c f)" "calm c (c\<lparr>c_pendingX3dhHeader := x1\<rparr>)" "calm c (c\<lparr>c_nick := x2\<rparr>)" "calm c (c\<lparr>c_healPending := x3\<rparr>)"
  "calm c (c\<lparr>c_relayServesUntaggedEd := x4\<rparr>)" "calm c (c\<lparr>c_outbox := x5\<rparr>)"
  by (simp_all add: calm_def sendFrame_def)

lemma calm_account: "(\<And>a. a_sessionActive (f a) = a_sessionActive a) \<Longrightarrow> calm c (onAccount f c)"
  "a_sessionActive a = a_sessionActive (c_account c) \<Longrightarrow> calm c (c\<lparr>c_account := a\<rparr>)"
  by (simp_all add: calm_def onAccount_def)

lemma calm_settings:
  "calm c (setSetting k v c)" "calm c (removeSetting k c)" "calm c (setFlag k b c)" "calm c (setNumber k n c)" "calm c (unlocked c)"
  "calm c (fst (boxDeriveVerifier W c pw))"
  by (simp_all add: calm_def lock_defs)

lemmas calms = cm.rt calm_changes [THEN cm.trans [rotated]] calm_account [THEN cm.trans [rotated]]
  calm_settings [THEN cm.trans [rotated]] cm.refl

section \<open>Sending and looking\<close>

lemma calm_sends:
  "calm c (sendMessage W now c pt)" "calm c (editMessage W now c mid body)" "calm c (resendMessage W now c mid)"
proof -
  have queue: "calm c (queueAndShow W c peer pt now)" for c peer pt
    by (auto simp: queueAndShow_def queueOutbox_def Let_def case_prod_beta intro!: calms split: option.split)
  have direct: "calm c (deliverText W now c peer pt w)" for c peer pt w
    by (auto simp: deliverText_def Let_def case_prod_beta intro!: calms)
  show send: "calm c (sendMessage W now c pt)" for c pt
    unfolding sendMessage_def Let_def case_prod_beta
    by (auto intro!: calms queue [THEN cm.trans [rotated]] direct [THEN cm.trans [rotated]] split: encrypt_result.split)
  have edit: "calm c (deliverEdit W now c peer mid body w)" for c peer mid body w
    unfolding deliverEdit_def Let_def case_prod_beta by (auto intro!: calms split: option.split)
  show "calm c (editMessage W now c mid body)"
    unfolding editMessage_def Let_def case_prod_beta
    by (auto intro!: calms edit [THEN cm.trans [rotated]] split: encrypt_result.split)
  show "calm c (resendMessage W now c mid)"
    unfolding resendMessage_def Let_def by (auto intro!: cm.file_sent send cm.refl split: option.split)
qed

lemma calm_looks:
  "calm c (deleteForMe W c mid)" "calm c (deleteForEveryone W now c mid)" "calm c (sendReaction W now c mid kind)"
  "calm c (requestBundle c peer)"
  by (simp_all add: deleteForMe_def deleteForEveryone_def sendReaction_def requestBundle_def calm_def sendFrame_def Let_def)

lemma calm_base: "calm c (openHistory c baseDir)"
  by (simp add: openHistory_def calm_def onAccount_def)

lemma calm_typing: "calm c (notifyTyping c sendingFile)"
  by (simp add: notifyTyping_def cm.refl cm.trans [OF cm.updates(14) cm.typing])

lemma calm_written:
  "calm c (fst (saveReceivedFile W c msgId dest))" "calm c (fst (exportConversation W now c peer format dest))"
proof -
  have stored: "calm c (if P then c\<lparr>c_files := x\<rparr> else c)" "calm c (c\<lparr>c_files := x\<rparr>)" for P x
    by (simp_all add: cm.transferred cm.refl)
  show "calm c (fst (saveReceivedFile W c msgId dest))"
    unfolding saveReceivedFile_def Let_def
    by (simp add: stored cm.refl cm.trans [OF stored(1) cm.transferred(2)] split del: if_split split: option.split)
      (simp add: stored cm.refl cm.trans [OF stored(1) cm.transferred(2)])
  have "calm c (fst (writeToChosenDestination W c dest bytes))" for bytes
    by (simp add: writeToChosenDestination_def calm_def Let_def)
  then show "calm c (fst (exportConversation W now c peer format dest))"
    unfolding exportConversation_def Let_def case_prod_beta by (simp add: cm.refl split: option.split bool.split)
qed

lemma calm_open: "calm c (setActivePeer W now c peer)" "calm c (openConversationFromNotification W now c peer)"
proof -
  have open_it: "calm c (setActivePeer W now c peer)" for c peer
    by (auto simp: setActivePeer_def loadConversation_def Let_def intro!: calms split: option.split)
  then show "calm c (setActivePeer W now c peer)" .
  show "calm c (openConversationFromNotification W now c peer)"
    by (auto simp: openConversationFromNotification_def intro!: open_it [THEN cm.trans [rotated]] calms)
qed

section \<open>Timers of the heartbeat\<close>

lemma calm_ping: "calm c (markRekeyPingSent now c peer)" "calm c (startKick c)"
  by (simp_all add: markRekeyPingSent_def startKick_def calm_def)

lemma calm_pings:
  "calm c (idlePing W now peer c)" "calm c (healPeer W now peer c)" "calm c (forceRekey W now c peer)"
proof -
  obtain c1 ok where t: "transmitRekey W now c peer False = (c1, ok)" by fastforce
  have c1: "calm c c1" using cm.transmit [of c W now peer False] t by simp
  then have "calm c (markRekeyPingSent now c1 peer)" "calm c (startKick c1)" "calm c (c1\<lparr>c_healPending := x\<rparr>)"
    "calm c ((markRekeyPingSent now c1 peer)\<lparr>c_healPending := x\<rparr>)" for x
    using cm.trans [OF c1] calm_ping calm_changes(4) cm.trans by blast+
  with c1 show "calm c (idlePing W now peer c)" "calm c (healPeer W now peer c)" "calm c (forceRekey W now c peer)"
    by (auto simp: idlePing_def healPeer_def forceRekey_def t Let_def cm.refl calm_changes(4) split: bool.split)
qed

lemma calm_timers: "calm c (idleTick W now c)" "calm c (reestablishPcsForAll W now c)"
  using cm.fold_change [of "idlePing W now", OF calm_pings(1)] cm.fold_change [of "healPeer W now", OF calm_pings(2)]
    cm.trans [OF _ calm_ping(2)]
  by (auto simp: idleTick_def reestablishPcsForAll_def Let_def cm.refl)

lemma calm_kick: "calm c (kickRekey W now c)"
proof -
  have out: "calm c (kickOutstanding W now peer c)" for peer c
    using calm_pings cm.transmit [of c W now peer False] cm.trans [OF _ calm_ping(1)]
    by (auto simp: kickOutstanding_def releasePing_def Let_def case_prod_beta intro!: calms split: bool.split)
  have ping: "calm (fst s) (fst (kickPing W now peer s))" for peer s
    using cm.transmit [of "fst s" W now peer False] cm.trans [OF _ calm_ping(1)]
    by (auto simp: kickPing_def Let_def case_prod_beta cm.refl split: bool.split)
  have pong: "calm (fst s) (fst (kickPong W now peer s))" for peer s
    using cm.transmit [of "fst s" W now peer True]
    by (auto simp: kickPong_def Let_def case_prod_beta intro!: calms split: bool.split)
  have heal: "calm (fst s) (fst (kickHeal W now peer s))" for peer s
    using cm.transmit [of "fst s" W now peer False] cm.trans [OF _ calm_ping(1)]
    by (auto simp: kickHeal_def Let_def case_prod_beta intro!: calms split: bool.split)
  have rearm: "calm (fst s) (kickRearm W s)" for s
    by (simp add: kickRearm_def startKick_def calm_def case_prod_beta)
  note folds = cm.fold_change [of "kickOutstanding W now", OF out] cm.fold_change_fst [of "kickPing W now", OF ping]
    cm.fold_change_fst [of "kickPong W now", OF pong] cm.fold_change_fst [of "kickHeal W now", OF heal]
  show ?thesis
    unfolding kickRekey_def Let_def
    by (auto intro!: cm.updates cm.trans [OF _ rearm] cm.trans [OF _ folds(4)] cm.trans [OF _ folds(3)] cm.trans [OF _ folds(2)]
        cm.trans [OF _ folds(1)])
qed

section \<open>The connection\<close>

lemma calm_publish: "calm c (publishPrekeysIfNeeded W now c force)"
proof -
  have pool: "calm c (restorePool W now c)" by (simp add: restorePool_def calm_def)
  have "calm d (fst (boxPrekeys W now d))" for d by (simp add: boxPrekeys_def calm_def Let_def case_prod_beta)
  with pool have box: "calm c (fst (boxPrekeys W now (restorePool W now c)))" using cm.trans by blast
  then have "calm c (sendFrame ((fst (boxPrekeys W now (restorePool W now c)))\<lparr>c_history := h\<rparr>) f)"
    "calm c (sendFrame (fst (boxPrekeys W now (restorePool W now c))) f)" for h f
    by (simp_all add: calm_def sendFrame_def)
  with box pool show ?thesis
    unfolding publishPrekeysIfNeeded_def Let_def case_prod_beta by (simp add: cm.refl split: bool.split)
qed

lemma calm_rotate: "calm c (rotatePrekeys W now c)"
proof -
  have "calm c (c\<lparr>c_crypto := x1, c_draws := x2\<rparr>)" "calm c (c\<lparr>c_crypto := x1, c_draws := x2, c_history := x3\<rparr>)" for x1 x2 x3
    by (simp_all add: calm_def)
  then show ?thesis
    unfolding rotatePrekeys_def Let_def case_prod_beta by (simp add: cm.refl cm.trans [OF _ calm_publish])
qed

lemma calm_bundle: "calm c (receiveBundle W now c who served)"
proof -
  have header: "calm c (c\<lparr>c_crypto := x1, c_draws := x2, c_pendingX3dhHeader := x3\<rparr>)" "calm c (c\<lparr>c_crypto := x1, c_draws := x2\<rparr>)" for x1 x2 x3
    by (simp_all add: calm_def)
  note persisted = cm.trans [OF header(1) cm.persist]
  show ?thesis
    unfolding receiveBundle_def Let_def
    by (simp add: cm.refl header(2) persisted cm.trans [OF persisted cm.drained] split: option.split prod.split)
qed

lemma calm_presence: "calm c (receivePresence W c names)"
proof -
  have "calm c (if p \<notin> set names then setPeerTyping c p ''idle'' else c)" for p c by (simp add: setPeerTyping_def calm_def)
  then show ?thesis unfolding receivePresence_def Let_def by (rule cm.trans [OF cm.received(2) cm.fold_change])
qed

lemma calm_hello: "calm c (completeHello W now c)" "calm c (deriveVerifierLocally W c)"
proof -
  have "calm c (uploadPublicKey (onAccount (\<lambda>a. a\<lparr>a_saltTimer := False\<rparr>) c))"
    by (simp add: uploadPublicKey_def calm_def sendFrame_def onAccount_def Let_def)
  from cm.trans [OF cm.trans [OF this cm.drained] calm_timers(2)] show "calm c (completeHello W now c)"
    by (simp add: completeHello_def)
  show "calm c (deriveVerifierLocally W c)"
    by (simp add: deriveVerifierLocally_def boxDeriveVerifier_def setSetting_def onAccount_def calm_def Let_def split: option.split)
qed

lemma calm_salt: "calm c (receiveAuthSalt W now c salt)" "calm c (saltTimeout W now c)"
proof -
  have "calm c (setSetting k v (onAccount (\<lambda>a. a\<lparr>a_verifierHex := f a, a_saltHex := g\<rparr>) c))" for k v f g
    by (simp add: setSetting_def onAccount_def calm_def)
  note answers = cm.trans [OF this calm_hello(1)] cm.trans [OF calm_hello(2,1)]
  show "calm c (receiveAuthSalt W now c salt)" "calm c (saltTimeout W now c)"
    by (simp_all add: receiveAuthSalt_def saltTimeout_def answers cm.refl split: option.split list.split)
qed

lemma calm_socket: "calm c (openSocketWithTls W c)" "calm c (tryReconnect W c)" "calm c (onSslErrors W c errors)"
proof -
  have lab: "calm c (fst (labTrustAnchors W c))" for c by (simp add: labTrustAnchors_def calm_def Let_def split: option.split)
  then have "calm c (fst (sslConfigurationFor W c url))" for c url
    by (simp add: sslConfigurationFor_def cm.refl Let_def case_prod_beta)
  then have sock: "calm c (openSocketWithTls W c)" for c
    by (auto simp: openSocketWithTls_def Let_def case_prod_beta calm_def)
  then show "calm c (openSocketWithTls W c)" .
  show "calm c (tryReconnect W c)"
    unfolding tryReconnect_def by (rule cm.trans [OF calm_account(1) sock]) simp
  show "calm c (onSslErrors W c errors)"
    using lab [of c] by (simp add: onSslErrors_def Let_def case_prod_beta calm_def)
qed

section \<open>The lock and the vault\<close>

lemma calm_pin: "calm c (fst (storePin W c pin))" "calm c (removePin c)"
proof -
  have "calm c (setSetting k v (setSetting k' v' (fst (boxDeriveVerifier W c pin))))" for k v k' v'
    by (simp add: calm_def lock_defs)
  then show "calm c (fst (storePin W c pin))"
    unfolding storePin_def case_prod_beta by (simp add: calm_settings(6) split: option.split)
  show "calm c (removePin c)" by (simp add: calm_def lock_defs)
qed

lemma calm_lock:
  "calm c (fst (setPin W c pin))" "calm c (fst (setLockEnabled W c enabled pin))" "calm c (fst (resetLockWithPassword W c password))"
  "calm c (fst (verifyPin W now c pin))" "calm c (lockNow c)" "calm c (onBiometricSucceeded W now c)" "calm c (fst (biometricAvailable W c))"
proof -
  note undo = cm.trans [OF cm.trans [OF calm_settings(3) calm_pin(2)] calm_settings(5)]
  have bio: "calm c (fst (biometricAvailable W c))" for c by (simp add: biometricAvailable_def calm_def)
  note on = cm.trans [OF cm.trans [OF bio calm_settings(3)] calm_pin(2)] cm.trans [OF calm_pin(1) calm_settings(3)]
  note wake = cm.trans [OF calm_settings(5) calm_timers(2)]
  show "calm c (fst (setPin W c pin))" by (simp add: setPin_def calm_pin cm.trans [OF calm_pin(2) calm_settings(5)])
  show "calm c (fst (setLockEnabled W c enabled pin))"
    unfolding setLockEnabled_def case_prod_beta by (simp add: undo on bio calm_pin cm.refl split: bool.split sum.split)
  show "calm c (fst (resetLockWithPassword W c password))"
    by (simp add: resetLockWithPassword_def undo cm.refl Let_def split: option.split)
  show "calm c (fst (verifyPin W now c pin))" "calm c (onBiometricSucceeded W now c)"
    by (simp_all add: verifyPin_def onBiometricSucceeded_def wake cm.refl Let_def)
  show "calm c (lockNow c)" by (simp add: lockNow_def calm_def onAccount_def)
  show "calm c (fst (biometricAvailable W c))" by (rule bio)
qed

lemma calm_sessions: "calm c (persistAllSessions W now c)" "calm c (restoreAllSessions W c)"
proof -
  show "calm c (persistAllSessions W now c)"
    unfolding persistAllSessions_def by (auto simp: Let_def cm.refl intro!: cm.fold_change cm.updates)
  have "calm c (restoreSession W c p)" for c p by (simp add: restoreSession_def calm_def Let_def case_prod_beta)
  then show "calm c (restoreAllSessions W c)" by (simp add: restoreAllSessions_def cm.refl cm.fold_change)
qed

lemma calm_app: "calm c (onApplicationStateChanged W now c state)"
  by (simp add: onApplicationStateChanged_def calm_sessions cm.trans [OF calm_sessions(1) calm_lock(5)] cm.refl split: app_state.split)

lemma calm_vault:
  "calm c (fst (recoverPassword W secs today c url nick birthday))" "calm c (fst (biometricLogin W c url nick))"
  "calm c (requestBiometricLoginEnroll c pw)" "calm c (disableBiometricLogin W c nick)" "calm c (setThemeIndex c i)" "calm c (setDarkMode c dark)"
  by (simp_all add: recoverPassword_def biometricLogin_def requestBiometricLoginEnroll_def disableBiometricLogin_def clearLogin_def
      setThemeIndex_def setDarkMode_def setNumber_def setFlag_def onAccount_def calm_def Let_def)

section \<open>Logging in\<close>

lemma calm_save: "calm c (fst (boxSaveEncrypted W c path pw))" "calm c (fst (saveVerified W name pw dirs c))"
proof -
  have save: "calm c (fst (boxSaveEncrypted W c path pw))" for c path
    by (simp add: boxSaveEncrypted_def calm_def Let_def split: option.split)
  then show "calm c (fst (boxSaveEncrypted W c path pw))" .
  show "calm c (fst (saveVerified W name pw dirs c))"
  proof (induction dirs arbitrary: c)
    case (Cons d dirs)
    note trans = cm.trans [OF save Cons.IH]
    show ?case by (simp add: case_prod_beta save trans split: bool.split)
  qed (simp add: cm.refl)
qed

lemma calm_identity: "calm c (fst (establishIdentity W c nick pw isRegister))"
proof -
  have new: "calm c (c\<lparr>c_crypto := x1, c_draws := x2\<rparr>)" for x1 x2 by (simp add: calm_def)
  have created: "calm c (fst (createIdentity W c nick pw))"
    unfolding createIdentity_def Let_def case_prod_beta by (simp add: cm.trans [OF new calm_save(2)] split: bool.split)
  note moved = cm.trans [OF cm.received(1) calm_save(1)]
  have "calm c (fst (migrateIdentity W c nick pw path))" for path
    unfolding migrateIdentity_def Let_def case_prod_beta
    by (simp add: cm.received(1) moved cm.trans [OF moved cm.transferred(2)] split: bool.split)
  with created show ?thesis
    unfolding establishIdentity_def case_prod_beta by (simp add: cm.refl cm.received(1) split: option.split bool.split)
qed

lemma calm_resume: "calm c (resumeAndConnect W c)"
proof -
  have "calm c (restoreRow W r c)" for r c
    by (auto simp: restoreRow_def requeue_def calm_def Let_def split: option.split list.split prod.split)
  then have "calm c (restoreOutbox W c)" for c by (simp add: restoreOutbox_def cm.refl cm.fold_change)
  then have "calm c (restoreOutbox W (restoreAllSessions W c))" using cm.trans [OF calm_sessions(2)] by blast
  from cm.trans [OF this calm_account(1)] show ?thesis
    unfolding resumeAndConnect_def by (intro cm.trans [OF _ calm_socket(1)]) simp
qed

text \<open>Signing in leaves everything but the confirmations of the peers, which it restores from the database.\<close>

definition signing :: "ChatClient \<Rightarrow> ChatClient \<Rightarrow> bool" where
  "signing c c' \<longleftrightarrow> c_unverifiedKeyChange c' = c_unverifiedKeyChange c \<and> c_pendingBilateral c' = c_pendingBilateral c \<and>
     c_connected c' = c_connected c \<and> a_sessionActive (c_account c') = a_sessionActive (c_account c)"

interpretation si: change_relation signing
  by unfold_locales (auto simp: signing_def)

lemma calm_signing: "calm c c' \<Longrightarrow> signing c c'"
  by (simp add: calm_def signing_def)

lemma signing_history: "signing c (fst (openUserHistory W c))" "signing c (loginHistory W now c)"
proof -
  have hist: "signing c (fst (openUserHistory W c))"
    by (simp add: openUserHistory_def restoreVerification_def signing_def Let_def case_prod_beta)
  then show "signing c (fst (openUserHistory W c))" .
  then have "signing c ((fst (openUserHistory W c))\<lparr>c_messages := ms\<rparr>)" for ms by (simp add: signing_def)
  with hist show "signing c (loginHistory W now c)"
    unfolding loginHistory_def case_prod_beta by (simp split: bool.split) (simp add: signing_def)
qed

lemma signing_start: "signing c (loginStart W (c\<lparr>c_nick := nick\<rparr>) url reg)"
  "signing c (loginStart W (recordBirthday W today (c\<lparr>c_nick := nick\<rparr>) birthday) url reg)"
proof -
  have start: "signing c (loginStart W c url reg)" for c
    by (simp add: loginStart_def rememberLogin_def setSetting_def onAccount_def signing_def)
  have nick: "signing c (c\<lparr>c_nick := nick\<rparr>)" for c by (simp add: signing_def)
  have "signing c (recordBirthday W today c birthday)" for c
    by (simp add: recordBirthday_def boxDeriveVerifier_def setSetting_def onAccount_def signing_def Let_def split: option.split)
  with nick start show "signing c (loginStart W (c\<lparr>c_nick := nick\<rparr>) url reg)"
    "signing c (loginStart W (recordBirthday W today (c\<lparr>c_nick := nick\<rparr>) birthday) url reg)"
    using si.trans by blast+
qed

lemma signing_in:
  "signing c (fst (login W now c url nick pw))" "signing c (fst (registerAccount W today c url nick pw birthday))"
proof -
  note identity = si.trans [OF _ calm_signing [OF calm_identity]]
  have resume: "signing c d \<Longrightarrow> signing c (resumeAndConnect W (onAccount (\<lambda>a. a\<lparr>a_password := x1, a_verifierHex := x2, a_saltHex := x3\<rparr>) d))"
    "signing c d \<Longrightarrow> signing c (resumeAndConnect W (setSetting k v (onAccount (\<lambda>a. a\<lparr>a_verifierHex := x2, a_saltHex := x3\<rparr>) d)))" for d x1 x2 x3 k v
    using calm_resume by (auto simp: signing_def calm_def setSetting_def onAccount_def)
  show "signing c (fst (login W now c url nick pw))"
    unfolding login_def Let_def case_prod_beta
    by (simp split: sum.split add: identity [OF si.trans [OF signing_start(1) signing_history(2)]]
        resume(1) [OF identity [OF si.trans [OF signing_start(1) signing_history(2)]]])
  let ?c1 = "loginStart W (recordBirthday W today (c\<lparr>c_nick := w_trimmed W nick\<rparr>) birthday) url True"
  define c2 where "c2 = (if historyDir W ?c1 \<noteq> [] then fst (openUserHistory W ?c1) else ?c1)"
  have c2: "signing c c2" unfolding c2_def using si.trans [OF signing_start(2) signing_history(1)] signing_start(2) by simp
  have verifier: "signing c (fst (boxDeriveVerifier W (onAccount (\<lambda>a. a\<lparr>a_password := pw\<rparr>) (fst (establishIdentity W c2 n pw True))) pw))" for n
    using identity [OF c2, of W n pw True] by (simp add: signing_def boxDeriveVerifier_def onAccount_def)
  show "signing c (fst (registerAccount W today c url nick pw birthday))"
    unfolding registerAccount_def Let_def case_prod_beta c2_def [symmetric]
    by (simp split: sum.split option.split add: identity [OF c2] verifier resume(2) [OF verifier])
qed


section \<open>Runs\<close>

inductive client_step :: "world \<Rightarrow> ChatClient \<Rightarrow> ChatClient \<Rightarrow> bool" for W where
  login: "\<not> a_sessionActive (c_account c) \<Longrightarrow> client_step W c (fst (login W now c url nick password))"
| register: "\<not> a_sessionActive (c_account c) \<Longrightarrow> client_step W c (fst (registerAccount W today c url nick password birthday))"
| vault: "\<not> a_sessionActive (c_account c) \<Longrightarrow> client_step W c (fst (onBiometricLoginUnlocked W now c nick password))"
| base: "client_step W c (openHistory c baseDir)"
| leave: "client_step W c (logout W c)"
| connected: "client_step W c (onConnected W now c)"
| disconnected: "client_step W c (onDisconnected W now c code)"
| frame: "c_connected c \<Longrightarrow> client_step W c (handleServerFrame W now c f)"
| acknowledge: "client_step W c (acknowledgeKeyChange W now c peer)"
| message: "client_step W c (sendMessage W now c plaintext)"
| edit: "client_step W c (editMessage W now c mid newText)"
| sendfile: "client_step W c (sendFile W now c path)"
| resend: "client_step W c (resendMessage W now c mid)"
| delete: "client_step W c (deleteForMe W c mid)"
| retract: "client_step W c (deleteForEveryone W now c mid)"
| react: "client_step W c (sendReaction W now c mid kind)"
| typing: "client_step W c (notifyTyping c sendingFile)"
| idle: "client_step W c (sendTypingState c peer state)"
| select: "client_step W c (setActivePeer W now c peer)"
| toast: "client_step W c (openConversationFromNotification W now c peer)"
| askbundle: "client_step W c (requestBundle c peer)"
| rekey: "client_step W c (forceRekey W now c peer)"
| saved: "client_step W c (fst (saveReceivedFile W c msgId dest))"
| exported: "client_step W c (fst (exportConversation W now c peer format dest))"
| kick: "client_step W c (kickRekey W now c)"
| tick: "client_step W c (idleTick W now c)"
| salt: "client_step W c (saltTimeout W now c)"
| reconnect: "client_step W c (tryReconnect W c)"
| ssl: "client_step W c (onSslErrors W c errors)"
| app: "client_step W c (onApplicationStateChanged W now c state)"
| pin: "client_step W c (fst (setPin W c pin))"
| enable: "client_step W c (fst (setLockEnabled W c enabled pin))"
| reset: "client_step W c (fst (resetLockWithPassword W c password))"
| verify: "client_step W c (fst (verifyPin W now c pin))"
| lock: "client_step W c (lockNow c)"
| credential: "client_step W c (onBiometricSucceeded W now c)"
| hello: "client_step W c (fst (biometricAvailable W c))"
| recover: "client_step W c (fst (recoverPassword W secs today c url nick birthday))"
| biologin: "client_step W c (fst (biometricLogin W c url nick))"
| enroll: "client_step W c (requestBiometricLoginEnroll c password)"
| unenroll: "client_step W c (disableBiometricLogin W c nick)"
| theme: "client_step W c (setThemeIndex c index)"
| dark: "client_step W c (setDarkMode c dark)"

inductive client_run :: "world \<Rightarrow> ChatClient \<Rightarrow> ChatClient \<Rightarrow> bool" for W where
  start: "client_run W c c"
| step: "client_run W c c1 \<Longrightarrow> client_step W c1 c2 \<Longrightarrow> client_run W c c2"

section \<open>The gate in every run\<close>

text \<open>The invariant of the gate, and that episodes exist only while a session is active.\<close>

definition run_inv :: "ChatClient \<Rightarrow> bool" where
  "run_inv c \<longleftrightarrow> gate_inv c \<and> (c_connected c \<or> c_pendingBilateral c \<noteq> {} \<longrightarrow> a_sessionActive (c_account c))"

lemma calm_run: "calm c c' \<Longrightarrow> run_inv c \<Longrightarrow> run_inv c'"
  by (simp add: calm_def run_inv_def gate_inv_def waits_for_peer_def)

lemma signing_run: "signing c c' \<Longrightarrow> \<not> a_sessionActive (c_account c) \<Longrightarrow> run_inv c \<Longrightarrow> run_inv c'"
  by (auto simp: signing_def run_inv_def gate_inv_def waits_for_peer_def)

definition active_same :: "ChatClient \<Rightarrow> ChatClient \<Rightarrow> bool" where
  "active_same c c' \<longleftrightarrow> c_connected c' = c_connected c \<and> a_sessionActive (c_account c') = a_sessionActive (c_account c)"

interpretation al: receive_change active_same
proof
  show "active_same c (fst (boxEncrypt W c peer pt))" for c W peer pt
    by (simp add: active_same_def boxEncrypt_def case_prod_beta)
qed (auto simp: active_same_def idle_def requeue_def sendFrame_def)

lemma calm_active: "calm c c' \<Longrightarrow> active_same c c'"
  by (simp add: calm_def active_same_def)

text \<open>What a frame on an open connection does.\<close>

definition live_kept :: "ChatClient \<Rightarrow> ChatClient \<Rightarrow> bool" where
  "live_kept c c' \<longleftrightarrow> (c_connected c \<and> run_inv c \<longrightarrow> c_connected c' \<and> run_inv c')"

interpretation lk: change_relation live_kept
  by unfold_locales (auto simp: live_kept_def)

lemma live_keptI: "active_same c c' \<Longrightarrow> (gate_inv c \<Longrightarrow> gate_inv c') \<Longrightarrow> live_kept c c'"
  by (auto simp: live_kept_def active_same_def run_inv_def)

lemma calm_live: "calm c c' \<Longrightarrow> live_kept c c'"
  using calm_run [of c c'] by (simp add: live_kept_def calm_def)

lemma live_learn: "live_kept c (fst (learnKey W now c peer published ikType))"
proof (rule live_keptI)
  have forget: "active_same c (forgetPeer c peer)" for c
    by (simp add: forgetPeer_def resetPcsFor_def releasePing_def active_same_def)
  have flag: "active_same c (flagKeyChange W now c peer)" for c
    by (simp add: flagKeyChange_def sendVerifyResync_def systemLine_def sendFrame_def active_same_def Let_def)
  have resend: "active_same c (maybeResendVerifyAck now c peer)" for c
    by (simp add: maybeResendVerifyAck_def al.ack_sent al.refl)
  have key: "active_same c (c\<lparr>c_peerEdKeys := m, c_peerKeys := k, c_crypto := b\<rparr>)" "active_same c (c\<lparr>c_peerEdKeys := m\<rparr>)" for m k b
    by (simp_all add: active_same_def)
  note marks = al.trans [OF key(1) resend] al.trans [OF al.trans [OF key(1) flag] resend]
    al.trans [OF al.trans [OF al.trans [OF key(1) forget] flag] resend]
  have "active_same c (adoptKey W now (c\<lparr>c_peerEdKeys := m\<rparr>) peer pub)" for m pub
    unfolding adoptKey_def Let_def case_prod_beta by (simp add: marks)
  then show "active_same c (fst (learnKey W now c peer published ikType))"
    by (simp add: learnKey_def Let_def al.refl split: option.split)
qed (rule learn_inv)

lemma live_frame: "live_kept c (receiveFrame W now c f)"
proof (cases f)
  case (VerifyAck frm to senderIk verifiedIk ts)
  then show ?thesis by (simp add: live_keptI [OF al.attested receive_ack_inv])
qed (simp_all add: calm_live cm.frames)

lemma live_replay: "live_kept c (replayPendingFrames W now c nick)"
  unfolding replayPendingFrames_def
  by (rule lk.trans [OF calm_live [OF cm.received(4)] lk.fold_change]) (rule live_frame)

lemma live_keys: "live_kept c (receiveKeys W now c entries keyTypes)" "live_kept c (receiveKey W now c nick published statedType)"
proof -
  have drain: "live_kept c (drainIfConnected W now c)" for c by (simp add: drainIfConnected_def calm_live cm.drained lk.refl)
  have "calm c (detectRelay W c entries)" "calm c (enrollIfPending W c)" for c
    by (auto simp: detectRelay_def enrollIfPending_def enrollLogin_def calm_def Let_def split: option.split)
  then have start: "live_kept c (enrollIfPending W (if keyTypes = None then detectRelay W c entries else c))"
    using cm.trans by (intro calm_live) (metis (full_types))
  have "live_kept c ((\<lambda>(peer, published) c. if c_nick c \<noteq> [] \<and> peer = c_nick c then c
      else fst (learnKey W now c peer published (valueOr [] types peer))) x c)" for c types x
    by (simp add: lk.refl live_learn case_prod_beta)
  note learned = lk.fold_change [OF this]
  have "live_kept c ((\<lambda>(peer, _) c. replayPendingFrames W now c peer) x c)" for c and x :: "qstring \<times> qstring"
    by (simp add: live_replay case_prod_beta)
  note replayed = lk.fold_change [OF this]
  show "live_kept c (receiveKeys W now c entries keyTypes)"
    unfolding receiveKeys_def Let_def by (rule lk.trans [OF lk.trans [OF lk.trans [OF start learned] replayed] drain])
  show "live_kept c (receiveKey W now c nick published statedType)"
    unfolding receiveKey_def case_prod_beta
    by (simp add: lk.refl live_learn lk.trans [OF lk.trans [OF live_learn live_replay] drain] split: bool.split)
qed

lemma live_server: "live_kept c (handleServerFrame W now c f)"
  by (cases f) (simp_all add: receivePrekeysAck_def live_keys live_frame calm_live calm_salt calm_presence calm_publish calm_bundle lk.refl)

section \<open>Steps that move the gate or the session\<close>

lemma acknowledge_run: "run_inv c \<Longrightarrow> run_inv (acknowledgeKeyChange W now c peer)"
proof -
  let ?c = "acknowledgeKeyChange W now c peer"
  assume c: "run_inv c"
  have sub: "c_pendingBilateral (tryResolveBilateral W now d peer) \<subseteq> c_pendingBilateral d" for d
    using gateD(2) [OF resolve_gate [of W now d peer]] by (auto simp: resolved_def split: if_splits)
  have shrinks: "c_pendingBilateral ?c \<subseteq> c_pendingBilateral c"
  proof (cases "peer \<in> c_unverifiedKeyChange c")
    case True
    with gateD(2) [OF acknowledge_gate [OF True, of W now]]
      sub [of "c\<lparr>c_unverifiedKeyChange := c_unverifiedKeyChange c - {peer}\<rparr>"] show ?thesis by simp
  qed (simp add: acknowledgeKeyChange_def sub)
  have same: "active_same d (c_unverifiedKeyChange_update g d)" "active_same d (dropChain d peer)" "active_same d (oweVerifyAck d peer)" for d g
    by (simp_all add: dropChain_def resetPcsFor_def releasePing_def oweVerifyAck_def active_same_def)
  have "active_same c ?c"
    unfolding acknowledgeKeyChange_def Let_def
    by (auto intro!: al.rx al.resolve [THEN al.trans [rotated]] same [THEN al.trans [rotated]] al.refl)
  with c acknowledge_inv [of c W now peer] shrinks show ?thesis by (auto simp: run_inv_def active_same_def)
qed

lemma connected_run: "run_inv c \<Longrightarrow> run_inv (onConnected W now c)"
proof -
  assume c: "run_inv c"
  have "run_inv (opened W c)"
    using c by (simp add: run_inv_def gate_inv_def waits_for_peer_def opened_def describeTlsSession_def onAccount_def Let_def)
  moreover have "calm (opened W c) (onConnected W now c)"
  proof -
    note keys = cm.trans [OF cm.trans [OF calm_rotate calm_publish] calm_account(1)]
    have auth: "calm d (beginAuthHandshake W now d)" for d
      by (simp add: beginAuthHandshake_def calm_hello(1) cm.trans [OF calm_changes(1) calm_account(1)])
    show ?thesis
      unfolding onConnected_def Let_def opened_def [symmetric]
      by (auto intro!: cm.trans [OF _ auth] cm.trans [OF _ calm_ping(2)] keys)
  qed
  ultimately show ?thesis using calm_run by blast
qed

lemma logout_run: "run_inv (logout W c)"
  by (simp add: logout_eq run_inv_def gate_inv_def waits_for_peer_def newClient_def)

lemma disconnected_run: "run_inv c \<Longrightarrow> run_inv (onDisconnected W now c code)"
  using logout_run
  by (auto simp: onDisconnected_def run_inv_def gate_inv_def waits_for_peer_def onAccount_def Let_def)

lemma vault_signing: "signing c (fst (onBiometricLoginUnlocked W now c nick password))"
proof -
  have "signing c (onAccount (\<lambda>a. a\<lparr>a_revealOnly := False\<rparr>) c)" by (simp add: signing_def onAccount_def)
  then show ?thesis
    unfolding onBiometricLoginUnlocked_def Let_def case_prod_beta by (simp add: si.refl signing_in(1))
qed

lemmas quiet_steps = calm_sends calm_looks calm_base calm_typing calm_written calm_open calm_pings calm_timers calm_kick calm_salt
  calm_socket calm_lock calm_app calm_vault cm.file_sent cm.typing

lemmas quiet_runs = quiet_steps [THEN calm_run]

lemma client_step_inv: "client_step W c c' \<Longrightarrow> run_inv c \<Longrightarrow> run_inv c'"
proof (induction rule: client_step.induct)
  case (frame c now f)
  with live_server [of c W now f] show ?case by (simp add: live_kept_def)
qed (simp_all add: signing_run [OF signing_in(1)] signing_run [OF signing_in(2)] signing_run [OF vault_signing] logout_run connected_run
    disconnected_run acknowledge_run quiet_runs)

text \<open>C7 (invariant). In every run of the client from a start without a connection and without open episodes, whatever
  the user, the timers, the relay and the platform do: a conversation is blocked exactly while its
  episode waits for both sides; once the user has confirmed, it stays blocked only as long as the peer has
  not confirmed; and an episode is open only while a session is active, so that a logout leaves none behind.\<close>

theorem gate_states:
  assumes "client_run W c c'" "c_unverifiedKeyChange c = {}" "c_pendingBilateral c = {}" "\<not> c_connected c"
  shows "(conversationBlocked c' p \<longleftrightarrow> p \<in> c_pendingBilateral c') \<and>
    (awaitingPeerVerification c' p \<longrightarrow> p \<notin> c_peerVerified c') \<and>
    (conversationBlocked c' p \<longrightarrow> a_sessionActive (c_account c'))"
proof -
  from assms have "run_inv c'"
  proof (induction rule: client_run.induct)
    case (start c)
    then show ?case by (simp add: run_inv_def gate_inv_def waits_for_peer_def)
  qed (simp add: client_step_inv)
  then show ?thesis
    by (auto simp: run_inv_def gate_inv_def waits_for_peer_def conversationBlocked_def awaitingPeerVerification_def)
qed

definition demoStart :: ChatClient where
  "demoStart = demoClient\<lparr>c_account := demoAccount, c_crypto := newCryptoBox\<lparr>m_peerIdentity := [''bob'' \<mapsto> replicate 32 1]\<rparr>\<rparr>"

theorem gate_states_witness:
  "\<exists>c'. client_run demoWorld demoStart c' \<and> conversationBlocked c' ''bob'' \<and> ''bob'' \<in> c_pendingBilateral c' \<and> a_sessionActive (c_account c')"
proof -
  let ?c = "onConnected demoWorld 4 demoStart"
  let ?d = "handleServerFrame demoWorld 5 ?c (Key ''bob'' (toHex (replicate 32 7)) ''x25519'')"
  have on: "c_connected ?c" "m_peerIdentity (c_crypto ?c) ''bob'' = Some (replicate 32 1)" "c_pendingFrames ?c ''bob'' = []"
    by (simp_all add: onConnected_def rotatePrekeys_def publishPrekeysIfNeeded_def beginAuthHandshake_def describeTlsSession_def
        demoStart_def demoClient_def newClient_def onAccount_def sendFrame_def hasX3dhIdentity_def newCryptoBox_def Let_def)
  have run: "client_run demoWorld demoStart ?d"
    by (rule client_run.step [OF client_run.step [OF client_run.start client_step.connected] client_step.frame [OF on(1)]])
  have hex: "hex_law (w_ext demoWorld)" by (simp add: demo_laws)
  have "conversationBlocked ?d ''bob''"
    using other_key_blocks [OF hex _ on(2) _ on(3), of "replicate 32 7" "toHex (replicate 32 7)" "''x25519''" 5] hex_key [OF hex, of "replicate 32 7"]
    by (simp add: agreementKeyFor_def)
  moreover have "c_unverifiedKeyChange demoStart = {}" "c_pendingBilateral demoStart = {}" "\<not> c_connected demoStart"
    by (simp_all add: demoStart_def demoClient_def newClient_def)
  ultimately show ?thesis using gate_states [OF run, of "''bob''"] run by blast
qed

end
