(* ===== verification/LogBuffer.thy ===== *)
theory LogBuffer
  imports ListModel
begin

text \<open>
  The in-app log (\<^verbatim>\<open>client/src/logbuffer.cpp\<close>): a ring of the last 5000 lines with a level each. A
  record logged on another thread is posted to the event queue of the model's thread and appended
  when the queue is served; the queue is part of the state.

  The lemmas show that the buffer holds exactly the last 5000 records appended since the last clear,
  that posted records keep their order, and that attached views stay up to date.
\<close>

definition kMaxLines :: nat where "kMaxLines = 5000"

datatype log_role = LineRole | LevelRole | DisplayRole

record LogBuffer =
  m_lines :: "qstring list"
  m_levels :: "qstring list"
  m_posted :: "(qstring \<times> qstring) list"

definition newLogBuffer :: LogBuffer where
  "newLogBuffer = \<lparr>m_lines = [], m_levels = [], m_posted = []\<rparr>"

definition log_rowCount :: "LogBuffer \<Rightarrow> nat" where
  "log_rowCount b = length (m_lines b)"

definition log_data :: "LogBuffer \<Rightarrow> int \<Rightarrow> log_role \<Rightarrow> qstring option" where
  "log_data b r role =
     (if r < 0 \<or> int (length (m_lines b)) \<le> r then None
      else case role of LineRole \<Rightarrow> Some (m_lines b ! nat r)
         | LevelRole \<Rightarrow> Some (m_levels b ! nat r)
         | DisplayRole \<Rightarrow> Some (m_lines b ! nat r))"

definition log_rows :: "LogBuffer \<Rightarrow> (log_role, qstring option) rows" where
  "log_rows b = map (\<lambda>r. log_data b (int r)) [0..<log_rowCount b]"

definition appendOnGui ::
  "LogBuffer \<Rightarrow> qstring \<Rightarrow> qstring \<Rightarrow> LogBuffer \<times> (log_role, qstring option) trace" where
  "appendOnGui b line level =
     (let (b1, tr1) = (if kMaxLines \<le> length (m_lines b) then
                         (let b1 = b\<lparr>m_lines := tl (m_lines b), m_levels := tl (m_levels b)\<rparr>
                          in (b1, [(RowsRemoved 0, log_rows b1)]))
                       else (b, []));
          row = length (m_lines b1);
          b2 = b1\<lparr>m_lines := m_lines b1 @ [line], m_levels := m_levels b1 @ [level]\<rparr>
      in (b2, tr1 @ [(RowsInserted row, log_rows b2)]))"

definition log_append ::
  "bool \<Rightarrow> LogBuffer \<Rightarrow> qstring \<Rightarrow> qstring \<Rightarrow> LogBuffer \<times> (log_role, qstring option) trace" where
  "log_append onOwnThread b line level =
     (if onOwnThread then appendOnGui b line level
      else (b\<lparr>m_posted := m_posted b @ [(line, level)]\<rparr>, []))"

text \<open>The event loop of the model's thread serves the oldest posted call.\<close>

definition servePosted :: "LogBuffer \<Rightarrow> LogBuffer \<times> (log_role, qstring option) trace" where
  "servePosted b =
     (case m_posted b of [] \<Rightarrow> (b, [])
      | (line, level) # rest \<Rightarrow> appendOnGui (b\<lparr>m_posted := rest\<rparr>) line level)"

definition log_clear :: "LogBuffer \<Rightarrow> LogBuffer \<times> (log_role, qstring option) trace" where
  "log_clear b =
     (if m_lines b = [] then (b, [])
      else (let b1 = b\<lparr>m_lines := [], m_levels := []\<rparr> in (b1, [(ModelReset, log_rows b1)])))"

fun joinLines :: "qstring list \<Rightarrow> qstring" where
  "joinLines [] = []"
| "joinLines [l] = l"
| "joinLines (l # ls) = l @ CHR 0x0A # joinLines ls"

definition asText :: "LogBuffer \<Rightarrow> qstring" where
  "asText b = joinLines (m_lines b)"

section \<open>The ring\<close>

definition parallel :: "LogBuffer \<Rightarrow> bool" where
  "parallel b \<longleftrightarrow> length (m_levels b) = length (m_lines b) \<and> length (m_lines b) \<le> kMaxLines"

definition lastOf :: "nat \<Rightarrow> 'a list \<Rightarrow> 'a list" where
  "lastOf n xs = drop (length xs - n) xs"

definition records :: "LogBuffer \<Rightarrow> (qstring \<times> qstring) list" where
  "records b = zip (m_lines b) (m_levels b)"

lemma lastOf_snoc: "0 < n \<Longrightarrow> lastOf n (lastOf n xs @ [x]) = lastOf n (xs @ [x])"
  by (cases "length xs < n") (auto simp: lastOf_def Suc_diff_le not_less)

lemma tl_zip: "zip (tl xs) (tl ys) = tl (zip xs ys)"
  by (cases xs; cases ys) auto

lemma kMaxLines_pos: "0 < kMaxLines"
  by (simp add: kMaxLines_def)

lemma appendOnGui_records:
  assumes "parallel b"
  shows "parallel (fst (appendOnGui b line level))"
    "records (fst (appendOnGui b line level)) = lastOf kMaxLines (records b @ [(line, level)])"
    "m_posted (fst (appendOnGui b line level)) = m_posted b"
  using assms kMaxLines_pos
  by (auto simp: parallel_def appendOnGui_def records_def lastOf_def Let_def drop_Suc tl_zip
      split: if_splits)

section \<open>Runs of the log\<close>

datatype log_call = OwnAppend qstring qstring | OtherAppend qstring qstring | Serve | Clear

fun call :: "LogBuffer \<Rightarrow> log_call \<Rightarrow> LogBuffer \<times> (log_role, qstring option) trace" where
  "call b (OwnAppend line level) = log_append True b line level"
| "call b (OtherAppend line level) = log_append False b line level"
| "call b Serve = servePosted b"
| "call b Clear = log_clear b"

text \<open>What a user of the log may rely on: the records since the last clear, in the order they
  reached the model's thread, and the posted records still waiting.\<close>

fun spec_call :: "(qstring \<times> qstring) list \<times> (qstring \<times> qstring) list \<Rightarrow> log_call \<Rightarrow>
    (qstring \<times> qstring) list \<times> (qstring \<times> qstring) list" where
  "spec_call (hist, posted) (OwnAppend line level) = (hist @ [(line, level)], posted)"
| "spec_call (hist, posted) (OtherAppend line level) = (hist, posted @ [(line, level)])"
| "spec_call (hist, posted) Serve =
     (case posted of [] \<Rightarrow> (hist, []) | p # ps \<Rightarrow> (hist @ [p], ps))"
| "spec_call (hist, posted) Clear = ([], posted)"

definition refines :: "LogBuffer \<Rightarrow> (qstring \<times> qstring) list \<times> (qstring \<times> qstring) list \<Rightarrow> bool" where
  "refines b sp \<longleftrightarrow> parallel b \<and> records b = lastOf kMaxLines (fst sp) \<and> m_posted b = snd sp"

lemma parallel_posted: "parallel (b\<lparr>m_posted := ps\<rparr>) = parallel b" "records (b\<lparr>m_posted := ps\<rparr>) = records b"
  by (simp_all add: parallel_def records_def)

lemma refines_append:
  assumes "refines b (hist, posted)"
  shows "refines (fst (appendOnGui (b\<lparr>m_posted := ps\<rparr>) line level)) (hist @ [(line, level)], ps)"
proof -
  have p: "parallel (b\<lparr>m_posted := ps\<rparr>)" "records (b\<lparr>m_posted := ps\<rparr>) = lastOf kMaxLines hist"
    using assms by (simp_all add: refines_def parallel_posted)
  show ?thesis
    using appendOnGui_records [OF p(1), of line level] p(2) lastOf_snoc [OF kMaxLines_pos, of hist "(line, level)"]
    by (simp add: refines_def)
qed

lemma refines_call:
  assumes "refines b (hist, posted)"
  shows "refines (fst (call b c)) (spec_call (hist, posted) c)"
proof (cases c)
  case (OwnAppend line level)
  have "b\<lparr>m_posted := posted\<rparr> = b" using assms by (simp add: refines_def)
  with OwnAppend refines_append [OF assms, of posted line level] show ?thesis by (simp add: log_append_def)
next
  case (OtherAppend line level)
  with assms show ?thesis by (simp add: log_append_def refines_def parallel_posted)
next
  case Serve
  show ?thesis
  proof (cases posted)
    case Nil
    with Serve assms show ?thesis by (simp add: servePosted_def refines_def)
  next
    case (Cons p ps)
    obtain line level where p: "p = (line, level)" by (cases p)
    have "m_posted b = (line, level) # ps" using assms Cons p by (simp add: refines_def)
    with Serve Cons p refines_append [OF assms, of ps line level] show ?thesis
      by (simp add: servePosted_def)
  qed
next
  case Clear
  with assms show ?thesis
    by (auto simp: log_clear_def Let_def refines_def parallel_def records_def lastOf_def)
qed

lemma refines_calls:
  "refines b sp \<Longrightarrow> refines (foldl (\<lambda>b c. fst (call b c)) b cs) (foldl spec_call sp cs)"
proof (induction cs arbitrary: b sp)
  case (Cons c cs)
  then show ?case using refines_call [of b "fst sp" "snd sp" c] by simp
qed simp

text \<open>C32 (refinement). After any sequence of records logged on the model's own thread or on others, of
  served events and of clears, the buffer shows exactly the last 5000 of the records that reached it
  since the last clear, each with its own level, and the posted records wait in the order they were
  posted.\<close>

theorem log_refines_history:
  "refines (foldl (\<lambda>b c. fst (call b c)) newLogBuffer cs) (foldl spec_call ([], []) cs)"
  by (rule refines_calls)
    (simp add: refines_def newLogBuffer_def parallel_def records_def lastOf_def)

section \<open>The views of the log\<close>

definition log_step :: "LogBuffer \<Rightarrow> (log_role, qstring option) trace \<Rightarrow> LogBuffer \<Rightarrow> bool" where
  "log_step b tr b' \<longleftrightarrow> parallel b \<and> (\<exists>c. call b c = (b', tr))"

lemma log_rows_zip:
  assumes "parallel b"
  shows "log_rows b = map (\<lambda>(line, level) role. Some (if role = LevelRole then level else line)) (records b)"
  using assms
  by (auto simp: log_rows_def log_rowCount_def log_data_def records_def parallel_def fun_eq_iff
      intro!: nth_equalityI split: log_role.splits)

lemma append_followed:
  assumes "parallel b"
  shows "follow (log_rows b) (snd (appendOnGui b line level)) = log_rows (fst (appendOnGui b line level))"
proof -
  let ?b1 = "if kMaxLines \<le> length (m_lines b)
    then b\<lparr>m_lines := tl (m_lines b), m_levels := tl (m_levels b)\<rparr> else b"
  let ?b2 = "?b1\<lparr>m_lines := m_lines ?b1 @ [line], m_levels := m_levels ?b1 @ [level]\<rparr>"
  have par: "parallel ?b1" "parallel ?b2"
    using assms kMaxLines_pos by (auto simp: parallel_def)
  have rec: "records ?b2 = records ?b1 @ [(line, level)]"
    using par(1) by (simp add: records_def parallel_def)
  have len: "length (records ?b1) = length (m_lines ?b1)" using par(1) by (simp add: records_def parallel_def)
  have first: "follow (log_rows b) (if kMaxLines \<le> length (m_lines b) then [(RowsRemoved 0, log_rows ?b1)] else [])
      = log_rows ?b1"
    using assms par(1)
    by (simp add: log_rows_zip) (simp add: records_def tl_zip drop_Suc map_tl)
  have "viewStep (log_rows ?b1) (RowsInserted (length (m_lines ?b1)), log_rows ?b2) = log_rows ?b2"
    unfolding log_rows_zip [OF par(1)] log_rows_zip [OF par(2)] rec len [symmetric]
    by (simp add: nth_append)
  with first show ?thesis
    by (simp add: appendOnGui_def Let_def del: drop_drop split: if_splits)
qed

interpretation log_views: list_model log_rows log_step
proof
  fix b tr b' assume "log_step b tr b'"
  then obtain c where par: "parallel b" and c: "call b c = (b', tr)" by (auto simp: log_step_def)
  have posted: "log_rows (b\<lparr>m_posted := ps\<rparr>) = log_rows b" for ps
    using par by (simp add: log_rows_zip parallel_posted)
  show "follow (log_rows b) tr = log_rows b'"
  proof (cases c)
    case (OwnAppend line level)
    with c append_followed [OF par, of line level] show ?thesis by (simp add: log_append_def)
  next
    case (OtherAppend line level)
    with c posted show ?thesis by (auto simp: log_append_def)
  next
    case Serve
    show ?thesis
    proof (cases "m_posted b")
      case (Cons p ps)
      then show ?thesis
        using c Serve posted [of ps] append_followed [of "b\<lparr>m_posted := ps\<rparr>" "fst p" "snd p"] par
        by (cases p) (simp add: servePosted_def parallel_posted)
    qed (use c Serve in \<open>simp add: servePosted_def\<close>)
  next
    case Clear
    with c show ?thesis by (auto simp: log_clear_def Let_def split: if_splits)
  qed
qed

text \<open>A view attached to the log that follows its notifications shows, after any run, the
  rows of the log and never a stale one: no row is missed when the ring rolls over.\<close>

theorem log_view_current:
  assumes "run log_step b tr b'"
  shows "follow (log_rows b) tr = log_rows b'"
  using assms by (rule log_views.run_followed)

theorem log_view_current_witness:
  "follow (log_rows newLogBuffer) (snd (call newLogBuffer (OwnAppend ''a'' ''info''))) =
     log_rows (fst (call newLogBuffer (OwnAppend ''a'' ''info'')))"
proof -
  have "log_step newLogBuffer (snd (call newLogBuffer (OwnAppend ''a'' ''info'')))
      (fst (call newLogBuffer (OwnAppend ''a'' ''info'')))"
    by (auto simp: log_step_def newLogBuffer_def parallel_def intro: exI [of _ "OwnAppend ''a'' ''info''"])
  from log_view_current [OF run_one [of log_step, OF this]] show ?thesis .
qed

end
