(* ===== verification/Startup.thy ===== *)
theory Startup
  imports LogBuffer Export
begin

text \<open>
  What runs around the client: the message handler that mirrors every log record into the log screen
  (\<^verbatim>\<open>client/src/main.cpp\<close>) and the toasts of the desktop (\<^verbatim>\<open>client/src/desktopnotifier.cpp\<close>). How Qt renders a
  record is a parameter, as is the tray of the desktop. The handler is a sequence of calls on one thread.

  The lemmas show that the log screen misses none of the records logged before it existed, up to the size of the
  buffer that holds them, and which conversation a click on a toast opens.
\<close>

section \<open>The message handler\<close>

datatype QtMsgType = QtDebugMsg | QtInfoMsg | QtWarningMsg | QtCriticalMsg | QtFatalMsg

primrec levelTag :: "QtMsgType \<Rightarrow> qstring" where
  "levelTag QtDebugMsg = ''debug''"
| "levelTag QtInfoMsg = ''info''"
| "levelTag QtWarningMsg = ''warning''"
| "levelTag QtCriticalMsg = ''critical''"
| "levelTag QtFatalMsg = ''fatal''"

text \<open>A record: its type and its message in its context.\<close>

type_synonym log_record = "QtMsgType \<times> qstring"

record log_handler =
  g_console :: "log_record list" \<comment> \<open>what the default handler was given\<close>
  g_preBuffer :: "(qstring \<times> qstring) list"
  g_preDrained :: bool
  s_instance :: "LogBuffer option"
  g_aborted :: bool \<comment> \<open>after which the process makes no further call\<close>

definition kPreBufferMax :: nat where "kPreBufferMax = 2000"

definition newLogHandler :: log_handler where
  "newLogHandler = \<lparr>g_console = [], g_preBuffer = [], g_preDrained = False, s_instance = None, g_aborted = False\<rparr>"

definition formatRecord :: "(log_record \<Rightarrow> qstring) \<Rightarrow> log_record \<Rightarrow> qstring" where
  "formatRecord qFormatLogMessage r = qFormatLogMessage r"

definition appendAll :: "bool \<Rightarrow> (qstring \<times> qstring) list \<Rightarrow> LogBuffer \<Rightarrow> LogBuffer" where
  "appendAll own pending b = fold (\<lambda>(line, lvl) b. fst (log_append own b line lvl)) pending b"

text \<open>The flag tells whether the record is logged on the thread of the log screen.\<close>

definition deepLogHandler :: "(log_record \<Rightarrow> qstring) \<Rightarrow> bool \<Rightarrow> log_handler \<Rightarrow> log_record \<Rightarrow> log_handler" where
  "deepLogHandler F own h r =
     (let h1 = h\<lparr>g_console := g_console h @ [r]\<rparr>;
          line = formatRecord F r; lvl = levelTag (fst r);
          h2 = (case s_instance h1 of
                  Some lb \<Rightarrow>
                    (if \<not> g_preDrained h1 \<and> g_preBuffer h1 \<noteq> []
                     then h1\<lparr>g_preBuffer := [], g_preDrained := True,
                             s_instance := Some (fst (log_append own (appendAll own (g_preBuffer h1) lb) line lvl))\<rparr>
                     else h1\<lparr>g_preDrained := True, s_instance := Some (fst (log_append own lb line lvl))\<rparr>)
                | None \<Rightarrow>
                    h1\<lparr>g_preBuffer := (if kPreBufferMax \<le> length (g_preBuffer h1) then tl (g_preBuffer h1) else g_preBuffer h1) @ [(line, lvl)]\<rparr>)
      in if fst r = QtFatalMsg then h2\<lparr>g_aborted := True\<rparr> else h2)"

text \<open>\<^verbatim>\<open>LogBuffer::create\<close>: the engine asks for the log screen.\<close>

definition log_create :: "log_handler \<Rightarrow> log_handler" where
  "log_create h = (case s_instance h of None \<Rightarrow> h\<lparr>s_instance := Some newLogBuffer\<rparr> | Some _ \<Rightarrow> h)"

section \<open>Toasts\<close>

record DesktopNotifier =
  g_tray :: bool
  g_window :: bool
  g_lastPeer :: qstring
  g_shown :: "(qstring \<times> qstring) list"

definition newDesktopNotifier :: DesktopNotifier where
  "newDesktopNotifier = \<lparr>g_tray = False, g_window = False, g_lastPeer = [], g_shown = []\<rparr>"

text \<open>Whether the root object is a window and whether the desktop has a tray.\<close>

definition notifier_init :: "bool \<Rightarrow> bool \<Rightarrow> DesktopNotifier \<Rightarrow> DesktopNotifier" where
  "notifier_init isWindow trayAvailable n =
     (let n1 = n\<lparr>g_window := isWindow\<rparr>
      in if \<not> trayAvailable then n1 else if g_tray n1 then n1 else n1\<lparr>g_tray := True\<rparr>)"

definition notify :: "DesktopNotifier \<Rightarrow> qstring \<Rightarrow> qstring \<Rightarrow> qstring \<Rightarrow> DesktopNotifier" where
  "notify n title body peer =
     (if \<not> g_tray n then n else n\<lparr>g_lastPeer := peer, g_shown := g_shown n @ [(title, body)]\<rparr>)"

definition available :: "DesktopNotifier \<Rightarrow> bool" where "available n = g_tray n"

text \<open>The handler of \<^verbatim>\<open>messageClicked\<close>, given the client if there is one.\<close>

definition messageClicked :: "world \<Rightarrow> int \<Rightarrow> DesktopNotifier \<Rightarrow> ChatClient option \<Rightarrow> ChatClient option" where
  "messageClicked W now n client =
     (case client of None \<Rightarrow> None
      | Some c \<Rightarrow> Some (if g_lastPeer n \<noteq> [] then openConversationFromNotification W now c (g_lastPeer n) else c))"

section \<open>The log is complete from its start\<close>

definition rendered :: "(log_record \<Rightarrow> qstring) \<Rightarrow> log_record \<Rightarrow> qstring \<times> qstring" where
  "rendered F r = (F r, levelTag (fst r))"

lemma lastOf_append: "lastOf n (lastOf n xs @ ys) = lastOf n (xs @ ys)"
proof (cases "length xs \<le> n")
  case False
  then have "length xs - (length xs - n) = n" "length xs + length ys - n = length ys + (length xs - n)" by arith+
  then show ?thesis by (simp add: lastOf_def add.commute)
qed (simp add: lastOf_def)

lemma lastOf_ring: "0 < n \<Longrightarrow> (if n \<le> length (lastOf n xs) then tl (lastOf n xs) else lastOf n xs) @ [x] = lastOf n (xs @ [x])"
  by (cases "n \<le> length xs") (auto simp: lastOf_def drop_Suc [symmetric] tl_drop Suc_diff_le not_le)

lemma kPreBufferMax_pos: "0 < kPreBufferMax"
  by (simp add: kPreBufferMax_def)

lemma early_records:
  "s_instance h = None \<Longrightarrow> g_preBuffer h = lastOf kPreBufferMax xs \<Longrightarrow>
   s_instance (foldl (deepLogHandler F own) h es) = None \<and>
   g_preBuffer (foldl (deepLogHandler F own) h es) = lastOf kPreBufferMax (xs @ map (rendered F) es) \<and>
   g_preDrained (foldl (deepLogHandler F own) h es) = g_preDrained h"
proof (induction es arbitrary: h xs)
  case (Cons r es)
  let ?h = "deepLogHandler F own h r"
  have "s_instance ?h = None" "g_preDrained ?h = g_preDrained h"
    using Cons.prems by (simp_all add: deepLogHandler_def Let_def)
  moreover have "g_preBuffer ?h = (if kPreBufferMax \<le> length (g_preBuffer h) then tl (g_preBuffer h) else g_preBuffer h) @ [rendered F r]"
    using Cons.prems(1) by (auto simp: deepLogHandler_def Let_def formatRecord_def rendered_def)
  then have "g_preBuffer ?h = lastOf kPreBufferMax (xs @ [rendered F r])"
    unfolding Cons.prems(2) lastOf_ring [OF kPreBufferMax_pos] .
  ultimately show ?case using Cons.IH [of ?h "xs @ [rendered F r]"] by simp
qed simp

lemma appendAll_records:
  "parallel b \<Longrightarrow> parallel (appendAll True ps b) \<and> records (appendAll True ps b) = lastOf kMaxLines (records b @ ps)"
proof (induction ps arbitrary: b)
  case Nil
  then show ?case by (simp add: appendAll_def lastOf_def parallel_def records_def)
next
  case (Cons p ps)
  obtain line lvl where p: "p = (line, lvl)" by fastforce
  note one = appendOnGui_records [OF Cons.prems, of line lvl]
  from Cons.IH [OF one(1)] one(2) show ?case
    by (simp add: appendAll_def p log_append_def lastOf_append)
qed

lemma later_records:
  assumes "s_instance h = Some b" "parallel b" "records b = lastOf kMaxLines xs" "g_preBuffer h = []"
  shows "\<exists>b'. s_instance (foldl (deepLogHandler F True) h ls) = Some b' \<and> parallel b' \<and>
    records b' = lastOf kMaxLines (xs @ map (rendered F) ls) \<and> g_preBuffer (foldl (deepLogHandler F True) h ls) = []"
  using assms
proof (induction ls arbitrary: h b xs)
  case (Cons r ls)
  let ?b = "fst (log_append True b (F r) (levelTag (fst r)))"
  have "s_instance (deepLogHandler F True h r) = Some ?b" "g_preBuffer (deepLogHandler F True h r) = []"
    using Cons.prems by (simp_all add: deepLogHandler_def Let_def formatRecord_def)
  moreover have "parallel ?b" "records ?b = lastOf kMaxLines (xs @ [rendered F r])"
    using appendOnGui_records [OF Cons.prems(2), of "F r" "levelTag (fst r)"] Cons.prems(3)
    by (simp_all add: log_append_def rendered_def lastOf_append)
  ultimately show ?case using Cons.IH [of "deepLogHandler F True h r" ?b "xs @ [rendered F r]"] by simp
qed simp

text \<open>The log screen shows what was logged before it existed: once the first record arrives after it was
  created, it holds the last 2000 early records in their order, followed by the later ones, up to its
  own bound of 5000. Until then it is empty: the early records wait for that record.\<close>

theorem log_complete_from_start:
  assumes later: "ls \<noteq> []"
  shows "s_instance (log_create (foldl (deepLogHandler F own) newLogHandler es)) = Some newLogBuffer \<and>
    (\<exists>b. s_instance (foldl (deepLogHandler F True) (log_create (foldl (deepLogHandler F own) newLogHandler es)) ls) = Some b \<and>
      records b = lastOf kMaxLines (lastOf kPreBufferMax (map (rendered F) es) @ map (rendered F) ls))"
proof -
  let ?h = "foldl (deepLogHandler F own) newLogHandler es"
  have h: "s_instance ?h = None" "g_preBuffer ?h = lastOf kPreBufferMax (map (rendered F) es)" "\<not> g_preDrained ?h"
    using early_records [of newLogHandler "[]" F own es] by (simp_all add: newLogHandler_def lastOf_def)
  obtain r rs where ls: "ls = r # rs" using later by (cases ls) auto
  have new: "parallel newLogBuffer" "records newLogBuffer = []" by (simp_all add: newLogBuffer_def parallel_def records_def)
  define b1 where "b1 = fst (log_append True (appendAll True (g_preBuffer ?h) newLogBuffer) (F r) (levelTag (fst r)))"
  have b1: "parallel b1" "records b1 = lastOf kMaxLines (g_preBuffer ?h @ [rendered F r])"
    using appendAll_records [OF new(1), of "g_preBuffer ?h"] new(2)
      appendOnGui_records [of "appendAll True (g_preBuffer ?h) newLogBuffer" "F r" "levelTag (fst r)"]
    by (simp_all add: b1_def log_append_def rendered_def lastOf_append)
  have "s_instance (deepLogHandler F True (log_create ?h) r) = Some b1" "g_preBuffer (deepLogHandler F True (log_create ?h) r) = []"
    using h(1,3) by (auto simp: deepLogHandler_def log_create_def Let_def formatRecord_def b1_def appendAll_def)
  from later_records [OF this(1) b1 this(2), of F rs] h(1,2) show ?thesis
    by (auto simp: ls log_create_def)
qed

theorem log_complete_from_start_witness:
  "\<exists>b. s_instance (foldl (deepLogHandler snd True) (log_create (foldl (deepLogHandler snd True) newLogHandler [(QtDebugMsg, ''a''), (QtInfoMsg, ''b'')]))
       [(QtWarningMsg, ''c'')]) = Some b \<and> records b = [(''a'', ''debug''), (''b'', ''info''), (''c'', ''warning'')]"
  using log_complete_from_start [of "[(QtWarningMsg, ''c'')]" snd True "[(QtDebugMsg, ''a''), (QtInfoMsg, ''b'')]"]
  by (simp add: lastOf_def kMaxLines_def kPreBufferMax_def rendered_def)

section \<open>A click opens the latest conversation\<close>

text \<open>A click on a toast opens the conversation of the peer that was notified last, whichever toast was clicked:
  a click on the toast for a first peer, after another peer has written, opens the other's.\<close>

theorem toast_opens_latest:
  assumes "g_tray n" "second \<noteq> []"
  shows "messageClicked W now (notify (notify n t1 b1 first) t2 b2 second) (Some c) =
    Some (openConversationFromNotification W now c second)"
  using assms by (simp add: notify_def messageClicked_def)

theorem toast_opens_latest_witness:
  "messageClicked (demoNet []) 5 (notify (notify (notifier_init True True newDesktopNotifier) ''t'' ''hi'' ''bob'') ''t'' ''yo'' ''eve'') (Some demoClient) =
     Some (openConversationFromNotification (demoNet []) 5 demoClient ''eve'')"
  using toast_opens_latest [of "notifier_init True True newDesktopNotifier" "''eve''"]
  by (simp add: notifier_init_def newDesktopNotifier_def)

end
