(* ===== verification/Localization.thy ===== *)
theory Localization
  imports Prelude
begin

text \<open>
  The texts of the user interface (\<^verbatim>\<open>client/src/localization.cpp\<close>): the dictionaries of the three languages, the
  lookup with its fallbacks, and the persisted choice. A character outside ASCII is the bytes of its UTF-8
  encoding. A hash table built from a list of entries is that list: no key occurs twice.

  The lemmas show that the dictionaries are complete and agree on the placeholders, that a lookup is never blank,
  and that the chosen language survives a restart.
\<close>

section \<open>Dictionaries\<close>

definition m_en :: "(qstring \<times> qstring) list" where
  "m_en =
    [(''online'', ''online''),
     (''reconnecting'', ''reconnecting'' @ [CHR 0xE2, CHR 0x80, CHR 0xA6]),
     (''menu.viewSafety'', ''View safety number''),
     (''menu.theme'', ''Theme'' @ [CHR 0xE2, CHR 0x80, CHR 0xA6]),
     (''menu.language'', ''Language'' @ [CHR 0xE2, CHR 0x80, CHR 0xA6]),
     (''menu.darkMode'', ''Dark mode''),
     (''menu.switchUser'', ''Switch user'' @ [CHR 0xE2, CHR 0x80, CHR 0xA6]),
     (''menu.logout'', ''Log out''),
     (''menu.export'', ''Export chat'' @ [CHR 0xE2, CHR 0x80, CHR 0xA6]),
     (''menu.shortcut'', ''Add to home screen'' @ [CHR 0xE2, CHR 0x80, CHR 0xA6]),
     (''menu.logs'', ''Diagnostic log'' @ [CHR 0xE2, CHR 0x80, CHR 0xA6]),
     (''log.title'', ''Diagnostic log''),
     (''log.lines'', ''lines''),
     (''log.empty'', ''No log lines captured yet.''),
     (''log.copyAll'', ''Copy all''),
     (''log.clear'', ''Clear''),
     (''log.close'', ''Close''),
     (''lang.title'', ''Language''),
     (''lang.hint'', ''Choose the app language. Your choice is saved on this device.''),
     (''theme.title'', ''Theme''),
     (''theme.hint'',
        ''Pick a colour theme. Your choice is saved for '' @ [CHR 0x22] @ ''%1'' @ [CHR 0x22] @ '' on this device.''),
     (''contacts.title'', ''Contacts''),
     (''contacts.you'', ''you''),
     (''contacts.offline'', ''offline''),
     (''contacts.typing'', ''typing'' @ [CHR 0xE2, CHR 0x80, CHR 0xA6]),
     (''contacts.sendingFile'', ''sending a file'' @ [CHR 0xE2, CHR 0x80, CHR 0xA6]),
     (''conv.chattingWith'', ''Chatting with %1''),
     (''conv.isTyping'', ''%1 is typing'' @ [CHR 0xE2, CHR 0x80, CHR 0xA6]),
     (''conv.isSendingFile'', ''%1 is sending a file'' @ [CHR 0xE2, CHR 0x80, CHR 0xA6]),
     (''conv.pickContact'', ''Pick a contact to start a private conversation.''),
     (''conv.emptyHint'', ''Pick someone to chat with''),
     (''composer.type'', ''Type a message'' @ [CHR 0xE2, CHR 0x80, CHR 0xA6]),
     (''composer.confirmFirst'', ''Confirm the safety-number change to continue'' @ [CHR 0xE2, CHR 0x80, CHR 0xA6]),
     (''composer.send'', ''Send''),
     (''composer.attachTip'', ''Send a file or image''),
     (''msg.deleted'', ''This message was deleted''),
     (''menu.deleteForMe'', ''Delete for me''),
     (''menu.deleteForEveryone'', ''Delete for everyone''),
     (''menu.reactAgree'', ''Agree''),
     (''menu.reactDisagree'', ''Disagree''),
     (''menu.reactRemove'', ''Remove reaction''),
     (''menu.edit'', ''Edit''),
     (''menu.resend'', ''Resend''),
     (''msg.edited'', ''edited''),
     (''edit.title'', ''Edit message''),
     (''edit.hint'', ''The new text is encrypted and updated on both sides. You need to be online to edit.''),
     (''login.title'', ''Encrypted Chat''),
     (''login.server'', ''Server URL''),
     (''login.nickname'', ''Nickname''),
     (''login.connect'', ''Connect''),
     (''login.connecting'', ''Connecting'' @ [CHR 0xE2, CHR 0x80, CHR 0xA6]),
     (''login.password'', ''Password''),
     (''login.passwordHint'', ''Choose a strong password''),
     (''login.passwordHintLogin'', ''Enter your password''),
     (''login.register'', ''Register''),
     (''login.login'', ''Log in''),
     (''login.haveAccount'', ''Already have an account? Log in''),
     (''login.needAccount'', ''New here? Register''),
     (''login.pwHelp'', ''Your password encrypts your identity key on this device. The server never sees it.''),
     (''login.birthday'', ''Date of birth''),
     (''login.birthdayHint'', ''1999-05-03''),
     (''login.birthdayHelp'',
        ''Required to create a new account. Stored only as an irreversible hash, never as a date.''),
     (''login.birthdayInvalid'', ''That date is not valid. Use the form 1999-05-03.''),
     (''login.forgot'', ''Forgotten password?''),
     (''recover.title'', ''Recover your password''),
     (''recover.titleRevealed'', ''Your password''),
     (''recover.introHello'',
        ''Enter your username and date of birth. You will then be asked to confirm with Windows Hello.''),
     (''recover.introBio'', ''Enter your username and date of birth. You will then be asked to confirm with your '' @
        ''fingerprint or device PIN.''),
     (''recover.user'', ''Username''),
     (''recover.dobHint'', ''Date of birth, e.g. 1999-05-03''),
     (''recover.submit'', ''Submit''),
     (''recover.waiting'', ''Waiting for authentication'' @ [CHR 0xE2, CHR 0x80, CHR 0xA6]),
     (''recover.warning'',
        ''Anyone who can see this screen can see your password. Close this as soon as you have '' @ ''noted it down.''),
     (''recover.back'', ''Return to sign in''),
     (''recover.close'', ''Close''),
     (''login.helloLogin'', ''Log in with Windows Hello''),
     (''login.bioLogin'', ''Log in with fingerprint or PIN''),
     (''login.enableHello'', ''Enable Windows Hello login next time''),
     (''login.enableBio'', ''Enable fingerprint / PIN login next time''),
     (''lock.bioLoginTitle'', ''Log in to Encrypted Chat''),
     (''lock.bioLoginSubtitle'', ''Confirm your identity to log in''),
     (''lock.bioEnrollTitle'', ''Enable fingerprint login''),
     (''lock.bioEnrollSubtitle'', ''Confirm to save your login for next time''),
     (''err.wrongPassword'', ''Incorrect password. Your account was not changed.''),
     (''err.noAccountHere'', ''No account found on this device for that name. Please Register first.''),
     (''err.accountExistsLocally'',
        ''An account with that name already exists on this device. Please Log in instead.''),
     (''err.identityNotPersisted'',
        ''Your identity could not be saved to persistent storage and may not survive a restart on '' @ ''this device.''),
     (''err.identityUnreadable'',
        ''Could not read your saved identity. Please restart the app; your key was not changed.''),
     (''err.registerFailed'', ''Registration failed while preparing your credentials. Please try again.''),
     (''err.loginRejected'',
        ''The server ended this session (wrong password, reserved username, or signed in on another '' @
        ''device). Please log in again.''),
     (''err.pinSetFailed'', ''Could not set the PIN. Please try again.''),
     (''err.noDeviceCredential'',
        ''No device lock is set up. Please set a screen lock (PIN, pattern, or fingerprint) in your '' @
        ''device settings first.''),
     (''err.pinRequired'', ''A fallback PIN is required. Please enter one.''),
     (''err.resetNoAccount'', ''No account was found on this device to verify your password against.''),
     (''lock.unlockDevice'', ''Unlock with device''),
     (''lock.unlockHello'', ''Unlock with Windows Hello''),
     (''lock.orEnterPin'', [CHR 0xE2, CHR 0x80, CHR 0x94] @ '' or enter your PIN '' @ [CHR 0xE2, CHR 0x80, CHR 0x94]),
     (''lock.forgotPin'', ''Forgot PIN?''),
     (''lock.resetTitle'', ''Reset lock''),
     (''lock.resetPrompt'', ''Enter your account password to reset the app lock.''),
     (''settings.enableLock'', ''Enable app lock''),
     (''settings.disableLock'', ''Disable app lock''),
     (''settings.lockUsesDevice'', ''Unlock uses your device screen lock (fingerprint, face, or PIN).''),
     (''settings.lockUsesHello'', ''Unlock uses Windows Hello, with your app PIN as a fallback.''),
     (''settings.lockUsesPin'', ''Unlock uses your app PIN.''),
     (''err.nameReserved'',
        ''This username is already registered to a different identity. Please choose another name.''),
     (''err.badPassword'', ''Incorrect password for this username.''),
     (''lock.title'', ''Locked''),
     (''lock.enterPin'', ''Enter PIN''),
     (''lock.wrongPin'', ''Wrong PIN, try again''),
     (''lock.unlock'', ''Unlock''),
     (''lock.useFingerprint'', ''Use fingerprint''),
     (''lock.biometricTitle'', ''Unlock Encrypted Chat''),
     (''lock.biometricSubtitle'', ''Confirm your identity to continue''),
     (''settings.appLock'', ''App lock (PIN)''),
     (''settings.setPin'', ''Set / change PIN''),
     (''settings.removePin'', ''Remove PIN''),
     (''settings.pinOn'', ''PIN lock is on''),
     (''settings.pinOff'', ''PIN lock is off''),
     (''settings.newPin'', ''New PIN''),
     (''settings.confirmPin'', ''Confirm PIN''),
     (''settings.currentPin'', ''Current PIN''),
     (''settings.wrongCurrentPin'', ''Current PIN is incorrect''),
     (''settings.pinMismatch'', ''PINs do not match''),
     (''settings.lockNow'', ''Lock now''),
     (''common.cancel'', ''Cancel''),
     (''common.save'', ''Save''),
     (''logout.title'', ''Log out?''),
     (''logout.body'', ''You'' @ [CHR 0x27] @
        ''ll return to the login screen. Your identity and message history stay on this device, so '' @
        ''logging back in as '' @ [CHR 0x22] @ ''%1'' @ [CHR 0x22] @ '' restores everything.''),
     (''switch.title'', ''Switch user?''),
     (''switch.body'',
        ''This returns to the login screen so someone else can sign in under their own name. '' @ [CHR 0x22] @ ''%1'' @
        [CHR 0x22, CHR 0x27] @ ''s identity and messages stay saved on this device, so you can switch back later and '' @
        ''everything will be here.''),
     (''safety.titlePeer'', ''Safety number with %1''),
     (''safety.titleSelf'', ''Your safety number''),
     (''safety.comparePeer'', ''Compare these numbers with %1 over a call or in person.'' @ [CHR 0x0A] @
        ''If they match on both devices, no one is intercepting your keys.''),
     (''safety.selectHint'', ''Select a contact to see the safety number you share with them.''),
     (''safety.bannerTitle'',
        [CHR 0xE2, CHR 0x9A, CHR 0xA0, CHR 0xEF, CHR 0xB8, CHR 0x8F] @ '' %1 may be a different person or device''),
     (''safety.bannerBody'', ''%1'' @ [CHR 0x27] @
        ''s safety number changed. This happens when they reinstall, switch device, or a different '' @
        ''person takes over this name -- but it can also mean someone is intercepting your '' @
        ''messages. Compare the new safety number with %1 over a call or in person, then confirm '' @
        ''the switch to continue. You cannot send messages until you do.''),
     (''safety.view'', ''View safety number''),
     (''safety.confirm'',
        ''I'' @ [CHR 0x27] @ ''ve verified '' @ [CHR 0xE2, CHR 0x80, CHR 0x94] @ '' confirm & switch''),
     (''export.title'', ''Export conversation with %1''),
     (''export.pdf'', ''PDF document (*.pdf)''),
     (''export.txt'', ''Text file (*.txt)''),
     (''export.done'', ''Saved conversation with %1 to %2''),
     (''export.saved'', ''Conversation with %1 saved.''),
     (''export.empty'', ''There are no messages with %1 to export yet.''),
     (''export.failed'', ''Could not save the export: %1''),
     (''export.headerTitle'', ''Conversation with %1''),
     (''export.headerExported'', ''Exported %1''),
     (''export.headerParticipants'', ''Participants: %1 and %2''),
     (''export.sentFile'', ''sent a file: %1 (%2)''),
     (''export.systemLabel'', ''(system)''),
     (''notif.newMessageTitle'', ''New message from %1''),
     (''notif.newFileTitle'', ''New file from %1''),
     (''notif.newFileBody'', ''%1 (%2)''),
     (''notif.channelName'', ''Messages''),
     (''notif.serviceRunning'', ''Encrypted Chat is running''),
     (''notif.serviceBody'',
        ''Connected '' @ [CHR 0xE2, CHR 0x80, CHR 0x94] @ '' you'' @ [CHR 0x27] @ ''ll be notified of new messages.''),
     (''shortcut.unsupported'', ''A home-screen shortcut could not be created on this device.''),
     (''sys.cannotDecrypt'', [CHR 0xF0, CHR 0x9F, CHR 0x94, CHR 0x92] @
        '' An earlier message can no longer be decrypted (it was stored under a previous identity key).''),
     (''sys.historyOpenFailed'', ''History could not be opened; messages will not be saved this session.''),
     (''sys.noStorage'', ''No writable storage location was found; message history is disabled this session.''),
     (''err.historyOpenFailed'',
        ''Local history could not be opened; your messages will not be stored on this device.''),
     (''sys.fileFailed'', ''File transfer failed: %1''),
     (''sys.reason.startDecrypt'', ''could not start decryption''),
     (''sys.reason.openTemp'', ''could not open temp file'')]"

definition m_fi :: "(qstring \<times> qstring) list" where
  "m_fi =
    [(''online'', ''verkossa''),
     (''reconnecting'',
        ''yhdist'' @ [CHR 0xC3, CHR 0xA4] @ ''t'' @ [CHR 0xC3, CHR 0xA4, CHR 0xC3, CHR 0xA4] @ ''n uudelleen'' @
        [CHR 0xE2, CHR 0x80, CHR 0xA6]),
     (''menu.viewSafety'', ''N'' @ [CHR 0xC3, CHR 0xA4] @ ''yt'' @ [CHR 0xC3, CHR 0xA4] @ '' turvanumero''),
     (''menu.theme'', ''Teema'' @ [CHR 0xE2, CHR 0x80, CHR 0xA6]),
     (''menu.language'', ''Kieli'' @ [CHR 0xE2, CHR 0x80, CHR 0xA6]),
     (''menu.darkMode'', ''Tumma tila''),
     (''menu.switchUser'', ''Vaihda k'' @ [CHR 0xC3, CHR 0xA4] @ ''ytt'' @ [CHR 0xC3, CHR 0xA4] @ ''j'' @
        [CHR 0xC3, CHR 0xA4, CHR 0xC3, CHR 0xA4, CHR 0xE2, CHR 0x80, CHR 0xA6]),
     (''menu.logout'', ''Kirjaudu ulos''),
     (''menu.export'', ''Vie keskustelu'' @ [CHR 0xE2, CHR 0x80, CHR 0xA6]),
     (''menu.shortcut'',
        ''Lis'' @ [CHR 0xC3, CHR 0xA4, CHR 0xC3, CHR 0xA4] @ '' aloitusn'' @ [CHR 0xC3, CHR 0xA4] @ ''ytt'' @
        [CHR 0xC3, CHR 0xB6, CHR 0xC3, CHR 0xB6] @ ''n'' @ [CHR 0xE2, CHR 0x80, CHR 0xA6]),
     (''menu.logs'', ''Diagnostiikkaloki'' @ [CHR 0xE2, CHR 0x80, CHR 0xA6]),
     (''log.title'', ''Diagnostiikkaloki''),
     (''log.lines'', ''rivi'' @ [CHR 0xC3, CHR 0xA4]),
     (''log.empty'', ''Ei viel'' @ [CHR 0xC3, CHR 0xA4] @ '' lokirivej'' @ [CHR 0xC3, CHR 0xA4] @ ''.''),
     (''log.copyAll'', ''Kopioi kaikki''),
     (''log.clear'', ''Tyhjenn'' @ [CHR 0xC3, CHR 0xA4]),
     (''log.close'', ''Sulje''),
     (''lang.title'', ''Kieli''),
     (''lang.hint'',
        ''Valitse sovelluksen kieli. Valintasi tallennetaan t'' @ [CHR 0xC3, CHR 0xA4] @ ''h'' @ [CHR 0xC3, CHR 0xA4] @
        ''n laitteeseen.''),
     (''theme.title'', ''Teema''),
     (''theme.hint'',
        ''Valitse v'' @ [CHR 0xC3, CHR 0xA4] @ ''riteema. Valintasi tallennetaan k'' @ [CHR 0xC3, CHR 0xA4] @ ''ytt'' @
        [CHR 0xC3, CHR 0xA4] @ ''j'' @ [CHR 0xC3, CHR 0xA4] @ ''lle '' @ [CHR 0x22] @ ''%1'' @ [CHR 0x22] @ '' t'' @
        [CHR 0xC3, CHR 0xA4] @ ''h'' @ [CHR 0xC3, CHR 0xA4] @ ''n laitteeseen.''),
     (''contacts.title'', ''Yhteystiedot''),
     (''contacts.you'', ''sin'' @ [CHR 0xC3, CHR 0xA4]),
     (''contacts.offline'', ''poissa verkosta''),
     (''contacts.typing'', ''kirjoittaa'' @ [CHR 0xE2, CHR 0x80, CHR 0xA6]),
     (''contacts.sendingFile'',
        ''l'' @ [CHR 0xC3, CHR 0xA4] @ ''hett'' @ [CHR 0xC3, CHR 0xA4, CHR 0xC3, CHR 0xA4] @ '' tiedostoa'' @
        [CHR 0xE2, CHR 0x80, CHR 0xA6]),
     (''conv.chattingWith'',
        ''Keskustelu k'' @ [CHR 0xC3, CHR 0xA4] @ ''ytt'' @ [CHR 0xC3, CHR 0xA4] @ ''j'' @ [CHR 0xC3, CHR 0xA4] @
        ''n %1 kanssa''),
     (''conv.isTyping'', ''%1 kirjoittaa'' @ [CHR 0xE2, CHR 0x80, CHR 0xA6]),
     (''conv.isSendingFile'',
        ''%1 l'' @ [CHR 0xC3, CHR 0xA4] @ ''hett'' @ [CHR 0xC3, CHR 0xA4, CHR 0xC3, CHR 0xA4] @ '' tiedostoa'' @
        [CHR 0xE2, CHR 0x80, CHR 0xA6]),
     (''conv.pickContact'', ''Aloita yksityinen keskustelu valitsemalla yhteystieto.''),
     (''conv.emptyHint'', ''Valitse kenen kanssa keskustelet''),
     (''composer.type'', ''Kirjoita viesti'' @ [CHR 0xE2, CHR 0x80, CHR 0xA6]),
     (''composer.confirmFirst'', ''Vahvista turvanumeron muutos jatkaaksesi'' @ [CHR 0xE2, CHR 0x80, CHR 0xA6]),
     (''composer.send'', ''L'' @ [CHR 0xC3, CHR 0xA4] @ ''het'' @ [CHR 0xC3, CHR 0xA4]),
     (''composer.attachTip'', ''L'' @ [CHR 0xC3, CHR 0xA4] @ ''het'' @ [CHR 0xC3, CHR 0xA4] @ '' tiedosto tai kuva''),
     (''msg.deleted'', ''T'' @ [CHR 0xC3, CHR 0xA4] @ ''m'' @ [CHR 0xC3, CHR 0xA4] @ '' viesti poistettiin''),
     (''menu.deleteForMe'', ''Poista minulta''),
     (''menu.deleteForEveryone'', ''Poista kaikilta''),
     (''menu.reactAgree'', ''Samaa mielt'' @ [CHR 0xC3, CHR 0xA4]),
     (''menu.reactDisagree'', ''Eri mielt'' @ [CHR 0xC3, CHR 0xA4]),
     (''menu.reactRemove'', ''Poista reaktio''),
     (''menu.edit'', ''Muokkaa''),
     (''menu.resend'', ''L'' @ [CHR 0xC3, CHR 0xA4] @ ''het'' @ [CHR 0xC3, CHR 0xA4] @ '' uudelleen''),
     (''msg.edited'', ''muokattu''),
     (''edit.title'', ''Muokkaa viesti'' @ [CHR 0xC3, CHR 0xA4]),
     (''edit.hint'',
        ''Uusi teksti salataan ja p'' @ [CHR 0xC3, CHR 0xA4] @ ''ivitet'' @ [CHR 0xC3, CHR 0xA4, CHR 0xC3, CHR 0xA4] @
        ''n molemmille osapuolille. Muokkaaminen edellytt'' @ [CHR 0xC3, CHR 0xA4, CHR 0xC3, CHR 0xA4] @
        '' verkkoyhteytt'' @ [CHR 0xC3, CHR 0xA4] @ ''.''),
     (''login.title'', ''Salattu keskustelu''),
     (''login.server'', ''Palvelimen osoite''),
     (''login.nickname'', ''Nimimerkki''),
     (''login.connect'', ''Yhdist'' @ [CHR 0xC3, CHR 0xA4]),
     (''login.connecting'',
        ''Yhdistet'' @ [CHR 0xC3, CHR 0xA4, CHR 0xC3, CHR 0xA4] @ ''n'' @ [CHR 0xE2, CHR 0x80, CHR 0xA6]),
     (''login.password'', ''Salasana''),
     (''login.passwordHint'', ''Valitse vahva salasana''),
     (''login.passwordHintLogin'', ''Sy'' @ [CHR 0xC3, CHR 0xB6] @ ''t'' @ [CHR 0xC3, CHR 0xA4] @ '' salasanasi''),
     (''login.register'', ''Rekister'' @ [CHR 0xC3, CHR 0xB6] @ ''idy''),
     (''login.login'', ''Kirjaudu''),
     (''login.haveAccount'', ''Onko sinulla jo tili? Kirjaudu''),
     (''login.needAccount'',
        ''Uusi t'' @ [CHR 0xC3, CHR 0xA4, CHR 0xC3, CHR 0xA4] @ ''ll'' @ [CHR 0xC3, CHR 0xA4] @ ''? Rekister'' @
        [CHR 0xC3, CHR 0xB6] @ ''idy''),
     (''login.pwHelp'',
        ''Salasanasi salaa henkil'' @ [CHR 0xC3, CHR 0xB6] @ ''llisyysavaimesi t'' @ [CHR 0xC3, CHR 0xA4] @ ''ll'' @
        [CHR 0xC3, CHR 0xA4] @ '' laitteella. Palvelin ei koskaan n'' @ [CHR 0xC3, CHR 0xA4] @ ''e sit'' @
        [CHR 0xC3, CHR 0xA4] @ ''.''),
     (''login.birthday'', ''Syntym'' @ [CHR 0xC3, CHR 0xA4] @ ''aika''),
     (''login.birthdayHint'', ''1999-05-03''),
     (''login.birthdayHelp'',
        ''Vaaditaan uuden tilin luomiseen. Tallennetaan vain peruuttamattomana tiivisteen'' @ [CHR 0xC3, CHR 0xA4] @
        '', ei koskaan p'' @ [CHR 0xC3, CHR 0xA4] @ ''iv'' @ [CHR 0xC3, CHR 0xA4] @ ''m'' @
        [CHR 0xC3, CHR 0xA4, CHR 0xC3, CHR 0xA4] @ ''r'' @ [CHR 0xC3, CHR 0xA4] @ ''n'' @ [CHR 0xC3, CHR 0xA4] @ ''.''),
     (''login.birthdayInvalid'',
        ''P'' @ [CHR 0xC3, CHR 0xA4] @ ''iv'' @ [CHR 0xC3, CHR 0xA4] @ ''m'' @ [CHR 0xC3, CHR 0xA4, CHR 0xC3, CHR 0xA4] @
        ''r'' @ [CHR 0xC3, CHR 0xA4] @ '' ei kelpaa. K'' @ [CHR 0xC3, CHR 0xA4] @ ''yt'' @ [CHR 0xC3, CHR 0xA4] @
        '' muotoa 1999-05-03.''),
     (''login.forgot'', ''Unohtuiko salasana?''),
     (''recover.title'', ''Palauta salasanasi''),
     (''recover.titleRevealed'', ''Salasanasi''),
     (''recover.introHello'',
        ''Anna k'' @ [CHR 0xC3, CHR 0xA4] @ ''ytt'' @ [CHR 0xC3, CHR 0xA4] @ ''j'' @ [CHR 0xC3, CHR 0xA4] @
        ''tunnuksesi ja syntym'' @ [CHR 0xC3, CHR 0xA4] @ ''aikasi. Sinua pyydet'' @
        [CHR 0xC3, CHR 0xA4, CHR 0xC3, CHR 0xA4] @ ''n sitten vahvistamaan Windows Hellolla.''),
     (''recover.introBio'',
        ''Anna k'' @ [CHR 0xC3, CHR 0xA4] @ ''ytt'' @ [CHR 0xC3, CHR 0xA4] @ ''j'' @ [CHR 0xC3, CHR 0xA4] @
        ''tunnuksesi ja syntym'' @ [CHR 0xC3, CHR 0xA4] @ ''aikasi. Sinua pyydet'' @
        [CHR 0xC3, CHR 0xA4, CHR 0xC3, CHR 0xA4] @ ''n sitten vahvistamaan sormenj'' @ [CHR 0xC3, CHR 0xA4] @ ''ljell'' @
        [CHR 0xC3, CHR 0xA4] @ '' tai laitteen PIN-koodilla.''),
     (''recover.user'',
        ''K'' @ [CHR 0xC3, CHR 0xA4] @ ''ytt'' @ [CHR 0xC3, CHR 0xA4] @ ''j'' @ [CHR 0xC3, CHR 0xA4] @ ''tunnus''),
     (''recover.dobHint'', ''Syntym'' @ [CHR 0xC3, CHR 0xA4] @ ''aika, esim. 1999-05-03''),
     (''recover.submit'', ''L'' @ [CHR 0xC3, CHR 0xA4] @ ''het'' @ [CHR 0xC3, CHR 0xA4]),
     (''recover.waiting'', ''Odotetaan tunnistautumista'' @ [CHR 0xE2, CHR 0x80, CHR 0xA6]),
     (''recover.warning'',
        ''Kuka tahansa, joka n'' @ [CHR 0xC3, CHR 0xA4] @ ''kee t'' @ [CHR 0xC3, CHR 0xA4] @ ''m'' @
        [CHR 0xC3, CHR 0xA4] @ ''n ruudun, n'' @ [CHR 0xC3, CHR 0xA4] @
        ''kee salasanasi. Sulje heti kun olet kirjannut sen yl'' @ [CHR 0xC3, CHR 0xB6] @ ''s.''),
     (''recover.back'', ''Takaisin kirjautumiseen''),
     (''recover.close'', ''Sulje''),
     (''login.helloLogin'', ''Kirjaudu Windows Hellolla''),
     (''login.bioLogin'',
        ''Kirjaudu sormenj'' @ [CHR 0xC3, CHR 0xA4] @ ''ljell'' @ [CHR 0xC3, CHR 0xA4] @ '' tai PIN-koodilla''),
     (''login.enableHello'', ''Ota Windows Hello -kirjautuminen k'' @ [CHR 0xC3, CHR 0xA4] @ ''ytt'' @
        [CHR 0xC3, CHR 0xB6, CHR 0xC3, CHR 0xB6] @ ''n ensi kerralla''),
     (''login.enableBio'',
        ''Ota sormenj'' @ [CHR 0xC3, CHR 0xA4] @ ''lki- tai PIN-kirjautuminen k'' @ [CHR 0xC3, CHR 0xA4] @ ''ytt'' @
        [CHR 0xC3, CHR 0xB6, CHR 0xC3, CHR 0xB6] @ ''n ensi kerralla''),
     (''lock.bioLoginTitle'', ''Kirjaudu salattuun keskusteluun''),
     (''lock.bioLoginSubtitle'', ''Vahvista henkil'' @ [CHR 0xC3, CHR 0xB6] @ ''llisyytesi kirjautuaksesi''),
     (''lock.bioEnrollTitle'',
        ''Ota sormenj'' @ [CHR 0xC3, CHR 0xA4] @ ''lkikirjautuminen k'' @ [CHR 0xC3, CHR 0xA4] @ ''ytt'' @
        [CHR 0xC3, CHR 0xB6, CHR 0xC3, CHR 0xB6] @ ''n''),
     (''lock.bioEnrollSubtitle'', ''Vahvista tallentaaksesi kirjautumisen ensi kertaa varten''),
     (''err.wrongPassword'',
        ''V'' @ [CHR 0xC3, CHR 0xA4, CHR 0xC3, CHR 0xA4] @ ''r'' @ [CHR 0xC3, CHR 0xA4] @ '' salasana. Tili'' @
        [CHR 0xC3, CHR 0xA4] @ ''si ei muutettu.''),
     (''err.noAccountHere'',
        ''T'' @ [CHR 0xC3, CHR 0xA4] @ ''lt'' @ [CHR 0xC3, CHR 0xA4] @ '' laitteelta ei l'' @ [CHR 0xC3, CHR 0xB6] @
        ''ytynyt tili'' @ [CHR 0xC3, CHR 0xA4] @ '' t'' @ [CHR 0xC3, CHR 0xA4] @ ''ll'' @ [CHR 0xC3, CHR 0xA4] @
        '' nimell'' @ [CHR 0xC3, CHR 0xA4] @ ''. Rekister'' @ [CHR 0xC3, CHR 0xB6] @ ''idy ensin.''),
     (''err.accountExistsLocally'',
        ''T'' @ [CHR 0xC3, CHR 0xA4] @ ''ll'' @ [CHR 0xC3, CHR 0xA4] @ '' nimell'' @ [CHR 0xC3, CHR 0xA4] @
        '' on jo tili t'' @ [CHR 0xC3, CHR 0xA4] @ ''ll'' @ [CHR 0xC3, CHR 0xA4] @
        '' laitteella. Kirjaudu sen sijaan sis'' @ [CHR 0xC3, CHR 0xA4, CHR 0xC3, CHR 0xA4] @ ''n.''),
     (''err.identityNotPersisted'',
        ''Henkil'' @ [CHR 0xC3, CHR 0xB6] @ ''llisyytt'' @ [CHR 0xC3, CHR 0xA4] @ ''si ei voitu tallentaa pysyv'' @
        [CHR 0xC3, CHR 0xA4, CHR 0xC3, CHR 0xA4] @ ''n muistiin, eik'' @ [CHR 0xC3, CHR 0xA4] @ '' se v'' @
        [CHR 0xC3, CHR 0xA4] @ ''ltt'' @ [CHR 0xC3, CHR 0xA4] @ ''m'' @ [CHR 0xC3, CHR 0xA4] @ ''tt'' @
        [CHR 0xC3, CHR 0xA4] @ '' s'' @ [CHR 0xC3, CHR 0xA4] @ ''ily uudelleenk'' @ [CHR 0xC3, CHR 0xA4] @
        ''ynnistyksess'' @ [CHR 0xC3, CHR 0xA4] @ '' t'' @ [CHR 0xC3, CHR 0xA4] @ ''ll'' @ [CHR 0xC3, CHR 0xA4] @
        '' laitteella.''),
     (''err.identityUnreadable'',
        ''Tallennettua henkil'' @ [CHR 0xC3, CHR 0xB6] @ ''llisyytt'' @ [CHR 0xC3, CHR 0xA4] @ '' ei voitu lukea. K'' @
        [CHR 0xC3, CHR 0xA4] @ ''ynnist'' @ [CHR 0xC3, CHR 0xA4] @ '' sovellus uudelleen; avaintasi ei muutettu.''),
     (''err.registerFailed'', ''Rekister'' @ [CHR 0xC3, CHR 0xB6] @ ''inti ep'' @ [CHR 0xC3, CHR 0xA4] @
        ''onnistui tunnistetietoja valmisteltaessa. Yrit'' @ [CHR 0xC3, CHR 0xA4] @ '' uudelleen.''),
     (''err.loginRejected'', ''Palvelin p'' @ [CHR 0xC3, CHR 0xA4, CHR 0xC3, CHR 0xA4] @ ''tti istunnon (v'' @
        [CHR 0xC3, CHR 0xA4, CHR 0xC3, CHR 0xA4] @ ''r'' @ [CHR 0xC3, CHR 0xA4] @ '' salasana, varattu k'' @
        [CHR 0xC3, CHR 0xA4] @ ''ytt'' @ [CHR 0xC3, CHR 0xA4] @ ''j'' @ [CHR 0xC3, CHR 0xA4] @
        ''nimi tai kirjautuminen toisella laitteella). Kirjaudu uudelleen.''),
     (''err.pinSetFailed'', ''PIN-koodia ei voitu asettaa. Yrit'' @ [CHR 0xC3, CHR 0xA4] @ '' uudelleen.''),
     (''err.noDeviceCredential'',
        ''Laitteen lukitusta ei ole m'' @ [CHR 0xC3, CHR 0xA4, CHR 0xC3, CHR 0xA4] @ ''ritetty. Aseta ensin n'' @
        [CHR 0xC3, CHR 0xA4] @ ''yt'' @ [CHR 0xC3, CHR 0xB6] @ ''n lukitus (PIN, kuvio tai sormenj'' @
        [CHR 0xC3, CHR 0xA4] @ ''lki) laitteen asetuksissa.''),
     (''err.pinRequired'',
        ''Vara-PIN vaaditaan. Sy'' @ [CHR 0xC3, CHR 0xB6] @ ''t'' @ [CHR 0xC3, CHR 0xA4] @ '' PIN-koodi.''),
     (''err.resetNoAccount'',
        ''T'' @ [CHR 0xC3, CHR 0xA4] @ ''lt'' @ [CHR 0xC3, CHR 0xA4] @ '' laitteelta ei l'' @ [CHR 0xC3, CHR 0xB6] @
        ''ytynyt tili'' @ [CHR 0xC3, CHR 0xA4] @ '', jota vastaan salasana voitaisiin varmentaa.''),
     (''lock.unlockDevice'', ''Avaa laitteella''),
     (''lock.unlockHello'', ''Avaa Windows Hellolla''),
     (''lock.orEnterPin'',
        [CHR 0xE2, CHR 0x80, CHR 0x94] @ '' tai sy'' @ [CHR 0xC3, CHR 0xB6] @ ''t'' @ [CHR 0xC3, CHR 0xA4] @ '' PIN '' @
        [CHR 0xE2, CHR 0x80, CHR 0x94]),
     (''lock.forgotPin'', ''Unohditko PINin?''),
     (''lock.resetTitle'', ''Nollaa lukitus''),
     (''lock.resetPrompt'',
        ''Sy'' @ [CHR 0xC3, CHR 0xB6] @ ''t'' @ [CHR 0xC3, CHR 0xA4] @ '' tilisi salasana nollataksesi sovelluslukon.''),
     (''settings.enableLock'',
        ''Ota sovelluslukko k'' @ [CHR 0xC3, CHR 0xA4] @ ''ytt'' @ [CHR 0xC3, CHR 0xB6, CHR 0xC3, CHR 0xB6] @ ''n''),
     (''settings.disableLock'',
        ''Poista sovelluslukko k'' @ [CHR 0xC3, CHR 0xA4] @ ''yt'' @ [CHR 0xC3, CHR 0xB6] @ ''st'' @ [CHR 0xC3, CHR 0xA4]),
     (''settings.lockUsesDevice'',
        ''Avaus k'' @ [CHR 0xC3, CHR 0xA4] @ ''ytt'' @ [CHR 0xC3, CHR 0xA4, CHR 0xC3, CHR 0xA4] @ '' laitteesi n'' @
        [CHR 0xC3, CHR 0xA4] @ ''yt'' @ [CHR 0xC3, CHR 0xB6] @ ''nlukitusta (sormenj'' @ [CHR 0xC3, CHR 0xA4] @
        ''lki, kasvot tai PIN).''),
     (''settings.lockUsesHello'',
        ''Avaus k'' @ [CHR 0xC3, CHR 0xA4] @ ''ytt'' @ [CHR 0xC3, CHR 0xA4, CHR 0xC3, CHR 0xA4] @
        '' Windows Helloa, ja sovelluksen PIN toimii varana.''),
     (''settings.lockUsesPin'',
        ''Avaus k'' @ [CHR 0xC3, CHR 0xA4] @ ''ytt'' @ [CHR 0xC3, CHR 0xA4, CHR 0xC3, CHR 0xA4] @
        '' sovelluksen PIN-koodia.''),
     (''err.nameReserved'',
        ''T'' @ [CHR 0xC3, CHR 0xA4] @ ''m'' @ [CHR 0xC3, CHR 0xA4] @ '' k'' @ [CHR 0xC3, CHR 0xA4] @ ''ytt'' @
        [CHR 0xC3, CHR 0xA4] @ ''j'' @ [CHR 0xC3, CHR 0xA4] @ ''nimi on jo rekister'' @ [CHR 0xC3, CHR 0xB6] @
        ''ity toiselle henkil'' @ [CHR 0xC3, CHR 0xB6] @ ''llisyydelle. Valitse toinen nimi.''),
     (''err.badPassword'',
        ''V'' @ [CHR 0xC3, CHR 0xA4, CHR 0xC3, CHR 0xA4] @ ''r'' @ [CHR 0xC3, CHR 0xA4] @ '' salasana t'' @
        [CHR 0xC3, CHR 0xA4] @ ''lle k'' @ [CHR 0xC3, CHR 0xA4] @ ''ytt'' @ [CHR 0xC3, CHR 0xA4] @ ''j'' @
        [CHR 0xC3, CHR 0xA4] @ ''nimelle.''),
     (''lock.title'', ''Lukittu''),
     (''lock.enterPin'', ''Sy'' @ [CHR 0xC3, CHR 0xB6] @ ''t'' @ [CHR 0xC3, CHR 0xA4] @ '' PIN''),
     (''lock.wrongPin'',
        ''V'' @ [CHR 0xC3, CHR 0xA4, CHR 0xC3, CHR 0xA4] @ ''r'' @ [CHR 0xC3, CHR 0xA4] @ '' PIN, yrit'' @
        [CHR 0xC3, CHR 0xA4] @ '' uudelleen''),
     (''lock.unlock'', ''Avaa lukitus''),
     (''lock.useFingerprint'',
        ''K'' @ [CHR 0xC3, CHR 0xA4] @ ''yt'' @ [CHR 0xC3, CHR 0xA4] @ '' sormenj'' @ [CHR 0xC3, CHR 0xA4] @ ''lke'' @
        [CHR 0xC3, CHR 0xA4]),
     (''lock.biometricTitle'', ''Avaa Salattu keskustelu''),
     (''lock.biometricSubtitle'', ''Vahvista henkil'' @ [CHR 0xC3, CHR 0xB6] @ ''llisyytesi jatkaaksesi''),
     (''settings.appLock'', ''Sovelluslukko (PIN)''),
     (''settings.setPin'', ''Aseta / vaihda PIN''),
     (''settings.removePin'', ''Poista PIN''),
     (''settings.pinOn'',
        ''PIN-lukko on p'' @ [CHR 0xC3, CHR 0xA4, CHR 0xC3, CHR 0xA4] @ ''ll'' @ [CHR 0xC3, CHR 0xA4]),
     (''settings.pinOff'',
        ''PIN-lukko on pois p'' @ [CHR 0xC3, CHR 0xA4, CHR 0xC3, CHR 0xA4] @ ''lt'' @ [CHR 0xC3, CHR 0xA4]),
     (''settings.newPin'', ''Uusi PIN''),
     (''settings.confirmPin'', ''Vahvista PIN''),
     (''settings.currentPin'', ''Nykyinen PIN''),
     (''settings.wrongCurrentPin'', ''Nykyinen PIN on virheellinen''),
     (''settings.pinMismatch'', ''PIN-koodit eiv'' @ [CHR 0xC3, CHR 0xA4] @ ''t t'' @ [CHR 0xC3, CHR 0xA4] @ ''sm'' @
        [CHR 0xC3, CHR 0xA4, CHR 0xC3, CHR 0xA4]),
     (''settings.lockNow'', ''Lukitse nyt''),
     (''common.cancel'', ''Peruuta''),
     (''common.save'', ''Tallenna''),
     (''logout.title'', ''Kirjaudutaanko ulos?''),
     (''logout.body'',
        ''Palaat kirjautumisruutuun. Henkil'' @ [CHR 0xC3, CHR 0xB6] @ ''llisyytesi ja viestihistoriasi s'' @
        [CHR 0xC3, CHR 0xA4] @ ''ilyv'' @ [CHR 0xC3, CHR 0xA4] @ ''t t'' @ [CHR 0xC3, CHR 0xA4] @ ''ss'' @
        [CHR 0xC3, CHR 0xA4] @ '' laitteessa, joten kirjautumalla takaisin nimell'' @ [CHR 0xC3, CHR 0xA4] @ '' '' @
        [CHR 0x22] @ ''%1'' @ [CHR 0x22] @ '' saat kaiken takaisin.''),
     (''switch.title'', ''Vaihdetaanko k'' @ [CHR 0xC3, CHR 0xA4] @ ''ytt'' @ [CHR 0xC3, CHR 0xA4] @ ''j'' @
        [CHR 0xC3, CHR 0xA4, CHR 0xC3, CHR 0xA4] @ ''?''),
     (''switch.body'', ''T'' @ [CHR 0xC3, CHR 0xA4] @ ''m'' @ [CHR 0xC3, CHR 0xA4] @
        '' palaa kirjautumisruutuun, jotta joku toinen voi kirjautua omalla nimell'' @
        [CHR 0xC3, CHR 0xA4, CHR 0xC3, CHR 0xA4] @ ''n. K'' @ [CHR 0xC3, CHR 0xA4] @ ''ytt'' @ [CHR 0xC3, CHR 0xA4] @
        ''j'' @ [CHR 0xC3, CHR 0xA4] @ ''n '' @ [CHR 0x22] @ ''%1'' @ [CHR 0x22] @ '' henkil'' @ [CHR 0xC3, CHR 0xB6] @
        ''llisyys ja viestit s'' @ [CHR 0xC3, CHR 0xA4] @ ''ilyv'' @ [CHR 0xC3, CHR 0xA4] @ ''t t'' @
        [CHR 0xC3, CHR 0xA4] @ ''ss'' @ [CHR 0xC3, CHR 0xA4] @ '' laitteessa, joten voit vaihtaa takaisin my'' @
        [CHR 0xC3, CHR 0xB6] @ ''hemmin.''),
     (''safety.titlePeer'',
        ''Turvanumero k'' @ [CHR 0xC3, CHR 0xA4] @ ''ytt'' @ [CHR 0xC3, CHR 0xA4] @ ''j'' @ [CHR 0xC3, CHR 0xA4] @
        ''n %1 kanssa''),
     (''safety.titleSelf'', ''Oma turvanumerosi''),
     (''safety.comparePeer'',
        ''Vertaa n'' @ [CHR 0xC3, CHR 0xA4] @ ''it'' @ [CHR 0xC3, CHR 0xA4] @ '' numeroita k'' @ [CHR 0xC3, CHR 0xA4] @
        ''ytt'' @ [CHR 0xC3, CHR 0xA4] @ ''j'' @ [CHR 0xC3, CHR 0xA4] @ ''n %1 kanssa puhelimitse tai kasvotusten.'' @
        [CHR 0x0A] @ ''Jos ne t'' @ [CHR 0xC3, CHR 0xA4] @ ''sm'' @ [CHR 0xC3, CHR 0xA4, CHR 0xC3, CHR 0xA4] @ ''v'' @
        [CHR 0xC3, CHR 0xA4] @ ''t molemmissa laitteissa, kukaan ei sieppaa avaimiasi.''),
     (''safety.selectHint'',
        ''Valitse yhteystieto n'' @ [CHR 0xC3, CHR 0xA4] @ ''hd'' @ [CHR 0xC3, CHR 0xA4] @ ''ksesi h'' @
        [CHR 0xC3, CHR 0xA4] @ ''nen kanssaan jaetun turvanumeron.''),
     (''safety.bannerTitle'',
        [CHR 0xE2, CHR 0x9A, CHR 0xA0, CHR 0xEF, CHR 0xB8, CHR 0x8F] @ '' %1 voi olla eri henkil'' @
        [CHR 0xC3, CHR 0xB6] @ '' tai laite''),
     (''safety.bannerBody'',
        ''K'' @ [CHR 0xC3, CHR 0xA4] @ ''ytt'' @ [CHR 0xC3, CHR 0xA4] @ ''j'' @ [CHR 0xC3, CHR 0xA4] @
        ''n %1 turvanumero muuttui. N'' @ [CHR 0xC3, CHR 0xA4] @ ''in tapahtuu, kun h'' @ [CHR 0xC3, CHR 0xA4] @
        ''n asentaa sovelluksen uudelleen, vaihtaa laitetta tai joku toinen ottaa t'' @ [CHR 0xC3, CHR 0xA4] @ ''m'' @
        [CHR 0xC3, CHR 0xA4] @ ''n nimen -- mutta se voi my'' @ [CHR 0xC3, CHR 0xB6] @ ''s tarkoittaa, ett'' @
        [CHR 0xC3, CHR 0xA4] @ '' joku sieppaa viestej'' @ [CHR 0xC3, CHR 0xA4] @ ''si. Vertaa uutta turvanumeroa k'' @
        [CHR 0xC3, CHR 0xA4] @ ''ytt'' @ [CHR 0xC3, CHR 0xA4] @ ''j'' @ [CHR 0xC3, CHR 0xA4] @
        ''n %1 kanssa puhelimitse tai kasvotusten ja vahvista sitten jatkaaksesi. Et voi l'' @ [CHR 0xC3, CHR 0xA4] @
        ''hett'' @ [CHR 0xC3, CHR 0xA4, CHR 0xC3, CHR 0xA4] @ '' viestej'' @ [CHR 0xC3, CHR 0xA4] @ '' ennen sit'' @
        [CHR 0xC3, CHR 0xA4] @ ''.''),
     (''safety.view'', ''N'' @ [CHR 0xC3, CHR 0xA4] @ ''yt'' @ [CHR 0xC3, CHR 0xA4] @ '' turvanumero''),
     (''safety.confirm'', ''Olen vahvistanut '' @ [CHR 0xE2, CHR 0x80, CHR 0x94] @ '' vahvista ja vaihda''),
     (''export.title'',
        ''Vie keskustelu k'' @ [CHR 0xC3, CHR 0xA4] @ ''ytt'' @ [CHR 0xC3, CHR 0xA4] @ ''j'' @ [CHR 0xC3, CHR 0xA4] @
        ''n %1 kanssa''),
     (''export.pdf'', ''PDF-asiakirja (*.pdf)''),
     (''export.txt'', ''Tekstitiedosto (*.txt)''),
     (''export.done'',
        ''Keskustelu k'' @ [CHR 0xC3, CHR 0xA4] @ ''ytt'' @ [CHR 0xC3, CHR 0xA4] @ ''j'' @ [CHR 0xC3, CHR 0xA4] @
        ''n %1 kanssa tallennettiin sijaintiin %2''),
     (''export.saved'',
        ''Keskustelu k'' @ [CHR 0xC3, CHR 0xA4] @ ''ytt'' @ [CHR 0xC3, CHR 0xA4] @ ''j'' @ [CHR 0xC3, CHR 0xA4] @
        ''n %1 kanssa tallennettu.''),
     (''export.empty'',
        ''K'' @ [CHR 0xC3, CHR 0xA4] @ ''ytt'' @ [CHR 0xC3, CHR 0xA4] @ ''j'' @ [CHR 0xC3, CHR 0xA4] @
        ''n %1 kanssa ei ole viel'' @ [CHR 0xC3, CHR 0xA4] @ '' viestej'' @ [CHR 0xC3, CHR 0xA4] @ '' viet'' @
        [CHR 0xC3, CHR 0xA4] @ ''v'' @ [CHR 0xC3, CHR 0xA4] @ ''ksi.''),
     (''export.failed'', ''Vienti'' @ [CHR 0xC3, CHR 0xA4] @ '' ei voitu tallentaa: %1''),
     (''export.headerTitle'',
        ''Keskustelu k'' @ [CHR 0xC3, CHR 0xA4] @ ''ytt'' @ [CHR 0xC3, CHR 0xA4] @ ''j'' @ [CHR 0xC3, CHR 0xA4] @
        ''n %1 kanssa''),
     (''export.headerExported'', ''Viety %1''),
     (''export.headerParticipants'', ''Osallistujat: %1 ja %2''),
     (''export.sentFile'', ''l'' @ [CHR 0xC3, CHR 0xA4] @ ''hetti tiedoston: %1 (%2)''),
     (''export.systemLabel'', ''(j'' @ [CHR 0xC3, CHR 0xA4] @ ''rjestelm'' @ [CHR 0xC3, CHR 0xA4] @ '')''),
     (''notif.newMessageTitle'',
        ''Uusi viesti k'' @ [CHR 0xC3, CHR 0xA4] @ ''ytt'' @ [CHR 0xC3, CHR 0xA4] @ ''j'' @ [CHR 0xC3, CHR 0xA4] @
        ''lt'' @ [CHR 0xC3, CHR 0xA4] @ '' %1''),
     (''notif.newFileTitle'',
        ''Uusi tiedosto k'' @ [CHR 0xC3, CHR 0xA4] @ ''ytt'' @ [CHR 0xC3, CHR 0xA4] @ ''j'' @ [CHR 0xC3, CHR 0xA4] @
        ''lt'' @ [CHR 0xC3, CHR 0xA4] @ '' %1''),
     (''notif.newFileBody'', ''%1 (%2)''),
     (''notif.channelName'', ''Viestit''),
     (''notif.serviceRunning'',
        ''Salattu keskustelu on k'' @ [CHR 0xC3, CHR 0xA4] @ ''ynniss'' @ [CHR 0xC3, CHR 0xA4]),
     (''notif.serviceBody'',
        ''Yhdistetty '' @ [CHR 0xE2, CHR 0x80, CHR 0x94] @ '' saat ilmoituksen uusista viesteist'' @
        [CHR 0xC3, CHR 0xA4] @ ''.''),
     (''shortcut.unsupported'',
        ''Aloitusn'' @ [CHR 0xC3, CHR 0xA4] @ ''yt'' @ [CHR 0xC3, CHR 0xB6] @ ''n pikakuvaketta ei voitu luoda t'' @
        [CHR 0xC3, CHR 0xA4] @ ''ss'' @ [CHR 0xC3, CHR 0xA4] @ '' laitteessa.''),
     (''sys.cannotDecrypt'',
        [CHR 0xF0, CHR 0x9F, CHR 0x94, CHR 0x92] @ '' Aiempaa viesti'' @ [CHR 0xC3, CHR 0xA4] @ '' ei voitu en'' @
        [CHR 0xC3, CHR 0xA4, CHR 0xC3, CHR 0xA4] @ '' purkaa (se tallennettiin aiemmalla henkil'' @ [CHR 0xC3, CHR 0xB6] @
        ''llisyysavaimella).''),
     (''sys.historyOpenFailed'',
        ''Historiaa ei voitu avata; viestej'' @ [CHR 0xC3, CHR 0xA4] @ '' ei tallenneta t'' @ [CHR 0xC3, CHR 0xA4] @
        ''ss'' @ [CHR 0xC3, CHR 0xA4] @ '' istunnossa.''),
     (''sys.noStorage'',
        ''Kirjoitettavaa tallennussijaintia ei l'' @ [CHR 0xC3, CHR 0xB6] @ ''ytynyt; viestihistoria on poissa k'' @
        [CHR 0xC3, CHR 0xA4] @ ''yt'' @ [CHR 0xC3, CHR 0xB6] @ ''st'' @ [CHR 0xC3, CHR 0xA4] @ '' t'' @
        [CHR 0xC3, CHR 0xA4] @ ''ss'' @ [CHR 0xC3, CHR 0xA4] @ '' istunnossa.''),
     (''err.historyOpenFailed'',
        ''Paikallista historiaa ei voitu avata; viestej'' @ [CHR 0xC3, CHR 0xA4] @ ''si ei tallenneta t'' @
        [CHR 0xC3, CHR 0xA4] @ ''h'' @ [CHR 0xC3, CHR 0xA4] @ ''n laitteeseen.''),
     (''sys.fileFailed'', ''Tiedoston siirto ep'' @ [CHR 0xC3, CHR 0xA4] @ ''onnistui: %1''),
     (''sys.reason.startDecrypt'', ''purkua ei voitu aloittaa''),
     (''sys.reason.openTemp'', ''v'' @ [CHR 0xC3, CHR 0xA4] @ ''liaikaistiedostoa ei voitu avata'')]"

definition m_sv :: "(qstring \<times> qstring) list" where
  "m_sv =
    [(''online'', ''uppkopplad''),
     (''reconnecting'', [CHR 0xC3, CHR 0xA5] @ ''teransluter'' @ [CHR 0xE2, CHR 0x80, CHR 0xA6]),
     (''menu.viewSafety'', ''Visa s'' @ [CHR 0xC3, CHR 0xA4] @ ''kerhetsnummer''),
     (''menu.theme'', ''Tema'' @ [CHR 0xE2, CHR 0x80, CHR 0xA6]),
     (''menu.language'', ''Spr'' @ [CHR 0xC3, CHR 0xA5] @ ''k'' @ [CHR 0xE2, CHR 0x80, CHR 0xA6]),
     (''menu.darkMode'', ''M'' @ [CHR 0xC3, CHR 0xB6] @ ''rkt l'' @ [CHR 0xC3, CHR 0xA4] @ ''ge''),
     (''menu.switchUser'', ''Byt anv'' @ [CHR 0xC3, CHR 0xA4] @ ''ndare'' @ [CHR 0xE2, CHR 0x80, CHR 0xA6]),
     (''menu.logout'', ''Logga ut''),
     (''menu.export'', ''Exportera chatt'' @ [CHR 0xE2, CHR 0x80, CHR 0xA6]),
     (''menu.shortcut'',
        ''L'' @ [CHR 0xC3, CHR 0xA4] @ ''gg till p'' @ [CHR 0xC3, CHR 0xA5] @ '' startsk'' @ [CHR 0xC3, CHR 0xA4] @
        ''rmen'' @ [CHR 0xE2, CHR 0x80, CHR 0xA6]),
     (''menu.logs'', ''Diagnostiklogg'' @ [CHR 0xE2, CHR 0x80, CHR 0xA6]),
     (''log.title'', ''Diagnostiklogg''),
     (''log.lines'', ''rader''),
     (''log.empty'', ''Inga loggrader har f'' @ [CHR 0xC3, CHR 0xA5] @ ''ngats '' @ [CHR 0xC3, CHR 0xA4] @ ''nnu.''),
     (''log.copyAll'', ''Kopiera alla''),
     (''log.clear'', ''Rensa''),
     (''log.close'', ''St'' @ [CHR 0xC3, CHR 0xA4] @ ''ng''),
     (''lang.title'', ''Spr'' @ [CHR 0xC3, CHR 0xA5] @ ''k''),
     (''lang.hint'', ''V'' @ [CHR 0xC3, CHR 0xA4] @ ''lj appspr'' @ [CHR 0xC3, CHR 0xA5] @ ''k. Ditt val sparas p'' @
        [CHR 0xC3, CHR 0xA5] @ '' den h'' @ [CHR 0xC3, CHR 0xA4] @ ''r enheten.''),
     (''theme.title'', ''Tema''),
     (''theme.hint'',
        ''V'' @ [CHR 0xC3, CHR 0xA4] @ ''lj ett f'' @ [CHR 0xC3, CHR 0xA4] @ ''rgtema. Ditt val sparas f'' @
        [CHR 0xC3, CHR 0xB6] @ ''r '' @ [CHR 0x22] @ ''%1'' @ [CHR 0x22] @ '' p'' @ [CHR 0xC3, CHR 0xA5] @ '' den h'' @
        [CHR 0xC3, CHR 0xA4] @ ''r enheten.''),
     (''contacts.title'', ''Kontakter''),
     (''contacts.you'', ''du''),
     (''contacts.offline'', ''fr'' @ [CHR 0xC3, CHR 0xA5] @ ''nkopplad''),
     (''contacts.typing'', ''skriver'' @ [CHR 0xE2, CHR 0x80, CHR 0xA6]),
     (''contacts.sendingFile'', ''skickar en fil'' @ [CHR 0xE2, CHR 0x80, CHR 0xA6]),
     (''conv.chattingWith'', ''Chattar med %1''),
     (''conv.isTyping'', ''%1 skriver'' @ [CHR 0xE2, CHR 0x80, CHR 0xA6]),
     (''conv.isSendingFile'', ''%1 skickar en fil'' @ [CHR 0xE2, CHR 0x80, CHR 0xA6]),
     (''conv.pickContact'', ''V'' @ [CHR 0xC3, CHR 0xA4] @ ''lj en kontakt f'' @ [CHR 0xC3, CHR 0xB6] @
        ''r att starta en privat konversation.''),
     (''conv.emptyHint'', ''V'' @ [CHR 0xC3, CHR 0xA4] @ ''lj vem du vill chatta med''),
     (''composer.type'', ''Skriv ett meddelande'' @ [CHR 0xE2, CHR 0x80, CHR 0xA6]),
     (''composer.confirmFirst'',
        ''Bekr'' @ [CHR 0xC3, CHR 0xA4] @ ''fta '' @ [CHR 0xC3, CHR 0xA4] @ ''ndringen av s'' @ [CHR 0xC3, CHR 0xA4] @
        ''kerhetsnumret f'' @ [CHR 0xC3, CHR 0xB6] @ ''r att forts'' @ [CHR 0xC3, CHR 0xA4] @ ''tta'' @
        [CHR 0xE2, CHR 0x80, CHR 0xA6]),
     (''composer.send'', ''Skicka''),
     (''composer.attachTip'', ''Skicka en fil eller bild''),
     (''msg.deleted'', ''Det h'' @ [CHR 0xC3, CHR 0xA4] @ ''r meddelandet raderades''),
     (''menu.deleteForMe'', ''Radera f'' @ [CHR 0xC3, CHR 0xB6] @ ''r mig''),
     (''menu.deleteForEveryone'', ''Radera f'' @ [CHR 0xC3, CHR 0xB6] @ ''r alla''),
     (''menu.reactAgree'', ''H'' @ [CHR 0xC3, CHR 0xA5] @ ''ller med''),
     (''menu.reactDisagree'', ''H'' @ [CHR 0xC3, CHR 0xA5] @ ''ller inte med''),
     (''menu.reactRemove'', ''Ta bort reaktion''),
     (''menu.edit'', ''Redigera''),
     (''menu.resend'', ''Skicka igen''),
     (''msg.edited'', ''redigerad''),
     (''edit.title'', ''Redigera meddelande''),
     (''edit.hint'', ''Den nya texten krypteras och uppdateras hos b'' @ [CHR 0xC3, CHR 0xA5] @ ''da parter. Du m'' @
        [CHR 0xC3, CHR 0xA5] @ ''ste vara online f'' @ [CHR 0xC3, CHR 0xB6] @ ''r att redigera.''),
     (''login.title'', ''Krypterad chatt''),
     (''login.server'', ''Serveradress''),
     (''login.nickname'', ''Smeknamn''),
     (''login.connect'', ''Anslut''),
     (''login.connecting'', ''Ansluter'' @ [CHR 0xE2, CHR 0x80, CHR 0xA6]),
     (''login.password'', ''L'' @ [CHR 0xC3, CHR 0xB6] @ ''senord''),
     (''login.passwordHint'', ''V'' @ [CHR 0xC3, CHR 0xA4] @ ''lj ett starkt l'' @ [CHR 0xC3, CHR 0xB6] @ ''senord''),
     (''login.passwordHintLogin'', ''Ange ditt l'' @ [CHR 0xC3, CHR 0xB6] @ ''senord''),
     (''login.register'', ''Registrera''),
     (''login.login'', ''Logga in''),
     (''login.haveAccount'', ''Har du redan ett konto? Logga in''),
     (''login.needAccount'', ''Ny h'' @ [CHR 0xC3, CHR 0xA4] @ ''r? Registrera''),
     (''login.pwHelp'',
        ''Ditt l'' @ [CHR 0xC3, CHR 0xB6] @ ''senord krypterar din identitetsnyckel p'' @ [CHR 0xC3, CHR 0xA5] @
        '' den h'' @ [CHR 0xC3, CHR 0xA4] @ ''r enheten. Servern ser det aldrig.''),
     (''login.birthday'', ''F'' @ [CHR 0xC3, CHR 0xB6] @ ''delsedatum''),
     (''login.birthdayHint'', ''1999-05-03''),
     (''login.birthdayHelp'', ''Kr'' @ [CHR 0xC3, CHR 0xA4] @ ''vs f'' @ [CHR 0xC3, CHR 0xB6] @
        ''r att skapa ett nytt konto. Lagras endast som en o'' @ [CHR 0xC3, CHR 0xA5] @
        ''terkallelig hash, aldrig som ett datum.''),
     (''login.birthdayInvalid'',
        ''Datumet '' @ [CHR 0xC3, CHR 0xA4] @ ''r ogiltigt. Anv'' @ [CHR 0xC3, CHR 0xA4] @ ''nd formen 1999-05-03.''),
     (''login.forgot'', ''Gl'' @ [CHR 0xC3, CHR 0xB6] @ ''mt l'' @ [CHR 0xC3, CHR 0xB6] @ ''senordet?''),
     (''recover.title'',
        [CHR 0xC3, CHR 0x85] @ ''terst'' @ [CHR 0xC3, CHR 0xA4] @ ''ll ditt l'' @ [CHR 0xC3, CHR 0xB6] @ ''senord''),
     (''recover.titleRevealed'', ''Ditt l'' @ [CHR 0xC3, CHR 0xB6] @ ''senord''),
     (''recover.introHello'', ''Ange ditt anv'' @ [CHR 0xC3, CHR 0xA4] @ ''ndarnamn och f'' @ [CHR 0xC3, CHR 0xB6] @
        ''delsedatum. Du ombeds sedan bekr'' @ [CHR 0xC3, CHR 0xA4] @ ''fta med Windows Hello.''),
     (''recover.introBio'', ''Ange ditt anv'' @ [CHR 0xC3, CHR 0xA4] @ ''ndarnamn och f'' @ [CHR 0xC3, CHR 0xB6] @
        ''delsedatum. Du ombeds sedan bekr'' @ [CHR 0xC3, CHR 0xA4] @ ''fta med fingeravtryck eller enhetens PIN.''),
     (''recover.user'', ''Anv'' @ [CHR 0xC3, CHR 0xA4] @ ''ndarnamn''),
     (''recover.dobHint'', ''F'' @ [CHR 0xC3, CHR 0xB6] @ ''delsedatum, t.ex. 1999-05-03''),
     (''recover.submit'', ''Skicka''),
     (''recover.waiting'', ''V'' @ [CHR 0xC3, CHR 0xA4] @ ''ntar p'' @ [CHR 0xC3, CHR 0xA5] @ '' autentisering'' @
        [CHR 0xE2, CHR 0x80, CHR 0xA6]),
     (''recover.warning'',
        ''Alla som ser den h'' @ [CHR 0xC3, CHR 0xA4] @ ''r sk'' @ [CHR 0xC3, CHR 0xA4] @ ''rmen ser ditt l'' @
        [CHR 0xC3, CHR 0xB6] @ ''senord. St'' @ [CHR 0xC3, CHR 0xA4] @ ''ng s'' @ [CHR 0xC3, CHR 0xA5] @
        '' snart du har antecknat det.''),
     (''recover.back'', ''Tillbaka till inloggning''),
     (''recover.close'', ''St'' @ [CHR 0xC3, CHR 0xA4] @ ''ng''),
     (''login.helloLogin'', ''Logga in med Windows Hello''),
     (''login.bioLogin'', ''Logga in med fingeravtryck eller PIN''),
     (''login.enableHello'',
        ''Aktivera Windows Hello-inloggning n'' @ [CHR 0xC3, CHR 0xA4] @ ''sta g'' @ [CHR 0xC3, CHR 0xA5] @ ''ng''),
     (''login.enableBio'',
        ''Aktivera fingeravtrycks- eller PIN-inloggning n'' @ [CHR 0xC3, CHR 0xA4] @ ''sta g'' @ [CHR 0xC3, CHR 0xA5] @
        ''ng''),
     (''lock.bioLoginTitle'', ''Logga in i Krypterad chatt''),
     (''lock.bioLoginSubtitle'',
        ''Bekr'' @ [CHR 0xC3, CHR 0xA4] @ ''fta din identitet f'' @ [CHR 0xC3, CHR 0xB6] @ ''r att logga in''),
     (''lock.bioEnrollTitle'', ''Aktivera fingeravtrycksinloggning''),
     (''lock.bioEnrollSubtitle'',
        ''Bekr'' @ [CHR 0xC3, CHR 0xA4] @ ''fta f'' @ [CHR 0xC3, CHR 0xB6] @ ''r att spara din inloggning till n'' @
        [CHR 0xC3, CHR 0xA4] @ ''sta g'' @ [CHR 0xC3, CHR 0xA5] @ ''ng''),
     (''err.wrongPassword'',
        ''Fel l'' @ [CHR 0xC3, CHR 0xB6] @ ''senord. Ditt konto '' @ [CHR 0xC3, CHR 0xA4] @ ''ndrades inte.''),
     (''err.noAccountHere'',
        ''Inget konto hittades p'' @ [CHR 0xC3, CHR 0xA5] @ '' den h'' @ [CHR 0xC3, CHR 0xA4] @ ''r enheten f'' @
        [CHR 0xC3, CHR 0xB6] @ ''r det namnet. Registrera dig f'' @ [CHR 0xC3, CHR 0xB6] @ ''rst.''),
     (''err.accountExistsLocally'',
        ''Ett konto med det namnet finns redan p'' @ [CHR 0xC3, CHR 0xA5] @ '' den h'' @ [CHR 0xC3, CHR 0xA4] @
        ''r enheten. Logga in ist'' @ [CHR 0xC3, CHR 0xA4] @ ''llet.''),
     (''err.identityNotPersisted'',
        ''Din identitet kunde inte sparas i best'' @ [CHR 0xC3, CHR 0xA4] @ ''ndig lagring och kanske inte '' @
        [CHR 0xC3, CHR 0xB6] @ ''verlever en omstart p'' @ [CHR 0xC3, CHR 0xA5] @ '' den h'' @ [CHR 0xC3, CHR 0xA4] @
        ''r enheten.''),
     (''err.identityUnreadable'',
        ''Kunde inte l'' @ [CHR 0xC3, CHR 0xA4] @ ''sa din sparade identitet. Starta om appen; din nyckel '' @
        [CHR 0xC3, CHR 0xA4] @ ''ndrades inte.''),
     (''err.registerFailed'',
        ''Registreringen misslyckades n'' @ [CHR 0xC3, CHR 0xA4] @ ''r dina uppgifter f'' @ [CHR 0xC3, CHR 0xB6] @
        ''rbereddes. F'' @ [CHR 0xC3, CHR 0xB6] @ ''rs'' @ [CHR 0xC3, CHR 0xB6] @ ''k igen.''),
     (''err.loginRejected'',
        ''Servern avslutade sessionen (fel l'' @ [CHR 0xC3, CHR 0xB6] @ ''senord, reserverat anv'' @
        [CHR 0xC3, CHR 0xA4] @ ''ndarnamn eller inloggning p'' @ [CHR 0xC3, CHR 0xA5] @
        '' en annan enhet). Logga in igen.''),
     (''err.pinSetFailed'',
        ''Det gick inte att st'' @ [CHR 0xC3, CHR 0xA4] @ ''lla in PIN-koden. F'' @ [CHR 0xC3, CHR 0xB6] @ ''rs'' @
        [CHR 0xC3, CHR 0xB6] @ ''k igen.''),
     (''err.noDeviceCredential'',
        ''Inget enhetsl'' @ [CHR 0xC3, CHR 0xA5] @ ''s '' @ [CHR 0xC3, CHR 0xA4] @ ''r inst'' @ [CHR 0xC3, CHR 0xA4] @
        ''llt. St'' @ [CHR 0xC3, CHR 0xA4] @ ''ll f'' @ [CHR 0xC3, CHR 0xB6] @ ''rst in ett sk'' @ [CHR 0xC3, CHR 0xA4] @
        ''rml'' @ [CHR 0xC3, CHR 0xA5] @ ''s (PIN, m'' @ [CHR 0xC3, CHR 0xB6] @
        ''nster eller fingeravtryck) i enhetens inst'' @ [CHR 0xC3, CHR 0xA4] @ ''llningar.''),
     (''err.pinRequired'', ''En reserv-PIN kr'' @ [CHR 0xC3, CHR 0xA4] @ ''vs. Ange en PIN-kod.''),
     (''err.resetNoAccount'', ''Inget konto hittades p'' @ [CHR 0xC3, CHR 0xA5] @ '' den h'' @ [CHR 0xC3, CHR 0xA4] @
        ''r enheten att verifiera ditt l'' @ [CHR 0xC3, CHR 0xB6] @ ''senord mot.''),
     (''lock.unlockDevice'', ''L'' @ [CHR 0xC3, CHR 0xA5] @ ''s upp med enheten''),
     (''lock.unlockHello'', ''L'' @ [CHR 0xC3, CHR 0xA5] @ ''s upp med Windows Hello''),
     (''lock.orEnterPin'', [CHR 0xE2, CHR 0x80, CHR 0x94] @ '' eller ange din PIN '' @ [CHR 0xE2, CHR 0x80, CHR 0x94]),
     (''lock.forgotPin'', ''Gl'' @ [CHR 0xC3, CHR 0xB6] @ ''mt PIN?''),
     (''lock.resetTitle'',
        [CHR 0xC3, CHR 0x85] @ ''terst'' @ [CHR 0xC3, CHR 0xA4] @ ''ll l'' @ [CHR 0xC3, CHR 0xA5] @ ''s''),
     (''lock.resetPrompt'',
        ''Ange ditt kontol'' @ [CHR 0xC3, CHR 0xB6] @ ''senord f'' @ [CHR 0xC3, CHR 0xB6] @ ''r att '' @
        [CHR 0xC3, CHR 0xA5] @ ''terst'' @ [CHR 0xC3, CHR 0xA4] @ ''lla appl'' @ [CHR 0xC3, CHR 0xA5] @ ''set.''),
     (''settings.enableLock'', ''Aktivera appl'' @ [CHR 0xC3, CHR 0xA5] @ ''s''),
     (''settings.disableLock'', ''Inaktivera appl'' @ [CHR 0xC3, CHR 0xA5] @ ''s''),
     (''settings.lockUsesDevice'',
        ''Uppl'' @ [CHR 0xC3, CHR 0xA5] @ ''sning anv'' @ [CHR 0xC3, CHR 0xA4] @ ''nder enhetens sk'' @
        [CHR 0xC3, CHR 0xA4] @ ''rml'' @ [CHR 0xC3, CHR 0xA5] @ ''s (fingeravtryck, ansikte eller PIN).''),
     (''settings.lockUsesHello'', ''Uppl'' @ [CHR 0xC3, CHR 0xA5] @ ''sning anv'' @ [CHR 0xC3, CHR 0xA4] @
        ''nder Windows Hello, med din app-PIN som reserv.''),
     (''settings.lockUsesPin'',
        ''Uppl'' @ [CHR 0xC3, CHR 0xA5] @ ''sning anv'' @ [CHR 0xC3, CHR 0xA4] @ ''nder din app-PIN.''),
     (''err.nameReserved'',
        ''Det h'' @ [CHR 0xC3, CHR 0xA4] @ ''r anv'' @ [CHR 0xC3, CHR 0xA4] @ ''ndarnamnet '' @ [CHR 0xC3, CHR 0xA4] @
        ''r redan registrerat till en annan identitet. V'' @ [CHR 0xC3, CHR 0xA4] @ ''lj ett annat namn.''),
     (''err.badPassword'',
        ''Fel l'' @ [CHR 0xC3, CHR 0xB6] @ ''senord f'' @ [CHR 0xC3, CHR 0xB6] @ ''r det h'' @ [CHR 0xC3, CHR 0xA4] @
        ''r anv'' @ [CHR 0xC3, CHR 0xA4] @ ''ndarnamnet.''),
     (''lock.title'', ''L'' @ [CHR 0xC3, CHR 0xA5] @ ''st''),
     (''lock.enterPin'', ''Ange PIN''),
     (''lock.wrongPin'', ''Fel PIN, f'' @ [CHR 0xC3, CHR 0xB6] @ ''rs'' @ [CHR 0xC3, CHR 0xB6] @ ''k igen''),
     (''lock.unlock'', ''L'' @ [CHR 0xC3, CHR 0xA5] @ ''s upp''),
     (''lock.useFingerprint'', ''Anv'' @ [CHR 0xC3, CHR 0xA4] @ ''nd fingeravtryck''),
     (''lock.biometricTitle'', ''L'' @ [CHR 0xC3, CHR 0xA5] @ ''s upp Krypterad chatt''),
     (''lock.biometricSubtitle'',
        ''Bekr'' @ [CHR 0xC3, CHR 0xA4] @ ''fta din identitet f'' @ [CHR 0xC3, CHR 0xB6] @ ''r att forts'' @
        [CHR 0xC3, CHR 0xA4] @ ''tta''),
     (''settings.appLock'', ''Appl'' @ [CHR 0xC3, CHR 0xA5] @ ''s (PIN)''),
     (''settings.setPin'', ''St'' @ [CHR 0xC3, CHR 0xA4] @ ''ll in / '' @ [CHR 0xC3, CHR 0xA4] @ ''ndra PIN''),
     (''settings.removePin'', ''Ta bort PIN''),
     (''settings.pinOn'',
        ''PIN-l'' @ [CHR 0xC3, CHR 0xA5] @ ''s '' @ [CHR 0xC3, CHR 0xA4] @ ''r p'' @ [CHR 0xC3, CHR 0xA5]),
     (''settings.pinOff'', ''PIN-l'' @ [CHR 0xC3, CHR 0xA5] @ ''s '' @ [CHR 0xC3, CHR 0xA4] @ ''r av''),
     (''settings.newPin'', ''Ny PIN''),
     (''settings.confirmPin'', ''Bekr'' @ [CHR 0xC3, CHR 0xA4] @ ''fta PIN''),
     (''settings.currentPin'', ''Nuvarande PIN''),
     (''settings.wrongCurrentPin'', ''Nuvarande PIN '' @ [CHR 0xC3, CHR 0xA4] @ ''r felaktig''),
     (''settings.pinMismatch'', ''PIN-koderna matchar inte''),
     (''settings.lockNow'', ''L'' @ [CHR 0xC3, CHR 0xA5] @ ''s nu''),
     (''common.cancel'', ''Avbryt''),
     (''common.save'', ''Spara''),
     (''logout.title'', ''Logga ut?''),
     (''logout.body'', ''Du kommer tillbaka till inloggningssk'' @ [CHR 0xC3, CHR 0xA4] @
        ''rmen. Din identitet och meddelandehistorik stannar p'' @ [CHR 0xC3, CHR 0xA5] @ '' den h'' @
        [CHR 0xC3, CHR 0xA4] @ ''r enheten, s'' @ [CHR 0xC3, CHR 0xA5] @ '' att logga in igen som '' @ [CHR 0x22] @
        ''%1'' @ [CHR 0x22] @ '' '' @ [CHR 0xC3, CHR 0xA5] @ ''terst'' @ [CHR 0xC3, CHR 0xA4] @ ''ller allt.''),
     (''switch.title'', ''Byt anv'' @ [CHR 0xC3, CHR 0xA4] @ ''ndare?''),
     (''switch.body'',
        ''Detta '' @ [CHR 0xC3, CHR 0xA5] @ ''terg'' @ [CHR 0xC3, CHR 0xA5] @ ''r till inloggningssk'' @
        [CHR 0xC3, CHR 0xA4] @ ''rmen s'' @ [CHR 0xC3, CHR 0xA5] @ '' att n'' @ [CHR 0xC3, CHR 0xA5] @
        ''gon annan kan logga in med sitt eget namn. '' @ [CHR 0x22] @ ''%1'' @ [CHR 0x22] @
        '':s identitet och meddelanden stannar p'' @ [CHR 0xC3, CHR 0xA5] @ '' den h'' @ [CHR 0xC3, CHR 0xA4] @
        ''r enheten, s'' @ [CHR 0xC3, CHR 0xA5] @ '' du kan byta tillbaka senare.''),
     (''safety.titlePeer'', ''S'' @ [CHR 0xC3, CHR 0xA4] @ ''kerhetsnummer med %1''),
     (''safety.titleSelf'', ''Ditt s'' @ [CHR 0xC3, CHR 0xA4] @ ''kerhetsnummer''),
     (''safety.comparePeer'', ''J'' @ [CHR 0xC3, CHR 0xA4] @ ''mf'' @ [CHR 0xC3, CHR 0xB6] @
        ''r dessa nummer med %1 via ett samtal eller personligen.'' @ [CHR 0x0A] @ ''Om de matchar p'' @
        [CHR 0xC3, CHR 0xA5] @ '' b'' @ [CHR 0xC3, CHR 0xA5] @ ''da enheterna avlyssnar ingen dina nycklar.''),
     (''safety.selectHint'',
        ''V'' @ [CHR 0xC3, CHR 0xA4] @ ''lj en kontakt f'' @ [CHR 0xC3, CHR 0xB6] @ ''r att se s'' @
        [CHR 0xC3, CHR 0xA4] @ ''kerhetsnumret ni delar.''),
     (''safety.bannerTitle'',
        [CHR 0xE2, CHR 0x9A, CHR 0xA0, CHR 0xEF, CHR 0xB8, CHR 0x8F] @ '' %1 kan vara en annan person eller enhet''),
     (''safety.bannerBody'',
        ''%1:s s'' @ [CHR 0xC3, CHR 0xA4] @ ''kerhetsnummer '' @ [CHR 0xC3, CHR 0xA4] @ ''ndrades. Detta h'' @
        [CHR 0xC3, CHR 0xA4] @ ''nder n'' @ [CHR 0xC3, CHR 0xA4] @ ''r n'' @ [CHR 0xC3, CHR 0xA5] @
        ''gon installerar om, byter enhet eller n'' @ [CHR 0xC3, CHR 0xA4] @ ''r en annan person tar '' @
        [CHR 0xC3, CHR 0xB6] @ ''ver namnet -- men det kan ocks'' @ [CHR 0xC3, CHR 0xA5] @ '' betyda att n'' @
        [CHR 0xC3, CHR 0xA5] @ ''gon avlyssnar dina meddelanden. J'' @ [CHR 0xC3, CHR 0xA4] @ ''mf'' @
        [CHR 0xC3, CHR 0xB6] @ ''r det nya s'' @ [CHR 0xC3, CHR 0xA4] @
        ''kerhetsnumret med %1 via ett samtal eller personligen och bekr'' @ [CHR 0xC3, CHR 0xA4] @ ''fta sedan f'' @
        [CHR 0xC3, CHR 0xB6] @ ''r att forts'' @ [CHR 0xC3, CHR 0xA4] @ ''tta. Du kan inte skicka meddelanden f'' @
        [CHR 0xC3, CHR 0xB6] @ ''rr'' @ [CHR 0xC3, CHR 0xA4] @ ''n du g'' @ [CHR 0xC3, CHR 0xB6] @ ''r det.''),
     (''safety.view'', ''Visa s'' @ [CHR 0xC3, CHR 0xA4] @ ''kerhetsnummer''),
     (''safety.confirm'',
        ''Jag har verifierat '' @ [CHR 0xE2, CHR 0x80, CHR 0x94] @ '' bekr'' @ [CHR 0xC3, CHR 0xA4] @ ''fta och byt''),
     (''export.title'', ''Exportera konversation med %1''),
     (''export.pdf'', ''PDF-dokument (*.pdf)''),
     (''export.txt'', ''Textfil (*.txt)''),
     (''export.done'', ''Konversationen med %1 sparades till %2''),
     (''export.saved'', ''Konversationen med %1 sparad.''),
     (''export.empty'', ''Det finns inga meddelanden med %1 att exportera '' @ [CHR 0xC3, CHR 0xA4] @ ''nnu.''),
     (''export.failed'', ''Kunde inte spara exporten: %1''),
     (''export.headerTitle'', ''Konversation med %1''),
     (''export.headerExported'', ''Exporterad %1''),
     (''export.headerParticipants'', ''Deltagare: %1 och %2''),
     (''export.sentFile'', ''skickade en fil: %1 (%2)''),
     (''export.systemLabel'', ''(system)''),
     (''notif.newMessageTitle'', ''Nytt meddelande fr'' @ [CHR 0xC3, CHR 0xA5] @ ''n %1''),
     (''notif.newFileTitle'', ''Ny fil fr'' @ [CHR 0xC3, CHR 0xA5] @ ''n %1''),
     (''notif.newFileBody'', ''%1 (%2)''),
     (''notif.channelName'', ''Meddelanden''),
     (''notif.serviceRunning'', ''Krypterad chatt k'' @ [CHR 0xC3, CHR 0xB6] @ ''rs''),
     (''notif.serviceBody'', ''Ansluten '' @ [CHR 0xE2, CHR 0x80, CHR 0x94] @ '' du meddelas om nya meddelanden.''),
     (''shortcut.unsupported'',
        ''En genv'' @ [CHR 0xC3, CHR 0xA4] @ ''g p'' @ [CHR 0xC3, CHR 0xA5] @ '' startsk'' @ [CHR 0xC3, CHR 0xA4] @
        ''rmen kunde inte skapas p'' @ [CHR 0xC3, CHR 0xA5] @ '' den h'' @ [CHR 0xC3, CHR 0xA4] @ ''r enheten.''),
     (''sys.cannotDecrypt'',
        [CHR 0xF0, CHR 0x9F, CHR 0x94, CHR 0x92] @ '' Ett tidigare meddelande kan inte l'' @ [CHR 0xC3, CHR 0xA4] @
        ''ngre dekrypteras (det lagrades med en tidigare identitetsnyckel).''),
     (''sys.historyOpenFailed'',
        ''Historiken kunde inte '' @ [CHR 0xC3, CHR 0xB6] @ ''ppnas; meddelanden sparas inte den h'' @
        [CHR 0xC3, CHR 0xA4] @ ''r sessionen.''),
     (''sys.noStorage'', ''Ingen skrivbar lagringsplats hittades; meddelandehistoriken '' @ [CHR 0xC3, CHR 0xA4] @
        ''r inaktiverad den h'' @ [CHR 0xC3, CHR 0xA4] @ ''r sessionen.''),
     (''err.historyOpenFailed'',
        ''Den lokala historiken kunde inte '' @ [CHR 0xC3, CHR 0xB6] @ ''ppnas; dina meddelanden lagras inte p'' @
        [CHR 0xC3, CHR 0xA5] @ '' den h'' @ [CHR 0xC3, CHR 0xA4] @ ''r enheten.''),
     (''sys.fileFailed'',
        ''Fil'' @ [CHR 0xC3, CHR 0xB6] @ ''verf'' @ [CHR 0xC3, CHR 0xB6] @ ''ringen misslyckades: %1''),
     (''sys.reason.startDecrypt'', ''kunde inte starta dekryptering''),
     (''sys.reason.openTemp'', ''kunde inte '' @ [CHR 0xC3, CHR 0xB6] @ ''ppna tempfil'')]"

section \<open>The active language\<close>

datatype Language = English | Finnish | Swedish

primrec langCode :: "Language \<Rightarrow> int" where
  "langCode English = 0"
| "langCode Finnish = 1"
| "langCode Swedish = 2"

text \<open>The language in force and the one in the settings.\<close>

record Localization =
  m_lang :: Language
  lo_setting :: "int option"

definition newLocalization :: "int option \<Rightarrow> Localization" where
  "newLocalization setting =
     (let stored = (case setting of None \<Rightarrow> langCode English | Some v \<Rightarrow> v)
      in \<lparr>m_lang = (if stored \<ge> langCode English \<and> stored \<le> langCode Swedish
                  then (if stored = 0 then English else if stored = 1 then Finnish else Swedish) else English),
          lo_setting = setting\<rparr>)"

definition setLanguage :: "Localization \<Rightarrow> Language \<Rightarrow> Localization" where
  "setLanguage l lang = (if lang = m_lang l then l else l\<lparr>m_lang := lang, lo_setting := Some (langCode lang)\<rparr>)"

primrec nameOf :: "Language \<Rightarrow> qstring" where
  "nameOf English = ''English''"
| "nameOf Finnish = ''Suomi''"
| "nameOf Swedish = ''Svenska''"

primrec mapFor :: "Language \<Rightarrow> (qstring \<times> qstring) list" where
  "mapFor Finnish = m_fi"
| "mapFor Swedish = m_sv"
| "mapFor English = m_en"

definition tIn :: "Language \<Rightarrow> qstring \<Rightarrow> qstring" where
  "tIn lang key =
     (case map_of (mapFor lang) key of
        Some v \<Rightarrow> v
      | None \<Rightarrow> (case map_of m_en key of Some v \<Rightarrow> v | None \<Rightarrow> key))"

definition t :: "Localization \<Rightarrow> qstring \<Rightarrow> qstring" where
  "t l key = tIn (m_lang l) key"

definition languageName :: "Localization \<Rightarrow> qstring" where
  "languageName l = nameOf (m_lang l)"

section \<open>The dictionaries agree\<close>

text \<open>The placeholders of a text, in the order in which they occur.\<close>

fun holes :: "qstring \<Rightarrow> char list" where
  "holes (x # y # s) = (if x = CHR ''%'' then y # holes s else holes (y # s))"
| "holes s = []"

text \<open>One entry translates another.\<close>

definition translates :: "qstring \<times> qstring \<Rightarrow> qstring \<times> qstring \<Rightarrow> bool" where
  "translates a b \<longleftrightarrow> fst a = fst b \<and> snd a \<noteq> [] \<and> snd b \<noteq> [] \<and> mset (holes (snd a)) = mset (holes (snd b))"

lemma list_all2_halves: "list_all2 P (take n xs) (take n ys) \<Longrightarrow> list_all2 P (drop n xs) (drop n ys) \<Longrightarrow> list_all2 P xs ys"
  by (metis append_take_drop_id list_all2_appendI)

lemma finnish_first: "list_all2 translates (take 90 m_fi) (take 90 m_en)" by code_simp
lemma finnish_second: "list_all2 translates (drop 90 m_fi) (drop 90 m_en)" by code_simp
lemma swedish_first: "list_all2 translates (take 90 m_sv) (take 90 m_en)" by code_simp
lemma swedish_second: "list_all2 translates (drop 90 m_sv) (drop 90 m_en)" by code_simp

lemma english_agrees: "list_all2 translates m_en m_en"
proof -
  have "list_all (\<lambda>e. snd e \<noteq> []) m_en" unfolding m_en_def by simp
  then show ?thesis by (simp add: translates_def list_all2_same list_all_iff)
qed

lemma translated_lookup:
  "list_all2 translates xs ys \<Longrightarrow>
   rel_option (\<lambda>v e. v \<noteq> [] \<and> e \<noteq> [] \<and> mset (holes v) = mset (holes e)) (map_of xs key) (map_of ys key)"
proof (induction xs ys rule: list_all2_induct)
  case (Cons x xs y ys)
  then show ?case by (cases x; cases y) (auto simp: translates_def)
qed simp

lemma mapFor_translates: "list_all2 translates (mapFor lang) m_en"
  using list_all2_halves [OF finnish_first finnish_second] list_all2_halves [OF swedish_first swedish_second] english_agrees
  by (cases lang) simp_all

lemma tIn_known:
  assumes "map_of m_en key = Some e"
  obtains v where "map_of (mapFor lang) key = Some v" "tIn lang key = v" "v \<noteq> []" "mset (holes v) = mset (holes e)"
  using translated_lookup [OF mapFor_translates [of lang], of key] assms
  by (cases "map_of (mapFor lang) key") (auto simp: tIn_def)

lemma tIn_unknown: "map_of m_en key = None \<Longrightarrow> tIn lang key = key"
  using translated_lookup [OF mapFor_translates [of lang], of key] by (cases "map_of (mapFor lang) key") (simp_all add: tIn_def)

text \<open>C35 (type). The dictionaries fit together: a text known in English is known in every language, is never blank,
  and has the placeholders of the English text, so that a call that fills in one fills in all. A key no
  dictionary knows comes back as it is, in any language.\<close>

theorem translations_well_formed:
  "case map_of m_en key of
     Some e \<Rightarrow> map_of (mapFor lang) key = Some (tIn lang key) \<and> tIn lang key \<noteq> [] \<and> mset (holes (tIn lang key)) = mset (holes e)
   | None \<Rightarrow> tIn lang key = key"
proof (cases "map_of m_en key")
  case None
  then show ?thesis by (simp add: tIn_unknown)
next
  case (Some e)
  from tIn_known [OF this, of lang] obtain v where
    "map_of (mapFor lang) key = Some v" "tIn lang key = v" "v \<noteq> []" "mset (holes v) = mset (holes e)" .
  with Some show ?thesis by simp
qed

section \<open>The choice of a language\<close>

text \<open>A chosen language is in force at once and again after a restart; a setting that names no language
  is read as English.\<close>

theorem language_survives_restart:
  assumes "m_lang l = m_lang (newLocalization (lo_setting l))"
  shows "m_lang (setLanguage l lang) = lang \<and> m_lang (newLocalization (lo_setting (setLanguage l lang))) = lang \<and>
    (\<forall>v. v \<notin> {0, 1, 2} \<longrightarrow> m_lang (newLocalization (Some v)) = English)"
  using assms by (cases lang) (auto simp: setLanguage_def newLocalization_def)

theorem language_survives_restart_witness:
  "m_lang (newLocalization (lo_setting (setLanguage (newLocalization None) Swedish))) = Swedish"
  using language_survives_restart [of "newLocalization None" Swedish] by (simp add: newLocalization_def)

end
