(* ===== verification/Spec2Isabelle.thy ===== *)
theory Spec2Isabelle
  imports Runs Startup Localization
begin

text \<open>
  A verification of the client of ChatE2EE, an end-to-end encrypted chat (\<^verbatim>\<open>client/src\<close>, C++ with Qt and
  libsodium). Two clients talk through a relay that they do not trust with content.

  \<^bold>\<open>The program.\<close> \<^verbatim>\<open>ChatClient\<close> is the controller behind the user interface. It owns one \<^verbatim>\<open>CryptoBox\<close> (the own
  identity, prekeys and one Double Ratchet session per peer), one \<^verbatim>\<open>HistoryStore\<close> (the local database), the
  list models shown on screen, and the transfers of files (\<^verbatim>\<open>FileCrypto\<close>). Slots of the socket, timers and calls
  of the user interface are its operations; each runs to its end before the next. It writes frames to the
  socket and rows to the database, and calls the platform for locks, toasts and secrets at rest.

  \<^bold>\<open>How it is modelled.\<close> Each class is a record with the fields of the source; each operation is a function from
  the state and its arguments to the new state, the guards and early returns in the order of the source. An
  operation that can fail returns an option or a value of a datatype with one constructor per outcome.
  Counters of the ratchet are 32-bit words, since they wrap; bytes are 8-bit words. Frames the client hands to the socket
  are values of a datatype, and those sent so far are part of the state (\<open>c_sent\<close>). The clock is the argument
  \<open>now\<close>. Texts are lists of characters; a text outside Latin-1 is written by its UTF-8 bytes.

  \<^bold>\<open>Parameters.\<close> The record \<open>external\<close> (theory \<open>External\<close>) holds the functions of libsodium and of Qt that
  the cryptographic classes call; the record \<open>world\<close> (theory \<open>Client\<close>) adds random bytes, fresh identifiers,
  file names, dates, certificates and the services of Windows. What the code relies on is a named hypothesis:
  \<open>hmac_law\<close>, \<open>dh_law\<close>, \<open>aead_law\<close>, \<open>identity_law\<close>, \<open>sign_law\<close>, \<open>secretbox_law\<close>, \<open>pwhash_law\<close>, \<open>sha256_law\<close>,
  \<open>stream_law\<close>, \<open>hex_law\<close>, \<open>text_law\<close>, \<open>hash_order_law\<close>, \<open>values_law\<close>, \<open>order_law\<close>, \<open>draw_law\<close>, \<open>dpapi_law\<close>. They state
  correctness of the primitives (what was encrypted decrypts, Diffie-Hellman commutes), not secrecy. Each is
  satisfied by the concrete instances \<open>demo\<close>, \<open>demoNet\<close> and their variants, on which the witnesses are evaluated.

  \<^bold>\<open>Theories.\<close>

  \<^item> \<open>Prelude\<close>: byte strings, big-endian numbers, the stores behind \<^verbatim>\<open>QMap\<close> and \<^verbatim>\<open>QHash\<close>; the locales \<open>byte_codec\<close>
    (a reader that consumes what a writer wrote), \<open>codec_pair\<close> (two codecs make one, by a \<open>sublocale\<close>) and \<open>kv_store\<close>
    (lookup after insertion and erasure), interpreted on every field format of the persisted blobs and on both
    stores.
  \<^item> \<open>Hex\<close>, \<open>X3DH\<close> (\<^verbatim>\<open>x3dh.cpp\<close>): the hex codec and the key agreement. Initiator and responder derive the same secret.
  \<^item> \<open>Ratchet\<close>, \<open>Session\<close>, \<open>Conversation\<close> (\<^verbatim>\<open>cryptobox.cpp\<close>): key derivation, the store of skipped keys, the ratchet
    step, \<open>encryptStep\<close> and \<open>decryptStep\<close>. Every message that arrives in a conversation of any number of turns
    decrypts to what was sent, in whatever order the messages of a turn arrive.
  \<^item> \<open>Identity\<close>, \<open>Prekeys\<close>, \<open>Box\<close> (\<^verbatim>\<open>cryptobox.cpp\<close>): the identity file and its password wrapping, the prekeys with
    their persisted form, sessions opened and accepted by X3DH, the session table and its blobs. The invariant of
    reachable boxes bounds the skipped keys; a frame that does not decrypt changes no session. The locale
    \<open>key_order\<close> carries the proof that exactly one side of a first contact initiates.
  \<^item> \<open>FileCrypto\<close> (\<^verbatim>\<open>filecrypto.cpp\<close>): chunked files; whatever is encrypted chunk by chunk decrypts to itself.
  \<^item> \<open>HistoryStore\<close> (\<^verbatim>\<open>historystore.cpp\<close>): the tables of the database and each statement on them.
  \<^item> \<open>ListModel\<close>, \<open>LogBuffer\<close>, \<open>UserModel\<close>, \<open>MessageModel\<close>: the locale \<open>list_model\<close> states that a view which follows the
    signals of a model shows what the model holds; it is interpreted on the three list models. The log is a
    refinement of the history of records, a tombstone is final, users are kept in order.
  \<^item> \<open>Client\<close>, \<open>Heartbeat\<close>, \<open>Outbox\<close> (\<^verbatim>\<open>chatclient.cpp\<close>): the state of the controller, the sessions that survive
    a restart, the conversation on screen; the pings that force a fresh ratchet step; sending and the outbox.
    The locales \<open>change_relation\<close>, \<open>client_change\<close> and \<open>drain_change\<close> prove once which operations respect a relation
    between the states before and after; each safety property is one interpretation of them.
  \<^item> \<open>Verification\<close>, \<open>Receive\<close>, \<open>Directory\<close> (\<^verbatim>\<open>chatclient.cpp\<close>): the gate that a changed key closes until both users have
    confirmed, receiving (the locales \<open>open_change\<close>, \<open>handshake_change\<close>, \<open>receive_change\<close> and \<open>transfer_change\<close> extend the
    ones of sending), and the directory of keys and bundles. These theories compose two clients: a message, a first message with its opener, and a
    file sent by one are shown and stored by the other.
  \<^item> \<open>Transport\<close>, \<open>Account\<close>, \<open>Connection\<close> (\<^verbatim>\<open>chatclient.cpp\<close>): TLS settings and trust anchors, login and
    registration, the password handshake, reconnecting, logout, the dispatch of server frames.
  \<^item> \<open>AppLock\<close> (\<^verbatim>\<open>applock.cpp\<close>), \<open>Lock\<close> (\<^verbatim>\<open>chatclient.cpp\<close>): Windows Hello and the vault; the PIN, password recovery
    with its bounded number of guesses, themes.
  \<^item> \<open>Runs\<close>: whole runs of the controller, with one step per entry point that changes its state, and the invariant of
    the gate over all of them. Frames arrive on an open connection, logins start from the login page.
  \<^item> \<open>Export\<close> (\<^verbatim>\<open>chatclient.cpp\<close>), \<open>Localization\<close> (\<^verbatim>\<open>localization.cpp\<close>), \<open>Startup\<close> (\<^verbatim>\<open>main.cpp\<close>,
    \<^verbatim>\<open>desktopnotifier.cpp\<close>): saving and exporting, the three dictionaries, early log records and toasts.

  \<^bold>\<open>What is shown.\<close> The claims are numbered in the order of their importance. C1 to C5 and C10 are delivery, from one ratchet
  session up to two clients; C6 to C9 and C25 are the gate; C11 to C14, C22 and C33 are what restarts, reconnects and replays
  keep; C15, C17, C21, C23 and C24 are the ratchet and prekey stores; C16 is the heartbeat; C18 to C20 and C30 are key agreement, the
  binding of bundles to the directory, and trust in a connection; C26 to C29 are the lock; C31, C32 and C34 to C36
  are files, log, conversation list, translations and export; C37 to C40 are behaviours the comments of the source
  do not intend: prekeys that lose their grace period or pass to another account, a key that changes without a
  warning, a migrated account that cannot log in.

  \<^bold>\<open>Bounds and termination.\<close> All functions are total. Bounds are those of the source: 1000 skipped keys per step and
  2000 per session, 5000 lines in the log and 2000 before it exists, chunks of 64 KiB and files of 50 MiB, polls of a
  prompt for two minutes. The loops that are not structural end by a measure: the expansion of HKDF, the loop
  over skipped keys (the distance of two words), the chunks of a file, the polls of a prompt.

  \<^bold>\<open>Not modelled.\<close>

  \<^item> The Android code (\<^verbatim>\<open>androidnotifier.cpp\<close>, the Android branches of \<^verbatim>\<open>applock.cpp\<close>): calls into Java. The
    notifications it posts change no state of the client.
  \<^item> The QML files and the set-up of the engine in \<^verbatim>\<open>main.cpp\<close>; signals, icons and windows; role names of the models.
  \<^item> The SQLite engine, its errors on an open database, libsodium, Qt and the TLS backend: parameters, or assumed to work.
  \<^item> JSON: a frame is the value its fields denote. Frames of type \<^verbatim>\<open>server_log\<close> and \<^verbatim>\<open>error\<close> only log or show a line.
  \<^item> The relay (\<^verbatim>\<open>server/server.py\<close>, Python): the theorems on two clients quantify over or fix what it delivers.
  \<^item> Concurrency: operations run on one thread; only the log takes records from other threads, through its event
    queue, which is modelled.
  \<^item> Overwriting secrets in memory, and the secrecy of the protocols against an adversary.
\<close>

end
